(* ===== verification/Prelude.thy ===== *)
theory Prelude
  imports Main "HOL-Library.Char_ord" "HOL-Library.List_Lexorder" "HOL-Library.Option_ord"
    "HOL-Library.Multiset" "HOL-Library.Sublist" "HOL-Library.While_Combinator"
    "HOL-Library.Code_Target_Nat"
begin

text \<open>
  What the component theories share: the Rust standard-library operations the program uses
  (three-way comparison, the stable slice sort, saturating integers, string slicing and trimming,
  keep-first deduplication through a \<open>HashSet\<close>), the laws of each, and the collections of facts
  the component proofs run on.  A Rust \<open>str\<close> is the list of its UTF-8 bytes, a \<^typ>\<open>string\<close>.
\<close>

named_theorems sat_simps \<open>saturating arithmetic, unfolded\<close>
named_theorems str_simps \<open>string helpers, unfolded\<close>
named_theorems key_simps \<open>facts about keys kept by deduplication\<close>

subsection \<open>Machine integers\<close>

text \<open>
  \<open>usize\<close>, \<open>u64\<close>, \<open>u32\<close> and \<open>u16\<close> are naturals with their largest value written
  out where the code saturates or checks (64-bit targets).
\<close>

definition usize_max :: nat where "usize_max = 18446744073709551615"
definition u64_max :: nat where "u64_max = 18446744073709551615"
definition u32_max :: nat where "u32_max = 4294967295"
definition u16_max :: nat where "u16_max = 65535"
definition u128_max :: nat where "u128_max = 340282366920938463463374607431768211455"

definition sat_add :: "nat \<Rightarrow> nat \<Rightarrow> nat \<Rightarrow> nat" where
  [sat_simps]: "sat_add m a b = min m (a + b)"

definition sat_mul :: "nat \<Rightarrow> nat \<Rightarrow> nat \<Rightarrow> nat" where
  [sat_simps]: "sat_mul m a b = min m (a * b)"

definition clamp :: "nat \<Rightarrow> nat \<Rightarrow> nat \<Rightarrow> nat" where
  [sat_simps]: "clamp lo hi x = (if x < lo then lo else if hi < x then hi else x)"

lemma sat_add_le [simp]: "sat_add m a b \<le> m"
  by (simp add: sat_add_def)

lemma sat_add_mono: "a \<le> m \<Longrightarrow> a \<le> sat_add m a b"
  by (simp add: sat_add_def)

lemma clamp_bounds: "lo \<le> hi \<Longrightarrow> lo \<le> clamp lo hi x \<and> clamp lo hi x \<le> hi"
  by (simp add: clamp_def)

subsection \<open>Three-way comparison\<close>

datatype ordering = Less | Equal | Greater

fun reverse_ord :: "ordering \<Rightarrow> ordering" where
  "reverse_ord Less = Greater"
| "reverse_ord Equal = Equal"
| "reverse_ord Greater = Less"

definition cmp :: "'a::linorder \<Rightarrow> 'a \<Rightarrow> ordering" where
  "cmp x y = (if x < y then Less else if x = y then Equal else Greater)"

fun then_with :: "ordering \<Rightarrow> ordering \<Rightarrow> ordering" where
  "then_with Equal o2 = o2"
| "then_with o1 o2 = o1"

lemma cmp_iffs [simp]:
  "cmp x y = Less \<longleftrightarrow> x < y"
  "cmp x y = Equal \<longleftrightarrow> x = y"
  "cmp x y = Greater \<longleftrightarrow> y < x"
  by (auto simp: cmp_def)

lemma reverse_ord_iffs [simp]:
  "reverse_ord r = Less \<longleftrightarrow> r = Greater"
  "reverse_ord r = Equal \<longleftrightarrow> r = Equal"
  "reverse_ord r = Greater \<longleftrightarrow> r = Less"
  by (cases r; simp)+

lemma then_with_iffs:
  "then_with a b = Less \<longleftrightarrow> a = Less \<or> a = Equal \<and> b = Less"
  "then_with a b = Equal \<longleftrightarrow> a = Equal \<and> b = Equal"
  "then_with a b = Greater \<longleftrightarrow> a = Greater \<or> a = Equal \<and> b = Greater"
  by (cases a; simp)+

text \<open>
  An \<open>f64\<close> is only ever compared: a value that is not NaN is represented by its position in
  the order of such values.  \<open>partial_cmp\<close> of \<open>Option<f64>\<close> puts \<open>None\<close> first and
  has no answer when a NaN is compared.
\<close>

datatype f64 = NaN | Num int

fun partial_cmp_f64 :: "f64 \<Rightarrow> f64 \<Rightarrow> ordering option" where
  "partial_cmp_f64 (Num a) (Num b) = Some (cmp a b)"
| "partial_cmp_f64 _ _ = None"

fun partial_cmp_opt :: "f64 option \<Rightarrow> f64 option \<Rightarrow> ordering option" where
  "partial_cmp_opt None None = Some Equal"
| "partial_cmp_opt None (Some _) = Some Less"
| "partial_cmp_opt (Some _) None = Some Greater"
| "partial_cmp_opt (Some a) (Some b) = partial_cmp_f64 a b"

definition unwrap_or :: "'a option \<Rightarrow> 'a \<Rightarrow> 'a" where
  "unwrap_or x d = (case x of Some v \<Rightarrow> v | None \<Rightarrow> d)"

lemma unwrap_or_simps [simp]: "unwrap_or (Some v) d = v" "unwrap_or None d = d"
  by (simp_all add: unwrap_or_def)

subsection \<open>The stable sort of slices\<close>

fun insert_by :: "('a \<Rightarrow> 'a \<Rightarrow> ordering) \<Rightarrow> 'a \<Rightarrow> 'a list \<Rightarrow> 'a list" where
  "insert_by c x [] = [x]"
| "insert_by c x (y # ys) = (if c x y = Greater then y # insert_by c x ys else x # y # ys)"

fun sort_by :: "('a \<Rightarrow> 'a \<Rightarrow> ordering) \<Rightarrow> 'a list \<Rightarrow> 'a list" where
  "sort_by c [] = []"
| "sort_by c (x # xs) = insert_by c x (sort_by c xs)"

lemma mset_insert_by [simp]: "mset (insert_by c x xs) = add_mset x (mset xs)"
  by (induction xs) auto

lemma mset_sort_by [simp]: "mset (sort_by c xs) = mset xs"
  by (induction xs) auto

lemma set_sort_by [simp]: "set (sort_by c xs) = set xs"
  by (metis mset_sort_by set_mset_mset)

lemma length_sort_by [simp]: "length (sort_by c xs) = length xs"
  by (metis mset_sort_by size_mset)

lemma set_insert_by [simp]: "set (insert_by c x xs) = insert x (set xs)"
  by (metis mset_insert_by set_mset_add_mset_insert set_mset_mset)

text \<open>
  The contract \<open>sort_by\<close> asks of its comparison, on the elements where it holds: swapping
  the arguments reverses the answer, and "not greater" is transitive.
\<close>

locale comparator =
  fixes c :: "'a \<Rightarrow> 'a \<Rightarrow> ordering"
    and ok :: "'a \<Rightarrow> bool"
  assumes flip: "ok x \<Longrightarrow> ok y \<Longrightarrow> c y x = reverse_ord (c x y)"
    and trans_le: "ok x \<Longrightarrow> ok y \<Longrightarrow> ok z \<Longrightarrow> c x y \<noteq> Greater \<Longrightarrow> c y z \<noteq> Greater
      \<Longrightarrow> c x z \<noteq> Greater"
begin

lemma refl_eq: "ok x \<Longrightarrow> c x x = Equal"
  using flip[of x x] by (cases "c x x") auto

lemma eq_sym: "ok x \<Longrightarrow> ok y \<Longrightarrow> c x y = Equal \<Longrightarrow> c y x = Equal"
  using flip[of x y] by simp

lemma le_less_trans: "ok x \<Longrightarrow> ok y \<Longrightarrow> ok z \<Longrightarrow> c x y \<noteq> Greater \<Longrightarrow> c y z = Less
    \<Longrightarrow> c x z = Less"
  by (metis flip ordering.distinct(3) reverse_ord.simps(1) reverse_ord_iffs(1) trans_le)

lemma less_le_trans: "ok x \<Longrightarrow> ok y \<Longrightarrow> ok z \<Longrightarrow> c x y = Less \<Longrightarrow> c y z \<noteq> Greater
    \<Longrightarrow> c x z = Less"
  by (metis flip ordering.distinct(3) reverse_ord.simps(1) reverse_ord_iffs(1) trans_le)

lemma eq_trans: "ok x \<Longrightarrow> ok y \<Longrightarrow> ok z \<Longrightarrow> c x y = Equal \<Longrightarrow> c y z = Equal \<Longrightarrow> c x z = Equal"
  by (metis (full_types) eq_sym flip ordering.distinct(5) ordering.exhaust
      reverse_ord.simps(1) trans_le)

lemma sorted_insert_by:
  "ok x \<Longrightarrow> list_all ok xs \<Longrightarrow> sorted_wrt (\<lambda>a b. c a b \<noteq> Greater) xs
    \<Longrightarrow> sorted_wrt (\<lambda>a b. c a b \<noteq> Greater) (insert_by c x xs)"
proof (induction xs)
  case Nil
  then show ?case by simp
next
  case (Cons y ys)
  show ?case
  proof (cases "c x y = Greater")
    case True
    then have "c y x \<noteq> Greater" using flip[of x y] Cons.prems by simp
    with True Cons show ?thesis by auto
  next
    case False
    then have "\<forall>z\<in>set ys. c x z \<noteq> Greater"
      using Cons.prems trans_le[of x y] by (auto simp: list_all_iff)
    with False Cons.prems show ?thesis by auto
  qed
qed

lemma sorted_sort_by:
  "list_all ok xs \<Longrightarrow> sorted_wrt (\<lambda>a b. c a b \<noteq> Greater) (sort_by c xs)"
  by (induction xs) (auto simp: list_all_iff intro: sorted_insert_by)

lemma insert_by_stable:
  "ok k \<Longrightarrow> ok x \<Longrightarrow> list_all ok xs \<Longrightarrow>
    filter (\<lambda>y. c k y = Equal) (insert_by c x xs) =
    (if c k x = Equal then x # filter (\<lambda>y. c k y = Equal) xs else filter (\<lambda>y. c k y = Equal) xs)"
proof (induction xs)
  case Nil
  then show ?case by simp
next
  case (Cons y ys)
  have "c x y = Greater \<Longrightarrow> c k x = Equal \<Longrightarrow> c k y \<noteq> Equal"
    using Cons.prems eq_sym[of k x] eq_trans[of x k y] by auto
  with Cons show ?case by auto
qed

lemma sort_by_stable:
  "ok k \<Longrightarrow> list_all ok xs \<Longrightarrow>
    filter (\<lambda>y. c k y = Equal) (sort_by c xs) = filter (\<lambda>y. c k y = Equal) xs"
  by (induction xs) (auto simp: insert_by_stable list_all_iff)

lemma sort_by_head_min:
  assumes "list_all ok xs" and "sort_by c xs = y # ys" and "z \<in> set xs"
  shows "c y z \<noteq> Greater"
proof -
  have "sorted_wrt (\<lambda>a b. c a b \<noteq> Greater) (y # ys)"
    using sorted_sort_by[OF assms(1)] assms(2) by simp
  moreover have "z \<in> set (y # ys)" "y \<in> set xs"
    using assms(2,3) set_sort_by[of c xs] by auto
  moreover have "c y y = Equal"
    using assms(1) \<open>y \<in> set xs\<close> refl_eq[of y] by (simp add: list_all_iff)
  ultimately show ?thesis by auto
qed

end

text \<open>Comparing by a key, by a key in reverse, and lexicographically by two comparisons.\<close>

lemma cmp_flip: "cmp y x = reverse_ord (cmp x y)"
  by (auto simp: cmp_def)

lemma comparator_key: "comparator (\<lambda>x y. cmp (f x) (f y)) ok"
  by unfold_locales (simp_all add: cmp_flip[symmetric] not_less)

lemma comparator_image:
  "comparator c ok \<Longrightarrow> comparator (\<lambda>x y. c (f x) (f y)) (\<lambda>x. ok (f x))"
  unfolding comparator_def by blast

lemma comparator_key_rev: "comparator (\<lambda>x y. cmp (f y) (f x)) ok"
  by unfold_locales (simp_all add: cmp_flip[symmetric] not_less)

lemma comparator_lex:
  assumes "comparator c1 ok" and "comparator c2 ok"
  shows "comparator (\<lambda>x y. then_with (c1 x y) (c2 x y)) ok"
proof
  fix x y
  assume "ok x" "ok y"
  then have "c1 y x = reverse_ord (c1 x y)" "c2 y x = reverse_ord (c2 x y)"
    using comparator.flip[OF assms(1)] comparator.flip[OF assms(2)] by blast+
  then show "then_with (c1 y x) (c2 y x) = reverse_ord (then_with (c1 x y) (c2 x y))"
    by (cases "c1 x y") auto
next
  fix x y z
  assume o: "ok x" "ok y" "ok z"
    and xy: "then_with (c1 x y) (c2 x y) \<noteq> Greater"
    and yz: "then_with (c1 y z) (c2 y z) \<noteq> Greater"
  have le: "c1 x y \<noteq> Greater" "c1 y z \<noteq> Greater"
    using xy yz by (auto simp: then_with_iffs)
  show "then_with (c1 x z) (c2 x z) \<noteq> Greater"
  proof (cases "c1 x y = Equal \<and> c1 y z = Equal")
    case True
    then have "c2 x y \<noteq> Greater" "c2 y z \<noteq> Greater" using xy yz by auto
    then have "c2 x z \<noteq> Greater" using comparator.trans_le[OF assms(2) o] by simp
    moreover have "c1 x z = Equal" using True comparator.eq_trans[OF assms(1) o] by simp
    ultimately show ?thesis by simp
  next
    case False
    then have "c1 x y = Less \<or> c1 y z = Less" using le by (meson ordering.exhaust)
    then have "c1 x z = Less"
      using comparator.le_less_trans[OF assms(1) o] comparator.less_le_trans[OF assms(1) o] le
      by blast
    then show ?thesis by simp
  qed
qed

lemma comparator_cong:
  assumes "comparator c ok" and "\<And>x y. ok x \<Longrightarrow> ok y \<Longrightarrow> d x y = c x y"
  shows "comparator d ok"
proof
  fix x y
  assume o: "ok x" "ok y"
  show "d y x = reverse_ord (d x y)"
    using comparator.flip[OF assms(1) o] by (simp add: assms(2) o)
next
  fix x y z
  assume o: "ok x" "ok y" "ok z" and "d x y \<noteq> Greater" "d y z \<noteq> Greater"
  then show "d x z \<noteq> Greater"
    using comparator.trans_le[OF assms(1) o] assms(2) by simp
qed

subsection \<open>Keep-first deduplication\<close>

text \<open>
  \<open>retain(|item| seen.insert(key(item)))\<close>: keep the items whose key is new, in order; the set
  of keys seen so far comes in and goes out.
\<close>

fun retain_new :: "('a \<Rightarrow> 'k) \<Rightarrow> 'k set \<Rightarrow> 'a list \<Rightarrow> 'a list \<times> 'k set" where
  "retain_new key seen [] = ([], seen)"
| "retain_new key seen (x # xs) =
     (if key x \<in> seen then retain_new key seen xs
      else case retain_new key (insert (key x) seen) xs of (ys, seen') \<Rightarrow> (x # ys, seen'))"

lemma retain_new_seen [key_simps]:
  "snd (retain_new key seen xs) = seen \<union> key ` set xs"
  by (induction xs arbitrary: seen) (auto split: prod.splits dest: sndI)

lemma retain_new_keys [key_simps]:
  "key ` set (fst (retain_new key seen xs)) = key ` set xs - seen"
proof (induction xs arbitrary: seen)
  case Nil
  then show ?case by simp
next
  case (Cons x xs)
  show ?case
    using Cons.IH[of seen] Cons.IH[of "insert (key x) seen"] by (auto split: prod.splits)
qed

lemma retain_new_distinct [key_simps]:
  "distinct (map key (fst (retain_new key seen xs)))"
proof (induction xs arbitrary: seen)
  case Nil
  then show ?case by simp
next
  case (Cons x xs)
  have "key x \<notin> key ` set (fst (retain_new key (insert (key x) seen) xs))"
    by (simp add: retain_new_keys)
  then show ?case
    using Cons.IH[of seen] Cons.IH[of "insert (key x) seen"] by (auto split: prod.splits)
qed

lemma retain_new_subseq: "subseq (fst (retain_new key seen xs)) xs"
proof (induction xs arbitrary: seen)
  case Nil
  then show ?case by simp
next
  case (Cons x xs)
  show ?case
    using Cons.IH[of seen] Cons.IH[of "insert (key x) seen"]
    by (auto split: prod.splits intro: subseq_Cons')
qed

lemma retain_new_set: "set (fst (retain_new key seen xs)) \<subseteq> set xs"
  using retain_new_subseq[of key seen xs] by (auto elim: list_emb_set)

lemma retain_new_idem:
  "distinct (map key xs) \<Longrightarrow> seen \<inter> key ` set xs = {} \<Longrightarrow> fst (retain_new key seen xs) = xs"
  by (induction xs arbitrary: seen) (auto split: prod.splits dest: fstI)

lemma retain_new_append:
  "fst (retain_new key seen (xs @ ys)) =
     fst (retain_new key seen xs) @ fst (retain_new key (seen \<union> key ` set xs) ys)"
  by (induction xs arbitrary: seen) (auto split: prod.splits simp: insert_absorb dest: fstI)

text \<open>The first item with a key is the one kept.\<close>

lemma retain_new_first:
  assumes "xs = us @ x # vs" and "key x \<notin> seen" and "\<forall>u\<in>set us. key u \<noteq> key x"
  shows "x \<in> set (fst (retain_new key seen xs))"
proof -
  have "key x \<notin> seen \<union> key ` set us" using assms(2,3) by force
  then have "x \<in> set (fst (retain_new key (seen \<union> key ` set us) (x # vs)))"
    by (auto split: prod.splits)
  then show ?thesis by (simp add: assms(1) retain_new_append)
qed

lemma length_filter_subseq: "subseq xs ys \<Longrightarrow> length (filter P xs) \<le> length (filter P ys)"
  by (rule list_emb_length, rule subseq_filter)

subsection \<open>Numbering items\<close>

text \<open>\<open>for (index, item) in items.iter_mut().enumerate() { item.field = index + 1 }\<close>\<close>

definition number_from_one :: "(nat \<Rightarrow> 'a \<Rightarrow> 'a) \<Rightarrow> 'a list \<Rightarrow> 'a list" where
  "number_from_one f xs = map (\<lambda>(i, x). f (i + 1) x) (enumerate 0 xs)"

lemma length_number_from_one [simp]: "length (number_from_one f xs) = length xs"
  by (simp add: number_from_one_def)

lemma nth_number_from_one [simp]:
  "i < length xs \<Longrightarrow> number_from_one f xs ! i = f (i + 1) (xs ! i)"
  by (simp add: number_from_one_def nth_enumerate_eq)

lemma map_number_from_one:
  "(\<And>n x. g (f n x) = g x) \<Longrightarrow> map g (number_from_one f xs) = map g xs"
  by (rule nth_equalityI) simp_all

lemma number_from_one_ranks:
  "(\<And>n x. g (f n x) = n) \<Longrightarrow> map g (number_from_one f xs) = [1..<length xs + 1]"
  by (rule nth_equalityI) (simp_all del: upt_Suc)

lemma find_append: "find P (xs @ ys) = (case find P xs of Some x \<Rightarrow> Some x | None \<Rightarrow> find P ys)"
  by (induction xs) auto

subsection \<open>Step relations\<close>

text \<open>
  The contract of a step relation with its reachable states: they are the least set that has the
  first states and is closed under steps.  An invariant is then proved from its two conditions, and
  every run from a reachable state stays within the reachable states.
\<close>

locale transition_system =
  fixes start :: "'s \<Rightarrow> bool"
    and step :: "'s \<Rightarrow> 's \<Rightarrow> bool"
    and reach :: "'s \<Rightarrow> bool"
  assumes reach_start: "start s \<Longrightarrow> reach s"
    and reach_step: "reach s \<Longrightarrow> step s s' \<Longrightarrow> reach s'"
    and reach_least: "reach s \<Longrightarrow> (\<And>s. start s \<Longrightarrow> P s) \<Longrightarrow> (\<And>s s'. reach s \<Longrightarrow> P s \<Longrightarrow> step s s' \<Longrightarrow> P s') \<Longrightarrow> P s"
begin

lemma reach_run: "step\<^sup>*\<^sup>* s s' \<Longrightarrow> reach s \<Longrightarrow> reach s'"
  by (induction rule: rtranclp_induct) (auto intro: reach_step)

lemma reach_iff: "reach s \<longleftrightarrow> (\<exists>s0. start s0 \<and> step\<^sup>*\<^sup>* s0 s)"
proof
  show "reach s \<Longrightarrow> \<exists>s0. start s0 \<and> step\<^sup>*\<^sup>* s0 s"
    by (erule reach_least) (blast intro: rtranclp.rtrancl_into_rtrancl)+
qed (blast intro: reach_start reach_run)

lemma invariant:
  assumes "reach s" and "\<And>s. start s \<Longrightarrow> P s" and "\<And>s s'. reach s \<Longrightarrow> P s \<Longrightarrow> step s s' \<Longrightarrow> P s'"
  shows "P s"
  by (rule reach_least[OF assms(1)]) (use assms(2,3) in blast)+

text \<open>What no step undoes stays through every run.\<close>

lemma stable_run:
  assumes "\<And>s s'. reach s \<Longrightarrow> P s \<Longrightarrow> step s s' \<Longrightarrow> P s'" and "step\<^sup>*\<^sup>* s s'" and "reach s" and "P s"
  shows "reach s' \<and> P s'"
  using assms(2-4) by (induction rule: rtranclp_induct) (auto intro: reach_step assms(1))

end

end
