(* ===== verification/Strings.thy ===== *)
theory Strings
  imports Prelude
begin

text \<open>
  The \<open>str\<close> methods the program calls, on UTF-8 byte lists: ASCII case folding, Unicode trimming,
  prefixes, substring search, splitting, decimal formatting and parsing.
\<close>

definition byte_of :: "char \<Rightarrow> nat" where
  "byte_of c = of_char c"

subsection \<open>ASCII case\<close>

definition ascii_lower_char :: "char \<Rightarrow> char" where
  "ascii_lower_char c = (if 65 \<le> byte_of c \<and> byte_of c \<le> 90 then char_of (byte_of c + 32) else c)"

definition to_ascii_lowercase :: "string \<Rightarrow> string" where
  "to_ascii_lowercase s = map ascii_lower_char s"

definition eq_ignore_ascii_case :: "string \<Rightarrow> string \<Rightarrow> bool" where
  "eq_ignore_ascii_case a b \<longleftrightarrow> to_ascii_lowercase a = to_ascii_lowercase b"

definition is_ascii_digit :: "char \<Rightarrow> bool" where
  "is_ascii_digit c \<longleftrightarrow> 48 \<le> byte_of c \<and> byte_of c \<le> 57"

definition is_ascii_hexdigit :: "char \<Rightarrow> bool" where
  "is_ascii_hexdigit c \<longleftrightarrow> is_ascii_digit c \<or> 65 \<le> byte_of c \<and> byte_of c \<le> 70
     \<or> 97 \<le> byte_of c \<and> byte_of c \<le> 102"

definition is_ascii_alphabetic :: "char \<Rightarrow> bool" where
  "is_ascii_alphabetic c \<longleftrightarrow> 65 \<le> byte_of c \<and> byte_of c \<le> 90 \<or> 97 \<le> byte_of c \<and> byte_of c \<le> 122"

lemma byte_of_char_of [simp]: "n < 256 \<Longrightarrow> byte_of (char_of n) = n"
  by (simp add: byte_of_def)

lemma ascii_lower_char_idem [simp]: "ascii_lower_char (ascii_lower_char c) = ascii_lower_char c"
  by (simp add: ascii_lower_char_def)

lemma to_ascii_lowercase_idem [simp]:
  "to_ascii_lowercase (to_ascii_lowercase s) = to_ascii_lowercase s"
  by (simp add: to_ascii_lowercase_def)

lemma length_to_ascii_lowercase [simp]: "length (to_ascii_lowercase s) = length s"
  by (simp add: to_ascii_lowercase_def)

lemma to_ascii_lowercase_append [simp]:
  "to_ascii_lowercase (a @ b) = to_ascii_lowercase a @ to_ascii_lowercase b"
  by (simp add: to_ascii_lowercase_def)

subsection \<open>Trimming Unicode white space\<close>

text \<open>
  The byte length of the white-space character at the front of a byte list, 0 when there is none:
  the ASCII ones, then U+0085, U+00A0, U+1680, U+2000 to U+200A, U+2028, U+2029, U+202F, U+205F
  and U+3000 in UTF-8.  For \<open>trim_end\<close> the list is reversed, and so are the patterns.
\<close>

definition ws1 :: "nat \<Rightarrow> bool" where
  "ws1 a \<longleftrightarrow> 9 \<le> a \<and> a \<le> 13 \<or> a = 32"

definition ws2 :: "nat \<Rightarrow> nat \<Rightarrow> bool" where
  "ws2 a b \<longleftrightarrow> a = 194 \<and> (b = 133 \<or> b = 160)"

definition ws3 :: "nat \<Rightarrow> nat \<Rightarrow> nat \<Rightarrow> bool" where
  "ws3 a b c \<longleftrightarrow> a = 225 \<and> b = 154 \<and> c = 128
     \<or> a = 226 \<and> b = 128 \<and> (128 \<le> c \<and> c \<le> 138 \<or> c = 168 \<or> c = 169 \<or> c = 175)
     \<or> a = 226 \<and> b = 129 \<and> c = 159
     \<or> a = 227 \<and> b = 128 \<and> c = 128"

fun ws_prefix :: "string \<Rightarrow> nat" where
  "ws_prefix [] = 0"
| "ws_prefix [a] = (if ws1 (byte_of a) then 1 else 0)"
| "ws_prefix [a, b] =
     (if ws1 (byte_of a) then 1 else if ws2 (byte_of a) (byte_of b) then 2 else 0)"
| "ws_prefix (a # b # c # _) =
     (if ws1 (byte_of a) then 1 else if ws2 (byte_of a) (byte_of b) then 2
      else if ws3 (byte_of a) (byte_of b) (byte_of c) then 3 else 0)"

fun ws_suffix_rev :: "string \<Rightarrow> nat" where
  "ws_suffix_rev [] = 0"
| "ws_suffix_rev [a] = (if ws1 (byte_of a) then 1 else 0)"
| "ws_suffix_rev [a, b] =
     (if ws1 (byte_of a) then 1 else if ws2 (byte_of b) (byte_of a) then 2 else 0)"
| "ws_suffix_rev (a # b # c # _) =
     (if ws1 (byte_of a) then 1 else if ws2 (byte_of b) (byte_of a) then 2
      else if ws3 (byte_of c) (byte_of b) (byte_of a) then 3 else 0)"

function drop_ws :: "(string \<Rightarrow> nat) \<Rightarrow> string \<Rightarrow> string" where
  "drop_ws ws s = (if ws s = 0 \<or> s = [] then s else drop_ws ws (drop (ws s) s))"
  by pat_completeness auto
termination
  by (relation "measure (\<lambda>(ws, s). length s)") auto

declare drop_ws.simps [simp del]

definition trim_start :: "string \<Rightarrow> string" where
  "trim_start s = drop_ws ws_prefix s"

definition trim_end :: "string \<Rightarrow> string" where
  "trim_end s = rev (drop_ws ws_suffix_rev (rev s))"

definition trim :: "string \<Rightarrow> string" where
  "trim s = trim_end (trim_start s)"

lemma drop_ws_fixed: "ws s = 0 \<Longrightarrow> drop_ws ws s = s"
  by (simp add: drop_ws.simps)

lemma drop_ws_Nil [simp]: "drop_ws ws [] = []"
  by (simp add: drop_ws.simps)

lemma drop_ws_clean: "ws [] = 0 \<Longrightarrow> ws (drop_ws ws s) = 0"
proof (induction ws s rule: drop_ws.induct)
  case (1 ws s)
  then show ?case by (cases "ws s = 0 \<or> s = []") (auto simp: drop_ws.simps[of ws s])
qed

lemma drop_ws_suffix: "\<exists>p. s = p @ drop_ws ws s"
proof (induction ws s rule: drop_ws.induct)
  case (1 ws s)
  show ?case
  proof (cases "ws s = 0 \<or> s = []")
    case True
    then show ?thesis by (auto simp: drop_ws.simps[of ws s])
  next
    case False
    then obtain p where "drop (ws s) s = p @ drop_ws ws (drop (ws s) s)" using 1 by blast
    then have "s = (take (ws s) s @ p) @ drop_ws ws (drop (ws s) s)"
      by (metis append_assoc append_take_drop_id)
    with False show ?thesis by (metis drop_ws.simps)
  qed
qed

lemma trim_start_clean: "ws_prefix (trim_start s) = 0"
  by (simp add: trim_start_def drop_ws_clean)

lemma trim_end_clean: "ws_suffix_rev (rev (trim_end s)) = 0"
  by (simp add: trim_end_def drop_ws_clean)

lemma trim_Nil [simp]: "trim [] = []"
  by (simp add: trim_def trim_start_def trim_end_def)

lemma trim_end_idem [simp]: "trim_end (trim_end s) = trim_end s"
  by (simp add: trim_end_def drop_ws_fixed drop_ws_clean)

lemma set_trim: "set (trim s) \<subseteq> set s"
proof -
  have "set (trim_start s) \<subseteq> set s"
    using drop_ws_suffix[of s ws_prefix] unfolding trim_start_def by (metis Un_iff set_append subsetI)
  moreover have "set (trim_end t) \<subseteq> set t" for t
    using drop_ws_suffix[of "rev t" ws_suffix_rev] unfolding trim_end_def
    by (metis Un_iff set_append set_rev subsetI)
  ultimately show ?thesis unfolding trim_def by blast
qed

lemma ws_prefix_take: "ws_prefix (u @ v) = 0 \<Longrightarrow> ws_prefix u = 0"
proof (induction u rule: ws_prefix.induct)
  case (2 a)
  then show ?case by (cases v rule: ws_prefix.cases) (auto split: if_splits)
next
  case (3 a b)
  then show ?case by (cases v) (auto split: if_splits)
qed (auto split: if_splits)

lemma trim_end_prefix: "\<exists>p. s = trim_end s @ p"
proof -
  obtain p where "rev s = p @ drop_ws ws_suffix_rev (rev s)" using drop_ws_suffix by blast
  then have "s = rev (drop_ws ws_suffix_rev (rev s)) @ rev p" by (metis rev_append rev_rev_ident)
  then show ?thesis by (auto simp: trim_end_def)
qed

lemma trim_idem [simp]: "trim (trim s) = trim s"
proof -
  obtain p where "trim_start s = trim s @ p" using trim_end_prefix[of "trim_start s"] by (auto simp: trim_def)
  then have "ws_prefix (trim s) = 0" using trim_start_clean[of s] ws_prefix_take by metis
  then have "trim_start (trim s) = trim s" by (simp add: trim_start_def drop_ws_fixed)
  then show ?thesis by (simp add: trim_def)
qed

subsection \<open>Prefixes, search and splitting\<close>

definition starts_with :: "string \<Rightarrow> string \<Rightarrow> bool" where
  "starts_with s p \<longleftrightarrow> take (length p) s = p"

definition ends_with :: "string \<Rightarrow> string \<Rightarrow> bool" where
  "ends_with s p \<longleftrightarrow> starts_with (rev s) (rev p)"

definition strip_prefix :: "string \<Rightarrow> string \<Rightarrow> string option" where
  "strip_prefix s p = (if starts_with s p then Some (drop (length p) s) else None)"

fun find_str :: "string \<Rightarrow> string \<Rightarrow> nat option" where
  "find_str [] p = (if p = [] then Some 0 else None)"
| "find_str (c # cs) p =
     (if starts_with (c # cs) p then Some 0 else map_option Suc (find_str cs p))"

definition contains_str :: "string \<Rightarrow> string \<Rightarrow> bool" where
  "contains_str s p \<longleftrightarrow> find_str s p \<noteq> None"

fun split_once_char :: "string \<Rightarrow> char \<Rightarrow> (string \<times> string) option" where
  "split_once_char [] d = None"
| "split_once_char (c # cs) d =
     (if c = d then Some ([], cs)
      else map_option (\<lambda>(l, r). (c # l, r)) (split_once_char cs d))"

definition rsplit_once_char :: "string \<Rightarrow> char \<Rightarrow> (string \<times> string) option" where
  "rsplit_once_char s d =
     map_option (\<lambda>(l, r). (rev r, rev l)) (split_once_char (rev s) d)"

fun split_char :: "string \<Rightarrow> (char \<Rightarrow> bool) \<Rightarrow> string list" where
  "split_char [] d = [[]]"
| "split_char (c # cs) d =
     (if d c then [] # split_char cs d
      else case split_char cs d of [] \<Rightarrow> [[c]] | w # ws \<Rightarrow> (c # w) # ws)"

fun join_str :: "string \<Rightarrow> string list \<Rightarrow> string" where
  "join_str sep [] = []"
| "join_str sep [x] = x"
| "join_str sep (x # y # xs) = x @ sep @ join_str sep (y # xs)"

text \<open>\<open>lines()\<close>: a line ends at a newline, and a carriage return right before that is dropped.\<close>

definition strip_cr :: "string \<Rightarrow> string" where
  "strip_cr s = (if s \<noteq> [] \<and> last s = CHR 13 then butlast s else s)"

definition str_lines :: "string \<Rightarrow> string list" where
  "str_lines s = (let parts = split_char s (\<lambda>c. c = CHR 10)
     in map strip_cr (butlast parts) @ (if last parts = [] then [] else [last parts]))"

lemma starts_with_append [simp]: "starts_with (p @ s) p"
  by (simp add: starts_with_def)

lemma starts_with_iff: "starts_with s p \<longleftrightarrow> (\<exists>r. s = p @ r)"
  unfolding starts_with_def by (metis append_eq_conv_conj append_take_drop_id)

lemma strip_prefix_append [simp]: "strip_prefix (p @ s) p = Some s"
  by (simp add: strip_prefix_def)

lemma split_once_char_None_iff: "split_once_char s d = None \<longleftrightarrow> d \<notin> set s"
  by (induction s) auto

lemma split_once_char_append [simp]:
  "d \<notin> set l \<Longrightarrow> split_once_char (l @ d # r) d = Some (l, r)"
  by (induction l) auto

lemma split_once_char_Some:
  "split_once_char s d = Some (l, r) \<Longrightarrow> s = l @ d # r \<and> d \<notin> set l"
  by (induction s arbitrary: l r) (auto split: if_splits)

lemma rsplit_once_char_append [simp]:
  "d \<notin> set r \<Longrightarrow> rsplit_once_char (l @ d # r) d = Some (l, r)"
  by (simp add: rsplit_once_char_def)

lemma split_char_nonempty [simp]: "split_char s d \<noteq> []"
  by (cases s) (auto split: list.splits)

lemma split_char_no_delim: "w \<in> set (split_char s d) \<Longrightarrow> c \<in> set w \<Longrightarrow> \<not> d c"
  by (induction s arbitrary: w) (fastforce split: if_splits list.splits)+

lemma split_char_join:
  "xs \<noteq> [] \<Longrightarrow> \<forall>x\<in>set xs. d \<notin> set x \<Longrightarrow> split_char (join_str [d] xs) (\<lambda>c. c = d) = xs"
proof (induction xs)
  case Nil
  then show ?case by simp
next
  case (Cons x xs)
  have one: "d \<notin> set x \<Longrightarrow> split_char x (\<lambda>c. c = d) = [x]" for x
    by (induction x) auto
  have app: "d \<notin> set x \<Longrightarrow> split_char (x @ d # r) (\<lambda>c. c = d) = x # split_char r (\<lambda>c. c = d)" for x r
    by (induction x) auto
  show ?case
  proof (cases xs)
    case Nil
    then show ?thesis using Cons.prems one by simp
  next
    case (Cons y ys)
    then show ?thesis using Cons.IH Cons.prems app by simp
  qed
qed

subsection \<open>Decimal numbers\<close>

definition digit_char :: "nat \<Rightarrow> char" where
  "digit_char d = char_of (48 + d)"

fun show_nat :: "nat \<Rightarrow> string" where
  "show_nat n = (if n < 10 then [digit_char n] else show_nat (n div 10) @ [digit_char (n mod 10)])"

declare show_nat.simps [simp del]

fun digits_value :: "nat \<Rightarrow> string \<Rightarrow> nat option" where
  "digits_value acc [] = Some acc"
| "digits_value acc (c # cs) =
     (if is_ascii_digit c then digits_value (10 * acc + (byte_of c - 48)) cs else None)"

text \<open>
  \<open>parse::<uN>()\<close>: an optional plus sign, then digits, within the type's range.
\<close>

definition parse_uint :: "nat \<Rightarrow> string \<Rightarrow> nat option" where
  "parse_uint m s =
     (let ds = (case s of [] \<Rightarrow> [] | c # cs \<Rightarrow> if c = CHR ''+'' then cs else s)
      in if ds = [] then None
         else case digits_value 0 ds of None \<Rightarrow> None | Some v \<Rightarrow> if v \<le> m then Some v else None)"

lemma byte_of_digit_char [simp]: "d < 10 \<Longrightarrow> byte_of (digit_char d) = 48 + d"
  by (simp add: digit_char_def)

lemma is_ascii_digit_digit_char [simp]: "d < 10 \<Longrightarrow> is_ascii_digit (digit_char d)"
  by (simp add: is_ascii_digit_def)

lemma digits_value_append:
  "digits_value acc (xs @ ys) = (case digits_value acc xs of None \<Rightarrow> None | Some v \<Rightarrow> digits_value v ys)"
  by (induction xs arbitrary: acc) auto

lemma show_nat_nonempty [simp]: "show_nat n \<noteq> []"
  by (subst show_nat.simps) simp

lemma show_nat_digits: "c \<in> set (show_nat n) \<Longrightarrow> is_ascii_digit c"
proof (induction n rule: show_nat.induct)
  case (1 n)
  then show ?case by (subst (asm) (2) show_nat.simps) (auto split: if_splits)
qed

lemma digits_value_show_nat [simp]: "digits_value 0 (show_nat n) = Some n"
proof (induction n rule: show_nat.induct)
  case (1 n)
  then show ?case by (subst show_nat.simps) (auto simp: digits_value_append)
qed

lemma parse_uint_show_nat: "n \<le> m \<Longrightarrow> parse_uint m (show_nat n) = Some n"
proof -
  assume n: "n \<le> m"
  obtain c cs where s: "show_nat n = c # cs" by (cases "show_nat n") auto
  then have "is_ascii_digit c" using show_nat_digits[of c n] by simp
  then have "c \<noteq> CHR ''+''" by (auto simp: is_ascii_digit_def byte_of_def)
  then show ?thesis
    using n digits_value_show_nat[of n] by (simp add: parse_uint_def s)
qed

lemma parse_uint_le: "parse_uint m s = Some v \<Longrightarrow> v \<le> m"
  by (auto simp: parse_uint_def Let_def split: if_splits option.splits)

lemma show_nat_inj: "show_nat a = show_nat b \<Longrightarrow> a = b"
  by (metis digits_value_show_nat option.inject)

lemma lower_digit: "is_ascii_digit c \<Longrightarrow> ascii_lower_char c = c"
  by (simp add: ascii_lower_char_def is_ascii_digit_def)

lemma to_ascii_lowercase_show_nat [simp]: "to_ascii_lowercase (show_nat n) = show_nat n"
  by (simp add: to_ascii_lowercase_def map_idI lower_digit show_nat_digits)

end
