(* ===== verification/Model.thy ===== *)
theory Model
  imports Strings "HOL-Library.Word"
begin

text \<open>
  The shared data model of \<open>src/model.rs\<close> and the constants of \<open>src/constants.rs\<close> the
  components refer to.  Each struct is a record whose field names carry a short prefix (\<open>c_\<close>
  for \<open>Candidate\<close>, \<open>r_\<close> for \<open>RankedConfig\<close>, \<open>rs_\<close> for \<open>RuntimeState\<close>,
  \<open>sp_\<close> for \<open>ProbeStopPolicy\<close>, \<open>rtc_\<close> for \<open>RuntimeConfig\<close>), each enum a
  datatype.  A clock instant is a natural number of milliseconds.
\<close>

subsection \<open>Constants\<close>

definition APP_NAME :: string where "APP_NAME = ''V2RayDAR''"
definition APP_DATA_DIR_NAME :: string where "APP_DATA_DIR_NAME = ''v2raydar_data''"
definition DB_FILE_NAME :: string where "DB_FILE_NAME = ''data.db''"
definition CACHE_DIR_NAME :: string where "CACHE_DIR_NAME = ''cache''"
definition CONFIG_FILE_NAME :: string where "CONFIG_FILE_NAME = ''configs.yaml''"
definition FIREWALL_STATE_FILE_NAME :: string where
  "FIREWALL_STATE_FILE_NAME = ''.v2raydar-firewall.json''"
definition LEGACY_APP_MARKER_FILE_NAME :: string where "LEGACY_APP_MARKER_FILE_NAME = ''.v2raydar''"
definition LEGACY_CACHE_MARKER_FILE_NAME :: string where
  "LEGACY_CACHE_MARKER_FILE_NAME = ''.v2raydar-cache''"
definition MAX_TUI_LOGS :: nat where "MAX_TUI_LOGS = 512"
definition LOCALHOST_IP :: string where "LOCALHOST_IP = ''127.0.0.1''"
definition HTTP_EXCHANGE_OVERHEAD_BYTES :: nat where "HTTP_EXCHANGE_OVERHEAD_BYTES = 1024"

definition SUPPORTED_URI_SCHEMES :: "string list" where
  "SUPPORTED_URI_SCHEMES =
     [''vmess://'', ''vless://'', ''trojan://'', ''ss://'', ''ssr://'', ''hysteria2://'',
      ''hy2://'', ''tuic://'']"

subsection \<open>Addresses\<close>

datatype ip_addr =
    IpV4 "8 word" "8 word" "8 word" "8 word"
  | IpV6 "16 word" "16 word" "16 word" "16 word" "16 word" "16 word" "16 word" "16 word"

record socket_addr =
  sa_ip :: ip_addr
  sa_port :: nat

fun is_loopback :: "ip_addr \<Rightarrow> bool" where
  "is_loopback (IpV4 a b c d) = (a = 127)"
| "is_loopback (IpV6 a b c d e f g h) =
     (a = 0 \<and> b = 0 \<and> c = 0 \<and> d = 0 \<and> e = 0 \<and> f = 0 \<and> g = 0 \<and> h = 1)"

fun is_unspecified :: "ip_addr \<Rightarrow> bool" where
  "is_unspecified (IpV4 a b c d) = (a = 0 \<and> b = 0 \<and> c = 0 \<and> d = 0)"
| "is_unspecified (IpV6 a b c d e f g h) =
     (a = 0 \<and> b = 0 \<and> c = 0 \<and> d = 0 \<and> e = 0 \<and> f = 0 \<and> g = 0 \<and> h = 0)"

subsection \<open>Candidates and results\<close>

record endpoint =
  ep_host :: string
  ep_port :: nat

record candidate =
  c_id :: string
  c_dedup_key :: string
  c_source :: string
  c_priority :: nat
  c_protocol :: string
  c_name :: string
  c_endpoint :: endpoint
  c_uri :: string

record ranked_config =
  r_rank :: nat
  r_stability_count :: nat
  r_id :: string
  r_dedup_key :: string
  r_source :: string
  r_priority :: nat
  r_protocol :: string
  r_name :: string
  r_endpoint :: endpoint
  r_uri :: string
  r_reachable :: bool
  r_validation :: string
  r_latency_ms :: "nat option"
  r_http_status :: "nat option"
  r_download_mbps :: "f64 option"
  r_download_bytes :: "nat option"
  r_error :: "string option"
  r_country_code :: "string option"

text \<open>
  Several places rebuild the candidate a result came from, field by field; they agree on the
  fields, so they share this definition.
\<close>

definition candidate_of_ranked :: "ranked_config \<Rightarrow> candidate" where
  "candidate_of_ranked r = \<lparr>
     c_id = r_id r,
     c_dedup_key = r_dedup_key r,
     c_source = r_source r,
     c_priority = r_priority r,
     c_protocol = r_protocol r,
     c_name = r_name r,
     c_endpoint = r_endpoint r,
     c_uri = r_uri r \<rparr>"

definition candidates_from_ranked :: "ranked_config list \<Rightarrow> candidate list" where
  "candidates_from_ranked rs = map candidate_of_ranked rs"

record runtime_state =
  rs_last_refresh :: "string option"
  rs_last_error :: "string option"
  rs_logs :: "string list"
  rs_live_logs :: "string list"
  rs_refresh_started_at :: "string option"
  rs_refresh_finished_at :: "string option"
  rs_refresh_started_instant :: "nat option"
  rs_refresh_finished_instant :: "nat option"
  rs_refresh_duration_ms :: "nat option"
  rs_refreshing :: bool
  rs_total_candidates :: nat
  rs_tested_candidates :: nat
  rs_reachable_candidates :: nat
  rs_fetch_bytes :: nat
  rs_speedtest_bytes :: nat
  rs_fetch_errors :: "string list"
  rs_ranked :: "ranked_config list"
  rs_stable_working_counts :: "string \<rightharpoonup> nat"
  rs_proxy_active_config :: "string option"
  rs_proxy_running :: bool
  rs_proxy_port :: "nat option"
  rs_proxy_discoverable :: bool

definition runtime_state_default :: runtime_state where
  "runtime_state_default = \<lparr>
     rs_last_refresh = None, rs_last_error = None, rs_logs = [], rs_live_logs = [],
     rs_refresh_started_at = None, rs_refresh_finished_at = None,
     rs_refresh_started_instant = None, rs_refresh_finished_instant = None,
     rs_refresh_duration_ms = None, rs_refreshing = False,
     rs_total_candidates = 0, rs_tested_candidates = 0, rs_reachable_candidates = 0,
     rs_fetch_bytes = 0, rs_speedtest_bytes = 0, rs_fetch_errors = [], rs_ranked = [],
     rs_stable_working_counts = Map.empty, rs_proxy_active_config = None,
     rs_proxy_running = False, rs_proxy_port = None, rs_proxy_discoverable = False \<rparr>"

datatype progress_event =
    LiveLog string
  | ProbeDelta nat nat
  | RankedSnapshot "ranked_config list"
  | WorkingConfigsFound "ranked_config list" nat
  | FetchedDelta nat

text \<open>
  \<open>cancel_flag\<close> is a flag other tasks set while a probe runs: the model gives the value each
  load of it returns, indexed by how many loads the probe has made.
\<close>

record probe_stop_policy =
  sp_scan_all_configs :: bool
  sp_top_n :: nat
  sp_prioritize_stability :: bool
  sp_return_configs_asap :: bool
  sp_previous_working_keys :: "string set"
  sp_cancel_flag :: "(nat \<Rightarrow> bool) option"

definition cancel_flag_set :: "probe_stop_policy \<Rightarrow> nat \<Rightarrow> bool" where
  "cancel_flag_set p n = (case sp_cancel_flag p of None \<Rightarrow> False | Some f \<Rightarrow> f n)"

record runtime_config =
  rtc_bind :: socket_addr
  rtc_top_n :: nat
  rtc_refresh_seconds :: nat
  rtc_encoded_subscription :: bool
  rtc_prioritize_stability :: bool
  rtc_return_configs_asap :: bool
  rtc_scan_all_configs :: bool
  rtc_fetch_timeout_ms :: nat
  rtc_fetch_concurrency :: nat
  rtc_max_subscription_bytes :: nat
  rtc_sharing_enabled :: bool
  rtc_require_token :: bool
  rtc_token :: string
  rtc_probe_mode :: string
  rtc_speedtest_enabled :: bool
  rtc_probe_concurrency :: nat
  rtc_probe_batch_size :: "nat option"
  rtc_active_timeout_ms :: nat
  rtc_startup_timeout_ms :: nat
  rtc_test_url :: string
  rtc_accepted_statuses :: "nat list"
  rtc_download_bytes_limit :: nat
  rtc_subscription_count :: nat
  rtc_enabled_subscription_count :: nat
  rtc_proxy_enabled :: bool
  rtc_proxy_port :: nat
  rtc_proxy_discoverable :: bool

subsection \<open>The subscription address shown to the user\<close>

definition should_include_token_in_url :: "string \<Rightarrow> bool" where
  "should_include_token_in_url token \<longleftrightarrow> trim token \<noteq> []"

definition format_url_host :: "string \<Rightarrow> string" where
  "format_url_host host =
     (if CHR '':'' \<in> set host \<and> \<not> starts_with host ''['' then ''['' @ host @ '']'' else host)"

definition runtime_subscription_url :: "runtime_config \<Rightarrow> string \<Rightarrow> bool \<Rightarrow> string" where
  "runtime_subscription_url cfg host raw =
     (let endpoint = (if raw then ''subscription.txt'' else ''subscription'');
          url = ''http://'' @ format_url_host host @ '':'' @ show_nat (sa_port (rtc_bind cfg))
                @ ''/'' @ endpoint
      in if should_include_token_in_url (rtc_token cfg)
         then url @ ''?token='' @ rtc_token cfg else url)"

subsection \<open>Results and the candidate they are about\<close>

lemma candidate_of_ranked_simps [simp]:
  "c_id (candidate_of_ranked r) = r_id r"
  "c_dedup_key (candidate_of_ranked r) = r_dedup_key r"
  "c_uri (candidate_of_ranked r) = r_uri r"
  "c_source (candidate_of_ranked r) = r_source r"
  "c_priority (candidate_of_ranked r) = r_priority r"
  by (simp_all add: candidate_of_ranked_def)

lemma length_candidates_from_ranked [simp]: "length (candidates_from_ranked rs) = length rs"
  by (simp add: candidates_from_ranked_def)

text \<open>A result and a state for concrete examples.\<close>

definition sample_ranked :: "string \<Rightarrow> bool \<Rightarrow> nat \<Rightarrow> ranked_config" where
  "sample_ranked key reachable latency = \<lparr>
     r_rank = 0, r_stability_count = 0, r_id = key, r_dedup_key = key, r_source = ''s'',
     r_priority = 1, r_protocol = ''vless'', r_name = key,
     r_endpoint = \<lparr> ep_host = ''h'', ep_port = 443 \<rparr>, r_uri = key, r_reachable = reachable,
     r_validation = ''active_http'', r_latency_ms = Some latency, r_http_status = None,
     r_download_mbps = None, r_download_bytes = None, r_error = None, r_country_code = None \<rparr>"

end
