(* ===== verification/Ranking.thy ===== *)
theory Ranking
  imports Model
begin

text \<open>
  Orders on probe results and what is built on them: \<open>compare_ranked\<close> and
  \<open>rank_configs\<close> of \<open>src/probe.rs\<close>; the final deduplication, the stability ranking and
  the live snapshots of \<open>src/main.rs\<close>.
\<close>

subsection \<open>The comparisons\<close>

definition latency_key :: "ranked_config \<Rightarrow> nat" where
  "latency_key r = unwrap_or (r_latency_ms r) u128_max"

definition compare_mbps :: "ranked_config \<Rightarrow> ranked_config \<Rightarrow> ordering" where
  "compare_mbps left right =
     unwrap_or (partial_cmp_opt (r_download_mbps right) (r_download_mbps left)) Equal"

definition compare_ranked :: "ranked_config \<Rightarrow> ranked_config \<Rightarrow> ordering" where
  "compare_ranked left right =
     then_with (cmp (r_reachable right) (r_reachable left))
    (then_with (cmp (latency_key left) (latency_key right))
    (then_with (compare_mbps left right)
    (then_with (cmp (r_priority left) (r_priority right))
    (then_with (cmp (r_protocol left) (r_protocol right))
    (then_with (cmp (r_name left) (r_name right))
               (cmp (r_uri left) (r_uri right)))))))"

definition compare_stability_ranked :: "ranked_config \<Rightarrow> ranked_config \<Rightarrow> ordering" where
  "compare_stability_ranked left right =
     then_with (cmp (r_reachable right) (r_reachable left))
    (then_with (cmp (r_stability_count right) (r_stability_count left))
    (then_with (cmp (latency_key left) (latency_key right))
    (then_with (compare_mbps left right)
    (then_with (cmp (r_priority left) (r_priority right))
    (then_with (cmp (r_protocol left) (r_protocol right))
    (then_with (cmp (r_name left) (r_name right))
               (cmp (r_uri left) (r_uri right))))))))"

text \<open>\<open>compare_ranked_snapshot\<close> repeats \<open>compare_stability_ranked\<close> line by line.\<close>

definition compare_ranked_snapshot :: "ranked_config \<Rightarrow> ranked_config \<Rightarrow> ordering" where
  "compare_ranked_snapshot left right =
     then_with (cmp (r_reachable right) (r_reachable left))
    (then_with (cmp (r_stability_count right) (r_stability_count left))
    (then_with (cmp (latency_key left) (latency_key right))
    (then_with (compare_mbps left right)
    (then_with (cmp (r_priority left) (r_priority right))
    (then_with (cmp (r_protocol left) (r_protocol right))
    (then_with (cmp (r_name left) (r_name right))
               (cmp (r_uri left) (r_uri right))))))))"

text \<open>
  A NaN speed compares equal to everything, which is not transitive: the comparisons meet the
  sort's contract on results without one.
\<close>

definition no_nan :: "ranked_config \<Rightarrow> bool" where
  "no_nan r \<longleftrightarrow> r_download_mbps r \<noteq> Some NaN"

definition mbps_key :: "ranked_config \<Rightarrow> int option" where
  "mbps_key r = map_option (\<lambda>f. case f of Num i \<Rightarrow> i | NaN \<Rightarrow> 0) (r_download_mbps r)"

lemma compare_mbps_key:
  assumes "no_nan x" and "no_nan y"
  shows "compare_mbps x y = cmp (mbps_key y) (mbps_key x)"
proof (cases "r_download_mbps y")
  case None
  then show ?thesis
    by (cases "r_download_mbps x") (auto simp: compare_mbps_def mbps_key_def cmp_def)
next
  case (Some b)
  with assms(2) obtain j where j: "b = Num j" by (cases b) (auto simp: no_nan_def)
  show ?thesis
  proof (cases "r_download_mbps x")
    case None
    with Some show ?thesis by (auto simp: compare_mbps_def mbps_key_def cmp_def)
  next
    case (Some a)
    with assms(1) obtain i where "a = Num i" by (cases a) (auto simp: no_nan_def)
    with Some \<open>r_download_mbps y = Some b\<close> j show ?thesis
      by (auto simp: compare_mbps_def mbps_key_def cmp_def)
  qed
qed

lemma comparator_mbps: "comparator compare_mbps no_nan"
  by (rule comparator_cong[OF comparator_key_rev[of mbps_key]]) (rule compare_mbps_key)

lemmas lex_comparators =
  comparator_lex comparator_key comparator_key_rev comparator_mbps

interpretation ranked: comparator compare_ranked no_nan
  unfolding compare_ranked_def[abs_def] by (intro lex_comparators)

interpretation stability: comparator compare_stability_ranked no_nan
  unfolding compare_stability_ranked_def[abs_def] by (intro lex_comparators)

lemma compare_ranked_snapshot_eq: "compare_ranked_snapshot = compare_stability_ranked"
  by (simp add: fun_eq_iff compare_ranked_snapshot_def compare_stability_ranked_def)

interpretation snapshot: comparator compare_ranked_snapshot no_nan
  unfolding compare_ranked_snapshot_eq by unfold_locales

lemma compare_ranked_reachable:
  "compare_ranked a b \<noteq> Greater \<Longrightarrow> r_reachable b \<Longrightarrow> r_reachable a"
  by (auto simp: compare_ranked_def then_with_iffs)

lemma compare_ranked_latency:
  "compare_ranked a b \<noteq> Greater \<Longrightarrow> r_reachable a = r_reachable b \<Longrightarrow> latency_key a \<le> latency_key b"
  by (auto simp: compare_ranked_def then_with_iffs not_less)

lemma compare_stability_reachable:
  "compare_stability_ranked a b \<noteq> Greater \<Longrightarrow> r_reachable b \<Longrightarrow> r_reachable a"
  by (auto simp: compare_stability_ranked_def then_with_iffs)

lemma compare_stability_count:
  "compare_stability_ranked a b \<noteq> Greater \<Longrightarrow> r_reachable a = r_reachable b
     \<Longrightarrow> r_stability_count b \<le> r_stability_count a"
  by (auto simp: compare_stability_ranked_def then_with_iffs not_less)

subsection \<open>Ranks\<close>

definition set_rank :: "nat \<Rightarrow> ranked_config \<Rightarrow> ranked_config" where
  "set_rank n r = r\<lparr>r_rank := n\<rparr>"

definition rank_configs :: "ranked_config list \<Rightarrow> ranked_config list" where
  "rank_configs ranked = number_from_one set_rank (sort_by compare_ranked ranked)"

definition apply_found_order_ranks :: "ranked_config list \<Rightarrow> ranked_config list" where
  "apply_found_order_ranks ranked = number_from_one set_rank ranked"

definition apply_snapshot_ranks :: "ranked_config list \<Rightarrow> ranked_config list" where
  "apply_snapshot_ranks ranked = number_from_one set_rank (sort_by compare_ranked_snapshot ranked)"

lemma set_rank_simps [simp]:
  "r_rank (set_rank n r) = n"
  "r_dedup_key (set_rank n r) = r_dedup_key r"
  "r_reachable (set_rank n r) = r_reachable r"
  "r_uri (set_rank n r) = r_uri r"
  "r_id (set_rank n r) = r_id r"
  "r_stability_count (set_rank n r) = r_stability_count r"
  "r_latency_ms (set_rank n r) = r_latency_ms r"
  "set_rank m (set_rank n r) = set_rank m r"
  "no_nan (set_rank n r) = no_nan r"
  "latency_key (set_rank n r) = latency_key r"
  by (simp_all add: set_rank_def no_nan_def latency_key_def)

lemma compare_set_rank [simp]:
  "compare_ranked (set_rank m a) (set_rank n b) = compare_ranked a b"
  "compare_stability_ranked (set_rank m a) (set_rank n b) = compare_stability_ranked a b"
  by (simp_all add: compare_ranked_def compare_stability_ranked_def latency_key_def compare_mbps_def
      set_rank_def)

lemma map_ranks_number [simp]:
  "map r_rank (number_from_one set_rank xs) = [1..<length xs + 1]"
  by (rule number_from_one_ranks) simp

lemma map_number_set_rank:
  "(\<And>n r. g (set_rank n r) = g r) \<Longrightarrow> map g (number_from_one set_rank xs) = map g xs"
  by (rule map_number_from_one) simp

lemma sorted_wrt_number_set_rank:
  "(\<And>m n a b. P (set_rank m a) (set_rank n b) = P a b) \<Longrightarrow>
     sorted_wrt P (number_from_one set_rank xs) = sorted_wrt P xs"
  by (simp add: sorted_wrt_iff_nth_less)

lemma set_number_set_rank_ball:
  "(\<And>n r. P (set_rank n r) = P r) \<Longrightarrow>
     (\<forall>r\<in>set (number_from_one set_rank xs). P r) = (\<forall>r\<in>set xs. P r)"
  by (simp add: all_set_conv_all_nth)

lemma length_rank_configs [simp]: "length (rank_configs rs) = length rs"
  by (simp add: rank_configs_def)

lemma mset_rank_configs:
  "mset (map (set_rank 0) (rank_configs rs)) = mset (map (set_rank 0) rs)"
  by (simp add: rank_configs_def map_number_set_rank)

lemma sorted_rank_configs:
  "list_all no_nan rs \<Longrightarrow> sorted_wrt (\<lambda>a b. compare_ranked a b \<noteq> Greater) (rank_configs rs)"
  by (simp add: rank_configs_def sorted_wrt_number_set_rank ranked.sorted_sort_by)

lemma sorted_reachable_prefix:
  "sorted_wrt (\<lambda>a b. r_reachable b \<longrightarrow> r_reachable a) rs \<Longrightarrow>
     filter r_reachable rs = takeWhile r_reachable rs"
  by (induction rs) (auto simp: filter_empty_conv)

lemma rank_configs_reachable_first:
  assumes "list_all no_nan rs"
  shows "filter r_reachable (rank_configs rs) = takeWhile r_reachable (rank_configs rs)"
  by (rule sorted_reachable_prefix)
    (rule sorted_wrt_mono_rel[OF _ sorted_rank_configs[OF assms]], blast dest: compare_ranked_reachable)

subsection \<open>The final deduplication of a refresh\<close>

definition deduplicate_ranked_configs :: "ranked_config list \<Rightarrow> ranked_config list" where
  "deduplicate_ranked_configs ranked =
     number_from_one set_rank (fst (retain_new r_dedup_key {} ranked))"

lemma deduplicate_distinct [key_simps]:
  "distinct (map r_dedup_key (deduplicate_ranked_configs rs))"
  by (simp add: deduplicate_ranked_configs_def map_number_set_rank retain_new_distinct)

lemma deduplicate_keys [key_simps]:
  "r_dedup_key ` set (deduplicate_ranked_configs rs) = r_dedup_key ` set rs"
proof -
  have "set (map r_dedup_key (deduplicate_ranked_configs rs)) =
      set (map r_dedup_key (fst (retain_new r_dedup_key {} rs)))"
    by (simp only: deduplicate_ranked_configs_def map_number_set_rank set_rank_simps)
  then show ?thesis by (simp add: retain_new_keys)
qed

lemma deduplicate_subseq:
  "subseq (map (set_rank 0) (deduplicate_ranked_configs rs)) (map (set_rank 0) rs)"
  by (simp add: deduplicate_ranked_configs_def map_number_set_rank subseq_map retain_new_subseq)

subsection \<open>Stability ranking\<close>

fun bump_stability ::
  "ranked_config list \<Rightarrow> (string \<rightharpoonup> nat) \<Rightarrow> ranked_config list \<times> (string \<rightharpoonup> nat)" where
  "bump_stability [] counts = ([], counts)"
| "bump_stability (item # items) counts =
     (if r_reachable item
      then (let count = sat_add u32_max (unwrap_or (counts (r_dedup_key item)) 0) 1;
                counts' = counts(r_dedup_key item \<mapsto> count);
                (items', counts'') = bump_stability items counts'
            in (item\<lparr>r_stability_count := count\<rparr> # items', counts''))
      else (let (items', counts'') = bump_stability items counts
            in (item\<lparr>r_stability_count := unwrap_or (counts (r_dedup_key item)) 0\<rparr> # items',
                counts'')))"

definition apply_stability_ranking ::
  "ranked_config list \<Rightarrow> (string \<rightharpoonup> nat) \<Rightarrow> string set \<Rightarrow> bool
     \<Rightarrow> ranked_config list \<times> (string \<rightharpoonup> nat)" where
  "apply_stability_ranking ranked stable_working_counts previous_top_n prioritize_stability =
     (let ranked_keys = set (map r_dedup_key ranked);
          kept = stable_working_counts |` ranked_keys;
          (ranked', counts') = bump_stability ranked kept
      in if prioritize_stability
         then (number_from_one set_rank (sort_by compare_stability_ranked ranked'), counts')
         else (ranked', counts'))"

text \<open>The count a key has after one refresh, given whether a working result with that key came.\<close>

definition next_count :: "ranked_config list \<Rightarrow> (string \<rightharpoonup> nat) \<Rightarrow> string \<Rightarrow> nat option" where
  "next_count ranked counts k =
     (if \<exists>r\<in>set ranked. r_reachable r \<and> r_dedup_key r = k
      then Some (sat_add u32_max (unwrap_or (counts k) 0) 1)
      else if k \<in> r_dedup_key ` set ranked then counts k else None)"

definition bump_count :: "ranked_config \<Rightarrow> (string \<rightharpoonup> nat) \<Rightarrow> (string \<rightharpoonup> nat)" where
  "bump_count item counts =
     (if r_reachable item
      then counts(r_dedup_key item \<mapsto> sat_add u32_max (unwrap_or (counts (r_dedup_key item)) 0) 1)
      else counts)"

lemma bump_stability_Cons:
  "fst (bump_stability (x # xs) counts) =
     x\<lparr>r_stability_count := unwrap_or (bump_count x counts (r_dedup_key x)) 0\<rparr>
       # fst (bump_stability xs (bump_count x counts))"
  "snd (bump_stability (x # xs) counts) = snd (bump_stability xs (bump_count x counts))"
  by (simp_all add: bump_count_def Let_def split: prod.splits)

declare bump_stability.simps(2) [simp del]
declare bump_stability_Cons [simp]

lemma bump_count_other [simp]: "r_reachable x \<longrightarrow> r_dedup_key x \<noteq> k \<Longrightarrow> bump_count x counts k = counts k"
  by (auto simp: bump_count_def)

lemma bump_stability_other:
  "\<forall>r\<in>set items. r_reachable r \<longrightarrow> r_dedup_key r \<noteq> k \<Longrightarrow>
     snd (bump_stability items counts) k = counts k"
  by (induction items arbitrary: counts) auto

lemma fresh_key:
  "r_dedup_key x \<notin> r_dedup_key ` set xs \<Longrightarrow>
     \<forall>y\<in>set xs. r_reachable y \<longrightarrow> r_dedup_key y \<noteq> r_dedup_key x"
  by (metis image_eqI)

lemma bump_stability_hit:
  assumes "distinct (map r_dedup_key items)" and "r \<in> set items" and "r_reachable r"
  shows "snd (bump_stability items counts) (r_dedup_key r)
     = Some (sat_add u32_max (unwrap_or (counts (r_dedup_key r)) 0) 1)"
  using assms
proof (induction items arbitrary: counts)
  case Nil
  then show ?case by simp
next
  case (Cons x xs)
  show ?case
  proof (cases "r = x")
    case True
    with Cons.prems show ?thesis
      using bump_stability_other[OF fresh_key, of x xs] by (simp add: bump_count_def)
  next
    case False
    with Cons.prems have "r \<in> set xs" and "r_dedup_key x \<noteq> r_dedup_key r" by auto
    with Cons.prems Cons.IH show ?thesis by simp
  qed
qed

lemma bump_stability_map:
  "(\<And>n r. g (r\<lparr>r_stability_count := n\<rparr>) = g r) \<Longrightarrow>
     map g (fst (bump_stability items counts)) = map g items"
  by (induction items arbitrary: counts) auto

lemma no_nan_stability [simp]: "no_nan (r\<lparr>r_stability_count := n\<rparr>) = no_nan r"
  by (simp add: no_nan_def)

lemma bump_stability_no_nan:
  "list_all no_nan items \<Longrightarrow> list_all no_nan (fst (bump_stability items counts))"
  by (induction items arbitrary: counts) auto

lemma bump_stability_fields:
  assumes "distinct (map r_dedup_key items)"
  shows "\<forall>r\<in>set (fst (bump_stability items counts)).
     r_stability_count r = unwrap_or (snd (bump_stability items counts) (r_dedup_key r)) 0"
  using assms
proof (induction items arbitrary: counts)
  case Nil
  then show ?case by simp
next
  case (Cons x xs)
  then show ?case
    using bump_stability_other[OF fresh_key, of x xs "bump_count x counts"] by simp
qed

lemma stability_counts_spec:
  assumes "distinct (map r_dedup_key ranked)"
  shows "snd (apply_stability_ranking ranked counts prev prio) k = next_count ranked counts k"
proof -
  have eq: "snd (apply_stability_ranking ranked counts prev prio)
      = snd (bump_stability ranked (counts |` set (map r_dedup_key ranked)))"
    by (simp add: apply_stability_ranking_def Let_def split: prod.splits)
  show ?thesis
  proof (cases "\<exists>r\<in>set ranked. r_reachable r \<and> r_dedup_key r = k")
    case True
    then obtain r where r: "r \<in> set ranked" "r_reachable r" "r_dedup_key r = k" by blast
    then show ?thesis
      using bump_stability_hit[OF assms r(1,2)] by (auto simp: eq next_count_def restrict_map_def)
  next
    case False
    then show ?thesis
      using bump_stability_other[of ranked k]
      by (auto simp: eq next_count_def restrict_map_def)
  qed
qed

lemma apply_stability_ranking_mset:
  assumes "\<And>n r. g (r\<lparr>r_stability_count := n\<rparr>) = g r" and "\<And>n r. g (set_rank n r) = g r"
  shows "mset (map g (fst (apply_stability_ranking ranked counts prev prio))) = mset (map g ranked)"
proof -
  obtain items counts' where b: "bump_stability ranked (counts |` set (map r_dedup_key ranked)) = (items, counts')"
    by fastforce
  then have "map g items = map g ranked"
    using bump_stability_map[of g ranked "counts |` set (map r_dedup_key ranked)"] assms(1) by simp
  then have "image_mset g (mset items) = image_mset g (mset ranked)" by (metis mset_map)
  with assms(2) have "mset (map g (number_from_one set_rank (sort_by compare_stability_ranked items)))
      = mset (map g ranked)"
    by (simp add: map_number_set_rank del: mset_map) simp
  then show ?thesis
    using b \<open>map g items = map g ranked\<close> by (auto simp: apply_stability_ranking_def simp del: mset_map)
qed

lemma stability_counts_agree:
  assumes "distinct (map r_dedup_key ranked)"
    and "r \<in> set (fst (apply_stability_ranking ranked counts prev prio))"
  shows "r_stability_count r
     = unwrap_or (snd (apply_stability_ranking ranked counts prev prio) (r_dedup_key r)) 0"
proof -
  obtain items counts' where b: "bump_stability ranked (counts |` set (map r_dedup_key ranked)) = (items, counts')"
    by fastforce
  have P: "\<forall>r\<in>set items. r_stability_count r = unwrap_or (counts' (r_dedup_key r)) 0"
    using bump_stability_fields[OF assms(1), of "counts |` set (map r_dedup_key ranked)"] b by simp
  have "\<forall>r\<in>set (number_from_one set_rank (sort_by compare_stability_ranked items)).
      r_stability_count r = unwrap_or (counts' (r_dedup_key r)) 0"
    using P by (subst set_number_set_rank_ball) simp_all
  then show ?thesis using P b assms(2) by (auto simp: apply_stability_ranking_def split: if_splits)
qed

lemma apply_stability_ranking_sorted:
  assumes "list_all no_nan ranked"
  shows "sorted_wrt (\<lambda>a b. compare_stability_ranked a b \<noteq> Greater)
     (fst (apply_stability_ranking ranked counts prev True))"
proof -
  obtain items counts' where b: "bump_stability ranked (counts |` set (map r_dedup_key ranked)) = (items, counts')"
    by fastforce
  then have "list_all no_nan items"
    using bump_stability_no_nan[OF assms, of "counts |` set (map r_dedup_key ranked)"] by simp
  then show ?thesis
    using b by (simp add: apply_stability_ranking_def sorted_wrt_number_set_rank stability.sorted_sort_by)
qed

subsection \<open>Live snapshots\<close>

definition snapshot_count :: "(string \<rightharpoonup> nat) \<Rightarrow> string set \<Rightarrow> ranked_config \<Rightarrow> nat" where
  "snapshot_count stable_working_counts previous_top_n item =
     (if r_reachable item \<and> r_dedup_key item \<in> previous_top_n
      then sat_add u32_max (unwrap_or (stable_working_counts (r_dedup_key item)) 0) 1
      else if r_reachable item then 1
      else unwrap_or (stable_working_counts (r_dedup_key item)) 0)"

definition apply_snapshot_stability_counts ::
  "ranked_config list \<Rightarrow> (string \<rightharpoonup> nat) \<Rightarrow> string set \<Rightarrow> ranked_config list" where
  "apply_snapshot_stability_counts ranked stable_working_counts previous_top_n =
     map (\<lambda>item. item\<lparr>r_stability_count :=
        snapshot_count stable_working_counts previous_top_n item\<rparr>) ranked"

lemma apply_snapshot_stability_map:
  "(\<And>n r. g (r\<lparr>r_stability_count := n\<rparr>) = g r) \<Longrightarrow>
     map g (apply_snapshot_stability_counts ranked counts prev) = map g ranked"
  by (simp add: apply_snapshot_stability_counts_def)

fun asap_push ::
  "nat \<Rightarrow> string set \<Rightarrow> ranked_config list \<Rightarrow> ranked_config list \<Rightarrow> ranked_config list" where
  "asap_push top_n seen ranked [] = ranked"
| "asap_push top_n seen ranked (item # items) =
     (if top_n \<le> length ranked then ranked
      else if r_dedup_key item \<in> seen then asap_push top_n seen ranked items
      else asap_push top_n (insert (r_dedup_key item) seen) (ranked @ [item]) items)"

text \<open>What \<open>append_asap_working_configs\<close> makes of \<open>state.ranked\<close>.\<close>

definition asap_ranked ::
  "ranked_config list \<Rightarrow> ranked_config list \<Rightarrow> nat \<Rightarrow> ranked_config list" where
  "asap_ranked current configs top_n =
     (let (kept, seen) = retain_new r_dedup_key {} (filter r_reachable current)
      in take top_n (asap_push top_n seen kept (filter r_reachable configs)))"

lemma asap_push_extends: "\<exists>more. asap_push n seen ranked items = ranked @ more \<and> set more \<subseteq> set items"
proof (induction items arbitrary: seen ranked)
  case Nil
  then show ?case by simp
next
  case (Cons x xs)
  obtain m1 where "asap_push n seen ranked xs = ranked @ m1" "set m1 \<subseteq> set xs" using Cons by blast
  moreover obtain m2 where "asap_push n (insert (r_dedup_key x) seen) (ranked @ [x]) xs
      = (ranked @ [x]) @ m2" "set m2 \<subseteq> set xs" using Cons by blast
  ultimately show ?case by auto
qed

lemma asap_push_distinct:
  "distinct (map r_dedup_key ranked) \<Longrightarrow> r_dedup_key ` set ranked \<subseteq> seen \<Longrightarrow>
     distinct (map r_dedup_key (asap_push n seen ranked items))"
  by (induction n seen ranked items rule: asap_push.induct) auto

lemma asap_push_complete:
  "length (asap_push n seen ranked items) < n \<Longrightarrow> seen \<subseteq> r_dedup_key ` set ranked \<Longrightarrow>
     r_dedup_key ` set items \<subseteq> r_dedup_key ` set (asap_push n seen ranked items)"
proof (induction n seen ranked items rule: asap_push.induct)
  case (1 top_n seen ranked)
  then show ?case by simp
next
  case (2 top_n seen ranked item items)
  have ext: "r_dedup_key ` set ranked' \<subseteq> r_dedup_key ` set (asap_push top_n s ranked' items)" for s ranked'
    using asap_push_extends[of top_n s ranked' items] by auto
  consider "top_n \<le> length ranked" | "\<not> top_n \<le> length ranked" "r_dedup_key item \<in> seen"
    | "\<not> top_n \<le> length ranked" "r_dedup_key item \<notin> seen" by blast
  then show ?case
  proof cases
    case 1
    then show ?thesis using "2.prems" by simp
  next
    case 2
    with "2.IH"(1) "2.prems" ext[of ranked seen] show ?thesis by auto
  next
    case 3
    with "2.IH"(2) "2.prems" ext[of "ranked @ [item]" "insert (r_dedup_key item) seen"]
    show ?thesis by (auto simp: subset_insertI2)
  qed
qed

subsection \<open>What a ranking promises\<close>

text \<open>
  Ranking a probe's results keeps every result, orders them by the ranking comparison, puts
  everything reachable before everything else and numbers the places from one.
\<close>

lemma rank_configs_correct:
  assumes "list_all no_nan rs"
  shows "sorted_wrt (\<lambda>a b. compare_ranked a b \<noteq> Greater) (rank_configs rs)
     \<and> mset (map (set_rank 0) (rank_configs rs)) = mset (map (set_rank 0) rs)
     \<and> filter r_reachable (rank_configs rs) = takeWhile r_reachable (rank_configs rs)
     \<and> map r_rank (rank_configs rs) = [1..<length rs + 1]"
  using sorted_rank_configs[OF assms] mset_rank_configs[of rs] rank_configs_reachable_first[OF assms]
  by (simp add: rank_configs_def del: upt_Suc)

lemma rank_configs_correct_example:
  "\<exists>rs. length rs = 3 \<and> map r_rank (rank_configs rs) = [1, 2, 3]
     \<and> sorted_wrt (\<lambda>a b. compare_ranked a b \<noteq> Greater) (rank_configs rs)
     \<and> map r_uri (rank_configs rs) = [''b'', ''a'', ''c'']"
proof -
  let ?rs = "[sample_ranked ''a'' True 90, sample_ranked ''b'' True 20, sample_ranked ''c'' False 5]"
  have "list_all no_nan ?rs" by (simp add: no_nan_def sample_ranked_def)
  from rank_configs_correct[OF this] have "map r_rank (rank_configs ?rs) = [1, 2, 3]"
    "sorted_wrt (\<lambda>a b. compare_ranked a b \<noteq> Greater) (rank_configs ?rs)" by (simp_all add: numeral_2_eq_2 numeral_3_eq_3)
  moreover have "map r_uri (rank_configs ?rs) = [''b'', ''a'', ''c'']" by code_simp
  ultimately show ?thesis by (intro exI[of _ ?rs]) simp
qed

text \<open>
  The stability ranking counts, for every key, one more success when a working result with
  that key came (up to the counter's limit), keeps the count of a key that came only unreachable
  and forgets a key that did not come; it loses no result, each result carries its key's new
  count, and the order is the stability comparison's.
\<close>

lemma stability_ranking_correct:
  assumes "distinct (map r_dedup_key ranked)" and "list_all no_nan ranked"
    and "apply_stability_ranking ranked counts prev True = (out, counts')"
  shows "counts' = next_count ranked counts
     \<and> (\<forall>r\<in>set out. r_stability_count r = unwrap_or (counts' (r_dedup_key r)) 0)
     \<and> mset (map r_uri out) = mset (map r_uri ranked)
     \<and> sorted_wrt (\<lambda>a b. compare_stability_ranked a b \<noteq> Greater) out"
  using stability_counts_spec[OF assms(1), of counts prev True]
    stability_counts_agree[OF assms(1), of _ counts prev True]
    apply_stability_ranking_mset[of r_uri ranked counts prev True]
    apply_stability_ranking_sorted[OF assms(2), of counts prev] assms(3)
  by (simp add: fun_eq_iff)

lemma stability_ranking_correct_example:
  "\<exists>ranked out counts'. apply_stability_ranking ranked [''a'' \<mapsto> 4, ''z'' \<mapsto> 9] {} True = (out, counts')
     \<and> counts' ''a'' = Some 5 \<and> counts' ''z'' = None
     \<and> sorted_wrt (\<lambda>a b. compare_stability_ranked a b \<noteq> Greater) out"
proof -
  let ?rs = "[sample_ranked ''b'' True 20, sample_ranked ''a'' True 90]"
  obtain out counts' where a: "apply_stability_ranking ?rs [''a'' \<mapsto> 4, ''z'' \<mapsto> 9] {} True = (out, counts')"
    by fastforce
  have d: "distinct (map r_dedup_key ?rs)" "list_all no_nan ?rs"
    by (simp_all add: no_nan_def sample_ranked_def)
  show ?thesis
    using stability_ranking_correct[OF d a] a
    by (intro exI[of _ ?rs] exI[of _ out] exI[of _ counts'])
       (simp add: next_count_def sample_ranked_def sat_simps u32_max_def)
qed

text \<open>
  The final deduplication of a refresh leaves one result per key, loses no key, keeps the
  first result of each and the order of those it keeps, and renumbers them.
\<close>

lemma deduplicate_correct:
  "distinct (map r_dedup_key (deduplicate_ranked_configs rs))
   \<and> r_dedup_key ` set (deduplicate_ranked_configs rs) = r_dedup_key ` set rs
   \<and> map (set_rank 0) (deduplicate_ranked_configs rs)
       = map (set_rank 0) (fst (retain_new r_dedup_key {} rs))
   \<and> subseq (map (set_rank 0) (deduplicate_ranked_configs rs)) (map (set_rank 0) rs)
   \<and> map r_rank (deduplicate_ranked_configs rs) = [1..<length (deduplicate_ranked_configs rs) + 1]"
  using deduplicate_distinct[of rs] deduplicate_keys[of rs] deduplicate_subseq[of rs]
  by (simp add: deduplicate_ranked_configs_def map_number_set_rank del: upt_Suc)

end
