(* ===== verification/Runtime.thy ===== *)
theory Runtime
  imports Ranking
begin

text \<open>
  The handlers of \<open>src/main.rs\<close> that change \<open>RuntimeState\<close>: the bounded logs, the progress
  events a probe sends while it runs, the pending and error marks of a refresh.  The write lock
  each handler takes makes it one atomic step on the record; the wall-clock text and instant it
  reads are arguments.
\<close>

subsection \<open>Bounded logs\<close>

definition drop_extra :: "string list \<Rightarrow> string list" where
  "drop_extra logs =
     (if MAX_TUI_LOGS < length logs then drop (length logs - MAX_TUI_LOGS) logs else logs)"

definition push_runtime_log :: "string \<Rightarrow> runtime_state \<Rightarrow> runtime_state" where
  "push_runtime_log message s = s\<lparr>rs_logs := drop_extra (rs_logs s @ [message])\<rparr>"

definition push_live_log :: "string \<Rightarrow> runtime_state \<Rightarrow> runtime_state" where
  "push_live_log message s = s\<lparr>rs_live_logs := drop_extra (rs_live_logs s @ [message])\<rparr>"

definition timestamped_log :: "string \<Rightarrow> string \<Rightarrow> string" where
  "timestamped_log now message = now @ '' '' @ message"

lemma length_drop_extra [simp]: "length (drop_extra logs) \<le> MAX_TUI_LOGS"
  by (simp add: drop_extra_def)

lemma drop_extra_suffix: "suffix (drop_extra logs) logs"
  by (simp add: drop_extra_def suffix_drop)

lemma last_drop_extra: "last (drop_extra (logs @ [m])) = m"
  by (simp add: drop_extra_def MAX_TUI_LOGS_def)

subsection \<open>Progress events\<close>

definition append_asap_working_configs ::
  "ranked_config list \<Rightarrow> nat \<Rightarrow> string set \<Rightarrow> runtime_state \<Rightarrow> runtime_state" where
  "append_asap_working_configs configs top_n previous_top_n s =
     (if top_n = 0 then s
      else s\<lparr>rs_ranked := apply_found_order_ranks
             (apply_snapshot_stability_counts (asap_ranked (rs_ranked s) configs top_n)
                (rs_stable_working_counts s) previous_top_n)\<rparr>)"

fun push_tui_progress ::
  "string \<Rightarrow> progress_event \<Rightarrow> string set \<Rightarrow> runtime_state \<Rightarrow> runtime_state" where
  "push_tui_progress now (LiveLog message) previous_top_n s =
     push_live_log (timestamped_log now message) s"
| "push_tui_progress now (ProbeDelta tested working) previous_top_n s =
     s\<lparr>rs_tested_candidates := sat_add usize_max (rs_tested_candidates s) tested,
       rs_reachable_candidates := sat_add usize_max (rs_reachable_candidates s) working\<rparr>"
| "push_tui_progress now (RankedSnapshot ranked) previous_top_n s =
     s\<lparr>rs_ranked := apply_snapshot_ranks
         (apply_snapshot_stability_counts ranked (rs_stable_working_counts s) previous_top_n)\<rparr>"
| "push_tui_progress now (WorkingConfigsFound configs top_n) previous_top_n s =
     append_asap_working_configs configs top_n previous_top_n s"
| "push_tui_progress now (FetchedDelta fetched) previous_top_n s =
     s\<lparr>rs_total_candidates := fetched\<rparr>"

text \<open>The forwarder task drains its channel in order; each event carries the clock text it is read at.\<close>

fun forward_progress ::
  "(string \<times> progress_event) list \<Rightarrow> string set \<Rightarrow> runtime_state \<Rightarrow> runtime_state" where
  "forward_progress [] previous_top_n s = s"
| "forward_progress ((now, event) # events) previous_top_n s =
     forward_progress events previous_top_n (push_tui_progress now event previous_top_n s)"

subsection \<open>Refresh marks\<close>

definition mark_refresh_pending :: "string \<Rightarrow> nat \<Rightarrow> runtime_state \<Rightarrow> runtime_state" where
  "mark_refresh_pending now instant s =
     s\<lparr>rs_refreshing := True,
       rs_refresh_started_at := Some now,
       rs_refresh_started_instant := Some instant,
       rs_refresh_finished_at := None,
       rs_refresh_finished_instant := None\<rparr>"

definition record_refresh_error ::
  "string \<Rightarrow> nat \<Rightarrow> string \<Rightarrow> runtime_state \<Rightarrow> runtime_state" where
  "record_refresh_error now instant error s =
     push_runtime_log (''refresh error: '' @ error)
       (s\<lparr>rs_last_error := Some error,
          rs_refreshing := False,
          rs_refresh_finished_at := Some now,
          rs_refresh_finished_instant := Some instant,
          rs_total_candidates := 0,
          rs_tested_candidates := 0,
          rs_reachable_candidates := 0,
          rs_fetch_errors := [error]\<rparr>)"

definition add_fetch_bytes :: "nat \<Rightarrow> runtime_state \<Rightarrow> runtime_state" where
  "add_fetch_bytes bytes s =
     (if bytes = 0 then s
      else s\<lparr>rs_fetch_bytes := sat_add u64_max (rs_fetch_bytes s) bytes\<rparr>)"

subsection \<open>Durations\<close>

definition millis_to_seconds :: "nat \<Rightarrow> nat" where
  "millis_to_seconds ms = min (ms div 1000) u64_max"

definition format_seconds :: "nat \<Rightarrow> string" where
  "format_seconds seconds =
     (if seconds < 60 then show_nat seconds @ ''s''
      else show_nat (seconds div 60) @ ''m '' @ show_nat (seconds mod 60) @ ''s'')"

definition format_duration_short :: "nat \<Rightarrow> string" where
  "format_duration_short ms = format_seconds (millis_to_seconds ms)"

subsection \<open>The state's invariant\<close>

definition runtime_ok :: "runtime_state \<Rightarrow> bool" where
  "runtime_ok s \<longleftrightarrow> length (rs_logs s) \<le> MAX_TUI_LOGS \<and> length (rs_live_logs s) \<le> MAX_TUI_LOGS
     \<and> rs_tested_candidates s \<le> usize_max \<and> rs_reachable_candidates s \<le> usize_max
     \<and> rs_fetch_bytes s \<le> u64_max
     \<and> (\<forall>k n. rs_stable_working_counts s k = Some n \<longrightarrow> n \<le> u32_max)"

lemma runtime_ok_default: "runtime_ok runtime_state_default"
  by (simp add: runtime_ok_def runtime_state_default_def)

lemma append_asap_frame [simp]:
  "rs_logs (append_asap_working_configs c n p s) = rs_logs s"
  "rs_live_logs (append_asap_working_configs c n p s) = rs_live_logs s"
  "rs_tested_candidates (append_asap_working_configs c n p s) = rs_tested_candidates s"
  "rs_reachable_candidates (append_asap_working_configs c n p s) = rs_reachable_candidates s"
  "rs_fetch_bytes (append_asap_working_configs c n p s) = rs_fetch_bytes s"
  "rs_stable_working_counts (append_asap_working_configs c n p s) = rs_stable_working_counts s"
  by (simp_all add: append_asap_working_configs_def)

lemma push_tui_progress_ok: "runtime_ok s \<Longrightarrow> runtime_ok (push_tui_progress now e prev s)"
  by (cases e) (simp_all add: runtime_ok_def push_live_log_def)

lemma push_tui_progress_counts [simp]:
  "rs_stable_working_counts (push_tui_progress now e prev s) = rs_stable_working_counts s"
  by (cases e) (simp_all add: push_live_log_def)

lemma push_tui_progress_logs [simp]:
  "rs_logs (push_tui_progress now e prev s) = rs_logs s"
  by (cases e) (simp_all add: push_live_log_def)

lemma forward_progress_ok: "runtime_ok s \<Longrightarrow> runtime_ok (forward_progress es prev s)"
  by (induction es prev s rule: forward_progress.induct) (auto intro: push_tui_progress_ok)

lemma forward_progress_append:
  "forward_progress (es @ fs) prev s = forward_progress fs prev (forward_progress es prev s)"
  by (induction es prev s rule: forward_progress.induct) auto

subsection \<open>Results published as they are found\<close>

text \<open>What holds of \<open>state.ranked\<close> once a batch of working results has been appended.\<close>

definition asap_inv :: "nat \<Rightarrow> ranked_config list \<Rightarrow> bool" where
  "asap_inv top_n ranked \<longleftrightarrow> length ranked \<le> top_n \<and> list_all r_reachable ranked
     \<and> distinct (map r_dedup_key ranked) \<and> map r_rank ranked = [1..<length ranked + 1]"

lemma asap_ranked_props:
  "length (asap_ranked cur new n) \<le> n"
  "list_all r_reachable (asap_ranked cur new n)"
  "distinct (map r_dedup_key (asap_ranked cur new n))"
proof -
  obtain kept seen where r: "retain_new r_dedup_key {} (filter r_reachable cur) = (kept, seen)"
    by fastforce
  let ?all = "asap_push n seen kept (filter r_reachable new)"
  have eq: "asap_ranked cur new n = take n ?all" by (simp add: asap_ranked_def r)
  then show "length (asap_ranked cur new n) \<le> n" by simp
  have kept: "distinct (map r_dedup_key kept)" "set kept \<subseteq> set (filter r_reachable cur)"
    "r_dedup_key ` set kept = r_dedup_key ` set (filter r_reachable cur)"
    "seen = r_dedup_key ` set (filter r_reachable cur)"
    using retain_new_distinct[of r_dedup_key "{}" "filter r_reachable cur"]
      retain_new_set[of r_dedup_key "{}" "filter r_reachable cur"]
      retain_new_keys[of r_dedup_key "{}" "filter r_reachable cur"]
      retain_new_seen[of r_dedup_key "{}" "filter r_reachable cur"] r by auto
  have "distinct (map r_dedup_key ?all)"
    using kept by (intro asap_push_distinct) auto
  then show "distinct (map r_dedup_key (asap_ranked cur new n))"
    by (simp add: eq take_map[symmetric] distinct_take)
  have "set ?all \<subseteq> Collect r_reachable"
    using asap_push_extends[of n seen kept "filter r_reachable new"] kept(2) by auto
  then show "list_all r_reachable (asap_ranked cur new n)"
    by (auto simp: eq list_all_iff dest: in_set_takeD)
qed

lemma asap_counts_map:
  assumes "\<And>n r. g (r\<lparr>r_stability_count := n\<rparr>) = g r" and "\<And>n r. g (set_rank n r) = g r"
  shows "map g (apply_found_order_ranks (apply_snapshot_stability_counts rs counts prev)) = map g rs"
  using assms by (simp add: apply_found_order_ranks_def map_number_set_rank apply_snapshot_stability_map)

lemma append_asap_inv:
  assumes "0 < n"
  shows "asap_inv n (rs_ranked (append_asap_working_configs new n prev s))"
proof -
  let ?out = "rs_ranked (append_asap_working_configs new n prev s)"
  let ?in = "asap_ranked (rs_ranked s) new n"
  have out: "?out = apply_found_order_ranks
      (apply_snapshot_stability_counts ?in (rs_stable_working_counts s) prev)"
    using assms by (simp add: append_asap_working_configs_def)
  have keys: "map r_dedup_key ?out = map r_dedup_key ?in"
    unfolding out by (rule asap_counts_map) simp_all
  have reach: "map r_reachable ?out = map r_reachable ?in"
    unfolding out by (rule asap_counts_map) simp_all
  have "length ?out = length ?in" using keys map_eq_imp_length_eq by blast
  moreover have "list_all r_reachable ?out = list_all r_reachable ?in"
    using arg_cong[OF reach, of "list_all id"] by (simp add: list.pred_map)
  moreover have "map r_rank ?out = [1..<length ?out + 1]"
    by (simp add: out apply_found_order_ranks_def del: upt_Suc)
  ultimately show ?thesis
    unfolding asap_inv_def keys using asap_ranked_props[of "rs_ranked s" new n] by simp
qed

text \<open>A result already published keeps its place: the list only grows at its end.\<close>

lemma asap_ranked_prefix:
  assumes "asap_inv n cur"
  shows "prefix cur (asap_ranked cur new n)"
proof -
  have "filter r_reachable cur = cur"
    using assms by (auto simp: asap_inv_def list_all_iff filter_id_conv)
  moreover have "fst (retain_new r_dedup_key {} cur) = cur"
    using assms by (intro retain_new_idem) (auto simp: asap_inv_def)
  ultimately obtain seen where r: "retain_new r_dedup_key {} (filter r_reachable cur) = (cur, seen)"
    by (metis prod.collapse)
  obtain more where "asap_push n seen cur (filter r_reachable new) = cur @ more"
    using asap_push_extends[of n seen cur "filter r_reachable new"] by blast
  moreover have "length cur \<le> n" using assms by (simp add: asap_inv_def)
  ultimately show ?thesis by (simp add: asap_ranked_def r)
qed

lemma append_asap_prefix:
  assumes "asap_inv n (rs_ranked s)" and "0 < n"
  shows "prefix (map r_uri (rs_ranked s)) (map r_uri (rs_ranked (append_asap_working_configs new n prev s)))"
proof -
  have "map r_uri (rs_ranked (append_asap_working_configs new n prev s))
      = map r_uri (asap_ranked (rs_ranked s) new n)"
    using assms(2) by (simp add: append_asap_working_configs_def) (rule asap_counts_map; simp)
  then show ?thesis using asap_ranked_prefix[OF assms(1), of new] by (simp add: map_mono_prefix)
qed

text \<open>The results a run of events reports as tested.\<close>

fun tested_delta :: "progress_event \<Rightarrow> nat" where
  "tested_delta (ProbeDelta tested working) = tested"
| "tested_delta _ = 0"

lemma push_tui_progress_tested:
  "rs_tested_candidates s \<le> usize_max \<Longrightarrow>
     rs_tested_candidates (push_tui_progress now e prev s) =
       sat_add usize_max (rs_tested_candidates s) (tested_delta e)"
  by (cases e) (simp_all add: push_live_log_def sat_simps)

lemma forward_progress_tested:
  "rs_tested_candidates s \<le> usize_max \<Longrightarrow>
     rs_tested_candidates (forward_progress es prev s) =
       sat_add usize_max (rs_tested_candidates s) (\<Sum>(now, e)\<leftarrow>es. tested_delta e)"
proof (induction es arbitrary: s)
  case Nil
  then show ?case by (simp add: sat_simps)
next
  case (Cons x es)
  obtain now e where x: "x = (now, e)" by fastforce
  have "rs_tested_candidates (push_tui_progress now e prev s) \<le> usize_max"
    using push_tui_progress_tested[OF Cons.prems] by simp
  from Cons.IH[OF this] show ?case
    by (simp add: x push_tui_progress_tested[OF Cons.prems] sat_simps min_def)
qed

text \<open>
  However many progress events a refresh sends, the runtime state stays well formed (bounded
  logs and counters) and its tested counter is the sum of the reported deltas, cut off at the
  largest \<open>usize\<close>; the history log is not touched.
\<close>

lemma forward_progress_correct:
  assumes "runtime_ok s"
  shows "runtime_ok (forward_progress es prev s)
     \<and> rs_tested_candidates (forward_progress es prev s) =
         sat_add usize_max (rs_tested_candidates s) (\<Sum>(now, e)\<leftarrow>es. tested_delta e)
     \<and> rs_logs (forward_progress es prev s) = rs_logs s"
proof -
  have "rs_logs (forward_progress es prev s) = rs_logs s"
    by (induction es prev s rule: forward_progress.induct) simp_all
  then show ?thesis
    using assms forward_progress_ok[OF assms] forward_progress_tested[of s] by (simp add: runtime_ok_def)
qed

lemma forward_progress_correct_example:
  "runtime_ok runtime_state_default
   \<and> rs_tested_candidates (forward_progress
        [(''t'', ProbeDelta 3 1), (''t'', LiveLog ''x''), (''t'', ProbeDelta 2 0)] {} runtime_state_default) = 5"
  using forward_progress_correct[OF runtime_ok_default,
      of "[(''t'', ProbeDelta 3 1), (''t'', LiveLog ''x''), (''t'', ProbeDelta 2 0)]" "{}"]
    runtime_ok_default
  by (simp add: sat_simps usize_max_def runtime_state_default_def)

text \<open>
  Publishing working results as they are found keeps the published list at most as long as
  the wanted number, all of it reachable, without duplicates and numbered in order, and never
  moves or drops a result already published.
\<close>

lemma asap_publish_correct:
  assumes "asap_inv n (rs_ranked s)" and "0 < n"
  shows "asap_inv n (rs_ranked (append_asap_working_configs new n prev s))
     \<and> prefix (map r_uri (rs_ranked s)) (map r_uri (rs_ranked (append_asap_working_configs new n prev s)))"
  using append_asap_inv[OF assms(2)] append_asap_prefix[OF assms] by blast

lemma asap_publish_correct_example:
  "asap_inv 2 (rs_ranked runtime_state_default)
   \<and> asap_inv 2 (rs_ranked (append_asap_working_configs
        [sample_ranked ''a'' True 5, sample_ranked ''a'' True 6, sample_ranked ''b'' True 9] 2 {}
        runtime_state_default))"
  using asap_publish_correct[of 2 runtime_state_default
      "[sample_ranked ''a'' True 5, sample_ranked ''a'' True 6, sample_ranked ''b'' True 9]" "{}"]
  by (simp add: asap_inv_def runtime_state_default_def)

end
