(* ===== verification/Btree.thy ===== *)
theory Btree
  imports Strings
begin

text \<open>
  The ordered maps the program builds (\<open>BTreeMap<String, String>\<close> for link parameters, and the
  \<open>Map<String, Value>\<close> of JSON objects, which is a \<open>BTreeMap\<close> too), as association lists kept
  in key order; the interface the clients rely on is the locale \<open>ordered_map\<close>.  Also the
  \<open>Option\<close> and \<open>Result\<close> combinators the conversions are written with: a
  \<open>Result<T, Error>\<close> is a sum, \<^term>\<open>Inl\<close> holding the text of the error.
\<close>

subsection \<open>Option and Result\<close>

type_synonym 'a result = "string + 'a"

definition and_then :: "'e + 'a \<Rightarrow> ('a \<Rightarrow> 'e + 'b) \<Rightarrow> 'e + 'b" where
  "and_then r f = (case r of Inl e \<Rightarrow> Inl e | Inr v \<Rightarrow> f v)"

definition ok_or :: "'a option \<Rightarrow> 'e \<Rightarrow> 'e + 'a" where
  "ok_or x e = (case x of Some v \<Rightarrow> Inr v | None \<Rightarrow> Inl e)"

definition map_err :: "('e \<Rightarrow> 'f) \<Rightarrow> 'e + 'a \<Rightarrow> 'f + 'a" where
  "map_err f r = (case r of Inl e \<Rightarrow> Inl (f e) | Inr v \<Rightarrow> Inr v)"

lemma map_err_Inr [simp]: "map_err f r = Inr v \<longleftrightarrow> r = Inr v"
  by (cases r) (simp_all add: map_err_def)

definition or_else :: "'a option \<Rightarrow> 'a option \<Rightarrow> 'a option" where
  "or_else x y = (case x of Some v \<Rightarrow> Some v | None \<Rightarrow> y)"

definition filter_opt :: "('a \<Rightarrow> bool) \<Rightarrow> 'a option \<Rightarrow> 'a option" where
  "filter_opt P x = (case x of Some v \<Rightarrow> if P v then Some v else None | None \<Rightarrow> None)"

definition is_some_and :: "'a option \<Rightarrow> ('a \<Rightarrow> bool) \<Rightarrow> bool" where
  "is_some_and x P = (case x of Some v \<Rightarrow> P v | None \<Rightarrow> False)"

fun find_map :: "('a \<Rightarrow> 'b option) \<Rightarrow> 'a list \<Rightarrow> 'b option" where
  "find_map f [] = None"
| "find_map f (x # xs) = (case f x of Some v \<Rightarrow> Some v | None \<Rightarrow> find_map f xs)"

fun filter_map :: "('a \<Rightarrow> 'b option) \<Rightarrow> 'a list \<Rightarrow> 'b list" where
  "filter_map f [] = []"
| "filter_map f (x # xs) = (case f x of Some v \<Rightarrow> v # filter_map f xs | None \<Rightarrow> filter_map f xs)"

lemma and_then_simps [simp]: "and_then (Inl e) f = Inl e" "and_then (Inr v) f = f v"
  by (simp_all add: and_then_def)

lemma and_then_Inr_iff: "and_then r f = Inr y \<longleftrightarrow> (\<exists>x. r = Inr x \<and> f x = Inr y)"
  by (cases r) auto

lemma not_isl_Inr: "\<not> isl r \<Longrightarrow> \<exists>v. r = Inr v"
  by (cases r) auto

lemma ok_or_simps [simp]: "ok_or None e = Inl e" "ok_or (Some v) e = Inr v"
  by (simp_all add: ok_or_def)

lemma ok_or_Inr_iff [simp]: "ok_or x e = Inr v \<longleftrightarrow> x = Some v"
  by (cases x) simp_all

lemma or_else_simps [simp]: "or_else None y = y" "or_else (Some v) y = Some v"
  by (simp_all add: or_else_def)

lemma filter_opt_Some [simp]: "filter_opt P x = Some v \<longleftrightarrow> x = Some v \<and> P v"
  by (cases x) (auto simp: filter_opt_def)

lemma filter_opt_None [simp]: "filter_opt P None = None"
  by (simp add: filter_opt_def)

lemma is_some_and_simps [simp]: "is_some_and None P = False" "is_some_and (Some v) P = P v"
  by (simp_all add: is_some_and_def)

lemma find_map_Some: "find_map f xs = Some v \<Longrightarrow> \<exists>x\<in>set xs. f x = Some v"
  by (induction xs) (auto split: option.splits)

lemma find_map_None: "find_map f xs = None \<longleftrightarrow> (\<forall>x\<in>set xs. f x = None)"
  by (induction xs) (auto split: option.splits)

lemma set_filter_map: "set (filter_map f xs) = {v. \<exists>x\<in>set xs. f x = Some v}"
  by (induction xs) (auto split: option.splits)

lemma filter_map_append [simp]: "filter_map f (xs @ ys) = filter_map f xs @ filter_map f ys"
  by (induction xs) (auto split: option.splits)

subsection \<open>Ordered maps\<close>

fun bt_insert :: "'k::linorder \<Rightarrow> 'v \<Rightarrow> ('k \<times> 'v) list \<Rightarrow> ('k \<times> 'v) list" where
  "bt_insert k v [] = [(k, v)]"
| "bt_insert k v ((k', v') # xs) =
     (if k < k' then (k, v) # (k', v') # xs
      else if k = k' then (k, v) # xs
      else (k', v') # bt_insert k v xs)"

definition bt_get :: "('k \<times> 'v) list \<Rightarrow> 'k \<Rightarrow> 'v option" where
  "bt_get m k = map_of m k"

definition bt_inv :: "('k::linorder \<times> 'v) list \<Rightarrow> bool" where
  "bt_inv m \<longleftrightarrow> sorted_wrt (<) (map fst m)"

text \<open>\<open>iter.collect::<BTreeMap<_, _>>()\<close>: a later pair replaces an earlier one.\<close>

definition bt_collect :: "('k::linorder \<times> 'v) list \<Rightarrow> ('k \<times> 'v) list" where
  "bt_collect kvs = fold (\<lambda>(k, v) m. bt_insert k v m) kvs []"

locale ordered_map =
  fixes empty :: 'm
    and insert :: "'k \<Rightarrow> 'v \<Rightarrow> 'm \<Rightarrow> 'm"
    and get :: "'m \<Rightarrow> 'k \<Rightarrow> 'v option"
    and inv :: "'m \<Rightarrow> bool"
  assumes inv_empty: "inv empty"
    and inv_insert: "inv m \<Longrightarrow> inv (insert k v m)"
    and get_empty: "get empty k = None"
    and get_insert: "inv m \<Longrightarrow> get (insert k v m) k' = (if k' = k then Some v else get m k')"
begin

definition insert_all :: "('k \<times> 'v) list \<Rightarrow> 'm \<Rightarrow> 'm" where
  "insert_all kvs m = fold (\<lambda>(k, v) m. insert k v m) kvs m"

lemma inv_insert_all: "inv m \<Longrightarrow> inv (insert_all kvs m)"
  by (induction kvs arbitrary: m) (auto simp: insert_all_def inv_insert)

lemma get_insert_all:
  "inv m \<Longrightarrow> get (insert_all kvs m) k =
     (case map_of (rev kvs) k of Some v \<Rightarrow> Some v | None \<Rightarrow> get m k)"
proof (induction kvs arbitrary: m)
  case Nil
  then show ?case by (simp add: insert_all_def)
next
  case (Cons kv kvs)
  obtain k1 v1 where kv: "kv = (k1, v1)" by fastforce
  have "insert_all (kv # kvs) m = insert_all kvs (insert k1 v1 m)"
    by (simp add: insert_all_def kv)
  then show ?case
    using Cons.IH[OF inv_insert[OF Cons.prems]] Cons.prems
    by (auto simp: kv map_add_def get_insert split: option.splits)
qed

end

lemma bt_insert_keys: "fst ` set (bt_insert k v m) = Set.insert k (fst ` set m)"
  by (induction k v m rule: bt_insert.induct) auto

lemma bt_inv_Cons: "bt_inv ((k, v) # m) \<longleftrightarrow> (\<forall>x\<in>fst ` set m. k < x) \<and> bt_inv m"
  by (auto simp: bt_inv_def)

lemma bt_inv_insert: "bt_inv m \<Longrightarrow> bt_inv (bt_insert k v m)"
proof (induction k v m rule: bt_insert.induct)
  case (1 k v)
  then show ?case by (simp add: bt_inv_def)
next
  case (2 k v k' v' xs)
  consider "k < k'" | "k = k'" | "k' < k" by fastforce
  then show ?case
  proof cases
    case 1
    then show ?thesis using "2.prems" by (auto simp: bt_inv_Cons)
  next
    case 2
    then show ?thesis using "2.prems" by (auto simp: bt_inv_Cons)
  next
    case 3
    then have "bt_inv (bt_insert k v xs)" using 2 by (simp add: bt_inv_Cons)
    then show ?thesis using "2.prems" 3 by (auto simp: bt_inv_Cons bt_insert_keys)
  qed
qed

lemma bt_get_insert:
  "bt_inv m \<Longrightarrow> bt_get (bt_insert k v m) k' = (if k' = k then Some v else bt_get m k')"
  by (induction k v m rule: bt_insert.induct) (auto simp: bt_inv_def bt_get_def)

interpretation bt: ordered_map "[] :: ('k::linorder \<times> 'v) list" bt_insert bt_get bt_inv
  by unfold_locales (simp_all add: bt_inv_insert bt_get_insert, simp_all add: bt_inv_def bt_get_def)

lemma bt_collect_insert_all: "bt_collect kvs = bt.insert_all kvs []"
  by (simp add: bt_collect_def bt.insert_all_def)

lemma bt_inv_collect [simp]: "bt_inv (bt_collect kvs)"
  by (simp add: bt_collect_insert_all bt.inv_insert_all bt.inv_empty)

lemma bt_get_collect: "bt_get (bt_collect kvs) k = map_of (rev kvs) k"
  by (simp add: bt_collect_insert_all bt.get_insert_all bt.inv_empty bt.get_empty
      split: option.splits)

lemma bt_inv_Nil [simp]: "bt_inv []"
  by (rule bt.inv_empty)

lemma bt_get_Nil [simp]: "bt_get [] k = None"
  by (simp add: bt_get_def)

declare bt_insert.simps [simp del]

lemmas bt_simps = bt_inv_insert bt_get_insert

end
