(* ===== verification/Json.thy ===== *)
theory Json
  imports Btree
begin

text \<open>
  JSON values as the program sees them (\<open>serde_json::Value\<close>): the enumeration, \<open>get\<close> and the
  \<open>as_*\<close> accessors, and the readers of \<open>src/convert.rs\<close> built on them.
\<close>

datatype json_number = PosInt nat | NegInt int | Float f64

datatype json =
    JNull
  | JBool bool
  | JNumber json_number
  | JString string
  | JArray "json list"
  | JObject "(string \<times> json) list"

fun json_get :: "json \<Rightarrow> string \<Rightarrow> json option" where
  "json_get (JObject m) k = bt_get m k"
| "json_get _ k = None"

fun as_str :: "json \<Rightarrow> string option" where
  "as_str (JString s) = Some s"
| "as_str _ = None"

fun as_u64 :: "json \<Rightarrow> nat option" where
  "as_u64 (JNumber (PosInt n)) = Some n"
| "as_u64 _ = None"

fun as_bool :: "json \<Rightarrow> bool option" where
  "as_bool (JBool b) = Some b"
| "as_bool _ = None"

fun as_array :: "json \<Rightarrow> json list option" where
  "as_array (JArray xs) = Some xs"
| "as_array _ = None"

fun as_object :: "json \<Rightarrow> (string \<times> json) list option" where
  "as_object (JObject m) = Some m"
| "as_object _ = None"

definition json_num :: "nat \<Rightarrow> json" where
  "json_num n = JNumber (PosInt n)"

text \<open>\<open>json!({ ... })\<close>: the pairs inserted into an ordered map.\<close>

definition json_obj :: "(string \<times> json) list \<Rightarrow> json" where
  "json_obj kvs = JObject (bt_collect kvs)"

subsection \<open>Readers\<close>

definition json_string :: "json \<Rightarrow> string list \<Rightarrow> string option" where
  "json_string value keys =
     find_map (\<lambda>key. filter_opt (\<lambda>v. v \<noteq> []) (Option.bind (json_get value key) as_str)) keys"

definition json_u64 :: "json \<Rightarrow> string list \<Rightarrow> nat option" where
  "json_u64 value keys =
     find_map (\<lambda>key. Option.bind (json_get value key)
       (\<lambda>v. or_else (as_u64 v) (Option.bind (as_str v) (parse_uint u64_max)))) keys"

definition json_u16 :: "json \<Rightarrow> string list \<Rightarrow> nat option" where
  "json_u16 value keys =
     Option.bind (json_u64 value keys) (\<lambda>v. if v \<le> u16_max then Some v else None)"

lemma json_get_obj [simp]: "json_get (json_obj kvs) k = map_of (rev kvs) k"
  by (simp add: json_obj_def bt_get_collect)

lemma json_string_nonempty: "json_string value keys = Some s \<Longrightarrow> s \<noteq> []"
  unfolding json_string_def by (auto dest!: find_map_Some)

lemma json_u16_le: "json_u16 value keys = Some p \<Longrightarrow> p \<le> u16_max"
  unfolding json_u16_def by (auto simp: bind_eq_Some_conv split: if_splits)

end
