(* ===== verification/Links.thy ===== *)
theory Links
  imports Json Model
begin

text \<open>
  The helpers of \<open>src/convert.rs\<close> that the parser, the prober and the converter share: base64
  and percent decoding, host and port splitting, query parameters, and the structured fields of a
  share link.

  The crates the code calls are the record \<open>crates\<close> of functions, an argument of every
  definition that uses one: the four \<open>base64\<close> engines, \<open>percent_encoding\<close>,
  \<open>url::Url::parse\<close> (the parsed URL as the record of what its accessors return),
  \<open>form_urlencoded::parse\<close> and \<open>serde_json::from_str\<close>.
\<close>

subsection \<open>What the crates provide\<close>

datatype b64_engine = STANDARD | URL_SAFE | STANDARD_NO_PAD | URL_SAFE_NO_PAD

record url_parts =
  url_scheme :: string
  url_username :: string
  url_password :: "string option"
  url_host_str :: "string option"
  url_port :: "nat option"
  url_path :: string
  url_query :: "string option"
  url_fragment :: "string option"
  url_query_pairs :: "(string \<times> string) list"

record crates =
  b64_decode :: "b64_engine \<Rightarrow> string \<Rightarrow> string option"
  percent_decode_lossy :: "string \<Rightarrow> string"
  url_parse :: "string \<Rightarrow> url_parts result"
  form_parse :: "string \<Rightarrow> (string \<times> string) list"
  json_from_str :: "string \<Rightarrow> json result"

subsection \<open>UTF-8\<close>

text \<open>\<open>String::from_utf8\<close>: the byte sequences that encode scalar values.\<close>

definition is_cont :: "nat \<Rightarrow> bool" where
  "is_cont b \<longleftrightarrow> 128 \<le> b \<and> b \<le> 191"

definition utf8_second_ok :: "nat \<Rightarrow> nat \<Rightarrow> bool" where
  "utf8_second_ok a b \<longleftrightarrow> is_cont b \<and> (a = 224 \<longrightarrow> 160 \<le> b) \<and> (a = 237 \<longrightarrow> b \<le> 159)
     \<and> (a = 240 \<longrightarrow> 144 \<le> b) \<and> (a = 244 \<longrightarrow> b \<le> 143)"

fun utf8_valid :: "nat list \<Rightarrow> bool" where
  "utf8_valid [] = True"
| "utf8_valid (a # rest) =
     (if a \<le> 127 then utf8_valid rest
      else if 194 \<le> a \<and> a \<le> 223 then
        (case rest of b # rest' \<Rightarrow> is_cont b \<and> utf8_valid rest' | _ \<Rightarrow> False)
      else if 224 \<le> a \<and> a \<le> 239 then
        (case rest of b # c # rest' \<Rightarrow> utf8_second_ok a b \<and> is_cont c \<and> utf8_valid rest' | _ \<Rightarrow> False)
      else if 240 \<le> a \<and> a \<le> 244 then
        (case rest of b # c # d # rest' \<Rightarrow>
           utf8_second_ok a b \<and> is_cont c \<and> is_cont d \<and> utf8_valid rest' | _ \<Rightarrow> False)
      else False)"

definition string_from_utf8 :: "string \<Rightarrow> string option" where
  "string_from_utf8 bytes = (if utf8_valid (map byte_of bytes) then Some bytes else None)"

subsection \<open>Decoding\<close>

lemma pad_measure:
  assumes "0 < n mod 4" shows "(4 - Suc n mod 4) mod 4 < 4 - n mod (4::nat)"
proof -
  have "n mod 4 = 1 \<or> n mod 4 = 2 \<or> n mod 4 = 3" using assms by linarith
  then show ?thesis by (auto simp: mod_Suc)
qed

function pad_base64 :: "string \<Rightarrow> string" where
  "pad_base64 value = (if length value mod 4 = 0 then value else pad_base64 (value @ ''=''))"
  by pat_completeness auto
termination
  by (relation "measure (\<lambda>s. (4 - length s mod 4) mod 4)") (simp_all add: pad_measure del: mod_0_imp_dvd)

declare pad_base64.simps [simp del]

definition decode_base64_bytes :: "crates \<Rightarrow> string \<Rightarrow> string option" where
  "decode_base64_bytes L value =
     (let normalized = filter (\<lambda>c. c \<noteq> CHR 13 \<and> c \<noteq> CHR 10) (trim value) in
      if normalized = [] then None
      else case find_map (\<lambda>e. b64_decode L e normalized)
                  [STANDARD, URL_SAFE, STANDARD_NO_PAD, URL_SAFE_NO_PAD] of
             Some decoded \<Rightarrow> Some decoded
           | None \<Rightarrow> find_map (\<lambda>e. b64_decode L e (pad_base64 normalized)) [STANDARD, URL_SAFE])"

definition decode_base64_to_string :: "crates \<Rightarrow> string \<Rightarrow> string option" where
  "decode_base64_to_string L value = Option.bind (decode_base64_bytes L value) string_from_utf8"

definition percent_decode :: "crates \<Rightarrow> string \<Rightarrow> string" where
  "percent_decode L value = trim (percent_decode_lossy L value)"

subsection \<open>Splitting\<close>

definition split_once_opt :: "string \<Rightarrow> char \<Rightarrow> string \<times> string option" where
  "split_once_opt value delimiter =
     (case split_once_char value delimiter of
        None \<Rightarrow> (value, None) | Some (left, right) \<Rightarrow> (left, Some right))"

definition parse_host_port :: "string \<Rightarrow> (string \<times> nat) result" where
  "parse_host_port value0 =
     (let value = trim value0 in
      case strip_prefix value ''['' of
        Some rest \<Rightarrow>
          and_then (ok_or (split_once_char rest (CHR '']'')) ''invalid IPv6 endpoint'') (\<lambda>(host, tail).
          and_then (ok_or (Option.bind (strip_prefix tail '':'') (parse_uint u16_max))
                      ''endpoint has no port'') (\<lambda>port.
          Inr (host, port)))
      | None \<Rightarrow>
          and_then (ok_or (rsplit_once_char value (CHR '':'')) ''endpoint has no port'') (\<lambda>(host, port).
          and_then (ok_or (parse_uint u16_max port) ''invalid endpoint port'') (\<lambda>port.
          Inr (host, port))))"

subsection \<open>Parameters\<close>

definition query_pairs :: "crates \<Rightarrow> string \<Rightarrow> (string \<times> string) list" where
  "query_pairs L query = bt_collect (form_parse L query)"

definition first_param :: "(string \<times> string) list \<Rightarrow> string list \<Rightarrow> string option" where
  "first_param params keys = find_map (\<lambda>key. filter_opt (\<lambda>v. v \<noteq> []) (bt_get params key)) keys"

definition truthy :: "string \<Rightarrow> bool" where
  "truthy value \<longleftrightarrow> to_ascii_lowercase value \<in> {''1'', ''true'', ''yes'', ''y''}"

subsection \<open>The fields of a share link\<close>

record vmess_fields_rec =
  vf_host :: string
  vf_port :: nat
  vf_name :: string
  vf_uuid :: string
  vf_aid :: nat
  vf_security :: string
  vf_net :: "string option"
  vf_tls :: "string option"
  vf_sni :: "string option"
  vf_host_header :: "string option"
  vf_path :: "string option"
  vf_alpn :: "string option"
  vf_fp :: "string option"

definition host_port_name :: "string \<Rightarrow> nat \<Rightarrow> string" where
  "host_port_name host port = host @ '':'' @ show_nat port"

definition vmess_fields :: "crates \<Rightarrow> string \<Rightarrow> vmess_fields_rec result" where
  "vmess_fields L uri =
     and_then (ok_or (strip_prefix uri ''vmess://'') ''invalid VMess URI'') (\<lambda>payload.
     and_then (ok_or (decode_base64_to_string L payload)
                 ''VMess payload is not valid base64 UTF-8'') (\<lambda>decoded.
     and_then (case json_from_str L decoded of
                 Inl e \<Rightarrow> Inl (''VMess payload is not JSON: '' @ e) | Inr j \<Rightarrow> Inr j) (\<lambda>j.
     and_then (ok_or (json_string j [''add'', ''address'']) ''VMess payload has no server address'') (\<lambda>host.
     and_then (ok_or (json_u16 j [''port'']) ''VMess payload has no port'') (\<lambda>port.
     and_then (ok_or (json_string j [''id'']) ''VMess payload has no UUID'') (\<lambda>uuid.
     Inr \<lparr> vf_host = host, vf_port = port,
           vf_name = unwrap_or (filter_opt (\<lambda>v. v \<noteq> []) (json_string j [''ps'']))
                       (host_port_name host port),
           vf_uuid = uuid,
           vf_aid = unwrap_or (json_u64 j [''aid'', ''alterId'']) 0,
           vf_security = unwrap_or (json_string j [''scy'', ''security'']) ''auto'',
           vf_net = json_string j [''net''], vf_tls = json_string j [''tls''],
           vf_sni = json_string j [''sni''], vf_host_header = json_string j [''host''],
           vf_path = json_string j [''path''], vf_alpn = json_string j [''alpn''],
           vf_fp = json_string j [''fp''] \<rparr>))))))"

record uri_fields =
  uf_scheme :: string
  uf_host :: string
  uf_port :: nat
  uf_username :: string
  uf_password :: "string option"
  uf_name :: string
  uf_params :: "(string \<times> string) list"

definition standard_uri_fields :: "crates \<Rightarrow> string \<Rightarrow> uri_fields result" where
  "standard_uri_fields L uri =
     and_then (case url_parse L uri of Inl e \<Rightarrow> Inl (''invalid URI: '' @ e) | Inr u \<Rightarrow> Inr u) (\<lambda>url.
     and_then (ok_or (url_host_str url) ''URI has no host'') (\<lambda>host.
     and_then (ok_or (url_port url) ''URI has no port'') (\<lambda>port.
     Inr \<lparr> uf_scheme = url_scheme url, uf_host = host, uf_port = port,
           uf_username = percent_decode L (url_username url),
           uf_password = map_option (percent_decode L) (url_password url),
           uf_name = unwrap_or (filter_opt (\<lambda>v. v \<noteq> []) (map_option (percent_decode L) (url_fragment url)))
                       (host_port_name host port),
           uf_params = bt_collect (url_query_pairs url) \<rparr>)))"

record ss_fields =
  sf_host :: string
  sf_port :: nat
  sf_method :: string
  sf_password :: string
  sf_name :: string
  sf_plugin :: "string option"
  sf_plugin_opts :: "string option"

definition normalize_ss_method :: "string \<Rightarrow> string result" where
  "normalize_ss_method method =
     (let lower = to_ascii_lowercase method in
      if lower = ''ss'' then Inl ''unsupported Shadowsocks method: ss''
      else if lower = ''chacha20-poly1305'' then Inr ''chacha20-ietf-poly1305''
      else if lower = ''xchacha20-poly1305'' then Inr ''xchacha20-ietf-poly1305''
      else Inr lower)"

text \<open>
  The part the three readers of \<open>ss://\<close> links share word for word: from the text before the
  query to the method, the password and the endpoint.
\<close>

definition ss_authority :: "crates \<Rightarrow> string \<Rightarrow> (string \<times> string \<times> string \<times> nat) result" where
  "ss_authority L authority_part =
     and_then (if CHR ''@'' \<in> set authority_part then Inr authority_part
               else ok_or (decode_base64_to_string L authority_part)
                      ''invalid Shadowsocks base64 authority'') (\<lambda>authority.
     and_then (ok_or (rsplit_once_char authority (CHR ''@''))
                 ''Shadowsocks link has no user info'') (\<lambda>(userinfo, endpoint).
     and_then (if CHR '':'' \<in> set userinfo then Inr (percent_decode L userinfo)
               else ok_or (decode_base64_to_string L userinfo)
                      ''invalid Shadowsocks base64 user info'') (\<lambda>userinfo.
     and_then (ok_or (split_once_char userinfo (CHR '':''))
                 ''Shadowsocks user info must be method:password'') (\<lambda>(method, password).
     and_then (parse_host_port endpoint) (\<lambda>(host, port).
     Inr (method, password, host, port))))))"

definition ss_plugin :: "crates \<Rightarrow> string option \<Rightarrow> (string \<times> string option) option" where
  "ss_plugin L query =
     Option.bind query (\<lambda>q. map_option (\<lambda>p. split_once_opt p (CHR '';''))
       (first_param (query_pairs L q) [''plugin'']))"

definition shadowsocks_fields :: "crates \<Rightarrow> string \<Rightarrow> ss_fields result" where
  "shadowsocks_fields L uri =
     and_then (ok_or (strip_prefix uri ''ss://'') ''invalid Shadowsocks URI'') (\<lambda>body.
     let (without_fragment, fragment) = split_once_opt body (CHR ''#'');
         (authority_part, query) = split_once_opt without_fragment (CHR ''?'')
     in and_then (ss_authority L authority_part) (\<lambda>(method, password, host, port).
        and_then (normalize_ss_method method) (\<lambda>method'.
        Inr \<lparr> sf_host = host, sf_port = port, sf_method = method', sf_password = password,
              sf_name = unwrap_or (filter_opt (\<lambda>v. v \<noteq> []) (map_option (percent_decode L) fragment))
                          (host_port_name host port),
              sf_plugin = map_option fst (ss_plugin L query),
              sf_plugin_opts = Option.bind (ss_plugin L query) snd \<rparr>)))"

subsection \<open>Facts about the helpers\<close>

lemma pad_base64_eq: "pad_base64 v = v @ replicate ((4 - length v mod 4) mod 4) (CHR ''='')"
proof (induction v rule: pad_base64.induct)
  case (1 v)
  show ?case
  proof (cases "length v mod 4 = 0")
    case True
    then show ?thesis by (simp add: pad_base64.simps[of v])
  next
    case False
    then consider "length v mod 4 = 1" | "length v mod 4 = 2" | "length v mod 4 = 3" by linarith
    then show ?thesis using 1 False by cases (simp_all add: pad_base64.simps[of v] mod_Suc numeral_2_eq_2 numeral_3_eq_3)
  qed
qed

lemma pad_base64_length: "length (pad_base64 v) mod 4 = 0"
proof -
  have "(n + (4 - n mod 4) mod 4) mod 4 = 0" for n :: nat
  proof -
    consider "n mod 4 = 0" | "n mod 4 = 1" | "n mod 4 = 2" | "n mod 4 = 3" by linarith
    then have "(n mod 4 + (4 - n mod 4) mod 4) mod 4 = 0" by cases simp_all
    then show ?thesis by (simp only: mod_add_left_eq)
  qed
  then show ?thesis by (simp only: pad_base64_eq length_append length_replicate)
qed

lemma split_once_opt_eq:
  "split_once_opt s d = (l, None) \<longleftrightarrow> s = l \<and> d \<notin> set l"
  "split_once_opt s d = (l, Some r) \<longleftrightarrow> s = l @ d # r \<and> d \<notin> set l"
proof -
  show "split_once_opt s d = (l, None) \<longleftrightarrow> s = l \<and> d \<notin> set l"
    using split_once_char_None_iff[of s d]
    by (cases "split_once_char s d") (auto simp: split_once_opt_def)
  show "split_once_opt s d = (l, Some r) \<longleftrightarrow> s = l @ d # r \<and> d \<notin> set l"
  proof
    assume "split_once_opt s d = (l, Some r)"
    then have "split_once_char s d = Some (l, r)"
      by (auto simp: split_once_opt_def split: option.splits)
    then show "s = l @ d # r \<and> d \<notin> set l" by (rule split_once_char_Some)
  next
    assume "s = l @ d # r \<and> d \<notin> set l"
    then show "split_once_opt s d = (l, Some r)" by (simp add: split_once_opt_def)
  qed
qed

lemma parse_host_port_le: "parse_host_port v = Inr (h, p) \<Longrightarrow> p \<le> u16_max"
  by (auto simp: parse_host_port_def Let_def and_then_Inr_iff bind_eq_Some_conv
      split: option.splits prod.splits dest: parse_uint_le)

lemma first_param_nonempty: "first_param ps keys = Some v \<Longrightarrow> v \<noteq> []"
  unfolding first_param_def by (auto dest!: find_map_Some)

lemma first_param_mem: "first_param ps keys = Some v \<Longrightarrow> \<exists>k\<in>set keys. bt_get ps k = Some v"
  unfolding first_param_def by (auto dest!: find_map_Some)

lemma vmess_fields_port: "vmess_fields L uri = Inr f \<Longrightarrow> vf_port f \<le> u16_max"
  by (auto simp: vmess_fields_def and_then_Inr_iff dest: json_u16_le)

lemma ss_authority_port: "ss_authority L a = Inr (m, pw, h, p) \<Longrightarrow> p \<le> u16_max"
  by (auto simp: ss_authority_def and_then_Inr_iff split: prod.splits dest: parse_host_port_le)

text \<open>White space is what \<open>trim\<close> takes off; a text with none of it is left alone.\<close>

lemma ws_prefix_0: "\<forall>c\<in>set s. 33 \<le> byte_of c \<and> byte_of c < 128 \<Longrightarrow> ws_prefix s = 0"
  by (induction s rule: ws_prefix.induct) (auto simp: ws1_def ws2_def ws3_def)

lemma ws_suffix_rev_0: "\<forall>c\<in>set s. 33 \<le> byte_of c \<and> byte_of c < 128 \<Longrightarrow> ws_suffix_rev s = 0"
  by (induction s rule: ws_suffix_rev.induct) (auto simp: ws1_def ws2_def ws3_def)

lemma trim_graphic: "\<forall>c\<in>set s. 33 \<le> byte_of c \<and> byte_of c < 128 \<Longrightarrow> trim s = s"
  by (simp add: trim_def trim_start_def trim_end_def drop_ws_fixed ws_prefix_0 ws_suffix_rev_0)

definition graphic :: "string \<Rightarrow> bool" where
  "graphic s \<longleftrightarrow> (\<forall>c\<in>set s. 33 \<le> byte_of c \<and> byte_of c < 128)"

lemma graphic_simps [simp]:
  "graphic []" "graphic (c # s) \<longleftrightarrow> 33 \<le> byte_of c \<and> byte_of c < 128 \<and> graphic s"
  "graphic (s @ t) \<longleftrightarrow> graphic s \<and> graphic t"
  by (auto simp: graphic_def)

lemma graphic_show_nat [simp]: "graphic (show_nat n)"
  using show_nat_digits[of _ n] by (fastforce simp: graphic_def is_ascii_digit_def)

lemma show_nat_no_colon [simp]: "CHR '':'' \<notin> set (show_nat n)" "CHR '']'' \<notin> set (show_nat n)"
  using show_nat_digits[of _ n] by (force simp: is_ascii_digit_def byte_of_def)+

lemma parse_host_port_plain:
  assumes "graphic host" and "\<not> starts_with host ''[''" and "port \<le> u16_max"
  shows "parse_host_port (host @ '':'' @ show_nat port) = Inr (host, port)"
proof -
  have t: "trim (host @ '':'' @ show_nat port) = host @ '':'' @ show_nat port"
    by (rule trim_graphic) (use assms(1) in \<open>fold graphic_def, simp add: byte_of_def\<close>)
  have "\<not> starts_with (host @ '':'' @ show_nat port) ''[''"
    using assms(2) by (cases host) (auto simp: starts_with_def)
  then show ?thesis
    using assms(3) t
    by (simp add: parse_host_port_def Let_def strip_prefix_def parse_uint_show_nat)
qed

lemma parse_host_port_ipv6:
  assumes "graphic host" and "CHR '']'' \<notin> set host" and "port \<le> u16_max"
  shows "parse_host_port (''['' @ host @ '']:'' @ show_nat port) = Inr (host, port)"
proof -
  have t: "trim (''['' @ host @ '']:'' @ show_nat port) = ''['' @ host @ '']:'' @ show_nat port"
    by (rule trim_graphic) (use assms(1) in \<open>fold graphic_def, simp add: byte_of_def\<close>)
  have s: "split_once_char (host @ CHR '']'' # CHR '':'' # show_nat port) (CHR '']'')
             = Some (host, '':'' @ show_nat port)"
    using assms(2) by simp
  show ?thesis
    using assms(3) t s
    by (simp add: parse_host_port_def strip_prefix_def starts_with_def parse_uint_show_nat)
qed

subsection \<open>Sample crates\<close>

text \<open>
  An instance of the crates for concrete examples: decoders that leave their input alone, and
  parsers that answer with one URL, one list of parameters and one JSON document.
\<close>

definition sample_url :: url_parts where
  "sample_url = \<lparr> url_scheme = ''trojan'', url_username = ''secret'', url_password = None,
     url_host_str = Some ''example.com'', url_port = Some 443, url_path = [], url_query = None,
     url_fragment = Some ''A'', url_query_pairs = [(''type'', ''ws''), (''path'', ''/p'')] \<rparr>"

definition sample_json :: json where
  "sample_json = json_obj [(''add'', JString ''example.com''), (''port'', json_num 443),
     (''id'', JString ''u''), (''net'', JString ''grpc''), (''path'', JString ''svc'')]"

definition sample_crates :: crates where
  "sample_crates = \<lparr> b64_decode = (\<lambda>_ s. Some s), percent_decode_lossy = (\<lambda>s. s),
     url_parse = (\<lambda>_. Inr sample_url), form_parse = (\<lambda>_. []),
     json_from_str = (\<lambda>_. Inr sample_json) \<rparr>"

end
