(* ===== verification/Outbound.thy ===== *)
theory Outbound
  imports Links
begin

text \<open>
  From a share link to a sing-box outbound, and from outbounds to the configuration of one test
  process (\<open>sing_box_outbound_from_share_link\<close> and below it, \<open>write_sing_box_outbound_config\<close>,
  \<open>sing_box_failed_outbound_index\<close> in \<open>src/probe.rs\<close>).
\<close>

subsection \<open>TLS\<close>

definition validate_reality_public_key :: "crates \<Rightarrow> string \<Rightarrow> unit result" where
  "validate_reality_public_key L public_key =
     and_then (ok_or (decode_base64_bytes L public_key) ''invalid Reality public key: not base64'') (\<lambda>decoded.
     if length decoded \<noteq> 32
     then Inl (''invalid Reality public key: decoded length is '' @ show_nat (length decoded)
               @ '', expected 32'')
     else Inr ())"

definition validate_reality_short_id :: "string \<Rightarrow> unit result" where
  "validate_reality_short_id short_id =
     (if length short_id > 16 \<or> length short_id mod 2 \<noteq> 0
      then Inl ''invalid Reality short_id: expected an even-length hex value up to 16 characters''
      else if \<not> list_all is_ascii_hexdigit short_id
      then Inl ''invalid Reality short_id: expected hex''
      else Inr ())"

definition insert_opt :: "string \<Rightarrow> json option \<Rightarrow> (string \<times> json) list \<Rightarrow> (string \<times> json) list" where
  "insert_opt k v m = (case v of Some j \<Rightarrow> bt_insert k j m | None \<Rightarrow> m)"

definition nonempty :: "string option \<Rightarrow> string option" where
  "nonempty = filter_opt (\<lambda>v. v \<noteq> [])"

definition alpn_values :: "string \<Rightarrow> string list" where
  "alpn_values alpn = filter (\<lambda>v. v \<noteq> []) (map trim (split_char alpn (\<lambda>c. c = CHR '','')))"

definition utls_json :: "string \<Rightarrow> json" where
  "utls_json fingerprint = json_obj [(''enabled'', JBool True), (''fingerprint'', JString fingerprint)]"

definition reality_json :: "string \<Rightarrow> string option \<Rightarrow> json" where
  "reality_json public_key short_id =
     JObject (insert_opt ''short_id'' (map_option JString short_id)
       (bt_insert ''public_key'' (JString public_key) (bt_insert ''enabled'' (JBool True) [])))"

definition tls_config_from_values ::
  "bool \<Rightarrow> string option \<Rightarrow> string option \<Rightarrow> string option \<Rightarrow> string option \<Rightarrow> string option \<Rightarrow> bool
     \<Rightarrow> json" where
  "tls_config_from_values enabled server_name alpn fingerprint reality_public_key reality_short_id insecure =
     (let reality_enabled = is_some_and reality_public_key (\<lambda>v. v \<noteq> []);
          tls = bt_insert ''enabled'' (JBool enabled) [];
          tls = insert_opt ''server_name'' (map_option JString (nonempty server_name)) tls;
          tls = (if insecure then bt_insert ''insecure'' (JBool True) tls else tls);
          tls = insert_opt ''alpn''
                  (Option.bind (nonempty alpn) (\<lambda>a. let values = alpn_values a
                     in if values \<noteq> [] then Some (JArray (map JString values)) else None)) tls;
          tls = insert_opt ''utls''
                  (case nonempty fingerprint of
                     Some f \<Rightarrow> Some (utls_json f)
                   | None \<Rightarrow> if reality_enabled then Some (utls_json ''chrome'') else None) tls;
          tls = insert_opt ''reality''
                  (map_option (\<lambda>public_key. reality_json public_key reality_short_id)
                     (nonempty reality_public_key)) tls
      in JObject tls)"

definition tls_config ::
  "crates \<Rightarrow> (string \<times> string) list \<Rightarrow> bool \<Rightarrow> string \<Rightarrow> json option result" where
  "tls_config L params default_enabled host =
     (let security = unwrap_or (first_param params [''security'', ''tls'']) [];
          reality_key = first_param params [''pbk'', ''public_key'', ''reality_pbk''];
          enabled = (default_enabled \<or> eq_ignore_ascii_case security ''tls''
                     \<or> eq_ignore_ascii_case security ''reality'' \<or> reality_key \<noteq> None)
      in if \<not> enabled \<or> eq_ignore_ascii_case security ''none'' then Inr None
         else
           and_then (case reality_key of Some k \<Rightarrow> validate_reality_public_key L k | None \<Rightarrow> Inr ()) (\<lambda>_.
           let reality_short_id = first_param params [''sid'', ''short_id''] in
           and_then (case reality_short_id of Some i \<Rightarrow> validate_reality_short_id i | None \<Rightarrow> Inr ()) (\<lambda>_.
           Inr (Some (tls_config_from_values True
                 (or_else (first_param params [''sni'', ''serverName'', ''peer'']) (Some host))
                 (first_param params [''alpn''])
                 (first_param params [''fp'', ''fingerprint''])
                 reality_key reality_short_id
                 (is_some_and (first_param params [''allowInsecure'', ''insecure'', ''skip-cert-verify''])
                    truthy))))))"

subsection \<open>Transport\<close>

definition transport_config :: "(string \<times> string) list \<Rightarrow> json option result" where
  "transport_config params =
     (case first_param params [''type'', ''net'', ''network''] of
        None \<Rightarrow> Inr None
      | Some transport_type0 \<Rightarrow>
          (let transport_type = to_ascii_lowercase transport_type0;
               path = unwrap_or (first_param params [''path'']) [];
               host = nonempty (first_param params [''host'']);
               with_path = (\<lambda>t. if path \<noteq> [] then bt_insert ''path'' (JString path) t else t);
               kind = (\<lambda>k. bt_insert ''type'' (JString k) [])
           in if transport_type = ''tcp'' \<or> transport_type = [] then Inr None
              else if transport_type = ''ws'' \<or> transport_type = ''websocket'' then
                Inr (Some (JObject (insert_opt ''headers''
                  (map_option (\<lambda>h. json_obj [(''Host'', JString h)]) host) (with_path (kind ''ws'')))))
              else if transport_type = ''grpc'' then
                Inr (Some (JObject (insert_opt ''service_name''
                  (map_option JString (first_param params [''serviceName'', ''service_name'']))
                  (kind ''grpc''))))
              else if transport_type = ''h2'' \<or> transport_type = ''http'' then
                Inr (Some (JObject (insert_opt ''host''
                  (map_option (\<lambda>h. JArray [JString h]) host) (with_path (kind ''http'')))))
              else if transport_type = ''httpupgrade'' then
                Inr (Some (JObject (insert_opt ''host''
                  (map_option JString host) (with_path (kind ''httpupgrade'')))))
              else Inl (''active sing-box probe does not support transport type '' @ [CHR 39]
                        @ transport_type @ [CHR 39])))"

subsection \<open>Outbounds\<close>

definition base_outbound :: "string \<Rightarrow> string \<Rightarrow> nat \<Rightarrow> (string \<times> json) list" where
  "base_outbound protocol host port =
     bt_insert ''server_port'' (json_num port)
    (bt_insert ''server'' (JString host)
    (bt_insert ''tag'' (JString ''proxy'')
    (bt_insert ''type'' (JString protocol) [])))"

definition supported_vless_flow :: "string \<Rightarrow> string result" where
  "supported_vless_flow flow0 =
     (let flow = trim flow0
      in if flow = [] \<or> eq_ignore_ascii_case flow ''none'' then Inr []
         else if to_ascii_lowercase flow = ''xtls-rprx-vision'' then Inr ''xtls-rprx-vision''
         else Inl (''unsupported VLESS flow: '' @ to_ascii_lowercase flow))"

definition normalize_shadowsocks_method :: "string \<Rightarrow> string result" where
  "normalize_shadowsocks_method method =
     (let lower = to_ascii_lowercase method in
      if lower = ''ss'' then Inl ''unsupported Shadowsocks method: ss''
      else if lower = ''chacha20-poly1305'' then Inr ''chacha20-ietf-poly1305''
      else if lower = ''xchacha20-poly1305'' then Inr ''xchacha20-ietf-poly1305''
      else Inr lower)"

datatype standard_protocol = Vless | Trojan | Hysteria2 | Tuic

definition query_map :: "url_parts \<Rightarrow> (string \<times> string) list" where
  "query_map url = bt_collect (url_query_pairs url)"

definition vless_arm :: "crates \<Rightarrow> url_parts \<Rightarrow> string \<Rightarrow> nat \<Rightarrow> json result" where
  "vless_arm L url host port =
     (let params = query_map url; uuid = percent_decode L (url_username url) in
      if uuid = [] then Inl ''VLESS link has no UUID''
      else
        let outbound = bt_insert ''uuid'' (JString uuid) (base_outbound ''vless'' host port) in
        and_then (case first_param params [''flow''] of
                    Some flow \<Rightarrow> and_then (supported_vless_flow flow) (\<lambda>flow'.
                      Inr (if flow' \<noteq> [] then bt_insert ''flow'' (JString flow') outbound else outbound))
                  | None \<Rightarrow> Inr outbound) (\<lambda>outbound.
        and_then (tls_config L params False host) (\<lambda>tls.
        let outbound = insert_opt ''tls'' tls outbound in
        and_then (transport_config params) (\<lambda>transport.
        Inr (JObject (insert_opt ''transport'' transport outbound))))))"

definition trojan_arm :: "crates \<Rightarrow> url_parts \<Rightarrow> string \<Rightarrow> nat \<Rightarrow> json result" where
  "trojan_arm L url host port =
     (let params = query_map url; password = percent_decode L (url_username url) in
      if password = [] then Inl ''Trojan link has no password''
      else
        let outbound = bt_insert ''password'' (JString password) (base_outbound ''trojan'' host port) in
        and_then (tls_config L params True host) (\<lambda>tls.
        let outbound = insert_opt ''tls'' tls outbound in
        and_then (transport_config params) (\<lambda>transport.
        Inr (JObject (insert_opt ''transport'' transport outbound)))))"

definition hysteria2_arm :: "crates \<Rightarrow> url_parts \<Rightarrow> string \<Rightarrow> nat \<Rightarrow> json result" where
  "hysteria2_arm L url host port =
     (let params = query_map url; password = percent_decode L (url_username url) in
      if password = [] then Inl ''Hysteria2 link has no password''
      else
        let outbound = bt_insert ''password'' (JString password) (base_outbound ''hysteria2'' host port) in
        and_then (tls_config L params True host) (\<lambda>tls.
        let outbound = bt_insert ''tls'' (unwrap_or tls (json_obj [(''enabled'', JBool True)])) outbound;
            outbound =
              (case first_param params [''obfs''] of
                 Some obfs \<Rightarrow>
                   bt_insert ''obfs''
                     (JObject (insert_opt ''password''
                        (map_option JString (first_param params [''obfs-password'', ''obfs_password'']))
                        (bt_insert ''type'' (JString obfs) []))) outbound
               | None \<Rightarrow> outbound)
        in Inr (JObject outbound)))"

definition tuic_arm :: "crates \<Rightarrow> url_parts \<Rightarrow> string \<Rightarrow> nat \<Rightarrow> json result" where
  "tuic_arm L url host port =
     (let params = query_map url; uuid = percent_decode L (url_username url);
          password = unwrap_or (map_option (percent_decode L) (url_password url)) [] in
      if uuid = [] then Inl ''TUIC link has no UUID''
      else
        let outbound = bt_insert ''password'' (JString password)
              (bt_insert ''uuid'' (JString uuid) (base_outbound ''tuic'' host port)) in
        and_then (tls_config L params True host) (\<lambda>tls.
        let outbound = bt_insert ''tls'' (unwrap_or tls (json_obj [(''enabled'', JBool True)])) outbound;
            outbound = insert_opt ''congestion_control''
              (map_option JString (first_param params [''congestion_control'', ''congestion''])) outbound;
            outbound = insert_opt ''udp_relay_mode''
              (map_option JString (first_param params [''udp_relay_mode'', ''udp-relay-mode''])) outbound
        in Inr (JObject outbound)))"

definition standard_outbound :: "crates \<Rightarrow> string \<Rightarrow> standard_protocol \<Rightarrow> json result" where
  "standard_outbound L uri protocol =
     and_then (url_parse L uri) (\<lambda>url.
     and_then (ok_or (url_host_str url) ''share link has no host'') (\<lambda>host.
     and_then (ok_or (url_port url) ''share link has no port'') (\<lambda>port.
     case protocol of
       Vless \<Rightarrow> vless_arm L url host port
     | Trojan \<Rightarrow> trojan_arm L url host port
     | Hysteria2 \<Rightarrow> hysteria2_arm L url host port
     | Tuic \<Rightarrow> tuic_arm L url host port)))"

definition vmess_transport_params :: "json \<Rightarrow> (string \<times> string) list" where
  "vmess_transport_params j =
     (let params = (case json_string j [''net''] of
                      Some v \<Rightarrow> bt_insert ''type'' v [] | None \<Rightarrow> []);
          params = (case json_string j [''path''] of
                      Some v \<Rightarrow> bt_insert ''path'' v params | None \<Rightarrow> params)
      in case json_string j [''host''] of
           Some v \<Rightarrow> bt_insert ''host'' v params | None \<Rightarrow> params)"

definition vmess_members :: "json \<Rightarrow> string \<Rightarrow> nat \<Rightarrow> string \<Rightarrow> (string \<times> json) list" where
  "vmess_members j host port uuid =
     (let outbound = bt_insert ''uuid'' (JString uuid) (base_outbound ''vmess'' host port);
          outbound = bt_insert ''security''
            (JString (unwrap_or (json_string j [''scy'', ''security'']) ''auto'')) outbound;
          outbound = bt_insert ''alter_id''
            (json_num (unwrap_or (json_u64 j [''aid'', ''alterId'']) 0)) outbound;
          tls_enabled = is_some_and (json_string j [''tls'']) (\<lambda>v. eq_ignore_ascii_case v ''tls'')
      in if tls_enabled
         then bt_insert ''tls'' (tls_config_from_values True
                (or_else (json_string j [''sni'']) (json_string j [''host'']))
                (json_string j [''alpn'']) (json_string j [''fp'']) None None False) outbound
         else outbound)"

definition vmess_outbound :: "crates \<Rightarrow> string \<Rightarrow> json result" where
  "vmess_outbound L uri =
     and_then (ok_or (strip_prefix uri ''vmess://'') ''invalid VMess URI'') (\<lambda>payload.
     and_then (ok_or (decode_base64_to_string L payload)
                 ''VMess URI payload is not valid base64 UTF-8'') (\<lambda>decoded.
     and_then (case json_from_str L decoded of
                 Inl e \<Rightarrow> Inl ''VMess payload is not JSON'' | Inr j \<Rightarrow> Inr j) (\<lambda>j.
     and_then (ok_or (json_string j [''add'', ''address'']) ''VMess payload has no server address'') (\<lambda>host.
     and_then (ok_or (json_u16 j [''port'']) ''VMess payload has no port'') (\<lambda>port.
     and_then (ok_or (json_string j [''id'']) ''VMess payload has no UUID'') (\<lambda>uuid.
     and_then (transport_config (vmess_transport_params j)) (\<lambda>transport.
     Inr (JObject (insert_opt ''transport'' transport (vmess_members j host port uuid))))))))))"

definition shadowsocks_outbound :: "crates \<Rightarrow> string \<Rightarrow> json result" where
  "shadowsocks_outbound L uri =
     and_then (ok_or (strip_prefix uri ''ss://'') ''invalid Shadowsocks URI'') (\<lambda>body.
     let (without_fragment, _) = split_once_opt body (CHR ''#'');
         (authority_part, query) = split_once_opt without_fragment (CHR ''?'')
     in and_then (ss_authority L authority_part) (\<lambda>(method, password, host, port).
        and_then (normalize_shadowsocks_method method) (\<lambda>method.
        let outbound = bt_insert ''password'' (JString password)
              (bt_insert ''method'' (JString method) (base_outbound ''shadowsocks'' host port))
        in Inr (JObject (case ss_plugin L query of
             Some (plugin_name, plugin_opts) \<Rightarrow>
               insert_opt ''plugin_opts'' (map_option JString plugin_opts)
                 (bt_insert ''plugin'' (JString plugin_name) outbound)
           | None \<Rightarrow> outbound)))))"

definition sing_box_outbound_from_share_link :: "crates \<Rightarrow> string \<Rightarrow> json result" where
  "sing_box_outbound_from_share_link L uri =
     (let lower = to_ascii_lowercase uri in
      if starts_with lower ''vmess://'' then vmess_outbound L uri
      else if starts_with lower ''vless://'' then standard_outbound L uri Vless
      else if starts_with lower ''trojan://'' then standard_outbound L uri Trojan
      else if starts_with lower ''ss://'' then shadowsocks_outbound L uri
      else if starts_with lower ''hysteria2://'' \<or> starts_with lower ''hy2://''
        then standard_outbound L uri Hysteria2
      else if starts_with lower ''tuic://'' then standard_outbound L uri Tuic
      else Inl ''active sing-box probe does not support this URI scheme'')"

subsection \<open>The configuration of one test process\<close>

definition SING_BOX_INBOUND_TAG_PREFIX :: string where "SING_BOX_INBOUND_TAG_PREFIX = ''mixed-in''"
definition SING_BOX_OUTBOUND_TAG_PREFIX :: string where "SING_BOX_OUTBOUND_TAG_PREFIX = ''proxy''"

definition parse_sing_box_version :: "string \<Rightarrow> (nat \<times> nat \<times> nat) option" where
  "parse_sing_box_version output =
     (case str_lines output of
        [] \<Rightarrow> None
      | first_line # _ \<Rightarrow>
          Option.bind (strip_prefix first_line ''sing-box version '') (\<lambda>version_str.
          case filter_map (parse_uint u32_max) (split_char version_str (\<lambda>c. c = CHR ''.'')) of
            a # b # c # _ \<Rightarrow> Some (a, b, c)
          | _ \<Rightarrow> None))"

definition sing_box_version_at_least ::
  "(nat \<times> nat \<times> nat) option option \<Rightarrow> nat \<Rightarrow> nat \<Rightarrow> nat \<Rightarrow> bool" where
  "sing_box_version_at_least detected major minor patch =
     (case detected of
        Some (Some (maj, mnr, pat)) \<Rightarrow>
          major < maj \<or> major = maj \<and> (minor < mnr \<or> minor = mnr \<and> patch \<le> pat)
      | _ \<Rightarrow> False)"

definition inbound_tag :: "nat \<Rightarrow> string" where
  "inbound_tag index = SING_BOX_INBOUND_TAG_PREFIX @ ''-'' @ show_nat index"

definition outbound_tag :: "nat \<Rightarrow> string" where
  "outbound_tag index = SING_BOX_OUTBOUND_TAG_PREFIX @ ''-'' @ show_nat index"

definition batch_inbound :: "nat \<Rightarrow> nat \<Rightarrow> json" where
  "batch_inbound index port =
     json_obj [(''type'', JString ''mixed''), (''tag'', JString (inbound_tag index)),
               (''listen'', JString LOCALHOST_IP), (''listen_port'', json_num port)]"

definition batch_rule :: "nat \<Rightarrow> json" where
  "batch_rule index =
     json_obj [(''inbound'', JArray [JString (inbound_tag index)]),
               (''action'', JString ''route''), (''outbound'', JString (outbound_tag index))]"

fun tag_outbounds ::
  "nat \<Rightarrow> (json \<times> nat) list \<Rightarrow> (json list \<times> json list \<times> json list) result" where
  "tag_outbounds index [] = Inr ([], [], [])"
| "tag_outbounds index ((outbound, port) # rest) =
     and_then (ok_or (as_object outbound) ''sing-box outbound is not a JSON object'') (\<lambda>m.
     let tagged = JObject (bt_insert ''tag'' (JString (outbound_tag index)) m)
     in and_then (tag_outbounds (Suc index) rest) (\<lambda>(inbounds, tagged_outbounds, rules).
        Inr (batch_inbound index port # inbounds, tagged # tagged_outbounds,
             batch_rule index # rules)))"

definition batch_dns_servers :: "bool \<Rightarrow> json" where
  "batch_dns_servers modern =
     (let server = (\<lambda>(tag, ip).
            if modern
            then json_obj [(''tag'', JString tag), (''type'', JString ''udp''), (''server'', JString ip)]
            else json_obj [(''tag'', JString tag), (''address'', JString ip),
                           (''strategy'', JString ''prefer_ipv4''), (''detour'', JString ''direct-out'')])
      in JArray (map server [(''dns-direct'', ''8.8.8.8''), (''dns-fallback'', ''1.1.1.1''),
                             (''dns-alternative'', ''223.5.5.5'')]))"

definition sing_box_outbound_config ::
  "(nat \<times> nat \<times> nat) option option \<Rightarrow> json list \<Rightarrow> nat list \<Rightarrow> json result" where
  "sing_box_outbound_config detected outbounds ports =
     (if length outbounds \<noteq> length ports
      then Inl (''sing-box config needs one local port per outbound; got ''
                @ show_nat (length outbounds) @ '' outbounds and '' @ show_nat (length ports) @ '' ports'')
      else and_then (tag_outbounds 0 (zip outbounds ports)) (\<lambda>(inbounds, tagged_outbounds, rules).
        let modern = sing_box_version_at_least detected 1 12 0;
            direct = json_obj [(''type'', JString ''direct''), (''tag'', JString ''direct-out'')];
            route = [(''rules'', JArray rules), (''final'', JString (outbound_tag 0))]
                    @ (if modern then [(''default_domain_resolver'', JString ''dns-direct'')] else [])
        in Inr (json_obj [
             (''log'', json_obj [(''disabled'', JBool True)]),
             (''dns'', json_obj [(''servers'', batch_dns_servers modern)]),
             (''inbounds'', JArray inbounds),
             (''outbounds'', JArray (tagged_outbounds @ [direct])),
             (''route'', json_obj route)])))"

text \<open>
  What sing-box says about a rejected outbound: the number in the first \<open>outbound[n]\<close> of its
  error output.
\<close>

definition outbound_marker :: string where "outbound_marker = ''outbound[''"

lemma find_str_bound: "find_str s p = Some i \<Longrightarrow> i + length p \<le> length s"
proof (induction s p arbitrary: i rule: find_str.induct)
  case (1 p)
  then show ?case by (simp split: if_splits)
next
  case (2 c cs p)
  show ?case
  proof (cases "starts_with (c # cs) p")
    case True
    then have "length p \<le> length (c # cs)"
      by (metis (no_types) length_take min.cobounded1 starts_with_def)
    then show ?thesis using True 2(2) by simp
  next
    case False
    then show ?thesis using 2 by auto
  qed
qed

function sing_box_failed_outbound_index :: "string \<Rightarrow> nat option" where
  "sing_box_failed_outbound_index search =
     (case find_str search outbound_marker of
        None \<Rightarrow> None
      | Some position \<Rightarrow>
          (let after_marker = drop (position + length outbound_marker) search in
           case find_str after_marker '']'' of
             None \<Rightarrow> None
           | Some end_ \<Rightarrow>
               (let index = take end_ after_marker in
                if index \<noteq> [] \<and> list_all is_ascii_digit index then parse_uint usize_max index
                else sing_box_failed_outbound_index (drop (end_ + 1) after_marker))))"
  by pat_completeness auto
termination
  by (relation "measure length")
     (auto simp: outbound_marker_def dest: find_str_bound)

declare sing_box_failed_outbound_index.simps [simp del]

subsection \<open>What a conversion produces\<close>

lemma bt_inv_insert_opt: "bt_inv m \<Longrightarrow> bt_inv (insert_opt k v m)"
  by (auto simp: insert_opt_def bt_inv_insert split: option.splits)

lemma bt_get_insert_opt:
  "bt_inv m \<Longrightarrow> bt_get (insert_opt k v m) k' = (if k' = k then or_else v (bt_get m k') else bt_get m k')"
  by (auto simp: insert_opt_def bt_get_insert split: option.splits)

lemma bt_inv_if: "bt_inv a \<Longrightarrow> bt_inv b \<Longrightarrow> bt_inv (if P then a else b)"
  by simp

lemma bt_get_if: "bt_get (if P then a else b) k = (if P then bt_get a k else bt_get b k)"
  by simp

lemmas bt_all = bt_simps bt_inv_insert_opt bt_get_insert_opt bt_inv_if bt_get_if

lemma base_outbound_get:
  "bt_inv (base_outbound pr h p)"
  "bt_get (base_outbound pr h p) k =
     (if k = ''server_port'' then Some (json_num p) else if k = ''server'' then Some (JString h)
      else if k = ''tag'' then Some (JString ''proxy'') else if k = ''type'' then Some (JString pr) else None)"
  by (simp_all add: base_outbound_def bt_all)

lemma json_get_tls:
  "json_get (tls_config_from_values e sn al fp pk si ins) ''reality'' =
     map_option (\<lambda>k. reality_json k si) (nonempty pk)"
  "json_get (tls_config_from_values e sn al fp pk si ins) ''enabled'' = Some (JBool e)"
  "json_get (tls_config_from_values e sn al fp pk si ins) ''server_name'' =
     map_option JString (nonempty sn)"
  "json_get (tls_config_from_values e sn al fp pk si ins) ''utls'' =
     (case nonempty fp of Some f \<Rightarrow> Some (utls_json f)
      | None \<Rightarrow> if nonempty pk \<noteq> None then Some (utls_json ''chrome'') else None)"
  by (simp_all add: tls_config_from_values_def Let_def bt_all or_else_def nonempty_def filter_opt_def
      is_some_and_def split: option.splits)

lemma json_get_reality:
  "json_get (reality_json k si) ''public_key'' = Some (JString k)"
  "json_get (reality_json k si) ''short_id'' = map_option JString si"
  by (simp_all add: reality_json_def bt_all or_else_def split: option.splits)

text \<open>What sing-box accepts of a Reality section, and of the transports and flows it supports.\<close>

definition reality_ok :: "crates \<Rightarrow> json \<Rightarrow> bool" where
  "reality_ok L r \<longleftrightarrow>
     (\<exists>k d. json_get r ''public_key'' = Some (JString k) \<and> decode_base64_bytes L k = Some d \<and> length d = 32)
     \<and> (case json_get r ''short_id'' of
          None \<Rightarrow> True
        | Some j \<Rightarrow> \<exists>i. j = JString i \<and> length i \<le> 16 \<and> even (length i) \<and> list_all is_ascii_hexdigit i)"

definition outbound_ok :: "crates \<Rightarrow> (string \<times> json) list \<Rightarrow> bool" where
  "outbound_ok L m \<longleftrightarrow> bt_inv m
     \<and> (\<exists>ty\<in>{''vmess'', ''vless'', ''trojan'', ''shadowsocks'', ''hysteria2'', ''tuic''}.
          bt_get m ''type'' = Some (JString ty))
     \<and> bt_get m ''tag'' = Some (JString ''proxy'')
     \<and> (\<exists>h. bt_get m ''server'' = Some (JString h)) \<and> (\<exists>p. bt_get m ''server_port'' = Some (json_num p))
     \<and> (\<forall>tls r. bt_get m ''tls'' = Some tls \<longrightarrow> json_get tls ''reality'' = Some r \<longrightarrow> reality_ok L r)
     \<and> (\<forall>t. bt_get m ''transport'' = Some t \<longrightarrow>
          (\<exists>ty\<in>{''ws'', ''grpc'', ''http'', ''httpupgrade''}. json_get t ''type'' = Some (JString ty)))
     \<and> bt_get m ''flow'' \<in> {None, Some (JString ''xtls-rprx-vision'')}"

lemma validate_reality_short_id_ok:
  "validate_reality_short_id i = Inr u \<longleftrightarrow>
     length i \<le> 16 \<and> even (length i) \<and> list_all is_ascii_hexdigit i"
  by (auto simp: validate_reality_short_id_def even_iff_mod_2_eq_zero)

lemma validate_reality_public_key_ok:
  "validate_reality_public_key L k = Inr u \<longleftrightarrow> (\<exists>d. decode_base64_bytes L k = Some d \<and> length d = 32)"
  by (cases "decode_base64_bytes L k") (auto simp: validate_reality_public_key_def)

lemma tls_config_reality:
  assumes "tls_config L ps de h = Inr (Some tls)" and "json_get tls ''reality'' = Some r"
  shows "reality_ok L r"
proof -
  let ?key = "first_param ps [''pbk'', ''public_key'', ''reality_pbk'']"
  let ?sid = "first_param ps [''sid'', ''short_id'']"
  have k: "case ?key of Some k \<Rightarrow> validate_reality_public_key L k = Inr () | None \<Rightarrow> True"
    and s: "case ?sid of Some i \<Rightarrow> validate_reality_short_id i = Inr () | None \<Rightarrow> True"
    and r: "map_option (\<lambda>k. reality_json k ?sid) (nonempty ?key) = Some r"
    using assms by (auto simp: tls_config_def Let_def and_then_Inr_iff json_get_tls
        split: if_splits option.splits)
  from r obtain key where key: "?key = Some key" "r = reality_json key ?sid"
    by (auto simp: nonempty_def)
  show ?thesis
    using k s by (auto simp: reality_ok_def key json_get_reality validate_reality_public_key_ok
        validate_reality_short_id_ok split: option.splits)
qed

lemma transport_config_type:
  "transport_config ps = Inr (Some t) \<Longrightarrow>
     \<exists>ty\<in>{''ws'', ''grpc'', ''http'', ''httpupgrade''}. json_get t ''type'' = Some (JString ty)"
  by (auto simp: transport_config_def Let_def bt_all or_else_def split: option.splits if_splits)

lemma transport_config_grpc:
  "transport_config ps = Inr (Some t) \<Longrightarrow> json_get t ''type'' = Some (JString ''grpc'') \<Longrightarrow>
     json_get t ''service_name'' =
       map_option JString (first_param ps [''serviceName'', ''service_name''])"
  by (auto simp: transport_config_def Let_def bt_all or_else_def split: option.splits if_splits)

lemma supported_vless_flow_ok:
  "supported_vless_flow f = Inr v \<Longrightarrow> v \<in> {[], ''xtls-rprx-vision''}"
  by (auto simp: supported_vless_flow_def Let_def split: if_splits)

lemmas outbound_steps = Let_def and_then_Inr_iff bt_all base_outbound_get or_else_def

lemma outbound_ok_base:
  "pr \<in> {''vmess'', ''vless'', ''trojan'', ''shadowsocks'', ''hysteria2'', ''tuic''} \<Longrightarrow>
     outbound_ok L (base_outbound pr h p)"
  by (auto simp: outbound_ok_def base_outbound_get)

lemma outbound_ok_insert:
  "outbound_ok L m \<Longrightarrow>
     k \<notin> {''type'', ''tag'', ''server'', ''server_port'', ''tls'', ''transport'', ''flow''} \<Longrightarrow>
     outbound_ok L (bt_insert k v m)"
  by (auto simp: outbound_ok_def bt_all)

lemma outbound_ok_insert_opt:
  "outbound_ok L m \<Longrightarrow>
     k \<notin> {''type'', ''tag'', ''server'', ''server_port'', ''tls'', ''transport'', ''flow''} \<Longrightarrow>
     outbound_ok L (insert_opt k v m)"
  by (auto simp: insert_opt_def outbound_ok_insert split: option.split)

lemma outbound_ok_tls:
  "outbound_ok L m \<Longrightarrow> (\<And>r. json_get tls ''reality'' = Some r \<Longrightarrow> reality_ok L r) \<Longrightarrow>
     outbound_ok L (bt_insert ''tls'' tls m)"
  by (auto simp: outbound_ok_def bt_all)

lemma outbound_ok_transport:
  "outbound_ok L m \<Longrightarrow> transport_config ps = Inr t \<Longrightarrow>
     outbound_ok L (insert_opt ''transport'' t m)"
  by (cases t) (auto simp: insert_opt_def outbound_ok_def bt_all dest: transport_config_type)

lemma vless_arm_ok:
  "vless_arm L url h p = Inr j \<Longrightarrow> \<exists>m. j = JObject m \<and> outbound_ok L m"
  by (fastforce simp: vless_arm_def outbound_steps outbound_ok_def
      split: if_splits option.splits
      dest: supported_vless_flow_ok tls_config_reality transport_config_type)

lemma trojan_arm_ok:
  "trojan_arm L url h p = Inr j \<Longrightarrow> \<exists>m. j = JObject m \<and> outbound_ok L m"
  by (fastforce simp: trojan_arm_def outbound_steps outbound_ok_def
      split: if_splits option.splits dest: tls_config_reality transport_config_type)

lemma hysteria2_arm_ok:
  "hysteria2_arm L url h p = Inr j \<Longrightarrow> \<exists>m. j = JObject m \<and> outbound_ok L m"
  by (fastforce simp: hysteria2_arm_def outbound_steps outbound_ok_def unwrap_or_def
      split: if_splits option.splits dest: tls_config_reality)

lemma tuic_arm_ok:
  "tuic_arm L url h p = Inr j \<Longrightarrow> \<exists>m. j = JObject m \<and> outbound_ok L m"
  by (fastforce simp: tuic_arm_def outbound_steps outbound_ok_def unwrap_or_def
      split: if_splits option.splits dest: tls_config_reality)

lemma standard_outbound_ok:
  "standard_outbound L uri pr = Inr j \<Longrightarrow> \<exists>m. j = JObject m \<and> outbound_ok L m"
  by (cases pr) (auto simp: standard_outbound_def and_then_Inr_iff
      dest: vless_arm_ok trojan_arm_ok hysteria2_arm_ok tuic_arm_ok)

lemmas outbound_ok_vmess_fields =
  outbound_ok_insert[where k = "''uuid''"] outbound_ok_insert[where k = "''security''"]
  outbound_ok_insert[where k = "''alter_id''"]

lemma vmess_outbound_ok:
  "vmess_outbound L uri = Inr j \<Longrightarrow> \<exists>m. j = JObject m \<and> outbound_ok L m"
  by (auto simp: vmess_outbound_def vmess_members_def Let_def and_then_Inr_iff
      intro!: outbound_ok_transport outbound_ok_tls outbound_ok_vmess_fields outbound_ok_base
      simp: json_get_tls nonempty_def)

lemma shadowsocks_outbound_ok:
  assumes "shadowsocks_outbound L uri = Inr j"
  shows "\<exists>m. j = JObject m \<and> outbound_ok L m"
proof -
  obtain h p pw me query where "j = JObject (case ss_plugin L query of
             Some (plugin_name, plugin_opts) \<Rightarrow>
               insert_opt ''plugin_opts'' (map_option JString plugin_opts)
                 (bt_insert ''plugin'' (JString plugin_name)
                   (bt_insert ''password'' (JString pw)
                     (bt_insert ''method'' (JString me) (base_outbound ''shadowsocks'' h p))))
           | None \<Rightarrow> bt_insert ''password'' (JString pw)
                     (bt_insert ''method'' (JString me) (base_outbound ''shadowsocks'' h p)))"
    using assms
    by (auto simp: shadowsocks_outbound_def Let_def and_then_Inr_iff case_prod_unfold)
  then show ?thesis
    by (auto intro!: outbound_ok_insert_opt outbound_ok_insert outbound_ok_base
        split: option.splits prod.splits)
qed

lemma share_link_ok:
  assumes "sing_box_outbound_from_share_link L uri = Inr j"
  shows "\<exists>m. j = JObject m \<and> outbound_ok L m"
  using assms
  by (auto simp: sing_box_outbound_from_share_link_def Let_def split: if_splits
      dest: vmess_outbound_ok standard_outbound_ok shadowsocks_outbound_ok)



subsection \<open>The test process listens and routes per outbound\<close>

lemma tag_outbounds_spec:
  "tag_outbounds k xs = Inr (ins, tagged, rules) \<Longrightarrow>
     ins = map (\<lambda>i. batch_inbound (k + i) (snd (xs ! i))) [0..<length xs]
     \<and> rules = map (\<lambda>i. batch_rule (k + i)) [0..<length xs]
     \<and> length tagged = length xs
     \<and> (\<forall>i<length xs. \<exists>m. fst (xs ! i) = JObject m
          \<and> tagged ! i = JObject (bt_insert ''tag'' (JString (outbound_tag (k + i))) m))"
proof (induction xs arbitrary: k ins tagged rules)
  case Nil
  then show ?case by simp
next
  case (Cons x rest)
  obtain outbound port where x: "x = (outbound, port)" by fastforce
  with Cons.prems obtain m ins' tagged' rules' where m: "outbound = JObject m"
    and rec: "tag_outbounds (Suc k) rest = Inr (ins', tagged', rules')"
    and out: "ins = batch_inbound k port # ins'" "rules = batch_rule k # rules'"
      "tagged = JObject (bt_insert ''tag'' (JString (outbound_tag k)) m) # tagged'"
    by (cases outbound) (auto simp: Let_def and_then_Inr_iff)
  have "[0..<length (x # rest)] = 0 # map Suc [0..<length rest]"
    by (simp add: upt_conv_Cons map_Suc_upt del: upt_Suc)
  then show ?case
    using Cons.IH[OF rec] m unfolding out x
    by (auto simp: less_Suc_eq_0_disj)
qed

lemma tag_outbounds_total:
  "(\<exists>r. tag_outbounds k xs = Inr r) \<longleftrightarrow> (\<forall>x\<in>set xs. \<exists>m. fst x = JObject m)"
proof (induction k xs rule: tag_outbounds.induct)
  case (1 k)
  then show ?case by simp
next
  case (2 k outbound port rest)
  then show ?case by (cases outbound) (auto simp: and_then_Inr_iff Let_def)
qed

lemma tag_injective: "inbound_tag i = inbound_tag j \<longleftrightarrow> i = j" "outbound_tag i = outbound_tag j \<longleftrightarrow> i = j"
  using show_nat_inj by (auto simp: inbound_tag_def outbound_tag_def)

lemma outbound_tag_not_direct: "outbound_tag i \<noteq> ''direct-out''"
  by (simp add: outbound_tag_def SING_BOX_OUTBOUND_TAG_PREFIX_def)

lemma batch_config_contents:
  assumes c: "sing_box_outbound_config detected outs ports = Inr cfg"
  shows "\<exists>tagged direct route.
          json_get cfg ''inbounds'' = Some (JArray (map (\<lambda>i. batch_inbound i (ports ! i)) [0..<length ports]))
        \<and> json_get cfg ''outbounds'' = Some (JArray (tagged @ [direct]))
        \<and> json_get direct ''tag'' = Some (JString ''direct-out'')
        \<and> json_get cfg ''route'' = Some route
        \<and> json_get route ''rules'' = Some (JArray (map batch_rule [0..<length ports]))
        \<and> length tagged = length ports
        \<and> (\<forall>i<length ports. \<exists>m. outs ! i = JObject m
             \<and> tagged ! i = JObject (bt_insert ''tag'' (JString (outbound_tag i)) m))"
proof -
  from c have len: "length outs = length ports"
    by (simp add: sing_box_outbound_config_def split: if_splits)
  with c obtain ins tagged rules
    where t: "tag_outbounds 0 (zip outs ports) = Inr (ins, tagged, rules)"
    by (auto simp: sing_box_outbound_config_def and_then_Inr_iff)
  let ?direct = "json_obj [(''type'', JString ''direct''), (''tag'', JString ''direct-out'')]"
  let ?route = "json_obj ([(''rules'', JArray rules), (''final'', JString (outbound_tag 0))]
     @ (if sing_box_version_at_least detected 1 12 0
        then [(''default_domain_resolver'', JString ''dns-direct'')] else []))"
  have g: "json_get cfg ''inbounds'' = Some (JArray ins)"
    "json_get cfg ''outbounds'' = Some (JArray (tagged @ [?direct]))"
    "json_get cfg ''route'' = Some ?route"
    using c t len by (auto simp: sing_box_outbound_config_def Let_def)
  have r: "json_get ?route ''rules'' = Some (JArray rules)" by simp
  note spec = tag_outbounds_spec[OF t]
  have "ins = map (\<lambda>i. batch_inbound i (ports ! i)) [0..<length ports]"
    "rules = map batch_rule [0..<length ports]"
    using spec len by (auto intro!: nth_equalityI)
  then show ?thesis
    using g r spec len by (intro exI[of _ tagged] exI[of _ ?direct] exI[of _ ?route]) simp
qed

text \<open>
  C16: The configuration of a test process exists exactly when there is one port per outbound and
  every outbound is an object; then the proxy listening on the i-th port is routed to the i-th
  outbound and to no other: inbound, rule and outbound number i carry tags that no other number
  shares, nor the direct outbound at the end.
\<close>

theorem batch_config_routes:
  "(\<exists>cfg. sing_box_outbound_config detected outs ports = Inr cfg)
     = (length outs = length ports \<and> (\<forall>out\<in>set outs. \<exists>m. out = JObject m))
   \<and> (\<forall>cfg. sing_box_outbound_config detected outs ports = Inr cfg \<longrightarrow>
       (\<exists>tagged direct route.
          json_get cfg ''inbounds'' = Some (JArray (map (\<lambda>i. batch_inbound i (ports ! i)) [0..<length ports]))
        \<and> json_get cfg ''outbounds'' = Some (JArray (tagged @ [direct]))
        \<and> json_get direct ''tag'' = Some (JString ''direct-out'')
        \<and> json_get cfg ''route'' = Some route
        \<and> json_get route ''rules'' = Some (JArray (map batch_rule [0..<length ports]))
        \<and> length tagged = length ports
        \<and> (\<forall>i<length ports. \<exists>m. outs ! i = JObject m
             \<and> tagged ! i = JObject (bt_insert ''tag'' (JString (outbound_tag i)) m))))
   \<and> (\<forall>i j. (inbound_tag i = inbound_tag j) = (i = j) \<and> (outbound_tag i = outbound_tag j) = (i = j)
        \<and> outbound_tag i \<noteq> ''direct-out'')"
    (is "?A \<and> ?B \<and> ?C")
proof (intro conjI)
  show ?A
  proof (cases "length outs = length ports")
    case True
    then have "(\<forall>x\<in>set (zip outs ports). \<exists>m. fst x = JObject m) = (\<forall>out\<in>set outs. \<exists>m. out = JObject m)"
      by (simp add: all_set_conv_all_nth)
    then show ?thesis
      using True tag_outbounds_total[of 0 "zip outs ports"]
      by (cases "tag_outbounds 0 (zip outs ports)")
         (auto simp: sing_box_outbound_config_def case_prod_unfold Let_def)
  next
    case False
    then show ?thesis by (simp add: sing_box_outbound_config_def)
  qed
  show ?B using batch_config_contents by blast
  show ?C using tag_injective outbound_tag_not_direct by blast
qed

theorem batch_config_routes_witness:
  "\<exists>cfg tagged direct. sing_box_outbound_config (Some (Some (1, 13, 14))) [json_obj [], json_obj []] [5001, 5002] = Inr cfg
     \<and> json_get cfg ''outbounds'' = Some (JArray (tagged @ [direct])) \<and> length tagged = 2"
proof -
  let ?outs = "[json_obj [], json_obj []]"
  have all: "length ?outs = length [5001, 5002::nat] \<and> (\<forall>out\<in>set ?outs. \<exists>m. out = JObject m)"
    by (auto simp: json_obj_def)
  note w = batch_config_routes[of "Some (Some (1, 13, 14))" ?outs "[5001, 5002]"]
  obtain cfg where c: "sing_box_outbound_config (Some (Some (1, 13, 14))) ?outs [5001, 5002] = Inr cfg"
    using w[THEN conjunct1] all by metis
  from w[THEN conjunct2, THEN conjunct1, rule_format, OF c] obtain tagged direct
    where "json_get cfg ''outbounds'' = Some (JArray (tagged @ [direct]))"
      "length tagged = length [5001, 5002::nat]"
    by (elim exE conjE)
  with c show ?thesis by (intro exI conjI) (simp_all add: numeral_2_eq_2)
qed

subsection \<open>Reading sing-box's complaint\<close>

lemma find_str_skip:
  "\<forall>c\<in>set pre. c \<noteq> hd p \<Longrightarrow> p \<noteq> [] \<Longrightarrow> find_str (pre @ p @ s) p = Some (length pre)"
proof (induction pre)
  case Nil
  then show ?case by (cases p) (simp_all add: starts_with_def)
next
  case (Cons c cs)
  then have "\<not> starts_with (c # cs @ p @ s) p" by (cases p) (auto simp: starts_with_def)
  with Cons show ?case by simp
qed

lemma find_str_absent: "\<forall>c\<in>set s. c \<noteq> hd p \<Longrightarrow> p \<noteq> [] \<Longrightarrow> find_str s p = None"
proof (induction s)
  case Nil
  then show ?case by simp
next
  case (Cons c cs)
  then have "\<not> starts_with (c # cs) p" by (cases p) (auto simp: starts_with_def)
  with Cons show ?case by simp
qed

lemma find_bracket: "find_str (show_nat n @ CHR '']'' # s) '']'' = Some (length (show_nat n))"
  using find_str_skip[of "show_nat n" "'']''" s] by (auto dest: show_nat_no_colon(2)[THEN notE])

lemma parse_uint_digits: "n \<le> m \<Longrightarrow> list_all is_ascii_digit (show_nat n)"
  by (simp add: list_all_iff show_nat_digits)

text \<open>
  The index of a rejected outbound is read back from sing-box's message: the number inside
  the first \<open>outbound[...]\<close>, whatever stands before the first letter o and after the bracket;
  output that never mentions an outbound gives none.
\<close>

lemma failed_outbound_index_read_back:
  assumes "CHR ''o'' \<notin> set pre" and "n \<le> usize_max"
  shows "sing_box_failed_outbound_index (pre @ ''outbound['' @ show_nat n @ '']'' @ post) = Some n
       \<and> sing_box_failed_outbound_index pre = None"
proof
  have f: "find_str (pre @ outbound_marker @ (show_nat n @ '']'' @ post)) outbound_marker = Some (length pre)"
    by (rule find_str_skip) (use assms(1) in \<open>auto simp: outbound_marker_def\<close>)
  have d: "drop (length pre + length outbound_marker)
             (pre @ outbound_marker @ (show_nat n @ '']'' @ post)) = show_nat n @ CHR '']'' # post"
    by simp
  have "sing_box_failed_outbound_index (pre @ outbound_marker @ (show_nat n @ '']'' @ post)) = Some n"
    using f d assms(2)
    by (subst sing_box_failed_outbound_index.simps)
       (simp add: Let_def find_bracket parse_uint_digits parse_uint_show_nat)
  then show "sing_box_failed_outbound_index (pre @ ''outbound['' @ show_nat n @ '']'' @ post) = Some n"
    by (simp add: outbound_marker_def)
  have "find_str pre outbound_marker = None"
    by (rule find_str_absent) (use assms(1) in \<open>auto simp: outbound_marker_def\<close>)
  then show "sing_box_failed_outbound_index pre = None"
    by (subst sing_box_failed_outbound_index.simps) simp
qed

lemma failed_outbound_index_read_back_example:
  "sing_box_failed_outbound_index (''FATAL: '' @ ''outbound['' @ show_nat 7 @ '']'' @ '': bad key'') = Some 7"
  using failed_outbound_index_read_back[of "''FATAL: ''" 7 "'': bad key''"]
  by (simp add: usize_max_def)

subsection \<open>Two links the prober cannot test\<close>

text \<open>
  A VMess link over gRPC never gets a service name: the conversion copies \<open>net\<close>,
  \<open>path\<close> and \<open>host\<close> into the transport parameters, and the gRPC transport reads none
  of them, so every such link is tested against the empty service.
\<close>

lemma vmess_grpc_loses_service_name:
  assumes "vmess_outbound L uri = Inr j" and "json_get j ''transport'' = Some t"
    and "json_get t ''type'' = Some (JString ''grpc'')"
  shows "json_get t ''service_name'' = None"
proof -
  have none: "transport_config ps = Inr (Some t) \<Longrightarrow> bt_get ps ''serviceName'' = None \<Longrightarrow>
      bt_get ps ''service_name'' = None \<Longrightarrow> json_get t ''service_name'' = None" for ps
    using transport_config_grpc[OF _ assms(3)] by (simp add: first_param_def)
  have no_param: "bt_get (vmess_transport_params k) p = None"
    if "p \<in> {''serviceName'', ''service_name''}" for k p
    using that by (auto simp: vmess_transport_params_def Let_def bt_all split: option.splits)
  have m: "bt_inv (vmess_members k h p u)" "bt_get (vmess_members k h p u) ''transport'' = None" for k h p u
    by (simp_all add: vmess_members_def Let_def bt_all base_outbound_get)
  obtain k h p u tr where j: "j = JObject (insert_opt ''transport'' tr (vmess_members k h p u))"
    and tr: "transport_config (vmess_transport_params k) = Inr tr"
    using assms(1) by (auto simp: vmess_outbound_def and_then_Inr_iff)
  with assms(2) m have "tr = Some t" by (simp add: bt_all or_else_def split: option.splits)
  with tr show ?thesis using none no_param by blast
qed

lemma vmess_grpc_loses_service_name_example:
  "\<exists>j t. vmess_outbound sample_crates ''vmess://x'' = Inr j \<and> json_get j ''transport'' = Some t
     \<and> json_get sample_json ''path'' = Some (JString ''svc'')
     \<and> json_get t ''type'' = Some (JString ''grpc'') \<and> json_get t ''service_name'' = None"
proof -
  let ?r = "vmess_outbound sample_crates ''vmess://x''"
  have eval: "\<not> isl ?r" "json_get (projr ?r) ''transport'' \<noteq> None"
    "json_get (the (json_get (projr ?r) ''transport'')) ''type'' = Some (JString ''grpc'')"
    "json_get sample_json ''path'' = Some (JString ''svc'')"
    by code_simp+
  obtain j where j: "?r = Inr j" using not_isl_Inr[OF eval(1)] by blast
  obtain t where t: "json_get j ''transport'' = Some t" using eval(2) by (auto simp: j)
  have ty: "json_get t ''type'' = Some (JString ''grpc'')" using eval(3) by (simp add: j t)
  show ?thesis using vmess_grpc_loses_service_name[OF j t ty] j t ty eval(4) by blast
qed

text \<open>
  The scheme is matched without regard to case but stripped with it: a VMess or Shadowsocks
  link whose scheme is not in lower case is always refused.
\<close>

lemma upper_case_scheme_refused:
  assumes "starts_with (to_ascii_lowercase uri) ''vmess://'' \<and> \<not> starts_with uri ''vmess://''
         \<or> starts_with (to_ascii_lowercase uri) ''ss://'' \<and> \<not> starts_with uri ''ss://''"
  shows "sing_box_outbound_from_share_link L uri
           \<in> {Inl ''invalid VMess URI'', Inl ''invalid Shadowsocks URI''}"
proof -
  have "starts_with s ''ss://'' \<Longrightarrow> \<not> starts_with s ''vmess://''"
    "starts_with s ''ss://'' \<Longrightarrow> \<not> starts_with s ''vless://''"
    "starts_with s ''ss://'' \<Longrightarrow> \<not> starts_with s ''trojan://''" for s
    by (auto simp: starts_with_iff)
  then show ?thesis
    using assms
    by (auto simp: sing_box_outbound_from_share_link_def Let_def vmess_outbound_def
        shadowsocks_outbound_def strip_prefix_def)
qed

lemma upper_case_scheme_refused_example:
  "starts_with (to_ascii_lowercase ''VMESS://e30='') ''vmess://''
   \<and> sing_box_outbound_from_share_link sample_crates ''VMESS://e30=''
       \<in> {Inl ''invalid VMess URI'', Inl ''invalid Shadowsocks URI''}"
proof -
  have "starts_with (to_ascii_lowercase ''VMESS://e30='') ''vmess://''
      \<and> \<not> starts_with ''VMESS://e30='' ''vmess://''" by code_simp
  then show ?thesis using upper_case_scheme_refused by blast
qed

end
