(* ===== verification/EarlyStop.thy ===== *)
theory EarlyStop
  imports Ranking Outbound
begin

text \<open>
  When a scan stops early, and how big its batches are (\<open>ProbeStopState\<close>,
  \<open>probe_stop_reason\<close>, \<open>stability_snapshot\<close>, \<open>ActiveBatchSizer\<close> and the limits of
  \<open>src/probe.rs\<close>).

  \<open>progress\<close> is an optional channel: a function that may send returns, beside its value, the
  events it sent; \<open>send_if\<close> drops them when there is no channel.
\<close>

subsection \<open>Prepared candidates\<close>

record prepared_active_candidate =
  pa_candidate :: candidate
  pa_aliases :: "candidate list"
  pa_outbound :: json

definition prepared_candidate_count :: "prepared_active_candidate \<Rightarrow> nat" where
  "prepared_candidate_count e = 1 + length (pa_aliases e)"

definition candidate_count :: "prepared_active_candidate list \<Rightarrow> nat" where
  "candidate_count entries = sum_list (map prepared_candidate_count entries)"

definition entry_has_previous_working_uri ::
  "prepared_active_candidate \<Rightarrow> probe_stop_policy \<Rightarrow> bool" where
  "entry_has_previous_working_uri e policy \<longleftrightarrow>
     c_dedup_key (pa_candidate e) \<in> sp_previous_working_keys policy
     \<or> list_ex (\<lambda>a. c_dedup_key a \<in> sp_previous_working_keys policy) (pa_aliases e)"

definition previous_working_entry_count ::
  "prepared_active_candidate list \<Rightarrow> probe_stop_policy \<Rightarrow> nat" where
  "previous_working_entry_count entries policy =
     length (filter (\<lambda>e. entry_has_previous_working_uri e policy) entries)"

subsection \<open>Sending progress\<close>

definition send_if :: "bool \<Rightarrow> progress_event list \<Rightarrow> progress_event list" where
  "send_if progress events = (if progress then events else [])"

definition send_progress :: "bool \<Rightarrow> string \<Rightarrow> progress_event list" where
  "send_progress progress message = send_if progress [LiveLog message]"

definition send_probe_delta :: "bool \<Rightarrow> nat \<Rightarrow> nat \<Rightarrow> progress_event list" where
  "send_probe_delta progress tested working =
     (if 0 < tested then send_if progress [ProbeDelta tested working] else [])"

definition send_ranked_snapshot :: "bool \<Rightarrow> ranked_config list \<Rightarrow> progress_event list" where
  "send_ranked_snapshot progress ranked = send_if progress [RankedSnapshot ranked]"

definition send_asap_configs ::
  "bool \<Rightarrow> ranked_config list \<Rightarrow> probe_stop_policy \<Rightarrow> progress_event list" where
  "send_asap_configs progress ranked policy =
     (if \<not> sp_return_configs_asap policy then []
      else let working = fst (retain_new r_dedup_key {} (filter r_reachable ranked))
           in if working = [] then []
              else send_if progress [WorkingConfigsFound working (sp_top_n policy)])"

subsection \<open>The snapshot published half way\<close>

fun snapshot_known ::
  "nat \<Rightarrow> ranked_config list \<Rightarrow> ranked_config list \<Rightarrow> string set
     \<Rightarrow> ranked_config list \<times> string set" where
  "snapshot_known limit [] selected used = (selected, used)"
| "snapshot_known limit (item # items) selected used =
     (if limit \<le> length selected then (selected, used)
      else snapshot_known limit items (selected @ [item]) (insert (r_dedup_key item) used))"

fun snapshot_fill ::
  "nat \<Rightarrow> ranked_config list \<Rightarrow> ranked_config list \<Rightarrow> string set \<Rightarrow> ranked_config list" where
  "snapshot_fill limit [] selected used = selected"
| "snapshot_fill limit (item # items) selected used =
     (if limit \<le> length selected then selected
      else if r_dedup_key item \<in> used then snapshot_fill limit items selected used
      else snapshot_fill limit items (selected @ [item]) (insert (r_dedup_key item) used))"

definition stability_snapshot ::
  "ranked_config list \<Rightarrow> probe_stop_policy \<Rightarrow> nat \<Rightarrow> ranked_config list" where
  "stability_snapshot ranked policy limit =
     (let working = sort_by compare_ranked (filter r_reachable ranked)
      in if \<not> sp_prioritize_stability policy then take limit working
         else let (selected, used) = snapshot_known limit
                    (filter (\<lambda>i. r_dedup_key i \<in> sp_previous_working_keys policy) working) [] {}
              in snapshot_fill limit working selected used)"

subsection \<open>The decision to stop\<close>

record probe_stop_state =
  st_half_snapshot_sent :: bool
  st_stability_search_exhausted :: bool
  st_remaining_previous_working :: nat

definition probe_stop_state_new ::
  "prepared_active_candidate list \<Rightarrow> probe_stop_policy \<Rightarrow> probe_stop_state" where
  "probe_stop_state_new prepared policy =
     (let remaining = (if sp_scan_all_configs policy \<or> \<not> sp_prioritize_stability policy then 0
                       else previous_working_entry_count prepared policy)
      in \<lparr> st_half_snapshot_sent = False,
           st_stability_search_exhausted = (sp_previous_working_keys policy \<noteq> {} \<and> remaining = 0),
           st_remaining_previous_working = remaining \<rparr>)"

definition reachable_count :: "ranked_config list \<Rightarrow> nat" where
  "reachable_count ranked = length (filter r_reachable ranked)"

definition stable_reachable_count :: "ranked_config list \<Rightarrow> probe_stop_policy \<Rightarrow> nat" where
  "stable_reachable_count ranked policy =
     length (filter (\<lambda>i. r_reachable i \<and> r_dedup_key i \<in> sp_previous_working_keys policy) ranked)"

definition half_snapshot_due ::
  "ranked_config list \<Rightarrow> probe_stop_policy \<Rightarrow> probe_stop_state \<Rightarrow> bool" where
  "half_snapshot_due ranked policy state \<longleftrightarrow>
     \<not> sp_return_configs_asap policy \<and> 0 < sp_top_n policy div 2
     \<and> sp_top_n policy div 2 \<le> reachable_count ranked \<and> \<not> st_half_snapshot_sent state"

definition probe_stop_reason ::
  "ranked_config list \<Rightarrow> probe_stop_policy \<Rightarrow> probe_stop_state \<Rightarrow> bool
     \<Rightarrow> string option \<times> probe_stop_state \<times> progress_event list" where
  "probe_stop_reason ranked policy state progress =
     (if sp_scan_all_configs policy \<or> sp_top_n policy = 0 then (None, state, [])
      else let reachable = reachable_count ranked in
      if \<not> sp_prioritize_stability policy then
        (if sp_top_n policy \<le> reachable
         then Some (''Early stop: found '' @ show_nat reachable @ ''/'' @ show_nat (sp_top_n policy)
                    @ '' working configs with active sing-box checks'')
         else None, state, [])
      else
        let first_half = sp_top_n policy div 2;
            second_half = sp_top_n policy - first_half;
            due = half_snapshot_due ranked policy state;
            state' = (if due then state\<lparr>st_half_snapshot_sent := True\<rparr> else state);
            sent = (if due
                    then send_ranked_snapshot progress (stability_snapshot ranked policy first_half)
                         @ send_progress progress
                             (''Early publish: found first '' @ show_nat first_half @ '' working configs'')
                    else [])
        in if reachable < sp_top_n policy then (None, state', sent)
           else let found_previous = stable_reachable_count ranked policy;
                    required_previous = min second_half (card (sp_previous_working_keys policy))
                in if required_previous \<le> found_previous
                   then (Some (''Early stop: found '' @ show_nat reachable @ ''/''
                           @ show_nat (sp_top_n policy) @ '' working configs, including ''
                           @ show_nat found_previous @ ''/'' @ show_nat required_previous
                           @ '' kept from the previous run'' @ [CHR 39] @ ''s saved top-N''),
                         state', sent)
                   else if st_stability_search_exhausted state'
                   then (Some (''Early stop: previous-run top-N stability search finished; filling ''
                           @ show_nat (sp_top_n policy) @ '' configs by active HTTP results''),
                         state', sent)
                   else (None, state', sent))"

definition probe_stop_reason_with_batch ::
  "ranked_config list \<Rightarrow> ranked_config list \<Rightarrow> ranked_config list \<Rightarrow> probe_stop_policy
     \<Rightarrow> probe_stop_state \<Rightarrow> bool \<Rightarrow> string option \<times> probe_stop_state \<times> progress_event list" where
  "probe_stop_reason_with_batch previous_ranked current_batch_ranked ranked policy state progress =
     (if sp_scan_all_configs policy then (None, state, [])
      else probe_stop_reason (previous_ranked @ current_batch_ranked @ ranked) policy state progress)"

definition update_stability_search_after_batch ::
  "nat \<Rightarrow> probe_stop_policy \<Rightarrow> probe_stop_state \<Rightarrow> probe_stop_state" where
  "update_stability_search_after_batch tested_previous_working policy state =
     (if sp_scan_all_configs policy \<or> \<not> sp_prioritize_stability policy
         \<or> st_stability_search_exhausted state then state
      else let remaining = st_remaining_previous_working state - tested_previous_working
           in state\<lparr>st_remaining_previous_working := remaining,
                    st_stability_search_exhausted :=
                      (sp_previous_working_keys policy \<noteq> {} \<and> remaining = 0)\<rparr>)"

subsection \<open>Sizes\<close>

definition ACTIVE_PROBE_BATCH_MIN_SIZE :: nat where "ACTIVE_PROBE_BATCH_MIN_SIZE = 32"
definition ACTIVE_PROBE_BATCH_MAX_SIZE :: nat where "ACTIVE_PROBE_BATCH_MAX_SIZE = 128"
definition ACTIVE_PROBE_BATCH_CONCURRENCY_MULTIPLIER :: nat where
  "ACTIVE_PROBE_BATCH_CONCURRENCY_MULTIPLIER = 16"
definition ACTIVE_PROBE_HTTP_MAX_CONCURRENCY :: nat where "ACTIVE_PROBE_HTTP_MAX_CONCURRENCY = 128"
definition ACTIVE_PROBE_PROCESS_MAX_CONCURRENCY :: nat where
  "ACTIVE_PROBE_PROCESS_MAX_CONCURRENCY = 4"
definition TCP_PREFILTER_CONCURRENCY_MULTIPLIER :: nat where
  "TCP_PREFILTER_CONCURRENCY_MULTIPLIER = 8"
definition MIN_TCP_PREFILTER_CONCURRENCY :: nat where "MIN_TCP_PREFILTER_CONCURRENCY = 256"
definition MAX_TCP_PREFILTER_CONCURRENCY :: nat where "MAX_TCP_PREFILTER_CONCURRENCY = 512"
definition TCP_PREFILTER_CONNECT_TIMEOUT_MS :: nat where "TCP_PREFILTER_CONNECT_TIMEOUT_MS = 3000"

definition active_probe_batch_size :: "nat \<Rightarrow> nat option \<Rightarrow> nat" where
  "active_probe_batch_size concurrency configured =
     (case configured of
        Some n \<Rightarrow> n
      | None \<Rightarrow> clamp ACTIVE_PROBE_BATCH_MIN_SIZE ACTIVE_PROBE_BATCH_MAX_SIZE
                  (sat_mul usize_max concurrency ACTIVE_PROBE_BATCH_CONCURRENCY_MULTIPLIER))"

text \<open>\<open>usize::isqrt\<close>: the largest number whose square is not larger.\<close>

fun isqrt :: "nat \<Rightarrow> nat" where
  "isqrt n = (if n = 0 then 0
     else let r = 2 * isqrt (n div 4) in if (r + 1) * (r + 1) \<le> n then r + 1 else r)"

declare isqrt.simps [simp del]

definition active_probe_http_concurrency :: "nat \<Rightarrow> nat \<Rightarrow> nat" where
  "active_probe_http_concurrency configured0 batch_entries =
     (let configured = clamp 1 ACTIVE_PROBE_HTTP_MAX_CONCURRENCY configured0;
          adaptive_limit = clamp 1 ACTIVE_PROBE_HTTP_MAX_CONCURRENCY
            (sat_mul usize_max (isqrt (max batch_entries 1)) configured)
      in min adaptive_limit (max batch_entries 1))"

definition active_probe_process_concurrency :: "nat \<Rightarrow> nat option \<Rightarrow> nat" where
  "active_probe_process_concurrency detected configured =
     (let automatic = clamp 1 ACTIVE_PROBE_PROCESS_MAX_CONCURRENCY (detected div 2)
      in clamp 1 ACTIVE_PROBE_PROCESS_MAX_CONCURRENCY (unwrap_or configured automatic))"

definition tcp_prefilter_concurrency :: "nat \<Rightarrow> nat" where
  "tcp_prefilter_concurrency concurrency =
     clamp MIN_TCP_PREFILTER_CONCURRENCY MAX_TCP_PREFILTER_CONCURRENCY
       (sat_mul usize_max concurrency TCP_PREFILTER_CONCURRENCY_MULTIPLIER)"

definition speedtest_probe_limit :: "nat \<Rightarrow> probe_stop_policy \<Rightarrow> nat" where
  "speedtest_probe_limit reachable policy =
     (if sp_scan_all_configs policy then min reachable (max (sp_top_n policy) 1)
      else min reachable (max (sp_top_n policy) 1))"

definition speedtest_probe_concurrency :: "nat \<Rightarrow> nat \<Rightarrow> nat" where
  "speedtest_probe_concurrency configured targets = min (clamp 1 4 configured) (max targets 1)"

definition is_udp_protocol :: "string \<Rightarrow> bool" where
  "is_udp_protocol protocol \<longleftrightarrow> to_ascii_lowercase (trim protocol)
     \<in> {''hysteria2'', ''hysteria'', ''hy2'', ''tuic'', ''wireguard'', ''wg''}"

subsection \<open>The adaptive batch sizer\<close>

record batch_probe_stats =
  bs_started_cleanly :: bool
  bs_produced :: nat
  bs_splits :: nat
  bs_failed_candidates :: nat

definition batch_probe_stats_default :: batch_probe_stats where
  "batch_probe_stats_default = \<lparr> bs_started_cleanly = False, bs_produced = 0, bs_splits = 0,
     bs_failed_candidates = 0 \<rparr>"

record active_batch_sizer =
  sz_current :: nat
  sz_min :: nat
  sz_max :: nat

definition active_batch_sizer_new :: "nat \<Rightarrow> nat option \<Rightarrow> active_batch_sizer" where
  "active_batch_sizer_new concurrency configured =
     (let initial = active_probe_batch_size concurrency configured;
          largest = ACTIVE_PROBE_BATCH_MAX_SIZE
      in \<lparr> sz_current = max (min initial largest) 1,
           sz_min = clamp 1 ACTIVE_PROBE_BATCH_MIN_SIZE concurrency,
           sz_max = max largest 1 \<rparr>)"

definition next_len :: "active_batch_sizer \<Rightarrow> nat \<Rightarrow> nat" where
  "next_len s remaining = min remaining (sz_current s)"

definition observe :: "batch_probe_stats \<Rightarrow> active_batch_sizer \<Rightarrow> active_batch_sizer" where
  "observe stats s =
     (if 0 < bs_splits stats \<or> 0 < bs_failed_candidates stats
      then s\<lparr>sz_current := max (max (sz_current s div 2) (sz_min s)) 1\<rparr>
      else if bs_started_cleanly stats \<and> sz_current s \<le> bs_produced stats
      then s\<lparr>sz_current :=
             max (max (min (sat_mul usize_max (sz_current s) 2) (sz_max s)) (sz_min s)) 1\<rparr>
      else s)"

definition sizer_ok :: "active_batch_sizer \<Rightarrow> bool" where
  "sizer_ok s \<longleftrightarrow> 1 \<le> sz_current s \<and> sz_current s \<le> ACTIVE_PROBE_BATCH_MAX_SIZE
     \<and> 1 \<le> sz_min s \<and> sz_min s \<le> ACTIVE_PROBE_BATCH_MIN_SIZE \<and> sz_max s = ACTIVE_PROBE_BATCH_MAX_SIZE"

lemma sizer_ok_new: "sizer_ok (active_batch_sizer_new c conf)"
  by (simp add: sizer_ok_def active_batch_sizer_new_def Let_def sat_simps
      ACTIVE_PROBE_BATCH_MAX_SIZE_def ACTIVE_PROBE_BATCH_MIN_SIZE_def)

lemma sizer_ok_observe: "sizer_ok s \<Longrightarrow> sizer_ok (observe stats s)"
  by (auto simp: sizer_ok_def observe_def sat_simps usize_max_def
      ACTIVE_PROBE_BATCH_MAX_SIZE_def ACTIVE_PROBE_BATCH_MIN_SIZE_def)

lemma sizer_ok_fold: "sizer_ok s \<Longrightarrow> sizer_ok (fold observe runs s)"
  by (induction runs arbitrary: s) (auto intro: sizer_ok_observe)

lemma next_len_bounds:
  "sizer_ok s \<Longrightarrow> 1 \<le> next_len s (Suc left) \<and> next_len s (Suc left) \<le> min (Suc left) 128"
  by (auto simp: next_len_def sizer_ok_def ACTIVE_PROBE_BATCH_MAX_SIZE_def min_def)

lemma isqrt_spec: "isqrt n * isqrt n \<le> n \<and> n < (isqrt n + 1) * (isqrt n + 1)"
proof (induction n rule: isqrt.induct)
  case (1 n)
  show ?case
  proof (cases "n = 0")
    case True
    then show ?thesis by (simp add: isqrt.simps)
  next
    case False
    define r where "r = isqrt (n div 4)"
    have ih: "r * r \<le> n div 4" "n div 4 < (r + 1) * (r + 1)" using 1 False by (auto simp: r_def)
    have lo: "(2 * r) * (2 * r) \<le> n" using ih(1) by (simp add: algebra_simps)
    have "n < 4 * ((r + 1) * (r + 1))" using ih(2) by linarith
    then have hi: "n < (2 * r + 1 + 1) * (2 * r + 1 + 1)" by (simp add: algebra_simps)
    have "isqrt n = (if (2 * r + 1) * (2 * r + 1) \<le> n then 2 * r + 1 else 2 * r)"
      using False by (subst isqrt.simps) (simp add: Let_def r_def)
    then show ?thesis using lo hi by (simp del: mult_Suc mult_Suc_right)
  qed
qed

subsection \<open>The half-way snapshot in closed form\<close>

lemma snapshot_known_eq:
  "snapshot_known limit items selected used =
     (selected @ take (limit - length selected) items,
      used \<union> r_dedup_key ` set (take (limit - length selected) items))"
proof (induction items arbitrary: selected used)
  case Nil
  then show ?case by simp
next
  case (Cons x xs)
  have "limit - length selected = Suc (limit - Suc (length selected))" if "\<not> limit \<le> length selected"
    using that by linarith
  with Cons show ?case by (cases "limit \<le> length selected") auto
qed

lemma snapshot_fill_eq:
  "snapshot_fill limit items selected used =
     selected @ take (limit - length selected) (fst (retain_new r_dedup_key used items))"
proof (induction items arbitrary: selected used)
  case Nil
  then show ?case by simp
next
  case (Cons x xs)
  have "limit - length selected = Suc (limit - Suc (length selected))" if "\<not> limit \<le> length selected"
    using that by linarith
  with Cons show ?case by (cases "limit \<le> length selected") (auto split: prod.splits)
qed

definition known_part :: "ranked_config list \<Rightarrow> probe_stop_policy \<Rightarrow> nat \<Rightarrow> ranked_config list" where
  "known_part ranked policy limit =
     take limit (filter (\<lambda>i. r_dedup_key i \<in> sp_previous_working_keys policy)
       (sort_by compare_ranked (filter r_reachable ranked)))"

lemma stability_snapshot_eq:
  "sp_prioritize_stability policy \<Longrightarrow> stability_snapshot ranked policy limit =
     known_part ranked policy limit
     @ take (limit - length (known_part ranked policy limit))
         (fst (retain_new r_dedup_key (r_dedup_key ` set (known_part ranked policy limit))
            (sort_by compare_ranked (filter r_reachable ranked))))"
  by (simp add: stability_snapshot_def Let_def snapshot_known_eq snapshot_fill_eq known_part_def)

lemma set_known_part: "set (known_part ranked policy limit) \<subseteq> {r \<in> set ranked. r_reachable r}"
  by (auto simp: known_part_def dest: in_set_takeD)

lemma stability_snapshot_subset:
  "set (stability_snapshot ranked policy limit) \<subseteq> {r \<in> set ranked. r_reachable r}"
proof (cases "sp_prioritize_stability policy")
  case True
  let ?w = "sort_by compare_ranked (filter r_reachable ranked)"
  have "set (take n (fst (retain_new r_dedup_key used ?w))) \<subseteq> set ?w" for n used
    using set_take_subset[of n] retain_new_set[of r_dedup_key used ?w] by fast
  then show ?thesis
    using set_known_part[of ranked policy limit] by (simp add: stability_snapshot_eq[OF True])
next
  case False
  then show ?thesis by (auto simp: stability_snapshot_def Let_def dest: in_set_takeD)
qed

lemma length_stability_snapshot: "length (stability_snapshot ranked policy limit) \<le> limit"
proof (cases "sp_prioritize_stability policy")
  case True
  have "length (known_part ranked policy limit) \<le> limit" by (simp add: known_part_def)
  then show ?thesis by (simp add: stability_snapshot_eq[OF True])
next
  case False
  then show ?thesis by (simp add: stability_snapshot_def Let_def)
qed

lemma stability_snapshot_distinct:
  assumes "distinct (map r_dedup_key ranked)"
  shows "distinct (map r_dedup_key (stability_snapshot ranked policy limit))"
proof -
  let ?w = "sort_by compare_ranked (filter r_reachable ranked)"
  have "distinct (map r_dedup_key (filter r_reachable ranked))"
    using assms by (rule distinct_map_filter)
  then have w: "distinct (map r_dedup_key ?w)"
    by (metis mset_map mset_sort_by mset_eq_imp_distinct_iff)
  show ?thesis
  proof (cases "sp_prioritize_stability policy")
    case True
    let ?k = "known_part ranked policy limit"
    let ?rest = "take (limit - length ?k) (fst (retain_new r_dedup_key (r_dedup_key ` set ?k) ?w))"
    have "distinct (map r_dedup_key ?k)"
      using w by (simp add: known_part_def take_map[symmetric] distinct_take distinct_map_filter)
    moreover have "distinct (map r_dedup_key ?rest)"
      using retain_new_distinct[of r_dedup_key "r_dedup_key ` set ?k" ?w]
      by (simp add: take_map[symmetric] distinct_take)
    moreover have "set ?rest \<subseteq> set (fst (retain_new r_dedup_key (r_dedup_key ` set ?k) ?w))"
      by (rule set_take_subset)
    then have "r_dedup_key ` set ?rest \<inter> r_dedup_key ` set ?k = {}"
      using retain_new_keys[of r_dedup_key "r_dedup_key ` set ?k" ?w] by blast
    ultimately show ?thesis
      unfolding stability_snapshot_eq[OF True] by (simp add: Int_commute)
  next
    case False
    then show ?thesis
      using w by (simp add: stability_snapshot_def Let_def take_map[symmetric] distinct_take)
  qed
qed

subsection \<open>What the decision promises\<close>


definition sample_policy :: probe_stop_policy where
  "sample_policy = \<lparr> sp_scan_all_configs = False, sp_top_n = 2, sp_prioritize_stability = True,
     sp_return_configs_asap = False, sp_previous_working_keys = {''a''}, sp_cancel_flag = None \<rparr>"


lemma update_stability_fold:
  assumes "\<not> sp_scan_all_configs policy" and "sp_prioritize_stability policy"
    and "st_stability_search_exhausted s = (sp_previous_working_keys policy \<noteq> {} \<and> st_remaining_previous_working s = 0)"
  shows "st_stability_search_exhausted (fold (\<lambda>w. update_stability_search_after_batch w policy) ws s)
     = (sp_previous_working_keys policy \<noteq> {} \<and> st_remaining_previous_working s \<le> sum_list ws)"
  using assms(3)
proof (induction ws arbitrary: s)
  case Nil
  then show ?case by simp
next
  case (Cons w ws)
  let ?s = "update_stability_search_after_batch w policy s"
  show ?case
  proof (cases "st_stability_search_exhausted s")
    case True
    then have "?s = s" by (simp add: update_stability_search_after_batch_def)
    then show ?thesis using Cons True by simp
  next
    case False
    then have "st_stability_search_exhausted ?s = (sp_previous_working_keys policy \<noteq> {} \<and> st_remaining_previous_working ?s = 0)"
      "st_remaining_previous_working ?s = st_remaining_previous_working s - w"
      using assms(1,2) by (simp_all add: update_stability_search_after_batch_def Let_def)
    then show ?thesis using Cons.IH[of ?s] by auto
  qed
qed

text \<open>
  The search for configurations that worked before ends exactly when there are some to look
  for and the waves have tested at least as many entries with such a key as were prepared; from
  then on, as many reachable results as are wanted are enough to stop.
\<close>

lemma stability_search_ends:
  assumes "\<not> sp_scan_all_configs policy" and "sp_prioritize_stability policy"
  shows "let s = fold (\<lambda>w. update_stability_search_after_batch w policy) tested_per_wave
                   (probe_stop_state_new prepared policy)
   in st_stability_search_exhausted s =
        (sp_previous_working_keys policy \<noteq> {}
         \<and> previous_working_entry_count prepared policy \<le> sum_list tested_per_wave)
    \<and> (st_stability_search_exhausted s \<and> 0 < sp_top_n policy \<and> sp_top_n policy \<le> reachable_count ranked
       \<longrightarrow> fst (probe_stop_reason ranked policy s progress) \<noteq> None)"
proof -
  have "st_stability_search_exhausted (probe_stop_state_new prepared policy) =
      (sp_previous_working_keys policy \<noteq> {} \<and> st_remaining_previous_working (probe_stop_state_new prepared policy) = 0)"
    "st_remaining_previous_working (probe_stop_state_new prepared policy) = previous_working_entry_count prepared policy"
    using assms by (simp_all add: probe_stop_state_new_def Let_def)
  then show ?thesis
    using update_stability_fold[OF assms, of "probe_stop_state_new prepared policy" tested_per_wave] assms
    by (auto simp: Let_def probe_stop_reason_def)
qed

lemma stability_search_ends_example:
  "st_stability_search_exhausted (fold (\<lambda>w. update_stability_search_after_batch w sample_policy) [0]
      (probe_stop_state_new [] sample_policy))"
  using stability_search_ends[of sample_policy "[0]" "[]"]
  by (simp add: sample_policy_def Let_def previous_working_entry_count_def)

text \<open>
  The half-way snapshot holds reachable results only, at most as many as asked for, never the
  same key twice when the results have distinct keys, and, when stability is preferred, starts
  with the best of those that worked before.
\<close>

lemma stability_snapshot_correct:
  assumes "distinct (map r_dedup_key ranked)"
  shows "set (stability_snapshot ranked policy limit) \<subseteq> {r \<in> set ranked. r_reachable r}
     \<and> length (stability_snapshot ranked policy limit) \<le> limit
     \<and> distinct (map r_dedup_key (stability_snapshot ranked policy limit))
     \<and> (sp_prioritize_stability policy \<longrightarrow>
          prefix (known_part ranked policy limit) (stability_snapshot ranked policy limit))"
  using stability_snapshot_subset length_stability_snapshot stability_snapshot_distinct[OF assms]
  by (simp add: stability_snapshot_eq)

lemma stability_snapshot_correct_example:
  "\<exists>ranked. length ranked = 2
     \<and> prefix (known_part ranked sample_policy 1) (stability_snapshot ranked sample_policy 1)
     \<and> map r_uri (stability_snapshot ranked sample_policy 1) = [''a'']"
proof -
  let ?rs = "[sample_ranked ''a'' True 9, sample_ranked ''b'' True 5]"
  have "distinct (map r_dedup_key ?rs)" by (simp add: sample_ranked_def)
  from stability_snapshot_correct[OF this, of sample_policy 1]
  have "prefix (known_part ?rs sample_policy 1) (stability_snapshot ?rs sample_policy 1)"
    by (simp add: sample_policy_def)
  moreover have "map r_uri (stability_snapshot ?rs sample_policy 1) = [''a'']" by code_simp
  ultimately show ?thesis by (intro exI[of _ ?rs]) simp
qed

lemma clamp_between: "lo \<le> hi \<Longrightarrow> clamp lo hi x \<in> {lo..hi}"
  by (simp add: clamp_def)

lemma http_concurrency_bounds: "active_probe_http_concurrency c n \<in> {1..min 128 (max n 1)}"
  using clamp_between[of 1 128]
  by (simp add: active_probe_http_concurrency_def Let_def ACTIVE_PROBE_HTTP_MAX_CONCURRENCY_def
      min.coboundedI1)

lemma process_concurrency_bounds: "active_probe_process_concurrency d p \<in> {1..4}"
  using clamp_between[of 1 4]
  by (simp add: active_probe_process_concurrency_def Let_def ACTIVE_PROBE_PROCESS_MAX_CONCURRENCY_def)

lemma prefilter_concurrency_bounds: "tcp_prefilter_concurrency c \<in> {256..512}"
  using clamp_between[of 256 512]
  by (simp add: tcp_prefilter_concurrency_def MIN_TCP_PREFILTER_CONCURRENCY_def
      MAX_TCP_PREFILTER_CONCURRENCY_def)

lemma speedtest_concurrency_bounds: "speedtest_probe_concurrency c n \<in> {1..min 4 (max n 1)}"
  using clamp_between[of 1 4] by (simp add: speedtest_probe_concurrency_def min.coboundedI1)

text \<open>
  C9: Whatever the batches report, the batch size stays between 1 and 128, so that while anything
  is left a batch takes at least one entry and at most 128 of them; the limits on parallel HTTP
  probes, processes, pre-filter connections and speed tests stay within their constants, and
  never exceed the work there is.
\<close>

theorem sizes_bounded:
  "let s = fold observe runs (active_batch_sizer_new concurrency configured) in
     1 \<le> next_len s (Suc left) \<and> next_len s (Suc left) \<le> min (Suc left) 128
   \<and> active_probe_http_concurrency c n \<in> {1..min 128 (max n 1)}
   \<and> active_probe_process_concurrency detected p \<in> {1..4}
   \<and> tcp_prefilter_concurrency c \<in> {256..512}
   \<and> speedtest_probe_concurrency c n \<in> {1..min 4 (max n 1)}
   \<and> speedtest_probe_limit n policy = min n (max (sp_top_n policy) 1)"
proof -
  have "sizer_ok (fold observe runs (active_batch_sizer_new concurrency configured))"
    by (intro sizer_ok_fold sizer_ok_new)
  then show ?thesis
    using next_len_bounds http_concurrency_bounds process_concurrency_bounds prefilter_concurrency_bounds
      speedtest_concurrency_bounds
    by (simp add: Let_def speedtest_probe_limit_def del: atLeastAtMost_iff min.bounded_iff)
qed

end
