(* ===== verification/Scheduler.thy ===== *)
theory Scheduler
  imports Model
begin

text \<open>
  The order in which candidates are probed (\<open>source_fair_candidates\<close> and
  \<open>schedule_active_candidates\<close> of \<open>src/probe.rs\<close>): one queue per (source, priority), the
  queues sorted by priority, one candidate taken from each in turn until all are scheduled.
\<close>

subsection \<open>The queues\<close>

record source_queue =
  q_source :: string
  q_priority :: nat
  q_first_index :: nat
  q_preferred :: "candidate list"
  q_regular :: "candidate list"

definition pop_front :: "source_queue \<Rightarrow> candidate option \<times> source_queue" where
  "pop_front q =
     (case q_preferred q of
        c # cs \<Rightarrow> (Some c, q\<lparr>q_preferred := cs\<rparr>)
      | [] \<Rightarrow> (case q_regular q of
                c # cs \<Rightarrow> (Some c, q\<lparr>q_regular := cs\<rparr>)
              | [] \<Rightarrow> (None, q)))"

definition push_back :: "bool \<Rightarrow> candidate \<Rightarrow> source_queue \<Rightarrow> source_queue" where
  "push_back preferred c q =
     (if preferred then q\<lparr>q_preferred := q_preferred q @ [c]\<rparr>
      else q\<lparr>q_regular := q_regular q @ [c]\<rparr>)"

definition queue_key :: "candidate \<Rightarrow> string \<times> nat" where
  "queue_key c = (c_source c, c_priority c)"

definition new_queue :: "nat \<Rightarrow> candidate \<Rightarrow> source_queue" where
  "new_queue index c = \<lparr>q_source = c_source c, q_priority = c_priority c, q_first_index = index,
     q_preferred = [], q_regular = []\<rparr>"

definition enqueue ::
  "(candidate \<Rightarrow> bool) \<Rightarrow> nat \<Rightarrow> candidate \<Rightarrow> source_queue list \<times> (string \<times> nat \<rightharpoonup> nat)
     \<Rightarrow> source_queue list \<times> (string \<times> nat \<rightharpoonup> nat)" where
  "enqueue is_preferred index c state =
     (case state of (queues, queue_indexes) \<Rightarrow>
       (case queue_indexes (queue_key c) of
          Some i \<Rightarrow> (queues[i := push_back (is_preferred c) c (queues ! i)], queue_indexes)
        | None \<Rightarrow> (queues @ [push_back (is_preferred c) c (new_queue index c)],
                   queue_indexes(queue_key c \<mapsto> length queues))))"

fun enqueue_all ::
  "(candidate \<Rightarrow> bool) \<Rightarrow> nat \<Rightarrow> candidate list \<Rightarrow> source_queue list \<times> (string \<times> nat \<rightharpoonup> nat)
     \<Rightarrow> source_queue list \<times> (string \<times> nat \<rightharpoonup> nat)" where
  "enqueue_all is_preferred index [] state = state"
| "enqueue_all is_preferred index (c # cs) state =
     enqueue_all is_preferred (Suc index) cs (enqueue is_preferred index c state)"

definition compare_queues :: "source_queue \<Rightarrow> source_queue \<Rightarrow> ordering" where
  "compare_queues left right =
     then_with (cmp (q_priority left) (q_priority right))
    (then_with (cmp (q_first_index left) (q_first_index right))
               (cmp (q_source left) (q_source right)))"

interpretation queues: comparator compare_queues "\<lambda>_. True"
  unfolding compare_queues_def[abs_def] by (intro comparator_lex comparator_key)

subsection \<open>The round robin\<close>

fun sweep :: "source_queue list \<Rightarrow> source_queue list \<times> candidate list" where
  "sweep [] = ([], [])"
| "sweep (q # qs) =
     (let (popped, q') = pop_front q; (qs', out) = sweep qs
      in (q' # qs', (case popped of Some c \<Rightarrow> c # out | None \<Rightarrow> out)))"

definition round_robin :: "nat \<Rightarrow> source_queue list \<Rightarrow> (source_queue list \<times> candidate list) option" where
  "round_robin candidate_count queues =
     while_option (\<lambda>(qs, scheduled). length scheduled < candidate_count)
       (\<lambda>(qs, scheduled). (case sweep qs of (qs', out) \<Rightarrow> (qs', scheduled @ out)))
       (queues, [])"

text \<open>\<^term>\<open>None\<close> stands for a loop that never reaches \<open>candidate_count\<close>.\<close>

definition source_fair_run :: "candidate list \<Rightarrow> (candidate \<Rightarrow> bool) \<Rightarrow> candidate list option" where
  "source_fair_run candidates is_preferred =
     (if length candidates \<le> 1 then Some candidates
      else map_option snd (round_robin (length candidates)
             (sort_by compare_queues (fst (enqueue_all is_preferred 0 candidates ([], Map.empty))))))"

definition source_fair_candidates :: "candidate list \<Rightarrow> (candidate \<Rightarrow> bool) \<Rightarrow> candidate list" where
  "source_fair_candidates candidates is_preferred = the (source_fair_run candidates is_preferred)"

definition schedule_active_candidates :: "candidate list \<Rightarrow> probe_stop_policy \<Rightarrow> candidate list" where
  "schedule_active_candidates candidates policy =
     (if length candidates \<le> 1 then candidates
      else let has_previous =
             sp_prioritize_stability policy \<and> sp_previous_working_keys policy \<noteq> {}
           in source_fair_candidates candidates
                (\<lambda>c. has_previous \<and> c_dedup_key c \<in> sp_previous_working_keys policy))"

subsection \<open>The round robin on plain lists\<close>

definition q_contents :: "source_queue \<Rightarrow> candidate list" where
  "q_contents q = q_preferred q @ q_regular q"

definition q_key :: "source_queue \<Rightarrow> string \<times> nat" where
  "q_key q = (q_source q, q_priority q)"

definition heads :: "'a list list \<Rightarrow> 'a list" where
  "heads xss = map hd (filter (\<lambda>xs. xs \<noteq> []) xss)"

lemma heads_simps [simp]:
  "heads [] = []" "heads ([] # xss) = heads xss" "heads ((x # xs) # xss) = x # heads xss"
  "heads (xss @ yss) = heads xss @ heads yss"
  by (simp_all add: heads_def)

lemma sum_length_tl_less:
  "x \<noteq> [] \<Longrightarrow> x \<in> set xss \<Longrightarrow>
     sum_list (map (length \<circ> tl) xss) < sum_list (map length xss)"
proof (induction xss)
  case Nil
  then show ?case by simp
next
  case (Cons y ys)
  have le: "sum_list (map (length \<circ> tl) ys) \<le> sum_list (map length ys)"
    by (rule sum_list_mono) simp
  show ?case
  proof (cases "x = y")
    case True
    then show ?thesis using Cons.prems(1) le by (cases y) (auto simp: o_def)
  next
    case False
    then have "x \<in> set ys" using Cons.prems(2) by simp
    then have "sum_list (map (length \<circ> tl) ys) < sum_list (map length ys)"
      by (rule Cons.IH[OF Cons.prems(1)])
    moreover have "length (tl y) \<le> length y" by simp
    ultimately show ?thesis by (simp add: o_def)
  qed
qed

function interleave :: "'a list list \<Rightarrow> 'a list" where
  "interleave xss = (if list_all (\<lambda>xs. xs = []) xss then [] else heads xss @ interleave (map tl xss))"
  by pat_completeness auto
termination
  by (relation "measure (\<lambda>xss. sum_list (map length xss))")
    (auto simp: list_all_iff intro: sum_length_tl_less)

declare interleave.simps [simp del]

lemma mset_heads_tl: "mset (heads xss) + mset (concat (map tl xss)) = mset (concat xss)"
proof (induction xss)
  case Nil
  then show ?case by simp
next
  case (Cons x xs)
  then show ?case by (cases x) (simp_all add: ac_simps)
qed

lemma mset_interleave: "mset (interleave xss) = mset (concat xss)"
proof (induction xss rule: interleave.induct)
  case (1 xss)
  show ?case
  proof (cases "list_all (\<lambda>xs. xs = []) xss")
    case True
    then show ?thesis by (simp add: interleave.simps[of xss] list_all_iff)
  next
    case False
    then show ?thesis
      using 1 mset_heads_tl[of xss] by (simp add: interleave.simps[of xss] del: mset_concat)
  qed
qed

lemma heads_none: "\<forall>xs\<in>set xss. \<forall>x\<in>set xs. \<not> P x \<Longrightarrow> filter P (heads xss) = []"
proof (induction xss)
  case Nil
  then show ?case by simp
next
  case (Cons y ys)
  then show ?case by (cases y) auto
qed

text \<open>The members of one of the lists come out in that list's order.\<close>

lemma filter_interleave:
  assumes "\<forall>ys\<in>set us \<union> set vs. \<forall>y\<in>set ys. \<not> P y" and "\<forall>x\<in>set xs. P x"
  shows "filter P (interleave (us @ xs # vs)) = xs"
  using assms
proof (induction "us @ xs # vs" arbitrary: us xs vs rule: interleave.induct)
  case 1
  have none: "filter P (heads us) = []" "filter P (heads vs) = []"
    using "1.prems"(1) by (intro heads_none; blast)+
  show ?case
  proof (cases "list_all (\<lambda>xs. xs = []) (us @ xs # vs)")
    case True
    then have "interleave (us @ xs # vs) = []" by (subst interleave.simps) simp
    with True show ?thesis by simp
  next
    case False
    have tl: "set (tl ys) \<subseteq> set ys" for ys :: "'a list" by (cases ys) auto
    have "filter P (interleave (map tl us @ tl xs # map tl vs)) = tl xs"
      using "1.prems" tl by (intro "1.hyps"(1)[OF False]) (auto, blast+)
    then have "filter P (interleave (us @ xs # vs)) = filter P (heads [xs]) @ tl xs"
      using False none by (cases xs) (auto simp: interleave.simps[of "us @ _ # vs"])
    then show ?thesis using "1.prems"(2) by (cases xs) auto
  qed
qed

lemma take_interleave_heads:
  assumes "list_all (\<lambda>xs. xs \<noteq> []) xss"
  shows "take (length xss) (interleave xss) = map hd xss"
proof (cases "xss = []")
  case True
  then show ?thesis by simp
next
  case False
  then have "\<not> list_all (\<lambda>xs. xs = []) xss" using assms by (cases xss) auto
  moreover have "filter (\<lambda>xs. xs \<noteq> []) xss = xss" using assms by (simp add: list_all_iff)
  ultimately show ?thesis by (simp add: interleave.simps[of xss] heads_def)
qed

subsection \<open>The loop computes the round robin\<close>

lemma pop_front_contents:
  "fst (pop_front q) = (case q_contents q of [] \<Rightarrow> None | c # _ \<Rightarrow> Some c)"
  "q_contents (snd (pop_front q)) = tl (q_contents q)"
  "q_key (snd (pop_front q)) = q_key q"
  by (auto simp: pop_front_def q_contents_def q_key_def split: list.splits)

lemma sweep_spec:
  "map q_contents (fst (sweep qs)) = map tl (map q_contents qs)"
  "snd (sweep qs) = heads (map q_contents qs)"
proof (induction qs)
  case Nil
  { case 1 then show ?case by simp }
  { case 2 then show ?case by simp }
next
  case (Cons q qs)
  { case 1 then show ?case using Cons pop_front_contents[of q] by (auto simp: Let_def split: prod.splits) }
  { case 2 then show ?case
      using Cons pop_front_contents[of q]
      by (cases "q_contents q") (auto simp: Let_def split: prod.splits) }
qed

lemma round_robin_state:
  assumes "n = length out + length (concat (map q_contents qs))"
  shows "\<exists>qs'. while_option (\<lambda>(qs, scheduled). length scheduled < n)
       (\<lambda>(qs, scheduled). (case sweep qs of (qs', o') \<Rightarrow> (qs', scheduled @ o')))
       (qs, out) = Some (qs', out @ interleave (map q_contents qs))"
  using assms
proof (induction "map q_contents qs" arbitrary: qs out rule: interleave.induct)
  case 1
  obtain qs1 out1 where sw: "sweep qs = (qs1, out1)" by fastforce
  have qs1: "map q_contents qs1 = map tl (map q_contents qs)" "out1 = heads (map q_contents qs)"
    using sweep_spec[of qs] sw by simp_all
  show ?case
  proof (cases "list_all (\<lambda>xs. xs = []) (map q_contents qs)")
    case True
    then have "n = length out" using "1.prems" by (simp add: list_all_iff)
    then show ?thesis
      using True by (auto simp: while_option_unfold interleave.simps[of "map q_contents qs"])
  next
    case False
    have "mset (concat (map q_contents qs)) = mset (concat (map q_contents qs1)) + mset out1"
      using mset_heads_tl[of "map q_contents qs"] qs1 by (simp add: ac_simps del: mset_concat)
    then have len: "length (concat (map q_contents qs)) = length out1 + length (concat (map q_contents qs1))"
      by (metis add.commute size_mset size_union)
    have "0 < length (concat (map q_contents qs))"
      using False by (auto simp: list_all_iff)
    with "1.prems" have go: "length out < n" by simp
    have "n = length (out @ out1) + length (concat (map q_contents qs1))"
      using len "1.prems" by simp
    with "1.hyps"[OF False qs1(1)[symmetric]] obtain qs' where
      "while_option (\<lambda>(qs, scheduled). length scheduled < n)
       (\<lambda>(qs, scheduled). (case sweep qs of (qs', o') \<Rightarrow> (qs', scheduled @ o')))
       (qs1, out @ out1) = Some (qs', (out @ out1) @ interleave (map q_contents qs1))" by blast
    with go sw False show ?thesis
      by (simp add: while_option_unfold[of _ _ "(qs, out)"] qs1 interleave.simps[of "map q_contents qs"])
  qed
qed

subsection \<open>What the queues hold\<close>

definition queues_inv ::
  "(candidate \<Rightarrow> bool) \<Rightarrow> candidate list \<Rightarrow> source_queue list \<Rightarrow> (string \<times> nat \<rightharpoonup> nat) \<Rightarrow> bool" where
  "queues_inv pref cs qs m \<longleftrightarrow>
     (\<forall>k i. m k = Some i \<longleftrightarrow> i < length qs \<and> q_key (qs ! i) = k)
     \<and> mset (concat (map q_contents qs)) = mset cs
     \<and> (\<forall>q\<in>set qs. q_contents q \<noteq> []
          \<and> q_preferred q = filter (\<lambda>c. queue_key c = q_key q \<and> pref c) cs
          \<and> q_regular q = filter (\<lambda>c. queue_key c = q_key q \<and> \<not> pref c) cs)"

lemma queues_inv_Nil: "queues_inv pref [] [] Map.empty"
  by (simp add: queues_inv_def)

lemma push_back_simps [simp]:
  "q_key (push_back p c q) = q_key q"
  "mset (q_contents (push_back p c q)) = add_mset c (mset (q_contents q))"
  by (auto simp: push_back_def q_key_def q_contents_def)

lemma new_queue_simps [simp]:
  "q_key (new_queue i c) = queue_key c" "q_preferred (new_queue i c) = []"
  "q_regular (new_queue i c) = []" "q_contents (new_queue i c) = []"
  by (simp_all add: new_queue_def q_key_def queue_key_def q_contents_def)

lemma queues_inv_index:
  "queues_inv pref cs qs m \<Longrightarrow> (m k = Some i) = (i < length qs \<and> q_key (qs ! i) = k)"
  unfolding queues_inv_def by blast

lemma queues_inv_distinct: "queues_inv pref cs qs m \<Longrightarrow> distinct (map q_key qs)"
  unfolding queues_inv_def distinct_conv_nth by (metis length_map nth_map option.inject)

lemma queues_inv_fresh:
  assumes "queues_inv pref cs qs m" and "m (queue_key c) = None" and "d \<in> set cs"
  shows "queue_key d \<noteq> queue_key c"
proof -
  have "d \<in># mset (concat (map q_contents qs))" using assms(1,3) by (simp add: queues_inv_def)
  then obtain q where q: "q \<in> set qs" "d \<in> set (q_contents q)" by auto
  then have "queue_key d = q_key q" using assms(1) by (auto simp: queues_inv_def q_contents_def)
  moreover obtain i where "i < length qs" "qs ! i = q" using q(1) by (metis in_set_conv_nth)
  ultimately have "m (queue_key d) = Some i" using queues_inv_index[OF assms(1)] by simp
  then show ?thesis using assms(2) by auto
qed

lemma concat_update_mset:
  "i < length qs \<Longrightarrow> mset (f q') = add_mset c (mset (f (qs ! i))) \<Longrightarrow>
     mset (concat (map f (qs[i := q']))) = add_mset c (mset (concat (map f qs)))"
  by (induction qs arbitrary: i) (auto split: nat.splits)

lemma enqueue_inv:
  assumes inv: "queues_inv pref cs qs m" and e: "enqueue pref index c (qs, m) = (qs', m')"
  shows "queues_inv pref (cs @ [c]) qs' m'"
proof (cases "m (queue_key c)")
  case None
  let ?q = "push_back (pref c) c (new_queue index c)"
  have out: "qs' = qs @ [?q]" "m' = m(queue_key c \<mapsto> length qs)"
    using e None by (auto simp: enqueue_def)
  have fresh: "\<forall>d\<in>set cs. queue_key d \<noteq> queue_key c" using queues_inv_fresh[OF inv None] by blast
  have old: "\<forall>q\<in>set qs. q_key q \<noteq> queue_key c"
    using inv None unfolding queues_inv_def by (metis in_set_conv_nth option.distinct(1))
  have new: "q_contents ?q \<noteq> []" "q_preferred ?q = filter (\<lambda>d. queue_key d = queue_key c \<and> pref d) (cs @ [c])"
    "q_regular ?q = filter (\<lambda>d. queue_key d = queue_key c \<and> \<not> pref d) (cs @ [c])"
    using fresh by (auto simp: push_back_def q_contents_def filter_empty_conv)
  have idx: "(\<forall>k i. m' k = Some i \<longleftrightarrow> i < length qs' \<and> q_key (qs' ! i) = k)"
    using queues_inv_index[OF inv] old None
    by (auto simp: out nth_append less_Suc_eq simp del: split_paired_All)
  show ?thesis
    using inv new old idx by (auto simp: out(1) queues_inv_def)
next
  case (Some i)
  let ?q = "push_back (pref c) c (qs ! i)"
  have out: "qs' = qs[i := ?q]" "m' = m" using e Some by (auto simp: enqueue_def)
  have i: "i < length qs" "q_key (qs ! i) = queue_key c" using queues_inv_index[OF inv] Some by simp_all
  then have qi: "qs ! i \<in> set qs" by simp
  have others: "\<forall>j<length qs. j \<noteq> i \<longrightarrow> q_key (qs ! j) \<noteq> queue_key c"
    using inv Some unfolding queues_inv_def by (metis option.inject)
  have idx: "(\<forall>k j. m' k = Some j \<longleftrightarrow> j < length qs' \<and> q_key (qs' ! j) = k)"
    using queues_inv_index[OF inv] i by (auto simp: out nth_list_update simp del: split_paired_All)
  have ms: "mset (concat (map q_contents qs')) = mset (cs @ [c])"
    using inv concat_update_mset[OF i(1), of q_contents ?q c] by (simp add: out queues_inv_def)
  have here: "q_contents ?q \<noteq> []
      \<and> q_preferred ?q = filter (\<lambda>d. queue_key d = queue_key c \<and> pref d) (cs @ [c])
      \<and> q_regular ?q = filter (\<lambda>d. queue_key d = queue_key c \<and> \<not> pref d) (cs @ [c])"
    using inv qi i(2) by (auto simp: queues_inv_def push_back_def q_contents_def)
  have others': "\<forall>j<length qs. j \<noteq> i \<longrightarrow> q_contents (qs ! j) \<noteq> []
      \<and> q_preferred (qs ! j) = filter (\<lambda>d. queue_key d = q_key (qs ! j) \<and> pref d) (cs @ [c])
      \<and> q_regular (qs ! j) = filter (\<lambda>d. queue_key d = q_key (qs ! j) \<and> \<not> pref d) (cs @ [c])"
    using inv others by (auto simp: queues_inv_def)
  have "\<forall>q\<in>set qs'. q_contents q \<noteq> []
      \<and> q_preferred q = filter (\<lambda>d. queue_key d = q_key q \<and> pref d) (cs @ [c])
      \<and> q_regular q = filter (\<lambda>d. queue_key d = q_key q \<and> \<not> pref d) (cs @ [c])"
    (is "\<forall>q\<in>_. ?P q")
  proof (intro ballI)
    fix q assume "q \<in> set qs'"
    then obtain j where "j < length qs" "q = (if j = i then ?q else qs ! j)"
      using i(1) by (auto simp: out in_set_conv_nth nth_list_update)
    then show "?P q" using here others' i(2) by (cases "j = i") auto
  qed
  with idx ms show ?thesis by (simp add: queues_inv_def)
qed

lemma enqueue_all_inv:
  "queues_inv pref done qs m \<Longrightarrow> enqueue_all pref index cs (qs, m) = (qs', m') \<Longrightarrow>
     queues_inv pref (done @ cs) qs' m'"
proof (induction cs arbitrary: "done" qs m index)
  case Nil
  then show ?case by simp
next
  case (Cons c cs)
  obtain qs1 m1 where e: "enqueue pref index c (qs, m) = (qs1, m1)" by fastforce
  show ?case
    using Cons.IH[OF enqueue_inv[OF Cons.prems(1) e]] Cons.prems(2) e by simp
qed

subsection \<open>The schedule\<close>

lemma queues_inv_members:
  assumes "queues_inv pref cs qs m" and "q \<in> set qs" and "c \<in> set (q_contents q)"
  shows "queue_key c = q_key q"
  using assms by (auto simp: queues_inv_def q_contents_def)

lemma queues_inv_keys:
  assumes inv: "queues_inv pref cs qs m"
  shows "q_key ` set qs = queue_key ` set cs"
proof
  have ms: "set cs = \<Union> (set ` q_contents ` set qs)"
    using inv unfolding queues_inv_def
    by (metis (no_types, lifting) image_image list.set_map set_concat set_mset_mset)
  show "q_key ` set qs \<subseteq> queue_key ` set cs"
  proof
    fix k assume "k \<in> q_key ` set qs"
    then obtain q where q: "q \<in> set qs" "k = q_key q" by blast
    moreover from inv q(1) have "hd (q_contents q) \<in> set (q_contents q)"
      by (simp add: queues_inv_def)
    then obtain c where "c \<in> set (q_contents q)" by blast
    ultimately show "k \<in> queue_key ` set cs"
      using ms queues_inv_members[OF inv q(1)] by (metis (full_types) UN_I imageI)
  qed
  show "queue_key ` set cs \<subseteq> q_key ` set qs"
    using ms queues_inv_members[OF inv] by fastforce
qed

lemma source_fair_run_queues:
  assumes "length cs > 1"
  obtains qs m where "queues_inv pref cs qs m"
    and "source_fair_run cs pref =
           Some (interleave (map q_contents (sort_by compare_queues qs)))"
proof -
  obtain qs m where e: "enqueue_all pref 0 cs ([], Map.empty) = (qs, m)" by fastforce
  have inv: "queues_inv pref cs qs m" using enqueue_all_inv[OF queues_inv_Nil e] by simp
  let ?qs = "sort_by compare_queues qs"
  have "mset (concat (map q_contents ?qs)) = mset (concat (map q_contents qs))"
    unfolding mset_concat by (metis (no_types) map_map mset_map mset_sort_by sum_mset_sum_list)
  then have "length (concat (map q_contents ?qs)) = length cs"
    using inv unfolding queues_inv_def by (metis size_mset)
  then have "length cs = length ([] :: candidate list) + length (concat (map q_contents ?qs))"
    by simp
  from round_robin_state[OF this] obtain qs' where
    "round_robin (length cs) ?qs = Some (qs', interleave (map q_contents ?qs))"
    by (auto simp: round_robin_def)
  then have "source_fair_run cs pref = Some (interleave (map q_contents ?qs))"
    using assms e by (simp add: source_fair_run_def)
  with inv show ?thesis by (rule that)
qed

lemma source_fair_candidates_queues:
  assumes "length cs > 1"
  obtains qs m where "queues_inv pref cs qs m"
    and "source_fair_candidates cs pref = interleave (map q_contents (sort_by compare_queues qs))"
  using source_fair_run_queues[OF assms] by (metis option.sel source_fair_candidates_def)

lemma source_fair_candidates_short: "length cs \<le> 1 \<Longrightarrow> source_fair_candidates cs pref = cs"
  by (simp add: source_fair_candidates_def source_fair_run_def)

lemma short_list_cases: "length xs \<le> 1 \<Longrightarrow> xs = [] \<or> (\<exists>x. xs = [x])"
  by (cases xs) auto

lemma mset_concat_sort_by [simp]:
  "mset (concat (map f (sort_by c xs))) = mset (concat (map f xs))"
  unfolding mset_concat by (metis (no_types) map_map mset_map mset_sort_by sum_mset_sum_list)

lemma source_fair_run_perm: "\<exists>out. source_fair_run cs pref = Some out \<and> mset out = mset cs"
proof (cases "length cs > 1")
  case False
  then show ?thesis by (simp add: source_fair_run_def)
next
  case True
  then show ?thesis
    by (rule source_fair_run_queues[where pref = pref])
       (auto simp: mset_interleave queues_inv_def simp del: mset_concat)
qed

lemma mset_source_fair_candidates [simp]: "mset (source_fair_candidates cs pref) = mset cs"
  using source_fair_run_perm[of cs pref] by (auto simp: source_fair_candidates_def)

lemma distinct_map_sort_by: "distinct (map f (sort_by c xs)) = distinct (map f xs)"
  by (metis mset_map mset_sort_by mset_eq_imp_distinct_iff)

lemma source_fair_candidates_filter:
  "filter (\<lambda>c. queue_key c = k) (source_fair_candidates cs pref) =
     filter (\<lambda>c. queue_key c = k \<and> pref c) cs @ filter (\<lambda>c. queue_key c = k \<and> \<not> pref c) cs"
proof (cases "length cs > 1")
  case False
  then show ?thesis
    using short_list_cases[of cs] by (auto simp: source_fair_candidates_short)
next
  case True
  then obtain qs m where inv: "queues_inv pref cs qs m"
    and out: "source_fair_candidates cs pref =
                interleave (map q_contents (sort_by compare_queues qs))"
    by (rule source_fair_candidates_queues)
  let ?qs = "sort_by compare_queues qs"
  show ?thesis
  proof (cases "k \<in> q_key ` set qs")
    case True
    then obtain q where q: "q \<in> set ?qs" "q_key q = k" by auto
    then obtain us vs where qs: "?qs = us @ q # vs" by (metis split_list)
    have "distinct (map q_key ?qs)"
      using queues_inv_distinct[OF inv] by (simp only: distinct_map_sort_by)
    then have "q_key q \<notin> q_key ` set us \<union> q_key ` set vs" by (auto simp: qs)
    then have other: "\<forall>p\<in>set us \<union> set vs. q_key p \<noteq> k" using q(2) by (auto simp: image_iff)
    have mem: "\<forall>p\<in>set us \<union> set vs \<union> {q}. p \<in> set qs"
      using set_sort_by[of compare_queues qs] by (auto simp: qs)
    have "filter (\<lambda>c. queue_key c = k)
            (interleave (map q_contents us @ q_contents q # map q_contents vs)) = q_contents q"
    proof (rule filter_interleave)
      show "\<forall>ys\<in>set (map q_contents us) \<union> set (map q_contents vs). \<forall>y\<in>set ys. queue_key y \<noteq> k"
        using other mem queues_inv_members[OF inv] by (auto, (metis Un_iff)+)
      show "\<forall>x\<in>set (q_contents q). queue_key x = k"
        using mem q(2) queues_inv_members[OF inv] by auto
    qed
    then have "filter (\<lambda>c. queue_key c = k) (source_fair_candidates cs pref) = q_contents q"
      by (simp add: out qs)
    moreover have "q \<in> set qs" using mem by simp
    ultimately show ?thesis using inv q(2) by (auto simp: queues_inv_def q_contents_def)
  next
    case False
    then have "\<forall>c\<in>set cs. queue_key c \<noteq> k" using queues_inv_keys[OF inv] by blast
    moreover have "set (source_fair_candidates cs pref) = set cs"
      by (metis mset_source_fair_candidates set_mset_mset)
    ultimately show ?thesis by (simp add: filter_empty_conv)
  qed
qed

lemma source_fair_candidates_heads:
  assumes inv: "queues_inv pref cs qs m"
    and out: "source_fair_candidates cs pref =
                interleave (map q_contents (sort_by compare_queues qs))"
  shows "map queue_key (take (length qs) (source_fair_candidates cs pref)) =
           map q_key (sort_by compare_queues qs)"
proof -
  let ?qs = "sort_by compare_queues qs"
  have ne: "\<forall>q\<in>set qs. q_contents q \<noteq> []" using inv by (simp add: queues_inv_def)
  then have "take (length (map q_contents ?qs)) (interleave (map q_contents ?qs)) =
               map hd (map q_contents ?qs)"
    by (intro take_interleave_heads) (simp add: list_all_iff)
  moreover have "\<forall>q\<in>set qs. queue_key (hd (q_contents q)) = q_key q"
    using ne queues_inv_members[OF inv] by simp
  ultimately show ?thesis by (simp add: out)
qed

lemma sorted_queue_priorities:
  "sorted (map (\<lambda>q. snd (q_key q)) (sort_by compare_queues qs))"
proof -
  have "sorted_wrt (\<lambda>a b. compare_queues a b \<noteq> Greater) (sort_by compare_queues qs)"
    by (rule queues.sorted_sort_by) (simp add: list_all_iff)
  then show ?thesis
    unfolding sorted_map
    by (rule sorted_wrt_mono_rel[rotated])
       (auto simp: compare_queues_def then_with_iffs q_key_def not_less)
qed

lemma source_fair_first_round:
  "let first = map queue_key (take (card (queue_key ` set cs)) (source_fair_candidates cs pref))
   in distinct first \<and> set first = queue_key ` set cs \<and> sorted (map snd first)"
proof (cases "length cs > 1")
  case False
  then show ?thesis
    using short_list_cases[of cs] by (auto simp: source_fair_candidates_short)
next
  case True
  then obtain qs m where inv: "queues_inv pref cs qs m"
    and out: "source_fair_candidates cs pref =
                interleave (map q_contents (sort_by compare_queues qs))"
    by (rule source_fair_candidates_queues)
  have n: "card (queue_key ` set cs) = length qs"
    using distinct_card[OF queues_inv_distinct[OF inv]] queues_inv_keys[OF inv] by simp
  show ?thesis
    using queues_inv_distinct[OF inv] queues_inv_keys[OF inv] sorted_queue_priorities[of qs]
    unfolding n source_fair_candidates_heads[OF inv out]
    by (simp add: distinct_map_sort_by o_def)
qed

text \<open>
  C5: Scheduling loses and invents nothing: the round robin reaches the number of candidates,
  and what comes out is a rearrangement of what went in.
\<close>

theorem schedule_permutes:
  "(\<exists>out. source_fair_run cs pref = Some out \<and> mset out = mset cs)
     \<and> mset (schedule_active_candidates cs policy) = mset cs"
  using source_fair_run_perm by (simp add: schedule_active_candidates_def Let_def)

text \<open>
  C7: Among the candidates of one source at one priority, the ones that worked before come first
  when stability is preferred, and both groups keep their order in the input.
\<close>

theorem schedule_order_within_source:
  "filter (\<lambda>c. queue_key c = k) (schedule_active_candidates cs policy) =
     (let known = (\<lambda>c. sp_prioritize_stability policy
                       \<and> c_dedup_key c \<in> sp_previous_working_keys policy)
      in filter (\<lambda>c. queue_key c = k \<and> known c) cs @ filter (\<lambda>c. queue_key c = k \<and> \<not> known c) cs)"
proof -
  let ?known = "\<lambda>c. sp_prioritize_stability policy \<and> c_dedup_key c \<in> sp_previous_working_keys policy"
  have known: "(\<lambda>c. (sp_prioritize_stability policy \<and> sp_previous_working_keys policy \<noteq> {})
          \<and> c_dedup_key c \<in> sp_previous_working_keys policy) = ?known"
    by auto
  show ?thesis
  proof (cases "length cs > 1")
    case True
    then have "schedule_active_candidates cs policy = source_fair_candidates cs ?known"
      unfolding schedule_active_candidates_def Let_def known by simp
    then show ?thesis by (simp only: source_fair_candidates_filter Let_def)
  next
    case False
    then show ?thesis
      using short_list_cases[of cs] by (auto simp: schedule_active_candidates_def)
  qed
qed

text \<open>
  C6: The schedule is fair: its first round has exactly one candidate of every (source, priority)
  pair, lower priority numbers first.
\<close>

theorem schedule_first_round_fair:
  "let first = map queue_key (take (card (queue_key ` set cs)) (schedule_active_candidates cs policy))
   in distinct first \<and> set first = queue_key ` set cs \<and> sorted (map snd first)"
proof (cases "length cs > 1")
  case True
  then show ?thesis
    using source_fair_first_round by (simp add: schedule_active_candidates_def Let_def)
next
  case False
  then show ?thesis
    using short_list_cases[of cs] by (auto simp: schedule_active_candidates_def)
qed

end
