(* ===== verification/Yaml.thy ===== *)
theory Yaml
  imports Json
begin

text \<open>
  YAML values as the program sees them (\<open>serde_yaml::Value\<close>, whose mapping keeps the order of
  insertion; a number is the text the crate prints for it beside what \<open>as_u64\<close> and
  \<open>as_f64\<close> answer, so only what the program asks of it is fixed).
\<close>

record yaml_number =
  yn_u64 :: "nat option"
  yn_text :: string

datatype yaml =
    YNull
  | YBool bool
  | YNumber yaml_number
  | YString string
  | YSequence "yaml list"
  | YMapping "(yaml \<times> yaml) list"
  | YTagged string yaml

definition yaml_key :: "string \<Rightarrow> yaml" where
  "yaml_key key = YString key"

definition mapping_get :: "(yaml \<times> yaml) list \<Rightarrow> string \<Rightarrow> yaml option" where
  "mapping_get m key = map_of m (yaml_key key)"

text \<open>\<open>get\<close> and the \<open>as_*\<close> readers of the crate look through tags.\<close>

fun yaml_untag :: "yaml \<Rightarrow> yaml" where
  "yaml_untag (YTagged t v) = yaml_untag v"
| "yaml_untag v = v"

definition yaml_as_mapping :: "yaml \<Rightarrow> (yaml \<times> yaml) list option" where
  "yaml_as_mapping v = (case yaml_untag v of YMapping m \<Rightarrow> Some m | _ \<Rightarrow> None)"

definition yaml_as_sequence :: "yaml \<Rightarrow> yaml list option" where
  "yaml_as_sequence v = (case yaml_untag v of YSequence xs \<Rightarrow> Some xs | _ \<Rightarrow> None)"

definition yaml_get :: "yaml \<Rightarrow> string \<Rightarrow> yaml option" where
  "yaml_get v key = Option.bind (yaml_as_mapping v) (\<lambda>m. mapping_get m key)"

text \<open>\<open>Mapping::insert\<close>: a known key keeps its place, a new one goes to the end.\<close>

fun ymap_insert :: "yaml \<Rightarrow> yaml \<Rightarrow> (yaml \<times> yaml) list \<Rightarrow> (yaml \<times> yaml) list" where
  "ymap_insert k v [] = [(k, v)]"
| "ymap_insert k v ((k', v') # m) = (if k = k' then (k', v) # m else (k', v') # ymap_insert k v m)"

definition yaml_as_str :: "yaml \<Rightarrow> string option" where
  "yaml_as_str v = (case yaml_untag v of YString s \<Rightarrow> Some s | _ \<Rightarrow> None)"

lemma map_of_ymap_insert [simp]:
  "map_of (ymap_insert k v m) k' = (if k' = k then Some v else map_of m k')"
  by (induction k v m rule: ymap_insert.induct) auto

interpretation ymap: ordered_map "[] :: (yaml \<times> yaml) list" ymap_insert map_of
    "\<lambda>m. distinct (map fst m)"
proof
  fix m :: "(yaml \<times> yaml) list" and k v
  assume "distinct (map fst m)"
  moreover have "fst ` set (ymap_insert k v m) = insert k (fst ` set m)"
    by (induction k v m rule: ymap_insert.induct) auto
  ultimately show "distinct (map fst (ymap_insert k v m))"
  proof (induction k v m rule: ymap_insert.induct)
    case (2 k v k' v' m)
    have "fst ` set (ymap_insert k v m) = insert k (fst ` set m)"
      by (induction k v m rule: ymap_insert.induct) auto
    with 2 show ?case by auto
  qed simp
qed simp_all

end
