(* ===== verification/Config.thy ===== *)
theory Config
  imports Yaml Model
begin

text \<open>
  The configuration file (\<open>src/config.rs\<close>): its structs with serde's defaults, the
  normalisation of optional texts and of the sharing token, and \<open>validate\<close>.  Reading the file
  and the serde parsers themselves are not modelled; a fresh random token is an argument.
\<close>

subsection \<open>The structs\<close>

datatype probe_mode = Active | Tcp

record subscription_source =
  ss_name :: string
  ss_url :: string
  ss_enabled :: bool
  ss_priority :: nat

record probe_config =
  pc_mode :: probe_mode
  pc_sing_box_path :: string
  pc_connect_timeout_ms :: nat
  pc_active_timeout_ms :: nat
  pc_startup_timeout_ms :: nat
  pc_concurrency :: nat
  pc_batch_size :: "nat option"
  pc_process_concurrency :: "nat option"
  pc_tcp_prefilter :: bool
  pc_test_url :: string
  pc_accepted_statuses :: "nat list"
  pc_download_url :: "string option"
  pc_download_bytes_limit :: nat
  pc_sing_box_path_auto :: bool

record sharing_config =
  sc_enabled :: bool
  sc_require_token :: bool
  sc_token :: string

record proxy_config =
  xc_enabled :: bool
  xc_port :: nat
  xc_discoverable :: bool
  xc_health_check_url :: string
  xc_health_check_interval_seconds :: nat

record app_config =
  ac_bind :: socket_addr
  ac_top_n :: nat
  ac_refresh_seconds :: nat
  ac_encoded_subscription :: bool
  ac_prioritize_stability :: bool
  ac_return_configs_asap :: bool
  ac_scan_all_configs :: bool
  ac_fetch_timeout_ms :: nat
  ac_fetch_concurrency :: nat
  ac_max_subscription_bytes :: nat
  ac_use_cache_only :: bool
  ac_emergency_config :: "string option"
  ac_clean_offlines_after_days :: nat
  ac_probe :: probe_config
  ac_sharing :: sharing_config
  ac_proxy :: proxy_config
  ac_geoip_db_path :: "string option"
  ac_subscriptions :: "subscription_source list"

subsection \<open>Defaults\<close>

definition default_bind :: socket_addr where
  "default_bind = \<lparr> sa_ip = IpV4 127 0 0 1, sa_port = 27141 \<rparr>"

definition probe_config_default :: probe_config where
  "probe_config_default = \<lparr>
     pc_mode = Active, pc_sing_box_path = [], pc_connect_timeout_ms = 5000,
     pc_active_timeout_ms = 8000, pc_startup_timeout_ms = 5000, pc_concurrency = 16,
     pc_batch_size = Some 20, pc_process_concurrency = None, pc_tcp_prefilter = True,
     pc_test_url = ''https://www.gstatic.com/generate_204'', pc_accepted_statuses = [204, 200],
     pc_download_url = None, pc_download_bytes_limit = 1048576, pc_sing_box_path_auto = False \<rparr>"

definition sharing_config_default :: sharing_config where
  "sharing_config_default = \<lparr> sc_enabled = False, sc_require_token = False, sc_token = [] \<rparr>"

definition proxy_config_default :: proxy_config where
  "proxy_config_default = \<lparr>
     xc_enabled = False, xc_port = 27910, xc_discoverable = False,
     xc_health_check_url = ''https://cp.cloudflare.com'', xc_health_check_interval_seconds = 60 \<rparr>"

text \<open>What serde makes of an empty document: every field from its default function.\<close>

definition app_config_default :: app_config where
  "app_config_default = \<lparr>
     ac_bind = default_bind, ac_top_n = 10, ac_refresh_seconds = 300,
     ac_encoded_subscription = True, ac_prioritize_stability = True,
     ac_return_configs_asap = False, ac_scan_all_configs = False, ac_fetch_timeout_ms = 30000,
     ac_fetch_concurrency = 8, ac_max_subscription_bytes = 33554432, ac_use_cache_only = False,
     ac_emergency_config = None, ac_clean_offlines_after_days = 7,
     ac_probe = probe_config_default, ac_sharing = sharing_config_default,
     ac_proxy = proxy_config_default, ac_geoip_db_path = None, ac_subscriptions = [] \<rparr>"

subsection \<open>Normalisation\<close>

definition normalize_string_or_null :: "string \<Rightarrow> string" where
  "normalize_string_or_null value =
     (let trimmed = trim value in if eq_ignore_ascii_case trimmed ''null'' then [] else trimmed)"

definition normalize_optional_string :: "string option \<Rightarrow> string option" where
  "normalize_optional_string value =
     (let v = normalize_string_or_null (unwrap_or value []) in
      if to_ascii_lowercase v \<in> {[], ''off'', ''none''} then None else Some v)"

definition normalize_sharing_token :: "string \<Rightarrow> string \<Rightarrow> string" where
  "normalize_sharing_token generated value =
     (let v = normalize_string_or_null value
      in if eq_ignore_ascii_case v ''true'' then generated else v)"

definition deserialize_string_or_null_as_default :: "string option \<Rightarrow> string" where
  "deserialize_string_or_null_as_default value = normalize_string_or_null (unwrap_or value [])"

definition deserialize_sharing_token :: "string \<Rightarrow> yaml option \<Rightarrow> string result" where
  "deserialize_sharing_token generated value =
     (case value of
        Some (YBool True) \<Rightarrow> Inr generated
      | Some (YBool False) \<Rightarrow> Inr []
      | Some YNull \<Rightarrow> Inr []
      | None \<Rightarrow> Inr []
      | Some (YString s) \<Rightarrow> Inr (normalize_sharing_token generated s)
      | Some _ \<Rightarrow> Inl ''sharing.token must be null, true, false, or a string'')"

text \<open>\<open>document\<close> is what the YAML parser makes of the file, \<^term>\<open>None\<close> when it fails.\<close>

definition sharing_token_requests_generation :: "yaml option \<Rightarrow> bool" where
  "sharing_token_requests_generation document =
     (case Option.bind document (\<lambda>d. Option.bind (yaml_get d ''sharing'') (\<lambda>s. yaml_get s ''token'')) of
        Some (YBool b) \<Rightarrow> b
      | Some (YString s) \<Rightarrow> eq_ignore_ascii_case (trim s) ''true''
      | _ \<Rightarrow> False)"

definition app_subscription_url :: "app_config \<Rightarrow> string \<Rightarrow> bool \<Rightarrow> string" where
  "app_subscription_url cfg host raw =
     (let endpoint = (if raw then ''subscription.txt'' else ''subscription'');
          url = ''http://'' @ host @ '':'' @ show_nat (sa_port (ac_bind cfg)) @ ''/'' @ endpoint
      in if should_include_token_in_url (sc_token (ac_sharing cfg))
         then url @ ''?token='' @ sc_token (ac_sharing cfg) else url)"

subsection \<open>Validation\<close>

definition normalize_app_config :: "string \<Rightarrow> app_config \<Rightarrow> app_config" where
  "normalize_app_config generated cfg =
     cfg\<lparr> ac_probe := (ac_probe cfg)\<lparr>
            pc_sing_box_path := normalize_string_or_null (pc_sing_box_path (ac_probe cfg)),
            pc_download_url := normalize_optional_string (pc_download_url (ac_probe cfg)) \<rparr>,
          ac_emergency_config := normalize_optional_string (ac_emergency_config cfg),
          ac_sharing := (ac_sharing cfg)\<lparr>
            sc_token := normalize_sharing_token generated (sc_token (ac_sharing cfg)) \<rparr> \<rparr>"

fun check_subscriptions :: "subscription_source list \<Rightarrow> unit result" where
  "check_subscriptions [] = Inr ()"
| "check_subscriptions (s # ss) =
     (if trim (ss_name s) = [] then Inl ''subscription name cannot be empty''
      else if trim (ss_url s) = []
      then Inl (''subscription '' @ [CHR 39] @ ss_name s @ [CHR 39] @ '' has an empty url'')
      else check_subscriptions ss)"

definition check_proxy :: "app_config \<Rightarrow> unit result" where
  "check_proxy cfg =
     (if \<not> xc_enabled (ac_proxy cfg) then Inr ()
      else if xc_port (ac_proxy cfg) = 0 then Inl ''proxy.port must be greater than 0''
      else if xc_port (ac_proxy cfg) = sa_port (ac_bind cfg)
      then Inl (''proxy.port ('' @ show_nat (xc_port (ac_proxy cfg)) @ '') must not equal bind port (''
                @ show_nat (sa_port (ac_bind cfg)) @ '')'')
      else if xc_health_check_interval_seconds (ac_proxy cfg) = 0
      then Inl ''proxy.health_check_interval_seconds must be greater than 0''
      else Inr ())"

text \<open>\<open>if cond { return Err(anyhow!(message)); }\<close> before the rest of a function.\<close>

definition bail_if :: "bool \<Rightarrow> string \<Rightarrow> unit result \<Rightarrow> unit result" where
  "bail_if cond message rest = (if cond then Inl message else rest)"

definition check_limits :: "app_config \<Rightarrow> unit result" where
  "check_limits cfg =
     (let probe = ac_probe cfg in
      bail_if (ac_top_n cfg = 0) ''top_n must be greater than 0''
     (bail_if (ac_fetch_concurrency cfg = 0) ''fetch_concurrency must be greater than 0''
     (bail_if (ac_max_subscription_bytes cfg = 0) ''max_subscription_bytes must be greater than 0''
     (bail_if (pc_concurrency probe = 0) ''probe.concurrency must be greater than 0''
     (bail_if (pc_batch_size probe = Some 0) ''probe.batch_size must be null or greater than 0''
     (bail_if (pc_process_concurrency probe = Some 0)
        ''probe.process_concurrency must be null or greater than 0''
     (bail_if (pc_connect_timeout_ms probe = 0) ''probe.connect_timeout_ms must be greater than 0''
     (bail_if (pc_active_timeout_ms probe = 0) ''probe.active_timeout_ms must be greater than 0''
     (bail_if (pc_startup_timeout_ms probe = 0) ''probe.startup_timeout_ms must be greater than 0''
     (bail_if (pc_mode probe = Active \<and> trim (pc_test_url probe) = [])
        ''probe.test_url cannot be empty when probe.mode is active''
     (bail_if (pc_mode probe = Active \<and> pc_accepted_statuses probe = [])
        ''probe.accepted_statuses cannot be empty when probe.mode is active''
     (bail_if (list_ex (\<lambda>s. \<not> (100 \<le> s \<and> s \<le> 599)) (pc_accepted_statuses probe))
        ''probe.accepted_statuses must contain valid HTTP status codes from 100 to 599''
     (bail_if (pc_download_bytes_limit probe = 0) ''probe.download_bytes_limit must be greater than 0''
     (bail_if (ac_clean_offlines_after_days cfg = 0) ''clean_offlines_after_days must be greater than 0''
      (Inr ())))))))))))))))"

definition validate :: "string \<Rightarrow> app_config \<Rightarrow> app_config result" where
  "validate generated cfg0 =
     (let cfg = normalize_app_config generated cfg0 in
      and_then (check_limits cfg) (\<lambda>_.
      and_then (check_subscriptions (ac_subscriptions cfg)) (\<lambda>_.
      if sc_require_token (ac_sharing cfg) \<and> sc_token (ac_sharing cfg) = []
      then Inl ''sharing.token must be a string or true when sharing.require_token is true''
      else and_then (check_proxy cfg) (\<lambda>_. Inr cfg))))"

text \<open>
  The extension decides the parser; \<open>parse_json\<close> and \<open>parse_yaml\<close> are serde's, with
  their own error texts replaced by the context the code adds.
\<close>

definition load_config ::
  "string \<Rightarrow> (string \<Rightarrow> app_config option) \<Rightarrow> (string \<Rightarrow> app_config option) \<Rightarrow> (string \<Rightarrow> yaml option)
     \<Rightarrow> string \<Rightarrow> string \<Rightarrow> (app_config \<times> bool) result" where
  "load_config generated parse_json parse_yaml yaml_value extension content =
     (let ext = to_ascii_lowercase extension in
      and_then (if ext = ''json'' then ok_or (parse_json content) ''invalid JSON config''
                else if ext \<in> {''yaml'', ''yml'', []} then ok_or (parse_yaml content) ''invalid YAML config''
                else Inl (''unsupported config extension '' @ [CHR 39] @ ''.'' @ ext @ [CHR 39]
                          @ ''; use .yaml, .yml, or .json'')) (\<lambda>config.
      and_then (validate generated config) (\<lambda>config.
      Inr (config, sharing_token_requests_generation (yaml_value content)))))"

subsection \<open>What a validated configuration satisfies\<close>

definition probe_limits_ok :: "probe_config \<Rightarrow> bool" where
  "probe_limits_ok p \<longleftrightarrow> 0 < pc_concurrency p \<and> pc_batch_size p \<noteq> Some 0 \<and> pc_process_concurrency p \<noteq> Some 0
     \<and> 0 < pc_connect_timeout_ms p \<and> 0 < pc_active_timeout_ms p \<and> 0 < pc_startup_timeout_ms p
     \<and> (pc_mode p = Active \<longrightarrow> trim (pc_test_url p) \<noteq> [] \<and> pc_accepted_statuses p \<noteq> [])
     \<and> (\<forall>s\<in>set (pc_accepted_statuses p). 100 \<le> s \<and> s \<le> 599) \<and> 0 < pc_download_bytes_limit p"

definition config_ok :: "app_config \<Rightarrow> bool" where
  "config_ok c \<longleftrightarrow> 0 < ac_top_n c \<and> 0 < ac_fetch_concurrency c \<and> 0 < ac_max_subscription_bytes c
     \<and> 0 < ac_clean_offlines_after_days c \<and> probe_limits_ok (ac_probe c)
     \<and> (\<forall>s\<in>set (ac_subscriptions c). trim (ss_name s) \<noteq> [] \<and> trim (ss_url s) \<noteq> [])
     \<and> (sc_require_token (ac_sharing c) \<longrightarrow> sc_token (ac_sharing c) \<noteq> [])
     \<and> (xc_enabled (ac_proxy c) \<longrightarrow> 0 < xc_port (ac_proxy c) \<and> xc_port (ac_proxy c) \<noteq> sa_port (ac_bind c)
          \<and> 0 < xc_health_check_interval_seconds (ac_proxy c))"

lemma check_subscriptions_ok:
  "check_subscriptions ss = Inr () \<longleftrightarrow> (\<forall>s\<in>set ss. trim (ss_name s) \<noteq> [] \<and> trim (ss_url s) \<noteq> [])"
  by (induction ss) auto

lemma bail_if_ok: "bail_if c m r = Inr () \<longleftrightarrow> \<not> c \<and> r = Inr ()"
  by (simp add: bail_if_def)

lemma check_limits_ok:
  "check_limits c = Inr () \<longleftrightarrow> 0 < ac_top_n c \<and> 0 < ac_fetch_concurrency c \<and> 0 < ac_max_subscription_bytes c
     \<and> 0 < ac_clean_offlines_after_days c \<and> probe_limits_ok (ac_probe c)"
proof -
  have imp: "(m = Active \<longrightarrow> a \<noteq> [] \<and> b \<noteq> []) \<longleftrightarrow> \<not> (m = Active \<and> a = []) \<and> \<not> (m = Active \<and> b = [])"
    for m and a :: string and b :: "nat list" by blast
  show ?thesis
    unfolding check_limits_def Let_def bail_if_ok probe_limits_ok_def list_ex_iff imp
    by (rule iffI) (simp_all del: not_gr_zero)
qed

lemma check_proxy_ok:
  "check_proxy c = Inr () \<longleftrightarrow>
     (xc_enabled (ac_proxy c) \<longrightarrow> 0 < xc_port (ac_proxy c) \<and> xc_port (ac_proxy c) \<noteq> sa_port (ac_bind c)
        \<and> 0 < xc_health_check_interval_seconds (ac_proxy c))"
  by (auto simp: check_proxy_def)

lemma validate_iff:
  "validate g c0 = Inr c \<longleftrightarrow> c = normalize_app_config g c0 \<and> config_ok c"
  unfolding validate_def Let_def config_ok_def
  by (auto simp: and_then_Inr_iff check_subscriptions_ok check_limits_ok check_proxy_ok)

text \<open>Normalising twice changes nothing, as long as the fresh token is not a keyword itself.\<close>

definition token_ok :: "string \<Rightarrow> bool" where
  "token_ok t \<longleftrightarrow> trim t = t \<and> to_ascii_lowercase t \<noteq> ''null'' \<and> to_ascii_lowercase t \<noteq> ''true''"

lemma normalize_string_or_null_idem [simp]:
  "normalize_string_or_null (normalize_string_or_null s) = normalize_string_or_null s"
  by (simp add: normalize_string_or_null_def Let_def eq_ignore_ascii_case_def to_ascii_lowercase_def)

lemma normalize_optional_string_idem [simp]:
  "normalize_optional_string (normalize_optional_string s) = normalize_optional_string s"
proof (cases "normalize_optional_string s")
  case None
  then show ?thesis
    by (simp add: normalize_optional_string_def normalize_string_or_null_def eq_ignore_ascii_case_def
        to_ascii_lowercase_def)
next
  case (Some v)
  then have "v = normalize_string_or_null (unwrap_or s [])"
    by (auto simp: normalize_optional_string_def Let_def split: if_splits)
  then show ?thesis
    using Some by (simp add: normalize_optional_string_def Let_def)
qed

lemma normalize_sharing_token_idem:
  assumes "token_ok g"
  shows "normalize_sharing_token g' (normalize_sharing_token g s) = normalize_sharing_token g s"
proof -
  have low: "to_ascii_lowercase ''null'' = ''null''" "to_ascii_lowercase ''true'' = ''true''" by code_simp+
  have "normalize_string_or_null g = g"
    using assms low by (simp add: normalize_string_or_null_def Let_def token_ok_def eq_ignore_ascii_case_def)
  moreover have "\<not> eq_ignore_ascii_case g ''true''"
    using assms low by (simp add: token_ok_def eq_ignore_ascii_case_def)
  ultimately show ?thesis by (simp add: normalize_sharing_token_def Let_def)
qed

lemma normalize_app_config_idem:
  "token_ok g \<Longrightarrow> normalize_app_config g' (normalize_app_config g c) = normalize_app_config g c"
  by (simp add: normalize_app_config_def normalize_sharing_token_idem)

text \<open>
  C32: Validation accepts a configuration exactly when, after normalisation, every limit is
  positive, the probe settings are usable, every subscription has a name and an address, a
  required token exists and an enabled proxy has a port of its own; it then returns the
  normalised configuration.
\<close>

theorem validate_correct:
  "(\<exists>c. validate generated cfg = Inr c) = config_ok (normalize_app_config generated cfg)
   \<and> (\<forall>c. validate generated cfg = Inr c \<longrightarrow> c = normalize_app_config generated cfg \<and> config_ok c)"
  by (auto simp: validate_iff)

theorem validate_correct_witness:
  "\<exists>c. validate ''tok'' (app_config_default\<lparr>ac_sharing := sharing_config_default\<lparr>sc_token := '' True ''\<rparr>\<rparr>) = Inr c
     \<and> config_ok c \<and> sc_token (ac_sharing c) = ''tok''"
proof -
  let ?c = "app_config_default\<lparr>ac_sharing := sharing_config_default\<lparr>sc_token := '' True ''\<rparr>\<rparr>"
  have "\<not> isl (validate ''tok'' ?c)" "sc_token (ac_sharing (projr (validate ''tok'' ?c))) = ''tok''"
    by code_simp+
  then obtain c where c: "validate ''tok'' ?c = Inr c" "sc_token (ac_sharing c) = ''tok''"
    using not_isl_Inr by fastforce
  with validate_correct[of "''tok''" ?c] show ?thesis by blast
qed

text \<open>
  A validated configuration validates to itself, whatever token would be generated next:
  validating it again changes nothing and never replaces its token.
\<close>

lemma validate_idempotent:
  assumes "validate generated cfg = Inr c" and "token_ok generated"
  shows "validate generated' c = Inr c"
  using assms normalize_app_config_idem[of generated generated' cfg] by (auto simp: validate_iff)

lemma validate_idempotent_example:
  "\<exists>c. validate ''tok'' app_config_default = Inr c \<and> validate ''other'' c = Inr c"
proof -
  have "\<not> isl (validate ''tok'' app_config_default)" "token_ok ''tok''" by code_simp+
  then show ?thesis using validate_idempotent not_isl_Inr by blast
qed

end
