(* ===== verification/Batch.thy ===== *)
theory Batch
  imports EarlyStop Scheduler Config
begin

text \<open>
  Probing (\<open>src/probe.rs\<close>): preparing the candidates of a scan, one sing-box test process for a
  batch of them (\<open>probe_active_batch\<close>), the split-and-retry loop around it
  (\<open>probe_active_batch_with_fallback\<close>), the TCP pre-filter and the speed tests.

  What the outside world answers is a record of outcomes: ports reserved, the process started and
  ready or not and with what on its error output, each HTTP probe's result, the order the probes
  finish in, and what other tasks have stored in the shared \<open>cancel\<close> flag at each load of it
  (\<open>en_cancel n\<close> at the n-th load of an attempt; the task's own store is tracked beside it).
\<close>

subsection \<open>Results\<close>

record active_probe_success =
  as_latency_ms :: nat
  as_http_status :: nat
  as_download_mbps :: "f64 option"
  as_download_bytes :: "nat option"

definition failed_config :: "candidate \<Rightarrow> string \<Rightarrow> string \<Rightarrow> ranked_config" where
  "failed_config c validation error = \<lparr>
     r_rank = 0, r_stability_count = 0, r_id = c_id c, r_dedup_key = c_dedup_key c,
     r_source = c_source c, r_priority = c_priority c, r_protocol = c_protocol c, r_name = c_name c,
     r_endpoint = c_endpoint c, r_uri = c_uri c, r_reachable = False, r_validation = validation,
     r_latency_ms = None, r_http_status = None, r_download_mbps = None, r_download_bytes = None,
     r_error = Some error, r_country_code = None \<rparr>"

definition failed_configs :: "prepared_active_candidate \<Rightarrow> string \<Rightarrow> string \<Rightarrow> ranked_config list" where
  "failed_configs entry validation error = [failed_config (pa_candidate entry) validation error]"

text \<open>\<open>country\<close> is name resolution followed by the GeoIP lookup.\<close>

definition successful_config ::
  "(string \<Rightarrow> string option) \<Rightarrow> candidate \<Rightarrow> active_probe_success \<Rightarrow> ranked_config" where
  "successful_config country c active = \<lparr>
     r_rank = 0, r_stability_count = 0, r_id = c_id c, r_dedup_key = c_dedup_key c,
     r_source = c_source c, r_priority = c_priority c, r_protocol = c_protocol c, r_name = c_name c,
     r_endpoint = c_endpoint c, r_uri = c_uri c, r_reachable = True, r_validation = ''active_http'',
     r_latency_ms = Some (as_latency_ms active), r_http_status = Some (as_http_status active),
     r_download_mbps = as_download_mbps active, r_download_bytes = as_download_bytes active,
     r_error = None, r_country_code = country (ep_host (c_endpoint c)) \<rparr>"

definition ranked_configs_for_active_result ::
  "(string \<Rightarrow> string option) \<Rightarrow> prepared_active_candidate \<Rightarrow> active_probe_success result
     \<Rightarrow> ranked_config list" where
  "ranked_configs_for_active_result country entry result =
     (case result of
        Inr active \<Rightarrow> [successful_config country (pa_candidate entry) active]
      | Inl error \<Rightarrow> failed_configs entry ''active_http'' error)"

text \<open>\<open>{:?}\<close> of a list of numbers.\<close>

definition debug_nats :: "nat list \<Rightarrow> string" where
  "debug_nats ns = ''['' @ join_str '', '' (map show_nat ns) @ '']''"

text \<open>\<open>response\<close> is what the HTTP client returns through the local proxy: status and latency.\<close>

definition probe_active_target :: "nat list \<Rightarrow> (nat \<times> nat) result \<Rightarrow> active_probe_success result" where
  "probe_active_target accepted_statuses response =
     and_then response (\<lambda>(status, latency_ms).
     if status \<notin> set accepted_statuses
     then Inl (''active HTTP probe returned status '' @ show_nat status
               @ ''; accepted statuses are '' @ debug_nats accepted_statuses)
     else Inr \<lparr> as_latency_ms = latency_ms, as_http_status = status,
                as_download_mbps = None, as_download_bytes = None \<rparr>)"

datatype tcp_outcome = Connected nat "string option" | ConnectError string | TimedOut

definition probe_tcp :: "nat \<Rightarrow> candidate \<Rightarrow> tcp_outcome \<Rightarrow> ranked_config" where
  "probe_tcp timeout_ms c outcome =
     (let (reachable, latency, error, cc) =
        (case outcome of
           Connected ms country \<Rightarrow> (True, Some ms, None, country)
         | ConnectError e \<Rightarrow> (False, None, Some e, None)
         | TimedOut \<Rightarrow> (False, None, Some (''timed out after '' @ show_nat timeout_ms @ '' ms''), None))
      in \<lparr> r_rank = 0, r_stability_count = 0, r_id = c_id c, r_dedup_key = c_dedup_key c,
           r_source = c_source c, r_priority = c_priority c, r_protocol = c_protocol c,
           r_name = c_name c, r_endpoint = c_endpoint c, r_uri = c_uri c, r_reachable = reachable,
           r_validation = ''tcp_connect'', r_latency_ms = latency, r_http_status = None,
           r_download_mbps = None, r_download_bytes = None, r_error = error, r_country_code = cc \<rparr>)"

text \<open>Every way a result is made keeps the candidate it is about.\<close>

lemma result_candidate [simp]:
  "candidate_of_ranked (failed_config c v e) = c"
  "candidate_of_ranked (successful_config country c a) = c"
  "candidate_of_ranked (probe_tcp t c out) = c"
  "r_reachable (failed_config c v e) = False"
  by (simp_all add: failed_config_def successful_config_def probe_tcp_def candidate_of_ranked_def
      split: tcp_outcome.splits)

lemma active_result_candidates [simp]:
  "map candidate_of_ranked (failed_configs e v err) = [pa_candidate e]"
  "map candidate_of_ranked (ranked_configs_for_active_result country e res) = [pa_candidate e]"
  by (simp_all add: failed_configs_def ranked_configs_for_active_result_def split: sum.splits)

subsection \<open>Preparing the candidates\<close>

function chunks :: "nat \<Rightarrow> 'a list \<Rightarrow> 'a list list" where
  "chunks n xs = (if n = 0 \<or> xs = [] then [] else take n xs # chunks n (drop n xs))"
  by pat_completeness auto
termination
  by (relation "measure (\<lambda>(n, xs). length xs)") auto

declare chunks.simps [simp del]

lemma concat_chunks: "0 < n \<Longrightarrow> concat (chunks n xs) = xs"
proof (induction n xs rule: chunks.induct)
  case (1 n xs)
  then show ?case by (cases "xs = []") (simp_all add: chunks.simps[of n xs] chunks.simps[of n "[]"])
qed

fun prepare_chunk ::
  "(string \<Rightarrow> json result) \<Rightarrow> candidate list \<Rightarrow> prepared_active_candidate list \<times> ranked_config list" where
  "prepare_chunk outbound_of [] = ([], [])"
| "prepare_chunk outbound_of (c # cs) =
     (let (prepared, ranked) = prepare_chunk outbound_of cs in
      case outbound_of (c_uri c) of
        Inr outbound \<Rightarrow> (\<lparr>pa_candidate = c, pa_aliases = [], pa_outbound = outbound\<rparr> # prepared, ranked)
      | Inl err \<Rightarrow> (prepared, failed_config c ''active_http'' err # ranked))"

text \<open>\<open>outbound_key\<close> is the hash of the outbound's JSON text.\<close>

fun dedup_prepared ::
  "(json \<Rightarrow> string) \<Rightarrow> prepared_active_candidate list
     \<Rightarrow> prepared_active_candidate list \<times> (string \<rightharpoonup> nat)
     \<Rightarrow> prepared_active_candidate list \<times> (string \<rightharpoonup> nat)" where
  "dedup_prepared outbound_key [] state = state"
| "dedup_prepared outbound_key (entry # entries) (deduped, seen_keys) =
     (let key = outbound_key (pa_outbound entry) in
      case seen_keys key of
        Some index \<Rightarrow> dedup_prepared outbound_key entries
          (deduped[index := (deduped ! index)\<lparr>pa_aliases := pa_aliases (deduped ! index) @ [pa_candidate entry]\<rparr>],
           seen_keys)
      | None \<Rightarrow> dedup_prepared outbound_key entries
          (deduped @ [entry], seen_keys(key \<mapsto> length deduped)))"

record active_preparation =
  ap_prepared :: "prepared_active_candidate list"
  ap_ranked :: "ranked_config list"
  ap_prepared_candidates :: nat

definition prepare_active_candidates ::
  "(string \<Rightarrow> json result) \<Rightarrow> (json \<Rightarrow> string) \<Rightarrow> nat \<Rightarrow> candidate list \<Rightarrow> probe_stop_policy
     \<Rightarrow> active_preparation" where
  "prepare_active_candidates outbound_of outbound_key num_cpus candidates policy =
     (let scheduled = schedule_active_candidates candidates policy;
          chunk_size = max (length scheduled div max num_cpus 1) 1;
          handles = map (prepare_chunk outbound_of) (chunks chunk_size scheduled);
          all_prepared = concat (map fst handles);
          all_ranked = concat (map snd handles);
          (deduped, _) = dedup_prepared outbound_key all_prepared ([], Map.empty)
      in \<lparr> ap_prepared = deduped, ap_ranked = all_ranked,
           ap_prepared_candidates = candidate_count deduped \<rparr>)"

subsection \<open>One test process\<close>

record attempt_env =
  en_ports :: "nat \<Rightarrow> nat list result"
  en_write :: "unit result"
  en_spawn :: "unit result"
  en_ready :: "(string \<times> string) + unit"
  en_response :: "nat \<Rightarrow> (nat \<times> nat) result"
  en_order :: "nat \<Rightarrow> nat list"
  en_cancel :: "nat \<Rightarrow> bool"

text \<open>What one scan fixes for all its processes.\<close>

record probe_env =
  pe_config :: probe_config
  pe_policy :: probe_stop_policy
  pe_progress :: bool
  pe_version :: "(nat \<times> nat \<times> nat) option option"
  pe_country :: "string \<Rightarrow> string option"

record batch_failure =
  bf_entries :: "prepared_active_candidate list"
  bf_failed_entry :: "prepared_active_candidate option"
  bf_error :: string
  bf_retry_split :: bool

definition retryable :: "prepared_active_candidate list \<Rightarrow> string \<Rightarrow> batch_failure" where
  "retryable entries error = \<lparr> bf_entries = entries, bf_failed_entry = None, bf_error = error,
     bf_retry_split = True \<rparr>"

definition unrecoverable :: "prepared_active_candidate list \<Rightarrow> string \<Rightarrow> batch_failure" where
  "unrecoverable entries error = \<lparr> bf_entries = entries, bf_failed_entry = None, bf_error = error,
     bf_retry_split = False \<rparr>"

definition invalid_entry ::
  "prepared_active_candidate list \<Rightarrow> prepared_active_candidate \<Rightarrow> string \<Rightarrow> batch_failure" where
  "invalid_entry entries failed error = \<lparr> bf_entries = entries, bf_failed_entry = Some failed,
     bf_error = error, bf_retry_split = False \<rparr>"

definition with_sing_box_stderr :: "string \<Rightarrow> string \<Rightarrow> string" where
  "with_sing_box_stderr err stderr =
     (if stderr = [] then err else err @ ''; sing-box stderr: '' @ stderr)"

definition remove_at :: "nat \<Rightarrow> 'a list \<Rightarrow> 'a list" where
  "remove_at i xs = take i xs @ drop (Suc i) xs"

text \<open>
  The loop over the finishing probes; \<open>order\<close> lists the entries as they finish.  It returns the
  results so far, the stop state, whether this task stored the cancel flag, and what it sent.
\<close>

fun result_loop ::
  "probe_env \<Rightarrow> attempt_env \<Rightarrow> prepared_active_candidate list \<Rightarrow> nat \<Rightarrow> ranked_config list
     \<Rightarrow> ranked_config list \<Rightarrow> nat list \<Rightarrow> nat \<Rightarrow> ranked_config list \<Rightarrow> probe_stop_state
     \<Rightarrow> ranked_config list \<times> probe_stop_state \<times> bool \<times> progress_event list" where
  "result_loop pe en entries batch_index previous current [] completed ranked state =
     (ranked, state, False, [])"
| "result_loop pe en entries batch_index previous current (i # order) completed ranked state =
     (if en_cancel en (2 + completed) then (ranked, state, False, [])
      else
        let results = ranked_configs_for_active_result (pe_country pe) (entries ! i)
              (probe_active_target (pc_accepted_statuses (pe_config pe)) (en_response en i));
            completed = completed + 1;
            ranked = ranked @ results;
            total_entries = length entries;
            interval = min (active_probe_http_concurrency (pc_concurrency (pe_config pe)) total_entries)
                           total_entries;
            sent = send_probe_delta (pe_progress pe) (length results) (reachable_count results)
              @ send_asap_configs (pe_progress pe) ranked (pe_policy pe)
              @ (if completed = total_entries \<or> completed mod interval = 0
                 then send_progress (pe_progress pe)
                   (''Batch '' @ show_nat batch_index @ '': '' @ show_nat (length ranked) @ ''/''
                    @ show_nat (candidate_count entries) @ '' configs checked, ''
                    @ show_nat (reachable_count ranked) @ '' working'')
                 else []);
            (reason, state, stop_sent) =
              probe_stop_reason_with_batch previous current ranked (pe_policy pe) state (pe_progress pe)
        in case reason of
             Some message \<Rightarrow>
               (ranked, state, True, sent @ stop_sent @ send_progress (pe_progress pe) message)
           | None \<Rightarrow>
               (case result_loop pe en entries batch_index previous current order completed ranked state of
                  (ranked, state, stopped, later) \<Rightarrow> (ranked, state, stopped, sent @ stop_sent @ later)))"

type_synonym attempt_result =
  "(batch_failure + ranked_config list) \<times> probe_stop_state \<times> bool \<times> progress_event list"

definition probe_active_batch ::
  "probe_env \<Rightarrow> attempt_env \<Rightarrow> nat \<Rightarrow> prepared_active_candidate list \<Rightarrow> probe_stop_state
     \<Rightarrow> ranked_config list \<Rightarrow> ranked_config list \<Rightarrow> attempt_result" where
  "probe_active_batch pe en batch_index entries state previous current =
     (if entries = [] then (Inr [], state, False, [])
      else if en_cancel en 0 then (Inr [], state, False, [])
      else
        let starting = send_progress (pe_progress pe)
              (''Batch '' @ show_nat batch_index @ '': starting sing-box test for ''
               @ show_nat (candidate_count entries) @ '' configs'');
            fail = (\<lambda>f sent. (Inl f, state, False, starting @ sent))
        in case en_ports en (length entries) of
          Inl e \<Rightarrow> fail (unrecoverable entries ''unable to reserve local proxy ports'') []
        | Inr ports \<Rightarrow>
          (case and_then (sing_box_outbound_config (pe_version pe) (map pa_outbound entries) ports)
                  (\<lambda>_. en_write en) of
            Inl e \<Rightarrow> fail (unrecoverable entries ''unable to write sing-box config'') []
          | Inr _ \<Rightarrow>
            (case en_spawn en of
              Inl e \<Rightarrow> fail (unrecoverable entries
                (''failed to start sing-box using '' @ [CHR 39] @ pc_sing_box_path (pe_config pe) @ [CHR 39])) []
            | Inr _ \<Rightarrow>
              (case en_ready en of
                Inl (err0, stderr) \<Rightarrow>
                  (let err = with_sing_box_stderr err0 stderr in
                   case filter_opt (\<lambda>i. i < length entries) (sing_box_failed_outbound_index stderr) of
                     Some index \<Rightarrow> fail (invalid_entry (remove_at index entries) (entries ! index) err) []
                   | None \<Rightarrow> fail (retryable entries err)
                       (send_progress (pe_progress pe) (''Batch '' @ show_nat batch_index
                          @ '': sing-box test process was not ready: '' @ err)))
              | Inr _ \<Rightarrow>
                  if en_cancel en 1 then (Inr [], state, False, starting)
                  else (case result_loop pe en entries batch_index previous current (en_order en (length entries)) 0 [] state of
                          (ranked, state, stopped, sent) \<Rightarrow>
                            (Inr ranked, state, stopped, starting @ sent))))))"

lemma probe_active_batch_failure:
  assumes "probe_active_batch pe en bi entries st prev cur = (Inl f, r)"
  shows "entries \<noteq> []
     \<and> (case bf_failed_entry f of
          Some e \<Rightarrow> \<exists>i<length entries. e = entries ! i \<and> bf_entries f = remove_at i entries
        | None \<Rightarrow> bf_entries f = entries)"
  using assms
  by (auto simp: probe_active_batch_def Let_def unrecoverable_def retryable_def invalid_entry_def
      split: if_splits sum.splits option.splits prod.splits)

lemma length_remove_at: "i < length xs \<Longrightarrow> length (remove_at i xs) = length xs - 1"
  by (simp add: remove_at_def)

lemma mset_remove_at: "i < length xs \<Longrightarrow> add_mset (xs ! i) (mset (remove_at i xs)) = mset xs"
  by (metis (no_types, lifting) Cons_nth_drop_Suc append_take_drop_id mset.simps(2) mset_append
      remove_at_def union_mset_add_mset_right)

subsection \<open>Splitting and retrying\<close>

definition split_entries :: "'a list \<Rightarrow> 'a list list" where
  "split_entries xs = [take (length xs div 2) xs, drop (length xs div 2) xs]"

definition pending_size :: "'a list list \<Rightarrow> nat" where
  "pending_size pending = sum_list (map (\<lambda>b. max 1 (2 * length b - 1)) pending)"

text \<open>What is still to do after an attempt, and the results, statistics and messages it adds.\<close>

definition after_failure ::
  "bool \<Rightarrow> nat \<Rightarrow> batch_failure \<Rightarrow> batch_probe_stats
     \<Rightarrow> prepared_active_candidate list list \<times> ranked_config list \<times> batch_probe_stats
          \<times> progress_event list" where
  "after_failure progress batch_index failure stats =
     (let error = bf_error failure; entries = bf_entries failure in
      case bf_failed_entry failure of
        Some failed_entry \<Rightarrow>
          (if entries = [] then [] else [entries],
           failed_configs failed_entry ''active_http'' error,
           stats\<lparr>bs_failed_candidates :=
             sat_add usize_max (bs_failed_candidates stats) (prepared_candidate_count failed_entry)\<rparr>,
           send_progress progress (''Batch '' @ show_nat batch_index
             @ '': sing-box rejected one generated test config; retrying '' @ show_nat (length entries)
             @ '' remaining definitions'')
           @ send_probe_delta progress (prepared_candidate_count failed_entry) 0)
      | None \<Rightarrow>
          if bf_retry_split failure \<and> 1 < length entries then
            (split_entries entries, [],
             stats\<lparr>bs_splits := sat_add usize_max (bs_splits stats) 1\<rparr>,
             send_progress progress (''Batch '' @ show_nat batch_index
               @ '': could not start cleanly; splitting '' @ show_nat (length entries)
               @ '' server definitions and retrying''))
          else
            ([], concat (map (\<lambda>e. failed_configs e ''active_http'' error) entries),
             stats\<lparr>bs_failed_candidates :=
               sat_add usize_max (bs_failed_candidates stats) (candidate_count entries)\<rparr>,
             send_progress progress (''Batch '' @ show_nat batch_index @ '': probe failed: '' @ error)
             @ send_probe_delta progress (candidate_count entries) 0))"

lemma pending_size_simps [simp]:
  "pending_size [] = 0" "pending_size (b # bs) = max 1 (2 * length b - 1) + pending_size bs"
  "pending_size (bs @ cs) = pending_size bs + pending_size cs"
  by (simp_all add: pending_size_def)

lemma after_failure_retry:
  "fst (after_failure progress bi f stats) =
     (if bf_failed_entry f \<noteq> None then (if bf_entries f = [] then [] else [bf_entries f])
      else if bf_retry_split f \<and> 1 < length (bf_entries f) then split_entries (bf_entries f) else [])"
  by (simp add: after_failure_def Let_def split: option.split)

lemma split_size: "1 < length xs \<Longrightarrow> pending_size (split_entries xs) < 2 * length xs - 1"
proof -
  assume "1 < length xs"
  then have h: "1 \<le> length xs div 2" "length xs div 2 < length xs" by linarith+
  have "1 \<le> a \<Longrightarrow> a < n \<Longrightarrow> max 1 (2 * a - 1) + max 1 (2 * (n - a) - 1) < 2 * n - 1" for a n :: nat
    by simp
  note this[OF h]
  moreover have "pending_size (split_entries xs) =
      max 1 (2 * (length xs div 2) - 1) + max 1 (2 * (length xs - length xs div 2) - 1)"
    using h(2) by (simp add: split_entries_def)
  ultimately show ?thesis by (simp only:)
qed

lemma after_failure_smaller:
  assumes "(Inl f, r) = probe_active_batch pe en bi entries st prev cur"
    and "(retry, x) = after_failure progress bi' f stats"
  shows "pending_size retry < max (Suc 0) (2 * length entries - Suc 0)"
proof -
  have retry: "retry = fst (after_failure progress bi' f stats)" using assms(2) by (metis fst_conv)
  note fail = probe_active_batch_failure[OF assms(1)[symmetric]]
  show ?thesis
  proof (cases "bf_failed_entry f")
    case None
    with fail have "bf_entries f = entries" by simp
    with None fail split_size[of entries] show ?thesis by (auto simp: retry after_failure_retry max_def)
  next
    case (Some e)
    with fail obtain i where "i < length entries" "bf_entries f = remove_at i entries" by auto
    moreover from this have "length (remove_at i entries) = length entries - 1"
      by (simp add: length_remove_at)
    ultimately show ?thesis
      using Some length_greater_0_conv[of "remove_at i entries"]
      by (auto simp: retry after_failure_retry max_def)
  qed
qed

text \<open>
  \<open>env k\<close> is the environment of the k-th attempt, \<open>cancelled k\<close> what other tasks have stored
  in the flag when the loop looks before it.  The stack of pending batches has its top in front.
\<close>

function fallback_loop ::
  "probe_env \<Rightarrow> (nat \<Rightarrow> attempt_env) \<Rightarrow> (nat \<Rightarrow> bool) \<Rightarrow> nat \<Rightarrow> ranked_config list \<Rightarrow> nat
     \<Rightarrow> prepared_active_candidate list list \<Rightarrow> ranked_config list \<Rightarrow> batch_probe_stats
     \<Rightarrow> probe_stop_state
     \<Rightarrow> ranked_config list \<times> batch_probe_stats \<times> probe_stop_state \<times> bool \<times> progress_event list" where
  "fallback_loop pe env cancelled batch_index previous k [] ranked stats state =
     (ranked, stats, state, False, [])"
| "fallback_loop pe env cancelled batch_index previous k (batch # pending) ranked stats state =
     (if cancelled k then (ranked, stats, state, False, [])
      else case probe_active_batch pe (env k) batch_index batch state previous ranked of
        (Inr batch_ranked, state1, stopped, sent) \<Rightarrow>
          (let stats1 = stats\<lparr>bs_started_cleanly := True,
                 bs_produced := sat_add usize_max (bs_produced stats) (length batch_ranked)\<rparr>;
               ranked1 = ranked @ batch_ranked;
               (reason, state2, stop_sent) =
                 probe_stop_reason (previous @ ranked1) (pe_policy pe) state1 (pe_progress pe)
           in if reason \<noteq> None then (ranked1, stats1, state2, True, sent @ stop_sent)
              else if stopped then (ranked1, stats1, state2, True, sent @ stop_sent)
              else case fallback_loop pe env cancelled batch_index previous (Suc k) pending ranked1 stats1 state2 of
                (r, st, s, c, later) \<Rightarrow> (r, st, s, c, sent @ stop_sent @ later))
      | (Inl failure, state1, stopped, sent) \<Rightarrow>
          (case after_failure (pe_progress pe) batch_index failure stats of
             (retry, failed, stats1, failure_sent) \<Rightarrow>
               (let ranked1 = ranked @ failed;
                    (reason, state2, stop_sent) =
                      probe_stop_reason (previous @ ranked1) (pe_policy pe) state1 (pe_progress pe)
                in if reason \<noteq> None
                   then (ranked1, stats1, state2, True, sent @ failure_sent @ stop_sent)
                   else case fallback_loop pe env cancelled batch_index previous (Suc k)
                               (retry @ pending) ranked1 stats1 state2 of
                     (r, st, s, c, later) \<Rightarrow> (r, st, s, c, sent @ failure_sent @ stop_sent @ later))))"
  by pat_completeness auto
termination
proof (relation "measure (\<lambda>(pe, env, cancelled, bi, prev, k, pending, ranked, stats, state). pending_size pending)")
qed (auto dest: after_failure_smaller)

declare fallback_loop.simps [simp del]

definition probe_active_batch_with_fallback ::
  "probe_env \<Rightarrow> (nat \<Rightarrow> attempt_env) \<Rightarrow> (nat \<Rightarrow> bool) \<Rightarrow> nat \<Rightarrow> prepared_active_candidate list
     \<Rightarrow> probe_stop_state \<Rightarrow> ranked_config list
     \<Rightarrow> ranked_config list \<times> batch_probe_stats \<times> probe_stop_state \<times> bool \<times> progress_event list" where
  "probe_active_batch_with_fallback pe env cancelled batch_index batch state previous =
     fallback_loop pe env cancelled batch_index previous 0 [batch] [] batch_probe_stats_default state"

subsection \<open>No entry is lost or tested twice\<close>

definition about :: "ranked_config list \<Rightarrow> candidate multiset" where
  "about rs = mset (map candidate_of_ranked rs)"

definition mains :: "prepared_active_candidate list \<Rightarrow> candidate multiset" where
  "mains es = mset (map pa_candidate es)"

text \<open>The HTTP probes of a batch of n entries finish in some order, each of them once.\<close>

definition env_ok :: "attempt_env \<Rightarrow> bool" where
  "env_ok en \<longleftrightarrow> (\<forall>n. mset (en_order en n) = mset [0..<n])"

definition undisturbed :: "probe_env \<Rightarrow> attempt_env \<Rightarrow> bool" where
  "undisturbed pe en \<longleftrightarrow> sp_scan_all_configs (pe_policy pe) \<and> (\<forall>n. \<not> en_cancel en n)"

lemma about_simps [simp]: "about [] = {#}" "about (xs @ ys) = about xs + about ys"
  by (simp_all add: about_def)

lemma mains_simps [simp]:
  "mains [] = {#}" "mains (e # es) = add_mset (pa_candidate e) (mains es)"
  "mains (xs @ ys) = mains xs + mains ys"
  by (simp_all add: mains_def)

lemma about_failed_configs [simp]: "about (failed_configs e v err) = {#pa_candidate e#}"
  by (simp add: about_def failed_configs_def)

lemma about_failed_concat: "about (concat (map (\<lambda>e. failed_configs e v err) es)) = mains es"
  by (induction es) simp_all

lemma about_active [simp]: "about (ranked_configs_for_active_result c e r) = {#pa_candidate e#}"
  by (simp add: about_def del: mset_map)

lemma no_stop_when_scanning:
  "sp_scan_all_configs p \<Longrightarrow> probe_stop_reason rs p st pr = (None, st, [])"
  "sp_scan_all_configs p \<Longrightarrow> probe_stop_reason_with_batch a b rs p st pr = (None, st, [])"
  by (simp_all add: probe_stop_reason_def probe_stop_reason_with_batch_def)

lemma result_loop_about:
  assumes "result_loop pe en entries bi prev cur order k ranked st = (out, st', c, ev)"
  shows "\<exists>taken. prefix taken order
     \<and> about out = about ranked + mset (map (\<lambda>i. pa_candidate (entries ! i)) taken)
     \<and> (undisturbed pe en \<longrightarrow> taken = order \<and> \<not> c)"
  using assms
proof (induction order arbitrary: k ranked st ev)
  case Nil
  then show ?case by simp
next
  case (Cons i order)
  let ?results = "ranked_configs_for_active_result (pe_country pe) (entries ! i)
      (probe_active_target (pc_accepted_statuses (pe_config pe)) (en_response en i))"
  obtain reason st1 sent1 where r: "probe_stop_reason_with_batch prev cur (ranked @ ?results)
      (pe_policy pe) st (pe_progress pe) = (reason, st1, sent1)" by (metis prod.collapse)
  consider "en_cancel en (2 + k)" | "\<not> en_cancel en (2 + k)" "reason \<noteq> None"
    | "\<not> en_cancel en (2 + k)" "reason = None" by blast
  then show ?case
  proof cases
    case 1
    then show ?thesis using Cons.prems by (intro exI[of _ "[]"]) (auto simp: undisturbed_def)
  next
    case 2
    then have "out = ranked @ ?results" using Cons.prems r by (auto simp: Let_def)
    moreover have "\<not> undisturbed pe en"
      using 2(2) r no_stop_when_scanning(2) by (auto simp: undisturbed_def)
    ultimately show ?thesis by (intro exI[of _ "[i]"]) simp
  next
    case 3
    then obtain later where "result_loop pe en entries bi prev cur order (k + 1) (ranked @ ?results) st1
        = (out, st', c, later)"
      using Cons.prems r by (auto simp: Let_def split: prod.splits)
    from Cons.IH[OF this] obtain taken where "prefix taken order"
      "about out = about (ranked @ ?results) + mset (map (\<lambda>i. pa_candidate (entries ! i)) taken)"
      "undisturbed pe en \<longrightarrow> taken = order \<and> \<not> c" by blast
    then show ?thesis by (intro exI[of _ "i # taken"]) simp
  qed
qed

lemma mains_nth: "mset (map (\<lambda>i. pa_candidate (entries ! i)) [0..<length entries]) = mains entries"
proof -
  have "map (\<lambda>i. pa_candidate (entries ! i)) [0..<length entries] = map pa_candidate entries"
    by (rule nth_equalityI) simp_all
  then show ?thesis by (simp only: mains_def)
qed

lemma order_about:
  assumes "env_ok en" and "prefix taken (en_order en (length entries))"
  shows "mset (map (\<lambda>i. pa_candidate (entries ! i)) taken) \<subseteq># mains entries"
    and "taken = en_order en (length entries) \<Longrightarrow>
      mset (map (\<lambda>i. pa_candidate (entries ! i)) taken) = mains entries"
proof -
  have all: "mset (map (\<lambda>i. pa_candidate (entries ! i)) (en_order en (length entries))) = mains entries"
    using assms(1) mains_nth[of entries] unfolding env_ok_def by (metis mset_map)
  obtain rest where "en_order en (length entries) = taken @ rest" using assms(2) by (auto simp: prefix_def)
  then show "mset (map (\<lambda>i. pa_candidate (entries ! i)) taken) \<subseteq># mains entries"
    using all by (metis map_append mset_append mset_subset_eq_add_left)
  show "taken = en_order en (length entries) \<Longrightarrow>
      mset (map (\<lambda>i. pa_candidate (entries ! i)) taken) = mains entries" using all by simp
qed

lemma probe_active_batch_about:
  assumes "env_ok en" and "probe_active_batch pe en bi entries st prev cur = (Inr out, st', c, ev)"
  shows "about out \<subseteq># mains entries \<and> (undisturbed pe en \<longrightarrow> about out = mains entries \<and> \<not> c)"
proof -
  consider "out = []" "entries = [] \<and> \<not> c \<or> en_cancel en 0 \<or> en_cancel en 1"
    | later where "result_loop pe en entries bi prev cur (en_order en (length entries)) 0 [] st
        = (out, st', c, later)"
    using assms(2)
    by (auto simp: probe_active_batch_def Let_def split: if_splits sum.splits option.splits prod.splits)
  then show ?thesis
  proof cases
    case 1
    then show ?thesis by (auto simp: undisturbed_def)
  next
    case 2
    from result_loop_about[OF 2] obtain taken where "prefix taken (en_order en (length entries))"
      "about out = mset (map (\<lambda>i. pa_candidate (entries ! i)) taken)"
      "undisturbed pe en \<longrightarrow> taken = en_order en (length entries) \<and> \<not> c" by auto
    then show ?thesis using order_about[OF assms(1)] by auto
  qed
qed

lemma after_failure_about:
  assumes "probe_active_batch pe en bi entries st prev cur = (Inl f, r)"
    and "after_failure pr bi' f stats = (retry, failed, stats', sent)"
  shows "about failed + mains (concat retry) = mains entries"
proof -
  note fail = probe_active_batch_failure[OF assms(1)]
  show ?thesis
  proof (cases "bf_failed_entry f")
    case None
    with fail have "bf_entries f = entries" by simp
    moreover have "mains (take n es) + mains (drop n es) = mains es" for n es
      by (metis append_take_drop_id mains_simps(3))
    ultimately show ?thesis
      using assms(2) None
      by (auto simp: after_failure_def Let_def split_entries_def about_failed_concat split: if_splits)
  next
    case (Some e)
    with fail obtain i where i: "i < length entries" "e = entries ! i" "bf_entries f = remove_at i entries"
      by auto
    have "add_mset (pa_candidate (entries ! i)) (mains (remove_at i entries)) = mains entries"
      using mset_remove_at[OF i(1)] unfolding mains_def by (metis image_mset_add_mset mset_map)
    then show ?thesis
      using assms(2) Some i by (auto simp: after_failure_def Let_def split: if_splits)
  qed
qed

lemma fallback_loop_about:
  assumes env: "\<And>k. env_ok (env k)"
    and "fallback_loop pe env cancelled bi prev k pending ranked stats st = (out, stats', st', c, ev)"
  shows "about out \<subseteq># about ranked + mains (concat pending)
     \<and> ((\<forall>k. undisturbed pe (env k) \<and> \<not> cancelled k) \<longrightarrow>
          about out = about ranked + mains (concat pending) \<and> \<not> c)"
  using assms(2)
proof (induction "pending_size pending" arbitrary: k pending ranked stats st ev rule: less_induct)
  case less
  show ?case
  proof (cases "pending = [] \<or> cancelled k")
    case True
    then have "out = ranked" "pending = [] \<and> \<not> c \<or> cancelled k"
      using less.prems by (cases pending; auto simp: fallback_loop.simps)+
    then show ?thesis by (auto simp: subset_mset.add_increasing2)
  next
    case False
    then obtain batch rest where p: "pending = batch # rest" "\<not> cancelled k" by (cases pending) auto
    obtain res st1 stopped sent
      where a: "probe_active_batch pe (env k) bi batch st prev ranked = (res, st1, stopped, sent)"
      by (metis prod.collapse)
    show ?thesis
    proof (cases res)
      case (Inr found)
      note batch = probe_active_batch_about[OF env a[unfolded Inr]]
      obtain reason st2 sent2 where r: "probe_stop_reason (prev @ ranked @ found) (pe_policy pe) st1
          (pe_progress pe) = (reason, st2, sent2)" by (metis prod.collapse)
      show ?thesis
      proof (cases "reason \<noteq> None \<or> stopped")
        case True
        then have out: "out = ranked @ found"
          using less.prems p a Inr r by (auto simp: fallback_loop.simps Let_def split: if_splits)
        have "\<not> (\<forall>k. undisturbed pe (env k) \<and> \<not> cancelled k)"
          using True r batch no_stop_when_scanning(1) by (auto simp: undisturbed_def)
        then show ?thesis using batch by (auto simp: out p(1) subset_mset.add_increasing2 add.assoc)
      next
        case go: False
        then obtain stats1 later where "fallback_loop pe env cancelled bi prev (Suc k) rest
            (ranked @ found) stats1 st2 = (out, stats', st', c, later)"
          using less.prems p a Inr r by (auto simp: fallback_loop.simps(2) Let_def split: prod.splits)
        note run = this
        have "pending_size rest < pending_size pending" by (auto simp: p(1) max_def)
        note ih = less.hyps[OF this run]
        have h1: "about ranked + (about found + mains (concat rest))
            \<subseteq># about ranked + (mains batch + mains (concat rest))"
          using batch by simp
        have h2: "about out \<subseteq># about ranked + (about found + mains (concat rest))"
          using ih by (simp add: add.assoc)
        have "about out \<subseteq># about ranked + mains (concat pending)"
          using subset_mset.order_trans[OF h2 h1] by (simp add: p(1))
        moreover have "(\<forall>k. undisturbed pe (env k) \<and> \<not> cancelled k) \<longrightarrow>
            about out = about ranked + mains (concat pending) \<and> \<not> c"
          using ih batch by (simp add: p(1) add.assoc)
        ultimately show ?thesis by blast
      qed
    next
      case (Inl failure)
      obtain retry failed stats1 fsent where f: "after_failure (pe_progress pe) bi failure stats
          = (retry, failed, stats1, fsent)" by (metis prod.collapse)
      note kept = after_failure_about[OF a[unfolded Inl] f]
        and smaller = after_failure_smaller[OF a[unfolded Inl, symmetric] f[symmetric]]
      obtain reason st2 sent2 where r: "probe_stop_reason (prev @ ranked @ failed) (pe_policy pe) st1
          (pe_progress pe) = (reason, st2, sent2)" by (metis prod.collapse)
      show ?thesis
      proof (cases "reason \<noteq> None")
        case True
        then have out: "out = ranked @ failed"
          using less.prems p a Inl f r by (auto simp: fallback_loop.simps Let_def split: if_splits)
        have "\<not> (\<forall>k. undisturbed pe (env k) \<and> \<not> cancelled k)"
          using True r no_stop_when_scanning(1) by (auto simp: undisturbed_def)
        moreover have "about failed \<subseteq># mains batch" by (metis kept mset_subset_eq_add_left)
        ultimately show ?thesis by (auto simp: out p(1) subset_mset.add_increasing2 add.assoc)
      next
        case go: False
        then obtain later where "fallback_loop pe env cancelled bi prev (Suc k) (retry @ rest)
            (ranked @ failed) stats1 st2 = (out, stats', st', c, later)"
          using less.prems p a Inl f r by (auto simp: fallback_loop.simps(2) Let_def split: prod.splits)
        from less.hyps[OF _ this] show ?thesis
          using smaller kept[symmetric] by (simp add: p(1) add.assoc)
      qed
    qed
  qed
qed

text \<open>
  C2: The split-and-retry loop around a batch always ends, and no entry is lost or tested twice:
  whatever the test processes do, the results are about entries of the batch, each at most once;
  when nothing cancels the scan and it is not allowed to stop early, they are about every entry
  exactly once and the loop does not stop the scan.
\<close>

theorem fallback_accounts_for_every_entry:
  assumes "\<And>k. env_ok (env k)"
    and "probe_active_batch_with_fallback pe env cancelled bi batch st prev = (out, stats, st', c, ev)"
  shows "about out \<subseteq># mains batch
     \<and> ((\<forall>k. undisturbed pe (env k) \<and> \<not> cancelled k) \<longrightarrow> about out = mains batch \<and> \<not> c)"
  using fallback_loop_about[OF assms(1) assms(2)[unfolded probe_active_batch_with_fallback_def]]
  by simp

definition sample_probe_env :: probe_env where
  "sample_probe_env = \<lparr> pe_config = probe_config_default,
     pe_policy = sample_policy\<lparr>sp_scan_all_configs := True\<rparr>, pe_progress = True, pe_version = None,
     pe_country = (\<lambda>_. None) \<rparr>"

definition sample_attempt :: "nat \<Rightarrow> attempt_env" where
  "sample_attempt k = \<lparr> en_ports = (\<lambda>n. Inr (replicate n 5000)), en_write = Inr (), en_spawn = Inr (),
     en_ready = (if k = 0 then Inl (''not ready'', []) else Inr ()),
     en_response = (\<lambda>i. Inr (204, 10 + i)), en_order = (\<lambda>n. [0..<n]), en_cancel = (\<lambda>_. False) \<rparr>"

definition sample_entry :: "string \<Rightarrow> prepared_active_candidate" where
  "sample_entry key = \<lparr> pa_candidate = candidate_of_ranked (sample_ranked key True 1), pa_aliases = [],
     pa_outbound = json_obj [(''type'', JString ''vless'')] \<rparr>"

theorem fallback_accounts_for_every_entry_witness:
  "\<exists>out stats st' c ev. probe_active_batch_with_fallback sample_probe_env sample_attempt (\<lambda>_. False) 1
       [sample_entry ''a'', sample_entry ''b''] (probe_stop_state_new [] sample_policy) [] = (out, stats, st', c, ev)
     \<and> about out = mains [sample_entry ''a'', sample_entry ''b''] \<and> \<not> c"
proof -
  let ?run = "probe_active_batch_with_fallback sample_probe_env sample_attempt (\<lambda>_. False) 1
       [sample_entry ''a'', sample_entry ''b''] (probe_stop_state_new [] sample_policy) []"
  obtain out stats st' c ev where r: "?run = (out, stats, st', c, ev)" by (metis prod.collapse)
  have ok: "env_ok (sample_attempt k)" for k by (simp add: env_ok_def sample_attempt_def)
  have "\<forall>k. undisturbed sample_probe_env (sample_attempt k) \<and> \<not> False"
    by (simp add: undisturbed_def sample_probe_env_def sample_attempt_def)
  then show ?thesis using fallback_accounts_for_every_entry[OF ok r] r by blast
qed

subsection \<open>Preparation accounts for every candidate\<close>

definition entry_candidates :: "prepared_active_candidate list \<Rightarrow> candidate multiset" where
  "entry_candidates es = sum_list (map (\<lambda>e. add_mset (pa_candidate e) (mset (pa_aliases e))) es)"

lemma entry_candidates_simps [simp]:
  "entry_candidates [] = {#}"
  "entry_candidates (e # es) = add_mset (pa_candidate e) (mset (pa_aliases e)) + entry_candidates es"
  "entry_candidates (xs @ ys) = entry_candidates xs + entry_candidates ys"
  by (simp_all add: entry_candidates_def)

lemma prepare_chunk_accounts:
  "entry_candidates (fst (prepare_chunk f cs)) + about (snd (prepare_chunk f cs)) = mset cs
   \<and> (\<forall>e\<in>set (fst (prepare_chunk f cs)). pa_aliases e = [] \<and> f (c_uri (pa_candidate e)) = Inr (pa_outbound e))"
proof (induction cs)
  case Nil
  then show ?case by simp
next
  case (Cons c cs)
  then show ?case
    by (cases "f (c_uri c)") (auto simp: Let_def about_def split: prod.splits)
qed

definition dedup_inv ::
  "(json \<Rightarrow> string) \<Rightarrow> prepared_active_candidate list \<Rightarrow> (string \<rightharpoonup> nat) \<Rightarrow> bool" where
  "dedup_inv key es m \<longleftrightarrow> (\<forall>k i. m k = Some i \<longleftrightarrow> i < length es \<and> key (pa_outbound (es ! i)) = k)"

lemma entry_candidates_update:
  "i < length es \<Longrightarrow> entry_candidates (es[i := (es ! i)\<lparr>pa_aliases := pa_aliases (es ! i) @ [c]\<rparr>])
     = add_mset c (entry_candidates es)"
  by (induction es arbitrary: i) (auto split: nat.splits)

lemma dedup_prepared_accounts:
  assumes "dedup_inv key es m" and "\<forall>e\<in>set new. pa_aliases e = []"
    and "dedup_prepared key new (es, m) = (es', m')"
  shows "dedup_inv key es' m' \<and> entry_candidates es' = entry_candidates es + entry_candidates new"
  using assms
proof (induction new arbitrary: es m)
  case Nil
  then show ?case by simp
next
  case (Cons e new)
  note idx = Cons.prems(1)[unfolded dedup_inv_def, rule_format]
  show ?case
  proof (cases "m (key (pa_outbound e))")
    case None
    then have "\<forall>i<length es. key (pa_outbound (es ! i)) \<noteq> key (pa_outbound e)"
      using idx by (metis option.distinct(1))
    then have "dedup_inv key (es @ [e]) (m(key (pa_outbound e) \<mapsto> length es))"
      using idx by (auto simp: dedup_inv_def nth_append less_Suc_eq)
    moreover have "dedup_prepared key new (es @ [e], m(key (pa_outbound e) \<mapsto> length es)) = (es', m')"
      using Cons.prems(3) None by (simp add: Let_def)
    ultimately have "dedup_inv key es' m' \<and> entry_candidates es' = entry_candidates (es @ [e]) + entry_candidates new"
      using Cons.IH Cons.prems(2) by (meson list.set_intros(2))
    then show ?thesis using Cons.prems(2) by simp
  next
    case (Some i)
    let ?es = "es[i := (es ! i)\<lparr>pa_aliases := pa_aliases (es ! i) @ [pa_candidate e]\<rparr>]"
    have i: "i < length es" using idx Some by blast
    have "dedup_inv key ?es m" using idx i by (auto simp: dedup_inv_def nth_list_update)
    with Cons.IH[OF this] Cons.prems(2,3) Some entry_candidates_update[OF i] show ?thesis
      by (simp add: Let_def)
  qed
qed

lemma dedup_inv_distinct: "dedup_inv key es m \<Longrightarrow> distinct (map (\<lambda>e. key (pa_outbound e)) es)"
  unfolding dedup_inv_def distinct_conv_nth by (metis length_map nth_map option.inject)

lemma chunk_sums:
  "entry_candidates (concat (map (fst \<circ> prepare_chunk f) css))
     + about (concat (map (snd \<circ> prepare_chunk f) css)) = mset (concat css)
   \<and> (\<forall>e\<in>set (concat (map (fst \<circ> prepare_chunk f) css)). pa_aliases e = [])"
proof (induction css)
  case Nil
  then show ?case by simp
next
  case (Cons cs css)
  have "entry_candidates (concat (map (fst \<circ> prepare_chunk f) (cs # css)))
     + about (concat (map (snd \<circ> prepare_chunk f) (cs # css)))
    = (entry_candidates (fst (prepare_chunk f cs)) + about (snd (prepare_chunk f cs)))
      + (entry_candidates (concat (map (fst \<circ> prepare_chunk f) css))
         + about (concat (map (snd \<circ> prepare_chunk f) css)))"
    by (simp add: ac_simps)
  also have "\<dots> = mset (concat (cs # css))"
    using Cons prepare_chunk_accounts[of f cs] by (simp only: concat.simps mset_append)
  finally have sums: "entry_candidates (concat (map (fst \<circ> prepare_chunk f) (cs # css)))
     + about (concat (map (snd \<circ> prepare_chunk f) (cs # css))) = mset (concat (cs # css))" .
  have "\<forall>e\<in>set (concat (map (fst \<circ> prepare_chunk f) (cs # css))). pa_aliases e = []"
    using Cons prepare_chunk_accounts[of f cs] by auto
  with sums show ?case by (rule conjI)
qed

lemma candidate_count_size: "candidate_count es = size (entry_candidates es)"
  by (induction es) (simp_all add: candidate_count_def prepared_candidate_count_def)

lemma preparation_accounts:
  "let p = prepare_active_candidates outbound_of outbound_key num_cpus candidates policy in
     entry_candidates (ap_prepared p) + about (ap_ranked p) = mset candidates
   \<and> distinct (map (\<lambda>e. outbound_key (pa_outbound e)) (ap_prepared p))
   \<and> ap_prepared_candidates p + length (ap_ranked p) = length candidates"
proof -
  let ?s = "schedule_active_candidates candidates policy"
  let ?css = "chunks (max (length ?s div max num_cpus 1) 1) ?s"
  let ?new = "concat (map (fst \<circ> prepare_chunk outbound_of) ?css)"
  let ?failed = "concat (map (snd \<circ> prepare_chunk outbound_of) ?css)"
  obtain es m where d: "dedup_prepared outbound_key ?new ([], Map.empty) = (es, m)" by fastforce
  have p: "prepare_active_candidates outbound_of outbound_key num_cpus candidates policy
      = \<lparr> ap_prepared = es, ap_ranked = ?failed, ap_prepared_candidates = candidate_count es \<rparr>"
    using d by (simp add: prepare_active_candidates_def Let_def)
  have "concat ?css = ?s" by (rule concat_chunks) simp
  moreover have "mset ?s = mset candidates"
    by (simp add: schedule_active_candidates_def Let_def)
  ultimately have sums: "entry_candidates ?new + about ?failed = mset candidates"
    "\<forall>e\<in>set ?new. pa_aliases e = []"
    using chunk_sums[of outbound_of ?css] by (simp_all del: set_concat mset_concat)
  have "dedup_inv outbound_key [] Map.empty" by (simp add: dedup_inv_def)
  from dedup_prepared_accounts[OF this sums(2) d]
  have e: "dedup_inv outbound_key es m" "entry_candidates es = entry_candidates ?new" by simp_all
  have "size (entry_candidates es) + size (about ?failed) = length candidates"
    using sums(1) unfolding e(2) by (metis size_mset size_union)
  then show ?thesis
    using e sums(1) dedup_inv_distinct[OF e(1)]
    by (simp add: p candidate_count_size about_def)
qed


end
