(* ===== verification/Scan.thy ===== *)
theory Scan
  imports Batch
begin

text \<open>
  A whole scan (\<open>src/probe.rs\<close>): the waves of batches of \<open>probe_active_batched\<close>, the TCP
  pre-filter in front of them, the speed tests behind them, and \<open>probe_candidates\<close> and
  \<open>ping_configs\<close>, which put it together.

  The batches of a wave run at the same time; the environment of a wave gives what each meets,
  the order they finish in, and what the main task reads from the shared flag.  The progress
  messages of this layer are left out: those of one batch are in the theory of batches.
\<close>

subsection \<open>Speed tests\<close>

fun read_chunks :: "nat \<Rightarrow> nat \<Rightarrow> nat result list \<Rightarrow> nat result" where
  "read_chunks bytes_limit measured [] = Inr measured"
| "read_chunks bytes_limit measured (chunk # later) =
     (if measured < bytes_limit
      then and_then chunk (\<lambda>len.
        read_chunks bytes_limit (sat_add usize_max measured (min len (bytes_limit - measured))) later)
      else Inr measured)"

text \<open>\<open>mbps\<close> turns the number of bytes into the speed; \<open>no_time\<close> says that no time passed.\<close>

definition measure_download ::
  "(nat \<Rightarrow> f64) \<Rightarrow> bool \<Rightarrow> nat \<Rightarrow> nat result list \<Rightarrow> (f64 \<times> nat) result" where
  "measure_download mbps no_time bytes_limit received =
     and_then (read_chunks bytes_limit 0 received) (\<lambda>measured.
     if no_time \<or> measured = 0 then Inl ''download probe returned no measurable data''
     else Inr (mbps measured, measured))"

definition speedtest_targets :: "probe_stop_policy \<Rightarrow> ranked_config list \<Rightarrow> nat list" where
  "speedtest_targets policy ranked =
     (let indices = filter (\<lambda>i. r_reachable (ranked ! i)) [0..<length ranked];
          sorted = sort_by (\<lambda>left right. compare_ranked (ranked ! left) (ranked ! right)) indices
      in take (speedtest_probe_limit (length indices) policy) sorted)"

text \<open>
  \<open>measured url uri\<close> is the measurement through a test process for that link; the targets are
  distinct places, so the order the measurements finish in does not matter.
\<close>

definition set_speed :: "(f64 \<times> nat) option \<Rightarrow> ranked_config \<Rightarrow> ranked_config" where
  "set_speed m r = (case m of
      Some (mbps, bytes) \<Rightarrow> r\<lparr>r_download_mbps := Some mbps, r_download_bytes := Some bytes\<rparr>
    | None \<Rightarrow> r)"

definition enrich_top_speedtests ::
  "(string \<Rightarrow> string \<Rightarrow> (f64 \<times> nat) option) \<Rightarrow> probe_config \<Rightarrow> probe_stop_policy
     \<Rightarrow> ranked_config list \<Rightarrow> ranked_config list" where
  "enrich_top_speedtests measured cfg policy ranked =
     (case filter_opt (\<lambda>u. u \<noteq> []) (map_option trim (pc_download_url cfg)) of
        None \<Rightarrow> ranked
      | Some url \<Rightarrow>
          fold (\<lambda>i rs. rs[i := set_speed (measured url (r_uri (ranked ! i))) (rs ! i)])
            (speedtest_targets policy ranked) ranked)"

subsection \<open>Waves of batches\<close>

record wave_env =
  wv_attempt :: "nat \<Rightarrow> nat \<Rightarrow> attempt_env"
  wv_cancelled :: "nat \<Rightarrow> nat \<Rightarrow> bool"
  wv_order :: "nat \<Rightarrow> nat list"
  wv_flag :: "nat \<Rightarrow> bool"

record scan_env =
  se_wave :: "nat \<Rightarrow> wave_env"
  se_parallelism :: nat
  se_measure :: "string \<Rightarrow> string \<Rightarrow> (f64 \<times> nat) option"
  se_outbound_of :: "string \<Rightarrow> json result"
  se_outbound_key :: "json \<Rightarrow> string"
  se_cpus :: nat

record scan_state =
  sn_prepared :: "prepared_active_candidate list"
  sn_ranked :: "ranked_config list"
  sn_stop :: probe_stop_state
  sn_sizer :: active_batch_sizer
  sn_batch_index :: nat
  sn_cancel :: bool
  sn_loads :: nat
  sn_waves :: nat

text \<open>
  \<open>is_cancelled\<close>: the scan's own flag, else a load of the policy's flag, counted in
  \<open>sn_loads\<close>.
\<close>

definition is_cancelled :: "probe_stop_policy \<Rightarrow> scan_state \<Rightarrow> bool \<times> scan_state" where
  "is_cancelled policy s =
     (if sn_cancel s then (True, s)
      else (cancel_flag_set policy (sn_loads s), s\<lparr>sn_loads := Suc (sn_loads s)\<rparr>))"

fun fill_wave ::
  "probe_stop_policy \<Rightarrow> nat \<Rightarrow> scan_state \<Rightarrow> (nat \<times> prepared_active_candidate list) list \<times> scan_state" where
  "fill_wave policy 0 s = ([], s)"
| "fill_wave policy (Suc slots) s =
     (let (cancelled, s) = is_cancelled policy s in
      if sn_prepared s = [] \<or> cancelled then ([], s)
      else
        let batch_index = sn_batch_index s + 1;
            batch_len = next_len (sn_sizer s) (length (sn_prepared s));
            batch = take batch_len (sn_prepared s);
            (wave, s) = fill_wave policy slots
              (s\<lparr>sn_prepared := drop batch_len (sn_prepared s), sn_batch_index := batch_index\<rparr>)
        in ((batch_index, batch) # wave, s))"

definition wave_previous_working ::
  "(nat \<times> prepared_active_candidate list) list \<Rightarrow> probe_stop_policy \<Rightarrow> nat" where
  "wave_previous_working wave policy =
     fold (\<lambda>(i, batch) n. sat_add usize_max n (previous_working_entry_count batch policy)) wave 0"

fun wave_outcomes ::
  "probe_env \<Rightarrow> wave_env \<Rightarrow> (nat \<times> prepared_active_candidate list) list \<Rightarrow> nat list \<Rightarrow> nat
     \<Rightarrow> scan_state \<Rightarrow> scan_state" where
  "wave_outcomes pe wv wave [] k s = s"
| "wave_outcomes pe wv wave (i # order) k s =
     (let (batch_index, batch) = wave ! i;
          (found, stats, _, stopped, _) =
            probe_active_batch_with_fallback pe (wv_attempt wv i) (wv_cancelled wv i) batch_index batch
              (probe_stop_state_new batch (pe_policy pe)) [];
          s = s\<lparr>sn_sizer := observe stats (sn_sizer s), sn_ranked := sn_ranked s @ found,
                sn_cancel := sn_cancel s \<or> stopped \<or> wv_flag wv (2 * k)\<rparr>
      in if sn_cancel s then s
         else
           let (reason, stop, _) = probe_stop_reason (sn_ranked s) (pe_policy pe) (sn_stop s) (pe_progress pe);
               s = s\<lparr>sn_stop := stop\<rparr>
           in if reason \<noteq> None \<or> wv_flag wv (2 * k + 1) then s\<lparr>sn_cancel := True\<rparr>
              else wave_outcomes pe wv wave order (Suc k) s)"

text \<open>One turn of the loop; \<^term>\<open>True\<close> says that the loop goes on.\<close>

definition scan_turn :: "probe_env \<Rightarrow> scan_env \<Rightarrow> scan_state \<Rightarrow> bool \<times> scan_state" where
  "scan_turn pe se s =
     (if sn_prepared s = [] \<or> sn_cancel s then (False, s)
      else
        let policy = pe_policy pe; (cancelled, s) = is_cancelled policy s in
        if cancelled then (False, s)
        else
          let (wave, s) = fill_wave policy (active_probe_process_concurrency (se_parallelism se)
                              (pc_process_concurrency (pe_config pe))) s;
              wv = se_wave se (sn_waves s);
              s = wave_outcomes pe wv wave (wv_order wv (length wave)) 0 (s\<lparr>sn_waves := Suc (sn_waves s)\<rparr>);
              s = s\<lparr>sn_stop := update_stability_search_after_batch
                      (wave_previous_working wave policy) policy (sn_stop s)\<rparr>;
              (reason, stop, _) = probe_stop_reason (sn_ranked s) policy (sn_stop s) (pe_progress pe);
              s = s\<lparr>sn_stop := stop\<rparr>
          in if reason \<noteq> None then (False, s\<lparr>sn_cancel := True\<rparr>) else (True, s))"

partial_function (option) scan_loop ::
  "probe_env \<Rightarrow> scan_env \<Rightarrow> scan_state \<Rightarrow> scan_state option" where
  "scan_loop pe se s = (case scan_turn pe se s of (go_on, s') \<Rightarrow> if go_on then scan_loop pe se s' else Some s')"

declare scan_loop.simps [code]

definition scan_start :: "probe_env \<Rightarrow> scan_env \<Rightarrow> nat \<Rightarrow> candidate list \<Rightarrow> scan_state" where
  "scan_start pe se loads candidates =
     (let p = prepare_active_candidates (se_outbound_of se) (se_outbound_key se) (se_cpus se) candidates
                (pe_policy pe)
      in \<lparr> sn_prepared = ap_prepared p, sn_ranked = ap_ranked p,
           sn_stop = probe_stop_state_new (ap_prepared p) (pe_policy pe),
           sn_sizer = active_batch_sizer_new (pc_concurrency (pe_config pe)) (pc_batch_size (pe_config pe)),
           sn_batch_index = 0, sn_cancel = False, sn_loads = loads, sn_waves = 0 \<rparr>)"

definition probe_active_batched ::
  "probe_env \<Rightarrow> scan_env \<Rightarrow> nat \<Rightarrow> candidate list \<Rightarrow> ranked_config list option" where
  "probe_active_batched pe se loads candidates =
     map_option (\<lambda>s. enrich_top_speedtests (se_measure se) (pe_config pe) (pe_policy pe) (sn_ranked s))
       (scan_loop pe se (scan_start pe se loads candidates))"

subsection \<open>The TCP pre-filter\<close>

text \<open>
  \<open>order\<close> lists the screened candidates as their connections finish, \<open>outcome\<close> what each
  connection gives; the policy's flag is read after each.
\<close>

fun sweep_loop ::
  "probe_stop_policy \<Rightarrow> nat \<Rightarrow> candidate list \<Rightarrow> (nat \<Rightarrow> tcp_outcome) \<Rightarrow> nat list \<Rightarrow> nat
     \<Rightarrow> ranked_config list \<Rightarrow> ranked_config list \<Rightarrow> ranked_config list \<times> ranked_config list \<times> nat" where
  "sweep_loop policy timeout_ms testable outcome [] loads reachable dead = (reachable, dead, loads)"
| "sweep_loop policy timeout_ms testable outcome (i # order) loads reachable dead =
     (let result = probe_tcp timeout_ms (testable ! i) (outcome i);
          reachable = (if r_reachable result then reachable @ [result] else reachable);
          dead = (if r_reachable result then dead else dead @ [result])
      in if cancel_flag_set policy loads then (reachable, dead, Suc loads)
         else sweep_loop policy timeout_ms testable outcome order (Suc loads) reachable dead)"

definition probe_active_with_tcp_prefilter ::
  "probe_env \<Rightarrow> scan_env \<Rightarrow> (nat \<Rightarrow> nat list) \<Rightarrow> (nat \<Rightarrow> tcp_outcome) \<Rightarrow> candidate list
     \<Rightarrow> ranked_config list option" where
  "probe_active_with_tcp_prefilter pe se order outcome candidates =
     (let udp_bypass = filter (\<lambda>c. is_udp_protocol (c_protocol c)) candidates;
          tcp_testable = filter (\<lambda>c. \<not> is_udp_protocol (c_protocol c)) candidates
      in if tcp_testable = [] then probe_active_batched pe se 0 udp_bypass
         else
           let timeout_ms = min (pc_connect_timeout_ms (pe_config pe)) TCP_PREFILTER_CONNECT_TIMEOUT_MS;
               (reachable, dead, loads) = sweep_loop (pe_policy pe) timeout_ms tcp_testable outcome
                 (order (length tcp_testable)) 0 [] []
           in map_option (\<lambda>ranked. ranked @ dead)
                (probe_active_batched pe se loads (udp_bypass @ candidates_from_ranked reachable)))"

subsection \<open>The entry points\<close>

definition probe_candidates ::
  "probe_env \<Rightarrow> scan_env \<Rightarrow> bool \<Rightarrow> (nat \<Rightarrow> nat list) \<Rightarrow> (nat \<Rightarrow> tcp_outcome) \<Rightarrow> candidate list
     \<Rightarrow> ranked_config list option" where
  "probe_candidates pe se sing_box_available order outcome candidates =
     (let cfg = pe_config pe in
      if pc_mode cfg = Active \<and> \<not> sing_box_available then
        Some (rank_configs (map (\<lambda>c. failed_config c ''active_http''
          (''sing-box executable '' @ [CHR 39] @ pc_sing_box_path cfg @ [CHR 39]
           @ '' was not found or did not run; install sing-box or set probe.sing_box_path'')) candidates))
      else map_option rank_configs
        (case pc_mode cfg of
           Active \<Rightarrow>
             if pc_tcp_prefilter cfg then probe_active_with_tcp_prefilter pe se order outcome candidates
             else probe_active_batched pe se 0 candidates
         | Tcp \<Rightarrow>
             Some (map (\<lambda>i. probe_tcp (pc_connect_timeout_ms cfg) (candidates ! i) (outcome i))
               (order (length candidates)))))"

text \<open>\<open>parse\<close> is \<open>parse_share_link("ping", 1, uri).ok()\<close>.\<close>

definition ping_policy :: "nat \<Rightarrow> probe_stop_policy" where
  "ping_policy n = \<lparr> sp_scan_all_configs = True, sp_top_n = n, sp_prioritize_stability = False,
     sp_return_configs_asap = False, sp_previous_working_keys = {}, sp_cancel_flag = None \<rparr>"

definition ping_configs ::
  "(string \<Rightarrow> candidate option) \<Rightarrow> probe_env \<Rightarrow> scan_env \<Rightarrow> bool \<Rightarrow> (nat \<Rightarrow> nat list)
     \<Rightarrow> (nat \<Rightarrow> tcp_outcome) \<Rightarrow> string list \<Rightarrow> ranked_config list option" where
  "ping_configs parse pe se sing_box_available order outcome uris =
     (let candidates = filter_map parse uris; cfg = pe_config pe in
      if candidates = [] then Some []
      else
        let results = map (\<lambda>i. probe_tcp (pc_connect_timeout_ms cfg) (candidates ! i) (outcome i))
              (order (length candidates))
        in if pc_mode cfg = Active \<and> sing_box_available then
             map_option (\<lambda>active. rank_configs (if active \<noteq> [] then active else results))
               (probe_active_batched (pe\<lparr>pe_policy := ping_policy (length results), pe_progress := False\<rparr>) se 0
                  (candidates_from_ranked results))
           else Some (rank_configs results))"

subsection \<open>Waiting for a test process\<close>

text \<open>
  One round of polling: whether the process has exited (with which status text), which of the
  ports accept a connection, and whether the time is over.  A wait whose rounds run out without
  an answer is still going on (\<^term>\<open>None\<close>).
\<close>

record poll_round =
  pr_exited :: "string option"
  pr_accepts :: "nat \<Rightarrow> bool"
  pr_timed_out :: bool

fun wait_for_local_proxies :: "nat \<Rightarrow> bool list \<Rightarrow> poll_round list \<Rightarrow> unit result option" where
  "wait_for_local_proxies timeout_ms ready [] = None"
| "wait_for_local_proxies timeout_ms ready (r # rounds) =
     (case pr_exited r of
        Some status \<Rightarrow> Some (Inl (''sing-box exited before proxy was ready: '' @ status))
      | None \<Rightarrow>
          let ready = map (\<lambda>i. ready ! i \<or> pr_accepts r i) [0..<length ready] in
          if list_all id ready then Some (Inr ())
          else if pr_timed_out r
          then Some (Inl (''sing-box local proxy did not become ready within ''
                          @ show_nat timeout_ms @ '' ms''))
          else wait_for_local_proxies timeout_ms ready rounds)"

subsection \<open>Nothing is lost or tested twice in a scan\<close>

lemma is_cancelled_frame:
  "sn_prepared (snd (is_cancelled policy s)) = sn_prepared s"
  "sn_ranked (snd (is_cancelled policy s)) = sn_ranked s"
  "sn_sizer (snd (is_cancelled policy s)) = sn_sizer s"
  "sn_cancel (snd (is_cancelled policy s)) = sn_cancel s"
  by (simp_all add: is_cancelled_def)

lemma fill_wave_frame:
  "fill_wave policy slots s = (wave, s') \<Longrightarrow>
     concat (map snd wave) @ sn_prepared s' = sn_prepared s \<and> sn_ranked s' = sn_ranked s
     \<and> sn_sizer s' = sn_sizer s \<and> sn_cancel s' = sn_cancel s"
proof (induction slots arbitrary: s wave s')
  case 0
  then show ?case by simp
next
  case (Suc slots)
  obtain c s1 where c: "is_cancelled policy s = (c, s1)" by fastforce
  note frame = is_cancelled_frame[of policy s, unfolded c, simplified]
  show ?case
  proof (cases "sn_prepared s1 = [] \<or> c")
    case True
    then show ?thesis using Suc.prems c frame by (auto simp: Let_def)
  next
    case False
    let ?len = "next_len (sn_sizer s1) (length (sn_prepared s1))"
    obtain wave' where w: "fill_wave policy slots (s1\<lparr>sn_prepared := drop ?len (sn_prepared s1),
        sn_batch_index := sn_batch_index s1 + 1\<rparr>) = (wave', s')"
      and wave: "wave = (sn_batch_index s1 + 1, take ?len (sn_prepared s1)) # wave'"
      using Suc.prems c False by (auto simp: Let_def split: prod.splits)
    show ?thesis using Suc.IH[OF w] frame by (simp add: wave)
  qed
qed

definition wave_ok :: "wave_env \<Rightarrow> bool" where
  "wave_ok wv \<longleftrightarrow> (\<forall>i k. env_ok (wv_attempt wv i k)) \<and> (\<forall>n. mset (wv_order wv n) = mset [0..<n])"

definition wave_undisturbed :: "probe_env \<Rightarrow> wave_env \<Rightarrow> bool" where
  "wave_undisturbed pe wv \<longleftrightarrow> sp_scan_all_configs (pe_policy pe)
     \<and> (\<forall>i k. undisturbed pe (wv_attempt wv i k) \<and> \<not> wv_cancelled wv i k) \<and> (\<forall>k. \<not> wv_flag wv k)"

lemma wave_outcomes_about:
  assumes ok: "\<forall>i k. env_ok (wv_attempt wv i k)"
  shows "\<exists>taken missing. prefix taken order
     \<and> about (sn_ranked (wave_outcomes pe wv wave order k s)) + missing
         = about (sn_ranked s) + mset (concat (map (\<lambda>i. map pa_candidate (snd (wave ! i))) taken))
     \<and> sn_prepared (wave_outcomes pe wv wave order k s) = sn_prepared s
     \<and> (sizer_ok (sn_sizer s) \<longrightarrow> sizer_ok (sn_sizer (wave_outcomes pe wv wave order k s)))
     \<and> sn_loads (wave_outcomes pe wv wave order k s) = sn_loads s
     \<and> (wave_undisturbed pe wv \<and> \<not> sn_cancel s \<longrightarrow>
          taken = order \<and> missing = {#} \<and> \<not> sn_cancel (wave_outcomes pe wv wave order k s))"
proof (induction order arbitrary: k s)
  case Nil
  then show ?case by simp
next
  case (Cons i order)
  obtain bi batch where b: "wave ! i = (bi, batch)" by fastforce
  obtain found stats st stopped ev where r: "probe_active_batch_with_fallback pe (wv_attempt wv i)
      (wv_cancelled wv i) bi batch (probe_stop_state_new batch (pe_policy pe)) [] = (found, stats, st, stopped, ev)"
    by (metis prod.collapse)
  have env: "env_ok (wv_attempt wv i k)" for k using ok by blast
  have one: "about found \<subseteq># mains batch"
    "(\<forall>k. undisturbed pe (wv_attempt wv i k) \<and> \<not> wv_cancelled wv i k) \<longrightarrow> about found = mains batch \<and> \<not> stopped"
    using fallback_loop_about[OF env r[unfolded probe_active_batch_with_fallback_def]] by simp_all
  define s1 where "s1 = s\<lparr>sn_sizer := observe stats (sn_sizer s), sn_ranked := sn_ranked s @ found,
      sn_cancel := sn_cancel s \<or> stopped \<or> wv_flag wv (2 * k)\<rparr>"
  obtain reason stop ev2 where q: "probe_stop_reason (sn_ranked s1) (pe_policy pe) (sn_stop s1) (pe_progress pe)
      = (reason, stop, ev2)" by (metis prod.collapse)
  obtain miss where miss: "about found + miss = mains batch" using one(1) by (metis mset_subset_eq_exists_conv)
  have undisturbed: "wave_undisturbed pe wv \<and> \<not> sn_cancel s \<longrightarrow> miss = {#} \<and> \<not> sn_cancel s1 \<and> reason = None \<and> \<not> wv_flag wv (2 * k + 1)"
    using one(2) miss q no_stop_when_scanning(1) by (auto simp: wave_undisturbed_def s1_def)
  show ?case
  proof (cases "sn_cancel s1 \<or> reason \<noteq> None \<or> wv_flag wv (2 * k + 1)")
    case True
    then have out: "sn_ranked (wave_outcomes pe wv wave (i # order) k s) = sn_ranked s @ found"
      "sn_prepared (wave_outcomes pe wv wave (i # order) k s) = sn_prepared s"
      "sn_sizer (wave_outcomes pe wv wave (i # order) k s) = observe stats (sn_sizer s)"
      "sn_loads (wave_outcomes pe wv wave (i # order) k s) = sn_loads s"
      using b r q s1_def by (auto simp: Let_def)
    have "\<not> (wave_undisturbed pe wv \<and> \<not> sn_cancel s)" using True undisturbed by blast
    then show ?thesis
      unfolding out using miss by (intro exI[of _ "[i]"] exI[of _ miss])
        (auto simp: b mains_def sizer_ok_observe simp del: mset_map)
  next
    case False
    then have out: "wave_outcomes pe wv wave (i # order) k s = wave_outcomes pe wv wave order (Suc k) (s1\<lparr>sn_stop := stop\<rparr>)"
      using b r q s1_def by (auto simp: Let_def)
    from Cons.IH[of "Suc k" "s1\<lparr>sn_stop := stop\<rparr>"] obtain taken missing where ih: "prefix taken order"
      "about (sn_ranked (wave_outcomes pe wv wave (i # order) k s)) + missing
         = about (sn_ranked s1) + mset (concat (map (\<lambda>i. map pa_candidate (snd (wave ! i))) taken))"
      "sn_prepared (wave_outcomes pe wv wave (i # order) k s) = sn_prepared s"
      "sizer_ok (sn_sizer s1) \<longrightarrow> sizer_ok (sn_sizer (wave_outcomes pe wv wave (i # order) k s))"
      "sn_loads (wave_outcomes pe wv wave (i # order) k s) = sn_loads s"
      "wave_undisturbed pe wv \<and> \<not> sn_cancel s1 \<longrightarrow>
          taken = order \<and> missing = {#} \<and> \<not> sn_cancel (wave_outcomes pe wv wave (i # order) k s)"
      unfolding out by (auto simp: s1_def)
    have "about (sn_ranked (wave_outcomes pe wv wave (i # order) k s)) + (missing + miss)
        = about (sn_ranked s) + (about found + miss)
          + mset (concat (map (\<lambda>i. map pa_candidate (snd (wave ! i))) taken))"
      using ih(2) by (simp add: s1_def ac_simps)
    then have "about (sn_ranked (wave_outcomes pe wv wave (i # order) k s)) + (missing + miss)
        = about (sn_ranked s) + mset (concat (map (\<lambda>i. map pa_candidate (snd (wave ! i))) (i # taken)))"
      unfolding miss by (simp add: b mains_def ac_simps)
    then show ?thesis
      using ih undisturbed by (intro exI[of _ "i # taken"] exI[of _ "missing + miss"])
        (auto simp: s1_def sizer_ok_observe simp del: wave_outcomes.simps)
  qed
qed

end
