(* ===== verification/Whole.thy ===== *)
theory Whole
  imports Scan
begin

text \<open>
  Properties of a whole scan (the definitions are in the theory of scans): it ends, every candidate is
  accounted for, and what the pre-filter and the speed tests may and may not change.
\<close>

subsection \<open>Nothing is lost or tested twice\<close>

lemma map_upt_nth: "map (\<lambda>i. f (ws ! i)) [0..<length ws] = map f ws"
  by (rule nth_equalityI) simp_all

lemma mset_concat_permuted:
  assumes "mset order = mset [0..<length ws]"
  shows "mset (concat (map (\<lambda>i. f (ws ! i)) order)) = mset (concat (map f ws))"
proof -
  have "mset (concat (map (\<lambda>i. f (ws ! i)) order)) = \<Sum>\<^sub># (image_mset (\<lambda>i. mset (f (ws ! i))) (mset order))"
    by (simp add: mset_concat sum_mset_sum_list[symmetric] image_mset.compositionality o_def)
  also have "\<dots> = mset (concat (map (\<lambda>i. f (ws ! i)) [0..<length ws]))"
    unfolding assms by (simp add: mset_concat sum_mset_sum_list[symmetric] image_mset.compositionality o_def)
  finally show ?thesis by (simp add: map_upt_nth)
qed

lemma mset_concat_prefix:
  "prefix taken order \<Longrightarrow> mset (concat (map g taken)) \<subseteq># mset (concat (map g order))"
  by (auto simp: prefix_def)

text \<open>What is known of the candidates at a point of a scan: those with a result, and those waiting.\<close>

definition in_flight :: "scan_state \<Rightarrow> candidate multiset" where
  "in_flight s = about (sn_ranked s) + mains (sn_prepared s)"

definition scan_undisturbed :: "probe_env \<Rightarrow> scan_env \<Rightarrow> bool" where
  "scan_undisturbed pe se \<longleftrightarrow> (\<forall>n. wave_undisturbed pe (se_wave se n) \<and> \<not> cancel_flag_set (pe_policy pe) n)"

definition scan_env_ok :: "scan_env \<Rightarrow> bool" where
  "scan_env_ok se \<longleftrightarrow> (\<forall>n. wave_ok (se_wave se n))"

lemma scan_turn_cases:
  assumes "scan_turn pe se s = (go, s')"
  obtains (stopped) "\<not> go" "sn_prepared s = [] \<or> sn_cancel s" "s' = s"
    | (cancelled) "\<not> go" "\<not> sn_cancel s" "cancel_flag_set (pe_policy pe) (sn_loads s)"
        "sn_prepared s' = sn_prepared s" "sn_ranked s' = sn_ranked s"
    | (wave) wave s1 s2 where "sn_prepared s \<noteq> []" "\<not> sn_cancel s"
        "\<not> cancel_flag_set (pe_policy pe) (sn_loads s)"
        "fill_wave (pe_policy pe) (active_probe_process_concurrency (se_parallelism se)
           (pc_process_concurrency (pe_config pe))) (s\<lparr>sn_loads := Suc (sn_loads s)\<rparr>) = (wave, s1)"
        "s2 = wave_outcomes pe (se_wave se (sn_waves s1)) wave
           (wv_order (se_wave se (sn_waves s1)) (length wave)) 0 (s1\<lparr>sn_waves := Suc (sn_waves s1)\<rparr>)"
        "sn_ranked s' = sn_ranked s2" "sn_prepared s' = sn_prepared s2" "sn_sizer s' = sn_sizer s2"
        "sn_loads s' = sn_loads s2" "go \<Longrightarrow> sn_cancel s' = sn_cancel s2"
        "sp_scan_all_configs (pe_policy pe) \<Longrightarrow> go"
proof -
  show thesis
  proof (cases "sn_prepared s = [] \<or> sn_cancel s \<or> cancel_flag_set (pe_policy pe) (sn_loads s)")
    case True
    then show thesis
      using assms stopped cancelled
      by (auto simp: scan_turn_def is_cancelled_def Let_def split: if_splits)
  next
    case False
    let ?s0 = "s\<lparr>sn_loads := Suc (sn_loads s)\<rparr>"
    obtain wave s1 where w: "fill_wave (pe_policy pe) (active_probe_process_concurrency (se_parallelism se)
           (pc_process_concurrency (pe_config pe))) ?s0 = (wave, s1)" by fastforce
    define s2 where "s2 = wave_outcomes pe (se_wave se (sn_waves s1)) wave
           (wv_order (se_wave se (sn_waves s1)) (length wave)) 0 (s1\<lparr>sn_waves := Suc (sn_waves s1)\<rparr>)"
    let ?s3 = "s2\<lparr>sn_stop := update_stability_search_after_batch
                      (wave_previous_working wave (pe_policy pe)) (pe_policy pe) (sn_stop s2)\<rparr>"
    obtain reason stop ev where q: "probe_stop_reason (sn_ranked ?s3) (pe_policy pe) (sn_stop ?s3)
        (pe_progress pe) = (reason, stop, ev)" by (metis prod.collapse)
    have "(go, s') = (if reason \<noteq> None then (False, ?s3\<lparr>sn_stop := stop, sn_cancel := True\<rparr>)
        else (True, ?s3\<lparr>sn_stop := stop\<rparr>))"
      using assms False w s2_def q by (simp add: scan_turn_def is_cancelled_def Let_def split: if_splits)
    then show thesis
      using wave[OF _ _ _ w s2_def] False q no_stop_when_scanning(1)[of "pe_policy pe" "sn_ranked ?s3" "sn_stop ?s3" "pe_progress pe"]
      by (cases "reason = None") auto
  qed
qed

lemma scan_turn_in_flight:
  assumes ok: "scan_env_ok se" and turn: "scan_turn pe se s = (go, s')"
  shows "in_flight s' \<subseteq># in_flight s
     \<and> (scan_undisturbed pe se \<and> \<not> sn_cancel s \<longrightarrow>
          in_flight s' = in_flight s \<and> \<not> sn_cancel s' \<and> (\<not> go \<longrightarrow> sn_prepared s' = []))"
  using turn
proof (cases rule: scan_turn_cases)
  case stopped
  then show ?thesis by auto
next
  case cancelled
  then show ?thesis by (auto simp: in_flight_def scan_undisturbed_def)
next
  case (wave wave s1 s2)
  let ?wv = "se_wave se (sn_waves s1)" and ?order = "wv_order (se_wave se (sn_waves s1)) (length wave)"
  note frame = fill_wave_frame[OF wave(4), simplified]
  have env: "\<forall>i k. env_ok (wv_attempt ?wv i k)" and order: "mset ?order = mset [0..<length wave]"
    using ok by (auto simp: scan_env_ok_def wave_ok_def)
  let ?g = "\<lambda>i. map pa_candidate (snd (wave ! i))"
  from wave_outcomes_about[OF env, of ?order pe wave 0 "s1\<lparr>sn_waves := Suc (sn_waves s1)\<rparr>", folded wave(5)]
  obtain taken missing where out: "prefix taken ?order"
     "about (sn_ranked s2) + missing = about (sn_ranked s) + mset (concat (map ?g taken))"
     "sn_prepared s2 = sn_prepared s1"
     "wave_undisturbed pe ?wv \<and> \<not> sn_cancel s \<longrightarrow> taken = ?order \<and> missing = {#} \<and> \<not> sn_cancel s2"
    using frame by auto
  have "mset (concat (map ?g ?order)) = mset (concat (map (\<lambda>x. map pa_candidate (snd x)) wave))"
    by (rule mset_concat_permuted[OF order])
  also have "\<dots> = mains (concat (map snd wave))"
    by (simp add: mains_def map_concat o_def del: mset_map)
  finally have all: "mset (concat (map ?g ?order)) = mains (concat (map snd wave))" .
  have split: "mains (sn_prepared s) = mains (concat (map snd wave)) + mains (sn_prepared s1)"
    using frame by (metis mains_simps(3))
  have "about (sn_ranked s2) \<subseteq># about (sn_ranked s) + mset (concat (map ?g taken))"
    using out(2) by (metis mset_subset_eq_add_left)
  moreover have "mset (concat (map ?g taken)) \<subseteq># mains (concat (map snd wave))"
    using mset_concat_prefix[OF out(1)] all by metis
  ultimately have "about (sn_ranked s2) \<subseteq># about (sn_ranked s) + mains (concat (map snd wave))"
    by (meson subset_mset.add_left_mono subset_mset.order_trans)
  then have "in_flight s' \<subseteq># in_flight s"
    unfolding in_flight_def using split wave(6,7) out(3) by (simp add: add.assoc)
  moreover have "scan_undisturbed pe se \<and> \<not> sn_cancel s \<longrightarrow>
          in_flight s' = in_flight s \<and> \<not> sn_cancel s' \<and> (\<not> go \<longrightarrow> sn_prepared s' = [])"
  proof
    assume u: "scan_undisturbed pe se \<and> \<not> sn_cancel s"
    then have "wave_undisturbed pe ?wv" and go: "go"
      using wave(11) by (auto simp: scan_undisturbed_def wave_undisturbed_def)
    then have "taken = ?order" "missing = {#}" "\<not> sn_cancel s2" using out(4) u by auto
    then show "in_flight s' = in_flight s \<and> \<not> sn_cancel s' \<and> (\<not> go \<longrightarrow> sn_prepared s' = [])"
      unfolding in_flight_def using split wave(6,7,10) out(2,3) all go by (simp add: add.assoc)
  qed
  ultimately show ?thesis by blast
qed

lemmas scan_loop_induct = scan_loop.raw_induct[rotated, consumes 1, case_names turn]

lemma scan_loop_in_flight:
  "scan_loop pe se s = Some s' \<Longrightarrow> scan_env_ok se \<longrightarrow> in_flight s' \<subseteq># in_flight s
     \<and> (scan_undisturbed pe se \<and> \<not> sn_cancel s \<longrightarrow>
          in_flight s' = in_flight s \<and> sn_prepared s' = [])"
proof (induction rule: scan_loop_induct)
  case (turn loop pe se s r)
  obtain go s1 where t: "scan_turn pe se s = (go, s1)" by fastforce
  show ?case
  proof (cases go)
    case True
    then have "loop pe se s1 = Some r" using turn(2) t by simp
    from turn(1)[OF this] show ?thesis
      using scan_turn_in_flight[OF _ t] by (metis subset_mset.order_trans)
  next
    case False
    then show ?thesis using turn(2) t scan_turn_in_flight[OF _ t] by auto
  qed
qed

subsection \<open>A scan ends\<close>

lemma fill_wave_loads:
  "fill_wave policy slots s = (wave, s') \<Longrightarrow> sn_loads s \<le> sn_loads s'"
proof (induction slots arbitrary: s wave s')
  case 0
  then show ?case by simp
next
  case (Suc slots)
  obtain c s1 where c: "is_cancelled policy s = (c, s1)" by fastforce
  then have "sn_loads s \<le> sn_loads s1" by (auto simp: is_cancelled_def split: if_splits)
  then show ?case
    using Suc.prems Suc.IH c by (fastforce simp: Let_def split: prod.splits if_splits)
qed

lemma fill_wave_progress:
  assumes "fill_wave policy (Suc slots) s = (wave, s')"
    and "sn_prepared s \<noteq> []" and "\<not> sn_cancel s" and "sizer_ok (sn_sizer s)"
  shows "length (sn_prepared s') < length (sn_prepared s)
     \<or> sn_loads s < sn_loads s' \<and> cancel_flag_set policy (sn_loads s)"
proof (cases "cancel_flag_set policy (sn_loads s)")
  case True
  then show ?thesis using assms by (auto simp: Let_def is_cancelled_def)
next
  case False
  let ?len = "next_len (sn_sizer s) (length (sn_prepared s))"
  obtain wave' where w: "fill_wave policy slots (s\<lparr>sn_loads := Suc (sn_loads s),
      sn_prepared := drop ?len (sn_prepared s), sn_batch_index := sn_batch_index s + 1\<rparr>) = (wave', s')"
    using assms(1-3) False by (auto simp: Let_def is_cancelled_def split: prod.splits)
  obtain left where "length (sn_prepared s) = Suc left" using assms(2) by (cases "sn_prepared s") auto
  then have "1 \<le> ?len" "0 < length (sn_prepared s)" using next_len_bounds[OF assms(4), of left] by simp_all
  then have "length (drop ?len (sn_prepared s)) < length (sn_prepared s)" by simp
  moreover have "length (concat (map snd wave') @ sn_prepared s') = length (drop ?len (sn_prepared s))"
    using fill_wave_frame[OF w] by simp
  ultimately show ?thesis by simp
qed

definition scan_measure :: "probe_stop_policy \<Rightarrow> scan_state \<Rightarrow> nat" where
  "scan_measure policy s =
     2 * length (sn_prepared s) + (if cancel_flag_set policy (sn_loads s) then 0 else 1)"

lemma scan_turn_progress:
  assumes ok: "scan_env_ok se" and sizer: "sizer_ok (sn_sizer s)"
    and stays: "\<And>n. cancel_flag_set (pe_policy pe) n \<Longrightarrow> cancel_flag_set (pe_policy pe) (Suc n)"
    and turn: "scan_turn pe se s = (True, s')"
  shows "scan_measure (pe_policy pe) s' < scan_measure (pe_policy pe) s \<and> sizer_ok (sn_sizer s')"
  using turn
proof (cases rule: scan_turn_cases)
  case (wave wave s1 s2)
  let ?wv = "se_wave se (sn_waves s1)" and ?order = "wv_order (se_wave se (sn_waves s1)) (length wave)"
  have env: "\<forall>i k. env_ok (wv_attempt ?wv i k)" using ok by (auto simp: scan_env_ok_def wave_ok_def)
  note frame = fill_wave_frame[OF wave(4), simplified]
  have "sizer_ok (sn_sizer s1)" using frame sizer by simp
  then have s2: "sn_prepared s2 = sn_prepared s1" "sizer_ok (sn_sizer s2)" "sn_loads s2 = sn_loads s1"
    using wave_outcomes_about[OF env, of ?order pe wave 0 "s1\<lparr>sn_waves := Suc (sn_waves s1)\<rparr>", folded wave(5)]
    by auto
  obtain slots where slots: "active_probe_process_concurrency (se_parallelism se)
      (pc_process_concurrency (pe_config pe)) = Suc slots"
    using process_concurrency_bounds[of "se_parallelism se" "pc_process_concurrency (pe_config pe)"]
    by (cases "active_probe_process_concurrency (se_parallelism se) (pc_process_concurrency (pe_config pe))") auto
  have later: "cancel_flag_set (pe_policy pe) n \<Longrightarrow> n \<le> m \<Longrightarrow> cancel_flag_set (pe_policy pe) m" for n m
    using stays by (induction m) (auto simp: le_Suc_eq)
  from fill_wave_progress[OF wave(4)[unfolded slots]] wave(1,2) sizer
  have "length (sn_prepared s1) < length (sn_prepared s) \<or> cancel_flag_set (pe_policy pe) (sn_loads s1)"
    using later[of "Suc (sn_loads s)" "sn_loads s1"] by auto
  moreover have "length (sn_prepared s1) \<le> length (sn_prepared s)"
    using arg_cong[OF frame[THEN conjunct1], of length] by simp
  ultimately show ?thesis
    using wave(3) s2 wave(7-9) by (auto simp: scan_measure_def)
qed simp_all

lemma scan_loop_ends:
  assumes ok: "scan_env_ok se"
    and stays: "\<And>n. cancel_flag_set (pe_policy pe) n \<Longrightarrow> cancel_flag_set (pe_policy pe) (Suc n)"
    and "sizer_ok (sn_sizer s)"
  shows "\<exists>s'. scan_loop pe se s = Some s'"
  using assms(3)
proof (induction "scan_measure (pe_policy pe) s" arbitrary: s rule: less_induct)
  case less
  obtain go s1 where t: "scan_turn pe se s = (go, s1)" by fastforce
  show ?case
  proof (cases go)
    case True
    then show ?thesis
      using less scan_turn_progress[OF ok less.prems stays] t by (simp add: scan_loop.simps)
  next
    case False
    then show ?thesis using t by (simp add: scan_loop.simps)
  qed
qed

subsection \<open>Speed tests\<close>

lemma fold_list_update:
  "distinct js \<Longrightarrow> set js \<subseteq> {..<length rs} \<Longrightarrow>
     length (fold (\<lambda>i xs. xs[i := g i (xs ! i)]) js rs) = length rs
   \<and> (\<forall>i<length rs. fold (\<lambda>i xs. xs[i := g i (xs ! i)]) js rs ! i
         = (if i \<in> set js then g i (rs ! i) else rs ! i))"
proof (induction js arbitrary: rs)
  case Nil
  then show ?case by simp
next
  case (Cons j js)
  have "set js \<subseteq> {..<length (rs[j := g j (rs ! j)])}" "distinct js" using Cons.prems by auto
  from Cons.IH[OF this(2,1)] Cons.prems show ?case by (auto simp: nth_list_update)
qed

lemma speedtest_targets_spec:
  "distinct (speedtest_targets policy ranked)
   \<and> (\<forall>i\<in>set (speedtest_targets policy ranked). i < length ranked \<and> r_reachable (ranked ! i))
   \<and> length (speedtest_targets policy ranked) = min (length (filter r_reachable ranked)) (max (sp_top_n policy) 1)"
proof -
  let ?indices = "filter (\<lambda>i. r_reachable (ranked ! i)) [0..<length ranked]"
  let ?sorted = "sort_by (\<lambda>left right. compare_ranked (ranked ! left) (ranked ! right)) ?indices"
  have "distinct ?sorted" by (metis distinct_filter distinct_upt mset_eq_imp_distinct_iff mset_sort_by)
  moreover have "set ?sorted = set ?indices" by simp
  moreover have "map ((!) ranked) ?indices = filter r_reachable (map ((!) ranked) [0..<length ranked])"
    by (simp add: filter_map o_def)
  then have "length ?indices = length (filter r_reachable ranked)" by (metis length_map map_nth)
  ultimately show ?thesis
    by (auto simp: speedtest_targets_def Let_def speedtest_probe_limit_def dest: in_set_takeD)
qed

lemma speedtest_targets_best:
  assumes "list_all no_nan ranked" and "i \<in> set (speedtest_targets policy ranked)"
    and "j < length ranked" and "r_reachable (ranked ! j)" and "j \<notin> set (speedtest_targets policy ranked)"
  shows "compare_ranked (ranked ! i) (ranked ! j) \<noteq> Greater"
proof -
  let ?c = "\<lambda>left right. compare_ranked (ranked ! left) (ranked ! right)"
  let ?indices = "filter (\<lambda>i. r_reachable (ranked ! i)) [0..<length ranked]"
  define n where "n = speedtest_probe_limit (length ?indices) policy"
  have "comparator ?c (\<lambda>i. no_nan (ranked ! i))"
    by (rule comparator_image[OF ranked.comparator_axioms])
  moreover have "list_all (\<lambda>i. no_nan (ranked ! i)) ?indices" using assms(1) by (auto simp: list_all_iff)
  ultimately have "sorted_wrt (\<lambda>a b. ?c a b \<noteq> Greater) (sort_by ?c ?indices)"
    by (rule comparator.sorted_sort_by)
  then have "sorted_wrt (\<lambda>a b. ?c a b \<noteq> Greater)
      (take n (sort_by ?c ?indices) @ drop n (sort_by ?c ?indices))" by simp
  then have "\<forall>a\<in>set (take n (sort_by ?c ?indices)). \<forall>b\<in>set (drop n (sort_by ?c ?indices)). ?c a b \<noteq> Greater"
    unfolding sorted_wrt_append by blast
  moreover have taken: "set (speedtest_targets policy ranked) = set (take n (sort_by ?c ?indices))"
    by (simp add: speedtest_targets_def n_def Let_def)
  moreover have "j \<in> set (sort_by ?c ?indices)" using assms(3,4) by simp
  then have "j \<in> set (drop n (sort_by ?c ?indices))"
    using assms(5) unfolding taken by (metis UnE append_take_drop_id set_append)
  ultimately show ?thesis using assms(2) by blast
qed

lemma enrich_result:
  "length (enrich_top_speedtests measured cfg policy ranked) = length ranked"
  "i < length ranked \<Longrightarrow> enrich_top_speedtests measured cfg policy ranked ! i =
     (case filter_opt (\<lambda>u. u \<noteq> []) (map_option trim (pc_download_url cfg)) of
        None \<Rightarrow> ranked ! i
      | Some url \<Rightarrow> if i \<in> set (speedtest_targets policy ranked)
          then set_speed (measured url (r_uri (ranked ! i))) (ranked ! i) else ranked ! i)"
proof -
  have "set (speedtest_targets policy ranked) \<subseteq> {..<length ranked}" "distinct (speedtest_targets policy ranked)"
    using speedtest_targets_spec[of policy ranked] by auto
  note set_all = fold_list_update[OF this(2,1), where g = "\<lambda>i r. set_speed (measured url (r_uri (ranked ! i))) r" for url]
  show "length (enrich_top_speedtests measured cfg policy ranked) = length ranked"
    using set_all by (simp add: enrich_top_speedtests_def split: option.splits)
  show "i < length ranked \<Longrightarrow> enrich_top_speedtests measured cfg policy ranked ! i =
     (case filter_opt (\<lambda>u. u \<noteq> []) (map_option trim (pc_download_url cfg)) of
        None \<Rightarrow> ranked ! i
      | Some url \<Rightarrow> if i \<in> set (speedtest_targets policy ranked)
          then set_speed (measured url (r_uri (ranked ! i))) (ranked ! i) else ranked ! i)"
    using set_all[THEN conjunct2, rule_format, of i]
    by (cases "filter_opt (\<lambda>u. u \<noteq> []) (map_option trim (pc_download_url cfg))")
      (simp_all add: enrich_top_speedtests_def del: filter_opt_Some)
qed

lemma set_speed_candidate [simp]: "candidate_of_ranked (set_speed m r) = candidate_of_ranked r"
  by (simp add: set_speed_def candidate_of_ranked_def split: option.splits)

lemma enrich_candidates:
  "map candidate_of_ranked (enrich_top_speedtests measured cfg policy ranked) = map candidate_of_ranked ranked"
  by (rule nth_equalityI) (simp_all add: enrich_result split: option.splits)

text \<open>
  The speed tests touch exactly the best \<open>top_n\<close> (at least one) reachable results, and of those
  only the two download fields; no result is added, dropped or moved, and without a download
  address nothing changes at all.
\<close>

lemma speedtests_touch_the_best:
  assumes "list_all no_nan ranked"
  shows "let targets = speedtest_targets policy ranked;
             out = enrich_top_speedtests measured cfg policy ranked
         in length out = length ranked
          \<and> length targets = min (length (filter r_reachable ranked)) (max (sp_top_n policy) 1)
          \<and> (\<forall>i<length ranked. \<forall>j<length ranked. i \<in> set targets \<and> j \<notin> set targets \<and> r_reachable (ranked ! j) \<longrightarrow>
               r_reachable (ranked ! i) \<and> compare_ranked (ranked ! i) (ranked ! j) \<noteq> Greater)
          \<and> (\<forall>i<length ranked. out ! i =
               (case filter_opt (\<lambda>u. u \<noteq> []) (map_option trim (pc_download_url cfg)) of
                  None \<Rightarrow> ranked ! i
                | Some url \<Rightarrow> if i \<in> set targets
                    then set_speed (measured url (r_uri (ranked ! i))) (ranked ! i) else ranked ! i))"
proof -
  have "\<forall>i<length ranked. \<forall>j<length ranked. i \<in> set (speedtest_targets policy ranked)
      \<and> j \<notin> set (speedtest_targets policy ranked) \<and> r_reachable (ranked ! j) \<longrightarrow>
      r_reachable (ranked ! i) \<and> compare_ranked (ranked ! i) (ranked ! j) \<noteq> Greater"
    using speedtest_targets_spec[of policy ranked] speedtest_targets_best[OF assms] by blast
  with speedtest_targets_spec[of policy ranked] show ?thesis
    by (simp add: Let_def enrich_result)
qed

lemma speedtests_touch_the_best_example:
  "\<not> (let ranked = [sample_ranked ''a'' True 30, sample_ranked ''b'' True 20] in
        speedtest_targets (ping_policy 1) ranked = [0])
   \<and> (let ranked = [sample_ranked ''a'' True 30, sample_ranked ''b'' True 20] in
       length (enrich_top_speedtests (\<lambda>_ _. None) probe_config_default (ping_policy 1) ranked) = 2)"
proof -
  let ?ranked = "[sample_ranked ''a'' True 30, sample_ranked ''b'' True 20]"
  have "list_all no_nan ?ranked" by (simp add: no_nan_def sample_ranked_def)
  note spec = speedtests_touch_the_best[OF this, where policy = "ping_policy 1"
      and measured = "\<lambda>_ _. None" and cfg = probe_config_default, unfolded Let_def]
  have "compare_ranked (?ranked ! 0) (?ranked ! 1) = Greater" by code_simp
  moreover have "r_reachable (?ranked ! 1)" by (simp add: sample_ranked_def)
  ultimately have "speedtest_targets (ping_policy 1) ?ranked \<noteq> [0]"
    using spec[THEN conjunct2, THEN conjunct2, THEN conjunct1, rule_format, of 0 1] by auto
  with spec show ?thesis by (simp add: Let_def)
qed

subsection \<open>Every candidate of a scan is accounted for\<close>

definition alias_candidates :: "prepared_active_candidate list \<Rightarrow> candidate multiset" where
  "alias_candidates es = sum_list (map (\<lambda>e. mset (pa_aliases e)) es)"

lemma entry_candidates_split: "entry_candidates es = mains es + alias_candidates es"
  by (induction es) (simp_all add: alias_candidates_def)

lemma about_enrich [simp]: "about (enrich_top_speedtests m cfg policy ranked) = about ranked"
  unfolding about_def by (simp only: enrich_candidates)

definition scan_preparation :: "probe_env \<Rightarrow> scan_env \<Rightarrow> candidate list \<Rightarrow> active_preparation" where
  "scan_preparation pe se candidates =
     prepare_active_candidates (se_outbound_of se) (se_outbound_key se) (se_cpus se) candidates (pe_policy pe)"

lemma scan_start_simps [simp]:
  "sn_prepared (scan_start pe se loads cs) = ap_prepared (scan_preparation pe se cs)"
  "sn_ranked (scan_start pe se loads cs) = ap_ranked (scan_preparation pe se cs)"
  "sizer_ok (sn_sizer (scan_start pe se loads cs))"
  "\<not> sn_cancel (scan_start pe se loads cs)"
  "sn_loads (scan_start pe se loads cs) = loads"
  by (simp_all add: scan_start_def scan_preparation_def Let_def sizer_ok_new)

lemma preparation_total:
  "about (ap_ranked (scan_preparation pe se cs)) + mains (ap_prepared (scan_preparation pe se cs))
     + alias_candidates (ap_prepared (scan_preparation pe se cs)) = mset cs"
  using preparation_accounts[of "se_outbound_of se" "se_outbound_key se" "se_cpus se" cs "pe_policy pe"]
  by (simp add: Let_def scan_preparation_def entry_candidates_split ac_simps)

text \<open>
  C3: A scan always ends when the shared flag, once set, stays set.  Its results are about candidates of
  the input, each at most once; and when nothing cancels it and it may not stop early, every
  candidate has a result of its own or is an alias of an entry with the same outbound.
\<close>

theorem scan_accounts_for_every_candidate:
  assumes "scan_env_ok se"
    and "\<And>n. cancel_flag_set (pe_policy pe) n \<Longrightarrow> cancel_flag_set (pe_policy pe) (Suc n)"
  shows "\<exists>out. probe_active_batched pe se loads candidates = Some out
     \<and> about out \<subseteq># mset candidates
     \<and> (scan_undisturbed pe se \<longrightarrow>
          about out + alias_candidates (ap_prepared (scan_preparation pe se candidates)) = mset candidates)"
proof -
  let ?s = "scan_start pe se loads candidates"
  obtain s' where s': "scan_loop pe se ?s = Some s'"
    using scan_loop_ends[OF assms, of ?s] by auto
  have all: "in_flight ?s + alias_candidates (ap_prepared (scan_preparation pe se candidates)) = mset candidates"
    using preparation_total by (simp add: in_flight_def)
  note ended = scan_loop_in_flight[OF s', rule_format, OF assms(1)]
  have "about (sn_ranked s') \<subseteq># in_flight s'" by (simp add: in_flight_def)
  moreover have "in_flight ?s \<subseteq># mset candidates" using all by (metis mset_subset_eq_add_left)
  ultimately have sub: "about (sn_ranked s') \<subseteq># mset candidates"
    using ended by (meson subset_mset.order_trans)
  have "about (sn_ranked s') = in_flight ?s" if "scan_undisturbed pe se"
  proof -
    have "in_flight s' = in_flight ?s" "sn_prepared s' = []" using ended that by simp_all
    then show ?thesis by (simp add: in_flight_def)
  qed
  with sub all show ?thesis by (simp add: probe_active_batched_def s')
qed

definition sample_wave :: wave_env where
  "sample_wave = \<lparr> wv_attempt = (\<lambda>_. sample_attempt), wv_cancelled = (\<lambda>_ _. False),
     wv_order = (\<lambda>n. rev [0..<n]), wv_flag = (\<lambda>_. False) \<rparr>"

definition sample_scan :: scan_env where
  "sample_scan = \<lparr> se_wave = (\<lambda>_. sample_wave), se_parallelism = 4, se_measure = (\<lambda>_ _. None),
     se_outbound_of = (\<lambda>uri. if uri = '''' then Inl ''empty'' else Inr (json_obj [(''server'', JString uri)])),
     se_outbound_key = (\<lambda>j. case json_get j ''server'' of Some (JString s) \<Rightarrow> s | _ \<Rightarrow> ''''), se_cpus = 2 \<rparr>"

lemma sample_scan_ok: "scan_env_ok sample_scan"
  by (simp add: scan_env_ok_def wave_ok_def env_ok_def sample_scan_def sample_wave_def sample_attempt_def)

theorem scan_accounts_for_every_candidate_witness:
  "\<exists>out. probe_active_batched (sample_probe_env\<lparr>pe_policy := ping_policy 1\<rparr>) sample_scan 0
       [pa_candidate (sample_entry ''a''), pa_candidate (sample_entry ''b'')] = Some out
     \<and> about out \<subseteq># {#pa_candidate (sample_entry ''a''), pa_candidate (sample_entry ''b'')#}"
  using scan_accounts_for_every_candidate[OF sample_scan_ok, of "sample_probe_env\<lparr>pe_policy := ping_policy 1\<rparr>" 0
      "[pa_candidate (sample_entry ''a''), pa_candidate (sample_entry ''b'')]"]
  by (simp add: ping_policy_def cancel_flag_set_def sample_probe_env_def) blast

subsection \<open>The pre-filter's deadline\<close>

lemma prepare_chunk_failed: "\<forall>r\<in>set (snd (prepare_chunk f cs)). \<not> r_reachable r"
  by (induction cs) (auto simp: Let_def split: prod.splits sum.splits)

lemma preparation_failed: "\<forall>r\<in>set (ap_ranked (scan_preparation pe se cs)). \<not> r_reachable r"
  using prepare_chunk_failed
  by (auto simp: scan_preparation_def prepare_active_candidates_def Let_def split: prod.splits)

lemma enrich_reachable:
  "(\<forall>r\<in>set ranked. \<not> r_reachable r) \<Longrightarrow> enrich_top_speedtests m cfg policy ranked = ranked"
  using speedtest_targets_spec[of policy ranked]
  by (intro nth_equalityI) (auto simp: enrich_result split: option.splits)

lemma sweep_loop_dead:
  "sweep_loop policy t testable outcome order loads reachable dead = (reachable', dead', loads')
   \<Longrightarrow> \<forall>r\<in>set dead. \<not> r_reachable r \<Longrightarrow> \<forall>r\<in>set dead'. \<not> r_reachable r"
proof (induction order arbitrary: loads reachable dead)
  case Nil
  then show ?case by simp
next
  case (Cons i order)
  let ?r = "probe_tcp t (testable ! i) (outcome i)"
  let ?dead = "if r_reachable ?r then dead else dead @ [?r]"
  have "\<forall>r\<in>set ?dead. \<not> r_reachable r" using Cons.prems(2) by simp
  moreover have "dead' = ?dead \<or> sweep_loop policy t testable outcome order (Suc loads)
      (if r_reachable ?r then reachable @ [?r] else reachable) ?dead = (reachable', dead', loads')"
    using Cons.prems(1) by (auto simp: Let_def split: if_splits)
  ultimately show ?case using Cons.IH by blast
qed

lemma scan_cancelled_at_start:
  assumes "cancel_flag_set (pe_policy pe) loads"
  shows "probe_active_batched pe se loads cs = Some (ap_ranked (scan_preparation pe se cs))"
proof -
  have "\<exists>s'. scan_loop pe se (scan_start pe se loads cs) = Some s'
      \<and> sn_ranked s' = ap_ranked (scan_preparation pe se cs)"
    using assms by (simp add: scan_loop.simps scan_turn_def is_cancelled_def Let_def)
  then show ?thesis
    using enrich_reachable[OF preparation_failed] by (auto simp: probe_active_batched_def)
qed

text \<open>
  When the deadline cuts the pre-filter's sweep short, the survivors found so far are not tested at
  all: the active probe sees the same flag before its first wave, and the scan returns only results that
  are not reachable.
\<close>

lemma prefilter_deadline_drops_survivors:
  assumes "\<And>n. cancel_flag_set (pe_policy pe) n \<Longrightarrow> cancel_flag_set (pe_policy pe) (Suc n)"
    and "\<exists>c\<in>set candidates. \<not> is_udp_protocol (c_protocol c)"
    and "sweep_loop (pe_policy pe) (min (pc_connect_timeout_ms (pe_config pe)) TCP_PREFILTER_CONNECT_TIMEOUT_MS)
           (filter (\<lambda>c. \<not> is_udp_protocol (c_protocol c)) candidates) outcome
           (order (length (filter (\<lambda>c. \<not> is_udp_protocol (c_protocol c)) candidates))) 0 [] []
         = (reachable, dead, loads)"
    and "cancel_flag_set (pe_policy pe) (loads - 1)"
  shows "\<exists>out. probe_active_with_tcp_prefilter pe se order outcome candidates = Some (out @ dead)
     \<and> (\<forall>r\<in>set (out @ dead). \<not> r_reachable r)"
proof -
  have "cancel_flag_set (pe_policy pe) loads"
    using assms(1)[OF assms(4)] assms(4) by (cases loads) simp_all
  note start = scan_cancelled_at_start[OF this]
  have "filter (\<lambda>c. \<not> is_udp_protocol (c_protocol c)) candidates \<noteq> []"
    using assms(2) by (auto simp: filter_empty_conv)
  then have "probe_active_with_tcp_prefilter pe se order outcome candidates
      = Some (ap_ranked (scan_preparation pe se (filter (\<lambda>c. is_udp_protocol (c_protocol c)) candidates
          @ candidates_from_ranked reachable)) @ dead)"
    using assms(3) start by (simp add: probe_active_with_tcp_prefilter_def Let_def)
  moreover have "\<forall>r\<in>set dead. \<not> r_reachable r" using sweep_loop_dead[OF assms(3)] by simp
  ultimately show ?thesis using preparation_failed by auto
qed

lemma prefilter_deadline_drops_survivors_example:
  "\<exists>out. probe_active_with_tcp_prefilter
       (sample_probe_env\<lparr>pe_policy := (ping_policy 1)\<lparr>sp_cancel_flag := Some (\<lambda>n. 1 \<le> n)\<rparr>\<rparr>) sample_scan
       (\<lambda>n. [0..<n]) (\<lambda>i. Connected 5 None)
       [pa_candidate (sample_entry ''a''), pa_candidate (sample_entry ''b''), pa_candidate (sample_entry ''c'')]
         = Some (out @ []) \<and> (\<forall>r\<in>set (out @ []). \<not> r_reachable r)"
proof (rule prefilter_deadline_drops_survivors[where loads = 2])
  have "\<not> is_udp_protocol ''vless''" by code_simp
  then have tcp: "\<not> is_udp_protocol (c_protocol (pa_candidate (sample_entry key)))" for key
    by (simp add: sample_entry_def sample_ranked_def candidate_of_ranked_def)
  let ?cs = "[pa_candidate (sample_entry ''a''), pa_candidate (sample_entry ''b''), pa_candidate (sample_entry ''c'')]"
  let ?policy = "pe_policy (sample_probe_env\<lparr>pe_policy := (ping_policy 1)\<lparr>sp_cancel_flag := Some (\<lambda>n. 1 \<le> n)\<rparr>\<rparr>)"
  show "\<exists>c\<in>set ?cs. \<not> is_udp_protocol (c_protocol c)" using tcp by simp
  show "sweep_loop ?policy (min (pc_connect_timeout_ms (pe_config
         (sample_probe_env\<lparr>pe_policy := (ping_policy 1)\<lparr>sp_cancel_flag := Some (\<lambda>n. 1 \<le> n)\<rparr>\<rparr>)))
         TCP_PREFILTER_CONNECT_TIMEOUT_MS)
       (filter (\<lambda>c. \<not> is_udp_protocol (c_protocol c)) ?cs) (\<lambda>i. Connected 5 None)
       [0..<length (filter (\<lambda>c. \<not> is_udp_protocol (c_protocol c)) ?cs)] 0 [] []
     = (map (\<lambda>i. probe_tcp (min (pc_connect_timeout_ms (pe_config sample_probe_env)) TCP_PREFILTER_CONNECT_TIMEOUT_MS)
          (?cs ! i) (Connected 5 None)) [0, 1], [], 2)"
    using tcp by (simp add: cancel_flag_set_def Let_def upt_rec probe_tcp_def)
qed (simp_all add: cancel_flag_set_def)

end
