(* ===== verification/Proxy.thy ===== *)
theory Proxy
  imports Outbound Config
begin

text \<open>
  The persistent proxy (\<open>src/proxy.rs\<close>): the sing-box configuration it runs, its state, and
  \<open>update\<close>, \<open>start_with_config\<close>, \<open>is_process_alive\<close>, \<open>health_check\<close>, \<open>failover\<close>,
  \<open>stop\<close> and \<open>snapshot\<close>.  Every operation runs under the one mutex the program keeps the proxy
  in, so an operation is a function on its state.

  The outside world answers questions in a row; \<open>px_tick\<close> counts the questions asked, and the
  environment gives the answer to each.  The files the proxy has written and not removed are
  part of the state.
\<close>

subsection \<open>Constants\<close>

definition PROXY_MAX_CONSECUTIVE_FAILURES :: nat where "PROXY_MAX_CONSECUTIVE_FAILURES = 3"
definition PROXY_MAX_RECENTLY_FAILED_KEYS :: nat where "PROXY_MAX_RECENTLY_FAILED_KEYS = 50"
definition PROXY_FAILOVER_COOLDOWN :: nat where "PROXY_FAILOVER_COOLDOWN = 10000"
definition PROXY_DNS_PRIMARY :: string where "PROXY_DNS_PRIMARY = ''8.8.8.8''"
definition PROXY_DNS_FALLBACK :: string where "PROXY_DNS_FALLBACK = ''1.1.1.1''"
definition PROXY_SING_BOX_TAG_OUTBOUND :: string where "PROXY_SING_BOX_TAG_OUTBOUND = ''proxy-0''"
definition PROXY_SING_BOX_TAG_DIRECT :: string where "PROXY_SING_BOX_TAG_DIRECT = ''direct-out''"
definition PROXY_SING_BOX_TAG_INBOUND :: string where "PROXY_SING_BOX_TAG_INBOUND = ''proxy-in''"
definition PROXY_SING_BOX_TAG_DNS_DIRECT :: string where "PROXY_SING_BOX_TAG_DNS_DIRECT = ''dns-direct''"
definition PROXY_SING_BOX_TAG_DNS_FALLBACK :: string where
  "PROXY_SING_BOX_TAG_DNS_FALLBACK = ''dns-fallback''"
definition PROXY_SING_BOX_TAG_DNS_PROXY :: string where "PROXY_SING_BOX_TAG_DNS_PROXY = ''dns-proxy''"

text \<open>The arrow of the log messages (U+2192) in UTF-8.\<close>

definition ARROW :: string where "ARROW = [CHR 0xE2, CHR 0x86, CHR 0x92]"

lemmas proxy_constants =
  PROXY_MAX_CONSECUTIVE_FAILURES_def PROXY_MAX_RECENTLY_FAILED_KEYS_def PROXY_FAILOVER_COOLDOWN_def
  PROXY_DNS_PRIMARY_def PROXY_DNS_FALLBACK_def PROXY_SING_BOX_TAG_OUTBOUND_def
  PROXY_SING_BOX_TAG_DIRECT_def PROXY_SING_BOX_TAG_INBOUND_def PROXY_SING_BOX_TAG_DNS_DIRECT_def
  PROXY_SING_BOX_TAG_DNS_FALLBACK_def PROXY_SING_BOX_TAG_DNS_PROXY_def

subsection \<open>The configuration\<close>

fun insert_tag :: "string \<Rightarrow> json \<Rightarrow> json" where
  "insert_tag tag (JObject m) = JObject (bt_insert ''tag'' (JString tag) m)"
| "insert_tag tag v = v"

definition proxy_dns_server :: "bool \<Rightarrow> string \<Rightarrow> string \<Rightarrow> string option \<Rightarrow> json" where
  "proxy_dns_server modern tag server detour = json_obj
     ((''tag'', JString tag)
      # (if modern then [(''type'', JString ''udp''), (''server'', JString server)]
         else [(''address'', JString server), (''strategy'', JString ''prefer_ipv4'')])
      @ (case detour of Some d \<Rightarrow> [(''detour'', JString d)] | None \<Rightarrow> []))"

definition proxy_dns_servers :: "bool \<Rightarrow> json list" where
  "proxy_dns_servers modern =
     (let direct = (if modern then None else Some PROXY_SING_BOX_TAG_DIRECT) in
      [proxy_dns_server modern PROXY_SING_BOX_TAG_DNS_DIRECT PROXY_DNS_PRIMARY direct,
       proxy_dns_server modern PROXY_SING_BOX_TAG_DNS_FALLBACK PROXY_DNS_FALLBACK direct,
       proxy_dns_server modern PROXY_SING_BOX_TAG_DNS_PROXY PROXY_DNS_PRIMARY
         (Some PROXY_SING_BOX_TAG_OUTBOUND)])"

definition build_sing_box_config ::
  "(nat \<times> nat \<times> nat) option option \<Rightarrow> json \<Rightarrow> nat \<Rightarrow> string \<Rightarrow> json" where
  "build_sing_box_config detected outbound port listen =
     (let modern = sing_box_version_at_least detected 1 12 0;
          direct_outbound = json_obj [(''type'', JString ''direct''), (''tag'', JString PROXY_SING_BOX_TAG_DIRECT)];
          reject = json_obj [(''protocol'', JString ''bittorrent''), (''action'', JString ''reject'')];
          route = json_obj ([(''rules'', JArray [reject]), (''final'', JString PROXY_SING_BOX_TAG_OUTBOUND)]
            @ (if modern then [(''default_domain_resolver'', JString PROXY_SING_BOX_TAG_DNS_DIRECT)] else []))
      in json_obj [
           (''log'', json_obj [(''level'', JString ''warning'')]),
           (''dns'', json_obj [(''servers'', JArray (proxy_dns_servers modern))]),
           (''inbounds'', JArray [json_obj [
              (''type'', JString ''mixed''), (''tag'', JString PROXY_SING_BOX_TAG_INBOUND),
              (''listen'', JString listen), (''listen_port'', json_num port)]]),
           (''outbounds'', JArray [insert_tag PROXY_SING_BOX_TAG_OUTBOUND outbound, direct_outbound]),
           (''route'', route)])"

subsection \<open>State\<close>

record proxy_state =
  ps_active_config_uri :: "string option"
  ps_active_config_name :: "string option"
  ps_active_config_country :: "string option"
  ps_running :: bool
  ps_consecutive_failures :: nat
  ps_last_health_check :: "nat option"
  ps_last_health_ok :: bool
  ps_last_failover :: "nat option"
  ps_failed_config_keys :: "string list"
  ps_proxy_config :: proxy_config

text \<open>
  A managed process: the file its configuration is in and that configuration.  \<open>child.stderr\<close>
  is taken by the reader task as soon as the process has started.
\<close>

record managed_process =
  mp_config_path :: nat
  mp_config :: json
  mp_port :: nat
  mp_uri :: string

record proxy =
  px_sing_box_path :: string
  px_state :: proxy_state
  px_process :: "managed_process option"
  px_logs :: "string list"
  px_files :: "nat list"
  px_tick :: nat

datatype child_status = Exited | StillRunning | StatusUnknown

text \<open>
  \<open>ou_get url\<close> is the status code of a GET through the local proxy, \<^term>\<open>None\<close> when it fails;
  \<open>ou_client\<close> says that the HTTP client could be built.
\<close>

record outside =
  ou_status :: child_status
  ou_write :: "unit result"
  ou_spawn :: "unit result"
  ou_port_ready :: bool
  ou_client :: bool
  ou_get :: "string \<Rightarrow> nat option"
  ou_now :: nat

record proxy_env =
  xe_crates :: crates
  xe_version :: "(nat \<times> nat \<times> nat) option option"
  xe_answer :: "nat \<Rightarrow> outside"

definition ask :: "proxy_env \<Rightarrow> proxy \<Rightarrow> outside \<times> proxy" where
  "ask env p = (xe_answer env (px_tick p), p\<lparr>px_tick := Suc (px_tick p)\<rparr>)"

definition emit_log :: "string \<Rightarrow> proxy \<Rightarrow> proxy" where
  "emit_log message p = p\<lparr>px_logs := px_logs p @ [message]\<rparr>"

definition set_state :: "(proxy_state \<Rightarrow> proxy_state) \<Rightarrow> proxy \<Rightarrow> proxy" where
  "set_state f p = p\<lparr>px_state := f (px_state p)\<rparr>"

definition persistent_proxy_new :: "proxy_config \<Rightarrow> string \<Rightarrow> proxy" where
  "persistent_proxy_new config sing_box_path = \<lparr>
     px_sing_box_path = sing_box_path,
     px_state = \<lparr>
       ps_active_config_uri = None, ps_active_config_name = None, ps_active_config_country = None,
       ps_running = False, ps_consecutive_failures = 0, ps_last_health_check = None,
       ps_last_health_ok = False, ps_last_failover = None, ps_failed_config_keys = [],
       ps_proxy_config = config \<rparr>,
     px_process = None, px_logs = [], px_files = [], px_tick = 0 \<rparr>"

subsection \<open>Stopping and starting\<close>

definition remove_file :: "nat \<Rightarrow> proxy \<Rightarrow> proxy" where
  "remove_file path p = p\<lparr>px_files := removeAll path (px_files p)\<rparr>"

definition stop :: "proxy \<Rightarrow> proxy" where
  "stop p =
     (let p = (case px_process p of
                 Some managed \<Rightarrow> emit_log ''proxy: stopped''
                   (remove_file (mp_config_path managed) (p\<lparr>px_process := None\<rparr>))
               | None \<Rightarrow> p)
      in set_state (\<lambda>s. s\<lparr>ps_running := False\<rparr>) p)"

definition shutdown :: "proxy \<Rightarrow> proxy" where
  "shutdown p = stop p"

definition is_process_alive :: "proxy_env \<Rightarrow> proxy \<Rightarrow> bool \<times> proxy" where
  "is_process_alive env p =
     (case px_process p of
        None \<Rightarrow> (False, p)
      | Some managed \<Rightarrow>
          let (answer, p) = ask env p in
          (case ou_status answer of
             Exited \<Rightarrow> (False, set_state (\<lambda>s. s\<lparr>ps_running := False\<rparr>)
               (remove_file (mp_config_path managed) p\<lparr>px_process := None\<rparr>))
           | StillRunning \<Rightarrow> (True, p)
           | StatusUnknown \<Rightarrow> (False, p)))"

text \<open>
  A configuration file is named after the time it is written at; the model takes the number of
  the question for it.  When the port does not come up, \<open>child\<close> is dropped, which kills the
  process; nothing refers to the file any more.  The standard error is not part of the message:
  \<open>child.stderr\<close> was taken by the reader task before.
\<close>

definition start_with_config :: "proxy_env \<Rightarrow> ranked_config \<Rightarrow> proxy \<Rightarrow> unit result \<times> proxy" where
  "start_with_config env config p =
     (let p = stop p in
      case sing_box_outbound_from_share_link (xe_crates env) (r_uri config) of
        Inl e \<Rightarrow> (Inl ''failed to convert config to sing-box outbound'', p)
      | Inr outbound \<Rightarrow>
          let current_config = ps_proxy_config (px_state p);
              listen = (if xc_discoverable current_config then ''0.0.0.0'' else LOCALHOST_IP);
              config_json = build_sing_box_config (xe_version env) outbound (xc_port current_config) listen;
              config_path = px_tick p;
              (answer, p) = ask env p
          in case ou_write answer of
            Inl e \<Rightarrow> (Inl e, p)
          | Inr _ \<Rightarrow>
              let p = p\<lparr>px_files := config_path # px_files p\<rparr> in
              (case ou_spawn answer of
                 Inl e \<Rightarrow> (Inl ''failed to start sing-box proxy process'', p)
               | Inr _ \<Rightarrow>
                   if \<not> ou_port_ready answer
                   then (Inl (''port '' @ show_nat (xc_port current_config)
                           @ '' did not become available within 5s''), p)
                   else
                     (Inr (), (set_state (\<lambda>s. s\<lparr>ps_running := True, ps_consecutive_failures := 0,
                                        ps_last_health_check := None, ps_last_health_ok := False\<rparr>) p)
                        \<lparr>px_process := Some \<lparr>mp_config_path = config_path, mp_config = config_json,
                           mp_port = xc_port current_config, mp_uri = r_uri config\<rparr>\<rparr>)))"

subsection \<open>Health\<close>

definition health_fallback_urls :: "string list" where
  "health_fallback_urls =
     [''https://1.1.1.1'', ''https://cloudflare.com'', ''https://api.ipify.org?format=json'',
      ''https://httpbin.org/ip'']"

definition health_status_ok :: "nat \<Rightarrow> bool" where
  "health_status_ok status \<longleftrightarrow> 200 \<le> status \<and> status < 300 \<or> status = 204"

text \<open>The fallbacks are tried only when the primary request fails, not when its status is bad.\<close>

definition health_urls_ok :: "(string \<Rightarrow> nat option) \<Rightarrow> string \<Rightarrow> bool" where
  "health_urls_ok get health_url =
     (case get health_url of
        Some status \<Rightarrow> health_status_ok status
      | None \<Rightarrow> list_ex (\<lambda>fallback. case get fallback of Some status \<Rightarrow> health_status_ok status | None \<Rightarrow> False)
                 health_fallback_urls)"

definition health_check :: "proxy_env \<Rightarrow> proxy \<Rightarrow> bool \<times> proxy" where
  "health_check env p =
     (let (alive, p) = is_process_alive env p in
      if \<not> alive then (False, p)
      else
        let (answer, p) = ask env p in
        if \<not> ou_client answer then (False, p)
        else
          let ok = health_urls_ok (ou_get answer) (xc_health_check_url (ps_proxy_config (px_state p)))
          in (ok, set_state (\<lambda>s. s\<lparr>ps_last_health_check := Some (ou_now answer), ps_last_health_ok := ok,
                 ps_consecutive_failures :=
                   (if ok then 0 else sat_add u32_max (ps_consecutive_failures s) 1)\<rparr>) p))"

subsection \<open>Failover\<close>

fun try_candidates :: "proxy_env \<Rightarrow> ranked_config list \<Rightarrow> proxy \<Rightarrow> unit result \<times> proxy" where
  "try_candidates env [] p =
     (Inl ''proxy: all failover candidates exhausted'',
      emit_log ''proxy: failover exhausted'' (set_state (\<lambda>s. s\<lparr>ps_running := False\<rparr>) p))"
| "try_candidates env (candidate # candidates) p =
     (let (started, p) = start_with_config env candidate p;
          (ok, p) = (case started of Inr _ \<Rightarrow> health_check env p | Inl _ \<Rightarrow> (False, p))
      in if ok then
           let p = emit_log (''proxy: failover '' @ ARROW @ '' '' @ r_name candidate @ '' (port ''
                     @ show_nat (xc_port (ps_proxy_config (px_state p))) @ '')'') p;
               (answer, p) = ask env p
           in (Inr (), set_state (\<lambda>s. s\<lparr>ps_active_config_uri := Some (r_uri candidate),
                 ps_active_config_name := Some (r_name candidate),
                 ps_active_config_country := r_country_code candidate,
                 ps_consecutive_failures := 0, ps_last_failover := Some (ou_now answer)\<rparr>) p)
         else try_candidates env candidates
           (set_state (\<lambda>s. if length (ps_failed_config_keys s) < PROXY_MAX_RECENTLY_FAILED_KEYS
              then s\<lparr>ps_failed_config_keys := ps_failed_config_keys s @ [r_dedup_key candidate]\<rparr> else s) p))"

definition fresh_candidates :: "string option \<Rightarrow> string list \<Rightarrow> ranked_config list \<Rightarrow> ranked_config list" where
  "fresh_candidates current_uri failed_keys ranked =
     filter (\<lambda>c. r_reachable c \<and> current_uri \<noteq> Some (r_uri c) \<and> r_dedup_key c \<notin> set failed_keys) ranked"

definition other_candidates :: "string option \<Rightarrow> ranked_config list \<Rightarrow> ranked_config list" where
  "other_candidates current_uri ranked =
     filter (\<lambda>c. r_reachable c \<and> current_uri \<noteq> Some (r_uri c)) ranked"

text \<open>The cooldown only delays the rest; no other operation runs meanwhile.\<close>

definition failover :: "proxy_env \<Rightarrow> ranked_config list \<Rightarrow> proxy \<Rightarrow> unit result \<times> proxy" where
  "failover env ranked p =
     (let current_uri = ps_active_config_uri (px_state p);
          failed_keys = ps_failed_config_keys (px_state p);
          p = (case ps_last_failover (px_state p) of Some instant \<Rightarrow> snd (ask env p) | None \<Rightarrow> p);
          candidates = fresh_candidates current_uri failed_keys ranked
      in if candidates = [] then
           try_candidates env (other_candidates current_uri ranked)
             (set_state (\<lambda>s. s\<lparr>ps_failed_config_keys := []\<rparr>) (emit_log ''proxy: blacklist cleared'' p))
         else try_candidates env candidates p)"

subsection \<open>Following the ranked list\<close>

text \<open>Why \<open>update\<close> switches to the best result, if it does.\<close>

definition switch_reason :: "proxy_env \<Rightarrow> ranked_config \<Rightarrow> proxy \<Rightarrow> string option \<times> proxy" where
  "switch_reason env best p =
     (case ps_active_config_uri (px_state p) of
        None \<Rightarrow> (Some ''starting'', p)
      | Some uri \<Rightarrow>
          if uri \<noteq> r_uri best then (Some ''new config'', p)
          else
            let failures = ps_consecutive_failures (px_state p);
                (alive, p) = (if ps_running (px_state p) then is_process_alive env p else (False, p))
            in (if \<not> alive then Some ''restarted''
                else if PROXY_MAX_CONSECUTIVE_FAILURES \<le> failures then Some ''failover''
                else None, p))"

definition switch_to :: "proxy_env \<Rightarrow> proxy_config \<Rightarrow> string \<Rightarrow> ranked_config \<Rightarrow> proxy \<Rightarrow> proxy" where
  "switch_to env config reason best p =
     (case start_with_config env best p of
        (Inl err, p) \<Rightarrow> emit_log (''proxy: failed '' @ ARROW @ '' '' @ err) p
      | (Inr _, p) \<Rightarrow>
          set_state (\<lambda>s. s\<lparr>ps_active_config_uri := Some (r_uri best),
            ps_active_config_name := Some (r_name best), ps_active_config_country := r_country_code best,
            ps_consecutive_failures := 0\<rparr>)
          (emit_log (''proxy: '' @ reason @ '' '' @ ARROW @ '' '' @ r_name best @ '' (port ''
             @ show_nat (xc_port config) @ '')'') p))"

definition update :: "proxy_env \<Rightarrow> proxy_config \<Rightarrow> ranked_config list \<Rightarrow> proxy \<Rightarrow> proxy" where
  "update env config ranked p =
     (let p = set_state (\<lambda>s. s\<lparr>ps_proxy_config := config, ps_failed_config_keys := []\<rparr>) p in
      if \<not> xc_enabled config then
        let (was_running, p) = (if ps_running (px_state p) then (True, p) else is_process_alive env p)
        in if was_running then stop (emit_log ''proxy: disabled'' p) else p
      else
        case find r_reachable ranked of
          None \<Rightarrow> emit_log ''proxy: no reachable configs'' p
        | Some best \<Rightarrow>
            (case switch_reason env best p of
               (None, p) \<Rightarrow> p
             | (Some reason, p) \<Rightarrow> switch_to env config reason best p))"

record proxy_snapshot =
  pn_active_config :: "string option"
  pn_running :: bool
  pn_port :: "nat option"
  pn_discoverable :: bool
  pn_country :: "string option"

definition proxy_snapshot_of :: "proxy \<Rightarrow> proxy_snapshot" where
  "proxy_snapshot_of p =
     (let s = px_state p in
      \<lparr> pn_active_config = ps_active_config_name s, pn_running = ps_running s,
        pn_port = (if ps_running s then Some (xc_port (ps_proxy_config s)) else None),
        pn_discoverable = xc_discoverable (ps_proxy_config s),
        pn_country = ps_active_config_country s \<rparr>)"

end
