(* ===== verification/ProxyLoop.thy ===== *)
theory ProxyLoop
  imports Proxy
begin

text \<open>
  The health loop of the proxy (\<open>spawn_health_loop\<close>) and the tasks beside it as a step relation:
  the loop gives up the proxy's mutex between reading the state, checking, and failing over, and
  a refresh may update the proxy in between.
\<close>

subsection \<open>The health loop\<close>

text \<open>
  Where the loop is: about to read the state; asleep with what it read; or about to fail over.
\<close>

datatype loop_pc = Reading | Waiting bool nat | FailoverDue

record proxy_system =
  sy_proxy :: proxy
  sy_pc :: loop_pc
  sy_last_interval :: nat
  sy_ranked :: "ranked_config list"

definition loop_turn :: "proxy_env \<Rightarrow> proxy_system \<Rightarrow> proxy_system" where
  "loop_turn env s =
     (case sy_pc s of
        Reading \<Rightarrow>
          let state = px_state (sy_proxy s);
              interval = xc_health_check_interval_seconds (ps_proxy_config state);
              last_interval = (if interval \<noteq> sy_last_interval s \<and> interval > 0 then interval
                               else sy_last_interval s);
              s = s\<lparr>sy_last_interval := last_interval\<rparr>
          in if last_interval = 0 then s
             else s\<lparr>sy_pc := Waiting (ps_running state) (ps_consecutive_failures state)\<rparr>
      | Waiting running consecutive_failures \<Rightarrow>
          if \<not> running then s\<lparr>sy_pc := Reading\<rparr>
          else
            let (health_ok, p) = health_check env (sy_proxy s) in
            if health_ok then s\<lparr>sy_proxy := p, sy_pc := Reading\<rparr>
            else if consecutive_failures < PROXY_MAX_CONSECUTIVE_FAILURES
            then s\<lparr>sy_proxy := emit_log (''proxy: health fail '' @ show_nat (consecutive_failures + 1) @ ''/''
                     @ show_nat PROXY_MAX_CONSECUTIVE_FAILURES) p, sy_pc := Reading\<rparr>
            else s\<lparr>sy_proxy := p, sy_pc := FailoverDue\<rparr>
      | FailoverDue \<Rightarrow>
          (case failover env (sy_ranked s) (sy_proxy s) of
             (Inr _, p) \<Rightarrow> s\<lparr>sy_proxy := p, sy_pc := Reading\<rparr>
           | (Inl err, p) \<Rightarrow> s\<lparr>sy_proxy := emit_log (''proxy: failover failed: '' @ err) p, sy_pc := Reading\<rparr>))"

text \<open>The loop, the two halves of \<open>update_proxy_and_ranked\<close>, and the shutdown.\<close>

inductive proxy_step :: "proxy_env \<Rightarrow> proxy_system \<Rightarrow> proxy_system \<Rightarrow> bool" for env where
  turn: "proxy_step env s (loop_turn env s)"
| rank: "proxy_step env s (s\<lparr>sy_ranked := ranked\<rparr>)"
| refresh: "proxy_step env s (s\<lparr>sy_proxy := update env config ranked (sy_proxy s)\<rparr>)"
| halt: "proxy_step env s (s\<lparr>sy_proxy := shutdown (sy_proxy s)\<rparr>)"

definition proxy_system_new :: "proxy_config \<Rightarrow> string \<Rightarrow> proxy_system" where
  "proxy_system_new config path =
     \<lparr>sy_proxy = persistent_proxy_new config path, sy_pc = Reading, sy_last_interval = 0, sy_ranked = []\<rparr>"

inductive proxy_reachable :: "proxy_env \<Rightarrow> proxy_system \<Rightarrow> bool" for env where
  start: "proxy_reachable env (proxy_system_new config path)"
| step: "proxy_reachable env s \<Longrightarrow> proxy_step env s s' \<Longrightarrow> proxy_reachable env s'"

inductive_cases proxy_stepE: "proxy_step env s s'"

subsection \<open>The invariant\<close>

text \<open>
  What holds between operations, whatever they were: the process runs the configuration of its
  link, its file exists, and the lists and counters are bounded.
\<close>

definition proxy_base :: "proxy_env \<Rightarrow> proxy \<Rightarrow> bool" where
  "proxy_base env p \<longleftrightarrow>
     (\<forall>f\<in>set (px_files p). f < px_tick p)
   \<and> (\<forall>m. px_process p = Some m \<longrightarrow> mp_config_path m \<in> set (px_files p)
        \<and> (\<exists>outbound listen. sing_box_outbound_from_share_link (xe_crates env) (mp_uri m) = Inr outbound
             \<and> listen \<in> {LOCALHOST_IP, ''0.0.0.0''}
             \<and> mp_config m = build_sing_box_config (xe_version env) outbound (mp_port m) listen))
   \<and> length (ps_failed_config_keys (px_state p)) \<le> PROXY_MAX_RECENTLY_FAILED_KEYS
   \<and> ps_consecutive_failures (px_state p) \<le> u32_max
   \<and> (ps_active_config_uri (px_state p) = None \<longleftrightarrow> ps_active_config_name (px_state p) = None)"

definition proxy_synced :: "proxy \<Rightarrow> bool" where
  "proxy_synced p \<longleftrightarrow> (ps_running (px_state p) \<longrightarrow>
     (\<exists>m. px_process p = Some m \<and> ps_active_config_uri (px_state p) = Some (mp_uri m)))"

lemma state_simps [simp]:
  "px_state (set_state f p) = f (px_state p)" "px_process (set_state f p) = px_process p"
  "px_files (set_state f p) = px_files p" "px_tick (set_state f p) = px_tick p"
  "px_state (emit_log m p) = px_state p" "px_process (emit_log m p) = px_process p"
  "px_files (emit_log m p) = px_files p" "px_tick (emit_log m p) = px_tick p"
  "px_state (remove_file g p) = px_state p" "px_process (remove_file g p) = px_process p"
  "px_files (remove_file g p) = removeAll g (px_files p)" "px_tick (remove_file g p) = px_tick p"
  "ask env p = (xe_answer env (px_tick p), p\<lparr>px_tick := Suc (px_tick p)\<rparr>)"
  by (simp_all add: set_state_def emit_log_def remove_file_def ask_def)

lemma base_simps [simp]:
  "proxy_base env (emit_log m p) = proxy_base env p" "proxy_synced (emit_log m p) = proxy_synced p"
  "proxy_synced (p\<lparr>px_tick := t\<rparr>) = proxy_synced p"
  by (simp_all add: proxy_base_def proxy_synced_def)

lemma base_tick: "proxy_base env p \<Longrightarrow> proxy_base env (p\<lparr>px_tick := Suc (px_tick p)\<rparr>)"
  by (auto simp: proxy_base_def less_SucI)

lemma stop_frame [simp]:
  "px_process (stop p) = None" "\<not> ps_running (px_state (stop p))"
  "ps_active_config_uri (px_state (stop p)) = ps_active_config_uri (px_state p)"
  "ps_active_config_name (px_state (stop p)) = ps_active_config_name (px_state p)"
  "ps_proxy_config (px_state (stop p)) = ps_proxy_config (px_state p)"
  "px_tick (stop p) = px_tick p"
  by (simp_all add: stop_def Let_def split: option.splits)

lemma stop_base: "proxy_base env p \<Longrightarrow> proxy_base env (stop p)"
  by (auto simp: proxy_base_def stop_def Let_def split: option.splits)

lemma alive_frame:
  assumes "is_process_alive env p = (alive, p')"
  shows "ps_active_config_uri (px_state p') = ps_active_config_uri (px_state p)"
    "ps_proxy_config (px_state p') = ps_proxy_config (px_state p)"
    "ps_failed_config_keys (px_state p') = ps_failed_config_keys (px_state p)"
    "ps_consecutive_failures (px_state p') = ps_consecutive_failures (px_state p)"
    "alive \<Longrightarrow> px_process p' = px_process p \<and> px_process p \<noteq> None \<and> px_state p' = px_state p"
    "proxy_base env p \<Longrightarrow> proxy_base env p'" "proxy_synced p \<Longrightarrow> proxy_synced p'"
  using assms base_tick[of env p]
  by (auto simp: is_process_alive_def proxy_base_def proxy_synced_def Let_def less_SucI
      split: option.splits child_status.splits)

lemma start_frame:
  assumes "start_with_config env config p = (result, p')"
  shows "ps_active_config_uri (px_state p') = ps_active_config_uri (px_state p)"
    "ps_active_config_name (px_state p') = ps_active_config_name (px_state p)"
    "ps_proxy_config (px_state p') = ps_proxy_config (px_state p)"
    "result = Inl e \<Longrightarrow> \<not> ps_running (px_state p') \<and> px_process p' = None"
    "result = Inr u \<Longrightarrow> ps_running (px_state p') \<and> (\<exists>m. px_process p' = Some m \<and> mp_uri m = r_uri config
       \<and> mp_port m = xc_port (ps_proxy_config (px_state p)))"
  using assms
  by (auto simp: start_with_config_def Let_def split: sum.splits if_splits)

lemma start_base:
  assumes "start_with_config env config p = (result, p')" and "proxy_base env p"
  shows "proxy_base env p'"
proof -
  note base = stop_base[OF assms(2)]
  show ?thesis
    using assms(1) base
    by (auto simp: start_with_config_def Let_def proxy_base_def less_SucI u32_max_def
        split: sum.splits if_splits; fastforce)
qed

lemma health_frame:
  assumes "health_check env p = (ok, p')"
  shows "ps_active_config_uri (px_state p') = ps_active_config_uri (px_state p)"
    "ps_proxy_config (px_state p') = ps_proxy_config (px_state p)"
    "ok \<Longrightarrow> px_process p' = px_process p \<and> px_process p \<noteq> None
       \<and> ps_running (px_state p') = ps_running (px_state p) \<and> ps_consecutive_failures (px_state p') = 0"
    "proxy_base env p \<Longrightarrow> proxy_base env p'" "proxy_synced p \<Longrightarrow> proxy_synced p'"
proof -
  obtain alive p1 where a: "is_process_alive env p = (alive, p1)" by fastforce
  note alive_frame[OF a]
  then show "ps_active_config_uri (px_state p') = ps_active_config_uri (px_state p)"
    "ps_proxy_config (px_state p') = ps_proxy_config (px_state p)"
    "ok \<Longrightarrow> px_process p' = px_process p \<and> px_process p \<noteq> None
       \<and> ps_running (px_state p') = ps_running (px_state p) \<and> ps_consecutive_failures (px_state p') = 0"
    using assms a by (auto simp: health_check_def Let_def split: if_splits)
  show "proxy_base env p \<Longrightarrow> proxy_base env p'"
    using assms a alive_frame(6)[OF a]
    by (auto simp: health_check_def Let_def proxy_base_def less_SucI sat_add_le split: if_splits)
  show "proxy_synced p \<Longrightarrow> proxy_synced p'"
    using assms a alive_frame(7)[OF a]
    by (auto simp: health_check_def Let_def proxy_synced_def split: if_splits)
qed

definition runs_config :: "proxy \<Rightarrow> ranked_config \<Rightarrow> bool" where
  "runs_config p c \<longleftrightarrow> ps_running (px_state p) \<and> ps_active_config_uri (px_state p) = Some (r_uri c)
     \<and> ps_active_config_name (px_state p) = Some (r_name c)
     \<and> (\<exists>m. px_process p = Some m \<and> mp_uri m = r_uri c \<and> mp_port m = xc_port (ps_proxy_config (px_state p)))"

lemma runs_config_synced: "runs_config p c \<Longrightarrow> proxy_synced p"
  by (auto simp: runs_config_def proxy_synced_def)

lemma base_set_state:
  assumes "proxy_base env p"
    and "length (ps_failed_config_keys (f (px_state p))) \<le> PROXY_MAX_RECENTLY_FAILED_KEYS"
    and "ps_consecutive_failures (f (px_state p)) \<le> u32_max"
    and "ps_active_config_uri (f (px_state p)) = None \<longleftrightarrow> ps_active_config_name (f (px_state p)) = None"
  shows "proxy_base env (set_state f p)"
  using assms by (simp add: proxy_base_def)

lemma base_bounds:
  assumes "proxy_base env p"
  shows "length (ps_failed_config_keys (px_state p)) \<le> PROXY_MAX_RECENTLY_FAILED_KEYS"
    "ps_consecutive_failures (px_state p) \<le> u32_max"
    "ps_active_config_uri (px_state p) = None \<longleftrightarrow> ps_active_config_name (px_state p) = None"
  using assms by (simp_all add: proxy_base_def)

text \<open>Adopting a candidate the process was started with.\<close>

lemma adopt:
  assumes "proxy_base env p" and "ps_running (px_state p)" and "px_process p = Some m"
    and "mp_uri m = r_uri c" and "mp_port m = xc_port (ps_proxy_config (px_state p))"
    and "ps_failed_config_keys (f (px_state p)) = ps_failed_config_keys (px_state p)"
    and "ps_consecutive_failures (f (px_state p)) = 0" and "ps_running (f (px_state p)) = ps_running (px_state p)"
    and "ps_active_config_uri (f (px_state p)) = Some (r_uri c)"
    and "ps_active_config_name (f (px_state p)) = Some (r_name c)"
    and "ps_proxy_config (f (px_state p)) = ps_proxy_config (px_state p)"
  shows "proxy_base env (set_state f p) \<and> runs_config (set_state f p) c"
proof
  show "proxy_base env (set_state f p)"
    by (rule base_set_state) (use assms base_bounds[OF assms(1)] in simp_all)
  show "runs_config (set_state f p) c"
    using assms by (simp add: runs_config_def)
qed

definition start_checked :: "proxy_env \<Rightarrow> ranked_config \<Rightarrow> proxy \<Rightarrow> bool \<times> proxy" where
  "start_checked env c p =
     (let (started, p) = start_with_config env c p
      in case started of Inr _ \<Rightarrow> health_check env p | Inl _ \<Rightarrow> (False, p))"

lemma start_checked_frame:
  assumes "start_checked env c p = (ok, p')"
  shows "ps_proxy_config (px_state p') = ps_proxy_config (px_state p)"
    "ps_active_config_uri (px_state p') = ps_active_config_uri (px_state p)"
    "proxy_base env p \<Longrightarrow> proxy_base env p'"
    "ok \<Longrightarrow> ps_running (px_state p') \<and> (\<exists>m. px_process p' = Some m \<and> mp_uri m = r_uri c
       \<and> mp_port m = xc_port (ps_proxy_config (px_state p)))"
proof -
  obtain started p1 where s: "start_with_config env c p = (started, p1)" by fastforce
  have "started = Inl e \<Longrightarrow> p' = p1 \<and> \<not> ok" for e using assms s by (simp add: start_checked_def)
  moreover have "started = Inr u \<Longrightarrow> health_check env p1 = (ok, p')" for u
    using assms s by (simp add: start_checked_def)
  ultimately show "ps_proxy_config (px_state p') = ps_proxy_config (px_state p)"
    "ps_active_config_uri (px_state p') = ps_active_config_uri (px_state p)"
    "proxy_base env p \<Longrightarrow> proxy_base env p'"
    "ok \<Longrightarrow> ps_running (px_state p') \<and> (\<exists>m. px_process p' = Some m \<and> mp_uri m = r_uri c
       \<and> mp_port m = xc_port (ps_proxy_config (px_state p)))"
    using start_frame[OF s] start_base[OF s] health_frame[of env p1 ok p']
    by (cases started; simp)+
qed

lemma try_candidates_Cons:
  "try_candidates env (c # cs) p =
     (let (ok, p) = start_checked env c p in
      if ok then
        let p = emit_log (''proxy: failover '' @ ARROW @ '' '' @ r_name c @ '' (port ''
                  @ show_nat (xc_port (ps_proxy_config (px_state p))) @ '')'') p;
            (answer, p) = ask env p
        in (Inr (), set_state (\<lambda>s. s\<lparr>ps_active_config_uri := Some (r_uri c),
              ps_active_config_name := Some (r_name c), ps_active_config_country := r_country_code c,
              ps_consecutive_failures := 0, ps_last_failover := Some (ou_now answer)\<rparr>) p)
      else try_candidates env cs
        (set_state (\<lambda>s. if length (ps_failed_config_keys s) < PROXY_MAX_RECENTLY_FAILED_KEYS
           then s\<lparr>ps_failed_config_keys := ps_failed_config_keys s @ [r_dedup_key c]\<rparr> else s) p))"
  by (simp only: try_candidates.simps start_checked_def Let_def case_prod_beta)

lemma try_candidates_result:
  assumes "try_candidates env cs p = (result, p')" and "proxy_base env p"
  shows "ps_proxy_config (px_state p') = ps_proxy_config (px_state p)
   \<and> proxy_base env p'
   \<and> (case result of
        Inr _ \<Rightarrow> \<exists>c\<in>set cs. runs_config p' c \<and> ps_consecutive_failures (px_state p') = 0
      | Inl _ \<Rightarrow> \<not> ps_running (px_state p') \<and> ps_active_config_uri (px_state p') = ps_active_config_uri (px_state p))"
  using assms
proof (induction cs arbitrary: p)
  case Nil
  then show ?case by (auto simp: proxy_base_def)
next
  case (Cons c cs)
  obtain ok p1 where s: "start_checked env c p = (ok, p1)" by fastforce
  note kept = start_checked_frame[OF s]
  show ?case
  proof (cases ok)
    case True
    let ?log = "emit_log (''proxy: failover '' @ ARROW @ '' '' @ r_name c @ '' (port ''
                  @ show_nat (xc_port (ps_proxy_config (px_state p1))) @ '')'') p1"
    let ?p2 = "?log\<lparr>px_tick := Suc (px_tick ?log)\<rparr>"
    let ?f = "\<lambda>s. s\<lparr>ps_active_config_uri := Some (r_uri c),
              ps_active_config_name := Some (r_name c), ps_active_config_country := r_country_code c,
              ps_consecutive_failures := 0, ps_last_failover := Some (ou_now (xe_answer env (px_tick ?log)))\<rparr>"
    have p': "p' = set_state ?f ?p2" "\<exists>u. result = Inr u"
      using Cons.prems(1) s True unfolding try_candidates_Cons by (simp_all add: Let_def)
    have "proxy_base env ?log" using kept(3) Cons.prems(2) by simp
    then have "proxy_base env ?p2" by (rule base_tick)
    moreover obtain m where "ps_running (px_state ?p2)" "px_process ?p2 = Some m" "mp_uri m = r_uri c"
      "mp_port m = xc_port (ps_proxy_config (px_state ?p2))"
      using kept(1,4) True by auto
    ultimately have "proxy_base env p' \<and> runs_config p' c"
      unfolding p' by (rule adopt) simp_all
    then show ?thesis using p' kept(1) by auto
  next
    case False
    let ?p3 = "set_state (\<lambda>s. if length (ps_failed_config_keys s) < PROXY_MAX_RECENTLY_FAILED_KEYS
              then s\<lparr>ps_failed_config_keys := ps_failed_config_keys s @ [r_dedup_key c]\<rparr> else s) p1"
    have t: "try_candidates env cs ?p3 = (result, p')"
      using Cons.prems(1) s False unfolding try_candidates_Cons by (simp add: Let_def)
    have "proxy_base env ?p3"
      by (rule base_set_state) (use kept(3)[OF Cons.prems(2)] base_bounds[OF kept(3)[OF Cons.prems(2)]] in auto)
    from Cons.IH[OF t this] kept(1,2) show ?thesis by (cases result) auto
  qed
qed

lemma failover_result:
  assumes "failover env ranked p = (result, p')" and "proxy_base env p"
  shows "ps_proxy_config (px_state p') = ps_proxy_config (px_state p)
   \<and> proxy_base env p'
   \<and> (case result of
        Inr _ \<Rightarrow> \<exists>c\<in>set ranked. r_reachable c \<and> ps_active_config_uri (px_state p) \<noteq> Some (r_uri c)
           \<and> runs_config p' c \<and> ps_consecutive_failures (px_state p') = 0
      | Inl _ \<Rightarrow> \<not> ps_running (px_state p') \<and> ps_active_config_uri (px_state p') = ps_active_config_uri (px_state p))"
proof -
  define p1 where "p1 = (case ps_last_failover (px_state p) of Some instant \<Rightarrow> snd (ask env p) | None \<Rightarrow> p)"
  define uri where "uri = ps_active_config_uri (px_state p)"
  define fresh where "fresh = fresh_candidates uri (ps_failed_config_keys (px_state p)) ranked"
  define p2 where "p2 = (if fresh = []
    then set_state (\<lambda>s. s\<lparr>ps_failed_config_keys := []\<rparr>) (emit_log ''proxy: blacklist cleared'' p1) else p1)"
  define cs where "cs = (if fresh = [] then other_candidates uri ranked else fresh)"
  have p1: "proxy_base env p1" "px_state p1 = px_state p"
    using assms(2) by (auto simp: p1_def base_tick split: option.splits)
  have p2: "proxy_base env p2" "ps_proxy_config (px_state p2) = ps_proxy_config (px_state p)"
    "ps_active_config_uri (px_state p2) = uri"
    using p1 base_bounds[OF p1(1)] by (auto simp: p2_def uri_def intro: base_set_state)
  have t: "try_candidates env cs p2 = (result, p')"
    using assms(1) by (cases "fresh = []") (simp_all add: failover_def Let_def p1_def uri_def fresh_def p2_def cs_def)
  have "c \<in> set cs \<Longrightarrow> c \<in> set ranked \<and> r_reachable c \<and> uri \<noteq> Some (r_uri c)" for c
    by (auto simp: cs_def fresh_def fresh_candidates_def other_candidates_def split: if_splits)
  with try_candidates_result[OF t p2(1)] p2 show ?thesis
    unfolding uri_def by (cases result) (simp_all, blast)
qed

lemma switch_reason_kept:
  assumes "switch_reason env best p = (reason, p')" and "proxy_base env p" and "proxy_synced p"
  shows "proxy_base env p' \<and> proxy_synced p'"
  using assms alive_frame(6,7)[of env p]
  by (auto simp: switch_reason_def Let_def split: option.splits if_splits prod.splits)

lemma switch_to_kept:
  assumes "proxy_base env p"
  shows "proxy_base env (switch_to env config reason best p) \<and> proxy_synced (switch_to env config reason best p)"
proof -
  obtain result p1 where s: "start_with_config env best p = (result, p1)" by fastforce
  show ?thesis
  proof (cases result)
    case (Inl e)
    then show ?thesis
      using s start_base[OF s assms] start_frame(4)[OF s] by (simp add: switch_to_def proxy_synced_def)
  next
    case (Inr u)
    define log where "log = emit_log (''proxy: '' @ reason @ '' '' @ ARROW @ '' '' @ r_name best @ '' (port ''
             @ show_nat (xc_port config) @ '')'') p1"
    obtain m where m: "ps_running (px_state p1)" "px_process p1 = Some m" "mp_uri m = r_uri best"
      "mp_port m = xc_port (ps_proxy_config (px_state p1))"
      using start_frame(3,5)[OF s] Inr by auto
    have "proxy_base env log" "px_state log = px_state p1" "px_process log = px_process p1"
      using start_base[OF s assms] by (simp_all add: log_def)
    let ?f = "\<lambda>s. s\<lparr>ps_active_config_uri := Some (r_uri best),
            ps_active_config_name := Some (r_name best), ps_active_config_country := r_country_code best,
            ps_consecutive_failures := 0\<rparr>"
    have "proxy_base env (set_state ?f log) \<and> runs_config (set_state ?f log) best"
      by (rule adopt[of env log m])
        (use \<open>proxy_base env log\<close> \<open>px_state log = px_state p1\<close> \<open>px_process log = px_process p1\<close> m in simp_all)
    moreover have "switch_to env config reason best p = set_state ?f log"
      using s Inr by (simp add: switch_to_def log_def)
    ultimately show ?thesis using runs_config_synced by metis
  qed
qed

lemma update_kept:
  assumes "proxy_base env p" and "proxy_synced p"
  shows "proxy_base env (update env config ranked p) \<and> proxy_synced (update env config ranked p)"
proof -
  define p0 where "p0 = set_state (\<lambda>s. s\<lparr>ps_proxy_config := config, ps_failed_config_keys := []\<rparr>) p"
  have p0: "proxy_base env p0" "proxy_synced p0"
    using assms base_bounds[OF assms(1)] by (auto simp: p0_def proxy_synced_def intro: base_set_state)
  have stopped: "proxy_base env p1 \<Longrightarrow> proxy_base env (stop (emit_log m p1)) \<and> proxy_synced (stop (emit_log m p1))" for p1 m
    by (simp add: stop_base proxy_synced_def)
  show ?thesis
  proof (cases "xc_enabled config")
    case False
    then show ?thesis
      using p0 stopped alive_frame(6,7)[of env p0]
      by (auto simp: update_def p0_def[symmetric] Let_def split: prod.splits)
  next
    case True
    show ?thesis
    proof (cases "find r_reachable ranked")
      case None
      then show ?thesis using True p0 by (simp add: update_def p0_def[symmetric] Let_def)
    next
      case (Some best)
      obtain reason p1 where r: "switch_reason env best p0 = (reason, p1)" by fastforce
      show ?thesis
        using True Some r switch_reason_kept[OF r p0] switch_to_kept[of env p1 config]
        by (cases reason) (simp_all add: update_def p0_def[symmetric] Let_def)
    qed
  qed
qed

subsection \<open>Reachable states\<close>

lemma loop_turn_kept:
  assumes "proxy_base env (sy_proxy s)" and "proxy_synced (sy_proxy s)"
  shows "proxy_base env (sy_proxy (loop_turn env s)) \<and> proxy_synced (sy_proxy (loop_turn env s))"
proof (cases "sy_pc s")
  case Reading
  then show ?thesis using assms by (simp add: loop_turn_def Let_def)
next
  case (Waiting running failures)
  obtain ok p where h: "health_check env (sy_proxy s) = (ok, p)" by fastforce
  show ?thesis
    using Waiting h assms health_frame(4,5)[OF h] by (simp add: loop_turn_def Let_def)
next
  case FailoverDue
  obtain result p where f: "failover env (sy_ranked s) (sy_proxy s) = (result, p)" by fastforce
  from failover_result[OF f assms(1)] have "proxy_base env p \<and> proxy_synced p"
    by (cases result) (auto simp: proxy_synced_def dest: runs_config_synced)
  then show ?thesis using FailoverDue f by (cases result) (simp_all add: loop_turn_def)
qed

lemma stop_synced [simp]: "proxy_synced (stop p)"
  by (simp add: proxy_synced_def)

lemma step_kept:
  "proxy_step env s s' \<Longrightarrow> proxy_base env (sy_proxy s) \<Longrightarrow> proxy_synced (sy_proxy s) \<Longrightarrow>
     proxy_base env (sy_proxy s') \<and> proxy_synced (sy_proxy s')"
  by (erule proxy_stepE) (simp_all add: loop_turn_kept update_kept shutdown_def stop_base)

interpretation proxy_states: transition_system "\<lambda>s. \<exists>config path. s = proxy_system_new config path"
  "proxy_step env" "proxy_reachable env" for env
proof unfold_locales
  show "proxy_reachable env s \<Longrightarrow> (\<And>s. \<exists>config path. s = proxy_system_new config path \<Longrightarrow> P s)
      \<Longrightarrow> (\<And>s s'. proxy_reachable env s \<Longrightarrow> P s \<Longrightarrow> proxy_step env s s' \<Longrightarrow> P s') \<Longrightarrow> P s" for s P
    by (erule proxy_reachable.induct) blast+
qed (auto intro: proxy_reachable.intros)

text \<open>
  C10: In every state the health loop, refreshes and shutdowns can reach in any order, the proxy that
  reports itself running has a process that runs the active configuration, built from the active
  link, with its file in place; the list of recently failed configurations stays within its bound.
\<close>

theorem proxy_invariant:
  "proxy_reachable env s \<Longrightarrow> proxy_base env (sy_proxy s) \<and> proxy_synced (sy_proxy s)"
proof (erule proxy_states.invariant)
  show "proxy_base env (sy_proxy s) \<and> proxy_synced (sy_proxy s)" if "\<exists>config path. s = proxy_system_new config path" for s
    using that by (auto simp: proxy_system_new_def persistent_proxy_new_def proxy_base_def proxy_synced_def)
qed (use step_kept in blast)

definition sample_outside :: "bool \<Rightarrow> outside" where
  "sample_outside healthy = \<lparr> ou_status = StillRunning, ou_write = Inr (), ou_spawn = Inr (),
     ou_port_ready = True, ou_client = True, ou_get = (\<lambda>_. if healthy then Some 204 else None), ou_now = 7 \<rparr>"

definition sample_proxy_env :: "bool \<Rightarrow> proxy_env" where
  "sample_proxy_env healthy = \<lparr> xe_crates = sample_crates, xe_version = None,
     xe_answer = (\<lambda>_. sample_outside healthy) \<rparr>"

definition sample_trojan :: "string \<Rightarrow> ranked_config" where
  "sample_trojan name = (sample_ranked name True 10)\<lparr>r_uri := ''trojan://'' @ name\<rparr>"

definition sample_proxy :: "bool \<Rightarrow> proxy" where
  "sample_proxy healthy = update (sample_proxy_env healthy) (proxy_config_default\<lparr>xc_enabled := True\<rparr>)
     [sample_trojan ''x''] (persistent_proxy_new proxy_config_default ''sing-box'')"

theorem proxy_invariant_witness:
  "proxy_base (sample_proxy_env True) (sample_proxy True) \<and> proxy_synced (sample_proxy True)"
proof -
  have "proxy_reachable (sample_proxy_env True)
      ((proxy_system_new proxy_config_default ''sing-box'')\<lparr>sy_proxy := sample_proxy True\<rparr>)"
    using proxy_reachable.step[OF proxy_reachable.start proxy_step.refresh]
    by (simp add: sample_proxy_def proxy_system_new_def)
  from proxy_invariant[OF this] show ?thesis by simp
qed

subsection \<open>Failover\<close>


lemma sample_proxy_base: "proxy_base (sample_proxy_env h) (sample_proxy h)"
  unfolding sample_proxy_def
  by (rule conjunct1[OF update_kept])
    (simp_all add: persistent_proxy_new_def proxy_base_def proxy_synced_def)


lemma failing_check:
  assumes "px_process p = Some m" and "ou_status (xe_answer env (px_tick p)) = StillRunning"
    and "ou_client (xe_answer env (Suc (px_tick p)))"
    and "\<not> health_urls_ok (ou_get (xe_answer env (Suc (px_tick p)))) (xc_health_check_url (ps_proxy_config (px_state p)))"
  shows "\<exists>p'. health_check env p = (False, p') \<and> px_process p' = Some m
     \<and> ps_running (px_state p') = ps_running (px_state p)
     \<and> ps_proxy_config (px_state p') = ps_proxy_config (px_state p)
     \<and> ps_consecutive_failures (px_state p') = sat_add u32_max (ps_consecutive_failures (px_state p)) 1"
  using assms by (simp add: health_check_def is_process_alive_def Let_def)

text \<open>The loop is about to read the state of a running proxy after \<open>k\<close> failed checks in a row.\<close>

definition failing :: "managed_process \<Rightarrow> proxy_config \<Rightarrow> nat \<Rightarrow> proxy_system \<Rightarrow> bool" where
  "failing m config k s \<longleftrightarrow> sy_pc s = Reading \<and> px_process (sy_proxy s) = Some m
     \<and> ps_running (px_state (sy_proxy s)) \<and> ps_proxy_config (px_state (sy_proxy s)) = config
     \<and> xc_health_check_interval_seconds config \<noteq> 0
     \<and> ps_consecutive_failures (px_state (sy_proxy s)) = k"

lemma failing_round:
  assumes "failing m config k s" and "k < u32_max"
    and all: "\<And>n. ou_status (xe_answer env n) = StillRunning \<and> ou_client (xe_answer env n)
      \<and> \<not> health_urls_ok (ou_get (xe_answer env n)) (xc_health_check_url config)"
  shows "sy_pc (loop_turn env s) \<noteq> FailoverDue"
    and "if k < PROXY_MAX_CONSECUTIVE_FAILURES then failing m config (Suc k) (loop_turn env (loop_turn env s))
         else sy_pc (loop_turn env (loop_turn env s)) = FailoverDue"
proof -
  let ?s1 = "loop_turn env s"
  have one: "sy_pc ?s1 = Waiting True k" "sy_proxy ?s1 = sy_proxy s"
    using assms(1) by (simp_all add: loop_turn_def failing_def Let_def)
  then show "sy_pc ?s1 \<noteq> FailoverDue" by simp
  obtain p where p: "health_check env (sy_proxy s) = (False, p)" "px_process p = Some m"
    "ps_running (px_state p)" "ps_proxy_config (px_state p) = config"
    "ps_consecutive_failures (px_state p) = Suc k"
    using failing_check[of "sy_proxy s" m env] assms by (auto simp: failing_def sat_add_def)
  show "if k < PROXY_MAX_CONSECUTIVE_FAILURES then failing m config (Suc k) (loop_turn env ?s1)
         else sy_pc (loop_turn env ?s1) = FailoverDue"
    using one p assms(1) by (simp add: loop_turn_def[of env ?s1] failing_def)
qed

text \<open>
  C12: The health loop fails over on the fourth failed check in a row, not on the third: it compares the
  number of failures it read before the check, so three checks only count (two turns of the loop
  each) and the fourth makes the failover due.
\<close>

theorem failover_on_fourth_failure:
  assumes "failing m config 0 s"
    and "\<And>n. ou_status (xe_answer env n) = StillRunning \<and> ou_client (xe_answer env n)
      \<and> \<not> health_urls_ok (ou_get (xe_answer env n)) (xc_health_check_url config)"
  shows "(\<forall>n<8. sy_pc ((loop_turn env ^^ n) s) \<noteq> FailoverDue)
    \<and> failing m config 3 ((loop_turn env ^^ 6) s)
    \<and> sy_pc ((loop_turn env ^^ 8) s) = FailoverDue"
proof -
  note round1 = failing_round[OF _ _ assms(2), where m = m]
  let ?t = "loop_turn env"
  have a: "failing m config 1 (?t (?t s))" "sy_pc (?t s) \<noteq> FailoverDue"
    using round1[OF assms(1)] by (simp_all add: PROXY_MAX_CONSECUTIVE_FAILURES_def u32_max_def)
  have b: "failing m config 2 (?t (?t (?t (?t s))))" "sy_pc (?t (?t (?t s))) \<noteq> FailoverDue"
    using round1[OF a(1)] by (simp_all add: PROXY_MAX_CONSECUTIVE_FAILURES_def u32_max_def numeral_2_eq_2)
  have c: "failing m config 3 (?t (?t (?t (?t (?t (?t s))))))" "sy_pc (?t (?t (?t (?t (?t s))))) \<noteq> FailoverDue"
    using round1[OF b(1)] by (simp_all add: PROXY_MAX_CONSECUTIVE_FAILURES_def u32_max_def numeral_3_eq_3)
  have d: "sy_pc (?t (?t (?t (?t (?t (?t (?t (?t s)))))))) = FailoverDue"
    "sy_pc (?t (?t (?t (?t (?t (?t (?t s))))))) \<noteq> FailoverDue"
    using round1[OF c(1)] by (simp_all add: PROXY_MAX_CONSECUTIVE_FAILURES_def u32_max_def)
  have "failing m config k x \<Longrightarrow> sy_pc x \<noteq> FailoverDue" for k x by (simp add: failing_def)
  note reading = this[OF assms(1)] this[OF a(1)] this[OF b(1)] this[OF c(1)]
  have early: "\<forall>n<8. sy_pc ((?t ^^ n) s) \<noteq> FailoverDue"
    using reading a(2) b(2) c(2) d(2) by (simp add: eval_nat_numeral All_less_Suc)
  have "(?t ^^ 6) s = ?t (?t (?t (?t (?t (?t s)))))" "(?t ^^ 8) s = ?t (?t ((?t ^^ 6) s))"
    by (simp_all add: eval_nat_numeral)
  with early c(1) d(1) show ?thesis by simp
qed

theorem failover_on_fourth_failure_witness:
  "\<exists>m config s. (\<forall>n<8. sy_pc ((loop_turn (sample_proxy_env False) ^^ n) s) \<noteq> FailoverDue)
    \<and> failing m config 3 ((loop_turn (sample_proxy_env False) ^^ 6) s)
    \<and> sy_pc ((loop_turn (sample_proxy_env False) ^^ 8) s) = FailoverDue"
proof -
  let ?p = "sample_proxy False"
  let ?s = "\<lparr>sy_proxy = ?p, sy_pc = Reading, sy_last_interval = 0, sy_ranked = []\<rparr>"
  have "px_process ?p \<noteq> None" "ps_running (px_state ?p)" "ps_consecutive_failures (px_state ?p) = 0"
    "xc_health_check_interval_seconds (ps_proxy_config (px_state ?p)) \<noteq> 0"
    by code_simp+
  then have "failing (the (px_process ?p)) (ps_proxy_config (px_state ?p)) 0 ?s"
    by (simp add: failing_def)
  from failover_on_fourth_failure[OF this, of "sample_proxy_env False"] show ?thesis
    by (simp add: sample_proxy_env_def sample_outside_def health_urls_ok_def health_fallback_urls_def) blast
qed

subsection \<open>Where the failover does not happen\<close>

definition idle_loop :: "proxy \<Rightarrow> proxy_system \<Rightarrow> bool" where
  "idle_loop p s \<longleftrightarrow> sy_proxy s = p \<and> \<not> ps_running (px_state p) \<and> (sy_pc s = Reading \<or> (\<exists>k. sy_pc s = Waiting False k))"

lemma idle_loop_turn: "idle_loop p s \<Longrightarrow> idle_loop p (loop_turn env s)"
  by (cases "sy_pc s") (auto simp: idle_loop_def loop_turn_def Let_def split: if_split)

lemma idle_loop_facts: "idle_loop p s \<Longrightarrow> sy_proxy s = p \<and> sy_pc s \<noteq> FailoverDue"
  by (auto simp: idle_loop_def)

lemma idle_loop_forever: "idle_loop p s \<Longrightarrow> idle_loop p ((loop_turn env ^^ n) s)"
  by (induction n) (simp_all add: idle_loop_turn)

text \<open>
  When the process of the proxy has exited, the check that finds out counts as one failure only, the
  proxy is marked as not running, and from then on the health loop does nothing at all: however long
  it runs it never fails over, until a refresh updates the proxy.
\<close>

lemma crashed_process_never_failed_over:
  assumes "sy_pc s = Waiting True failures" and "failures < PROXY_MAX_CONSECUTIVE_FAILURES"
    and "px_process (sy_proxy s) = Some m"
    and "ou_status (xe_answer env (px_tick (sy_proxy s))) = Exited"
  shows "\<exists>p. px_process p = None \<and> \<not> ps_running (px_state p)
     \<and> ps_consecutive_failures (px_state p) = ps_consecutive_failures (px_state (sy_proxy s))
     \<and> (\<forall>n. sy_proxy ((loop_turn env ^^ Suc n) s) = p \<and> sy_pc ((loop_turn env ^^ Suc n) s) \<noteq> FailoverDue)"
proof -
  obtain p where h: "health_check env (sy_proxy s) = (False, p)" "px_process p = None"
    "\<not> ps_running (px_state p)"
    "ps_consecutive_failures (px_state p) = ps_consecutive_failures (px_state (sy_proxy s))"
    using assms(3,4) by (simp add: health_check_def is_process_alive_def Let_def)
  let ?p = "emit_log (''proxy: health fail '' @ show_nat (failures + 1) @ ''/''
                     @ show_nat PROXY_MAX_CONSECUTIVE_FAILURES) p"
  have "idle_loop ?p (loop_turn env s)"
    using assms(1,2) h by (simp add: loop_turn_def idle_loop_def)
  then have "idle_loop ?p ((loop_turn env ^^ n) (loop_turn env s))" for n
    by (rule idle_loop_forever)
  then have "sy_proxy ((loop_turn env ^^ Suc n) s) = ?p \<and> sy_pc ((loop_turn env ^^ Suc n) s) \<noteq> FailoverDue" for n
    unfolding funpow_Suc_right o_apply by (rule idle_loop_facts)
  with h show ?thesis by (intro exI[of _ ?p]) simp
qed

lemma crashed_process_never_failed_over_example:
  "\<exists>env s p. px_process (sy_proxy s) \<noteq> None \<and> px_process p = None
     \<and> (\<forall>n. sy_proxy ((loop_turn env ^^ Suc n) s) = p \<and> sy_pc ((loop_turn env ^^ Suc n) s) \<noteq> FailoverDue)"
proof -
  let ?env = "(sample_proxy_env True)\<lparr>xe_answer := (\<lambda>_. (sample_outside True)\<lparr>ou_status := Exited\<rparr>)\<rparr>"
  let ?s = "\<lparr>sy_proxy = sample_proxy True, sy_pc = Waiting True 0, sy_last_interval = 60, sy_ranked = []\<rparr>"
  have "px_process (sample_proxy True) \<noteq> None" by code_simp
  then obtain m where m: "px_process (sy_proxy ?s) = Some m" by auto
  have "ou_status (xe_answer ?env (px_tick (sy_proxy ?s))) = Exited" by simp
  from crashed_process_never_failed_over[OF _ _ m this, of 0] m
  have "\<exists>p. px_process (sy_proxy ?s) \<noteq> None \<and> px_process p = None
     \<and> (\<forall>n. sy_proxy ((loop_turn ?env ^^ Suc n) ?s) = p \<and> sy_pc ((loop_turn ?env ^^ Suc n) ?s) \<noteq> FailoverDue)"
    by (simp add: PROXY_MAX_CONSECUTIVE_FAILURES_def del: funpow.simps) blast
  then show ?thesis by blast
qed

subsection \<open>Changes of the port\<close>

text \<open>
  An update with a changed port (or \<open>discoverable\<close>) but the same best configuration leaves the running
  process alone, on the old port, while the snapshot already reports the new port.
\<close>

lemma update_keeps_the_old_port:
  assumes "xc_enabled config" and "find r_reachable ranked = Some best"
    and "ps_running (px_state p)" and "px_process p = Some m"
    and "ps_active_config_uri (px_state p) = Some (r_uri best)"
    and "ps_consecutive_failures (px_state p) < PROXY_MAX_CONSECUTIVE_FAILURES"
    and "ou_status (xe_answer env (px_tick p)) = StillRunning"
  shows "px_process (update env config ranked p) = Some m
     \<and> pn_port (proxy_snapshot_of (update env config ranked p)) = Some (xc_port config)"
  using assms
  by (simp add: update_def switch_reason_def is_process_alive_def proxy_snapshot_of_def Let_def)

lemma update_keeps_the_old_port_example:
  "\<exists>m. px_process (sample_proxy True) = Some m \<and> mp_port m = 27910
     \<and> (let p = update (sample_proxy_env True) (proxy_config_default\<lparr>xc_enabled := True, xc_port := 9\<rparr>)
           [sample_trojan ''x''] (sample_proxy True)
        in px_process p = Some m \<and> pn_port (proxy_snapshot_of p) = Some 9)"
proof -
  let ?p = "sample_proxy True"
  have "px_process ?p \<noteq> None" "map_option mp_port (px_process ?p) = Some 27910" by code_simp+
  then obtain m where m: "px_process ?p = Some m" "mp_port m = 27910" by auto
  have a: "ps_running (px_state ?p)"
    "ps_active_config_uri (px_state ?p) = Some (r_uri (sample_trojan ''x''))"
    "ps_consecutive_failures (px_state ?p) < PROXY_MAX_CONSECUTIVE_FAILURES" by code_simp+
  have b: "find r_reachable [sample_trojan ''x''] = Some (sample_trojan ''x'')"
    by (simp add: sample_trojan_def sample_ranked_def)
  have c: "ou_status (xe_answer (sample_proxy_env True) (px_tick ?p)) = StillRunning"
    by (simp add: sample_proxy_env_def sample_outside_def)
  from update_keeps_the_old_port[OF _ b a(1) m(1) a(2,3) c, of "proxy_config_default\<lparr>xc_enabled := True, xc_port := 9\<rparr>"] m
  show ?thesis by (simp add: Let_def)
qed

subsection \<open>The files of failed starts\<close>

text \<open>A file on the disk that no process refers to.\<close>

definition leaked :: "nat \<Rightarrow> proxy \<Rightarrow> bool" where
  "leaked f p \<longleftrightarrow> f \<in> set (px_files p) \<and> f < px_tick p
     \<and> (\<forall>m. px_process p = Some m \<longrightarrow> mp_config_path m \<noteq> f)"

lemma leaked_simps [simp]:
  "leaked f (set_state g p) = leaked f p" "leaked f (emit_log m p) = leaked f p"
  by (simp_all add: leaked_def)

lemma leaked_tick: "leaked f p \<Longrightarrow> leaked f (p\<lparr>px_tick := Suc (px_tick p)\<rparr>)"
  by (simp add: leaked_def)

lemma leaked_stop: "leaked f p \<Longrightarrow> leaked f (stop p)"
  by (auto simp: leaked_def stop_def Let_def split: option.splits)

lemma leaked_alive: "is_process_alive env p = (b, p') \<Longrightarrow> leaked f p \<Longrightarrow> leaked f p'"
  by (auto simp: leaked_def is_process_alive_def Let_def split: option.splits child_status.splits)

lemma leaked_start: "start_with_config env c p = (result, p') \<Longrightarrow> leaked f p \<Longrightarrow> leaked f p'"
  using leaked_stop[of f p]
  by (auto simp: start_with_config_def Let_def leaked_def split: sum.splits if_splits)

lemma leaked_health: "health_check env p = (ok, p') \<Longrightarrow> leaked f p \<Longrightarrow> leaked f p'"
  using leaked_alive[of env p]
  by (auto simp: health_check_def Let_def leaked_tick split: if_splits prod.splits)

lemma leaked_start_checked: "start_checked env c p = (ok, p') \<Longrightarrow> leaked f p \<Longrightarrow> leaked f p'"
  using leaked_start[of env c p] leaked_health
  by (auto simp: start_checked_def Let_def split: sum.splits prod.splits)

lemma leaked_try: "try_candidates env cs p = (result, p') \<Longrightarrow> leaked f p \<Longrightarrow> leaked f p'"
proof (induction cs arbitrary: p)
  case Nil
  then show ?case by auto
next
  case (Cons c cs)
  obtain ok p1 where s: "start_checked env c p = (ok, p1)" by fastforce
  have p1: "leaked f p1" using leaked_start_checked[OF s Cons.prems(2)] .
  then have p2: "leaked f (emit_log m p1\<lparr>px_tick := Suc (px_tick p1)\<rparr>)" for m
    using leaked_tick[of f "emit_log m p1"] by simp
  show ?case
  proof (cases ok)
    case True
    then show ?thesis
      using Cons.prems(1) s p2 unfolding try_candidates_Cons by (auto simp: Let_def)
  next
    case False
    then show ?thesis
      using Cons.prems(1) s p1 Cons.IH unfolding try_candidates_Cons by (simp add: Let_def)
  qed
qed

lemma leaked_failover: "failover env ranked p = (result, p') \<Longrightarrow> leaked f p \<Longrightarrow> leaked f p'"
  by (auto simp: failover_def Let_def leaked_tick split: if_splits option.splits elim!: leaked_try)

lemma leaked_update: "leaked f p \<Longrightarrow> leaked f (update env config ranked p)"
proof -
  assume "leaked f p"
  then have p0: "leaked f (set_state g p)" for g by simp
  have sw: "leaked f q \<Longrightarrow> leaked f (switch_to env config reason best q)" for q reason best
    using leaked_start[of env best q] by (auto simp: switch_to_def split: prod.splits sum.splits)
  have re: "switch_reason env best q = (reason, q') \<Longrightarrow> leaked f q \<Longrightarrow> leaked f q'" for q reason q' best
    using leaked_alive[of env q] by (auto simp: switch_reason_def Let_def split: option.splits if_splits prod.splits)
  show ?thesis
    unfolding update_def Let_def
    using p0 sw re leaked_alive leaked_stop
    by (auto split: option.splits prod.splits)
qed

lemma leaked_turn: "leaked f (sy_proxy s) \<Longrightarrow> leaked f (sy_proxy (loop_turn env s))"
proof -
  assume l: "leaked f (sy_proxy s)"
  show ?thesis
  proof (cases "sy_pc s")
    case Reading
    then show ?thesis using l by (simp add: loop_turn_def Let_def)
  next
    case (Waiting running failures)
    obtain ok p where h: "health_check env (sy_proxy s) = (ok, p)" by fastforce
    then show ?thesis using l leaked_health[OF h l] Waiting by (simp add: loop_turn_def Let_def)
  next
    case FailoverDue
    obtain r p where r: "failover env (sy_ranked s) (sy_proxy s) = (r, p)" by fastforce
    then show ?thesis using leaked_failover[OF r l] FailoverDue by (cases r) (simp_all add: loop_turn_def)
  qed
qed

lemma leaked_step: "proxy_step env s s' \<Longrightarrow> leaked f (sy_proxy s) \<Longrightarrow> leaked f (sy_proxy s')"
proof (erule proxy_stepE, goal_cases)
  case 1
  then show ?case by (simp add: leaked_turn)
qed (simp_all add: leaked_update shutdown_def leaked_stop)

text \<open>
  A start that fails after its configuration was written (the process does not start, or its port
  does not come up) leaves the file, with the credentials of the link in it, on the disk for
  good: no later step of the proxy removes it.
\<close>

lemma failed_start_leaks_config:
  assumes "sing_box_outbound_from_share_link (xe_crates env) (r_uri c) = Inr outbound"
    and "ou_write (xe_answer env (px_tick (sy_proxy s))) = Inr ()"
    and "isl (ou_spawn (xe_answer env (px_tick (sy_proxy s)))) \<or> \<not> ou_port_ready (xe_answer env (px_tick (sy_proxy s)))"
    and "start_with_config env c (sy_proxy s) = (result, p)"
    and "(proxy_step env)\<^sup>*\<^sup>* (s\<lparr>sy_proxy := p\<rparr>) s'"
  shows "isl result \<and> px_tick (sy_proxy s) \<in> set (px_files (sy_proxy s'))
     \<and> (\<forall>m. px_process (sy_proxy s') = Some m \<longrightarrow> mp_config_path m \<noteq> px_tick (sy_proxy s))"
proof -
  let ?f = "px_tick (sy_proxy s)"
  have "isl result \<and> leaked ?f p"
    using assms(1-4) by (auto simp: start_with_config_def Let_def leaked_def split: sum.splits if_splits)
  moreover from assms(5) have "leaked ?f p \<Longrightarrow> leaked ?f (sy_proxy s')"
    by (induction rule: rtranclp_induct) (simp, blast intro: leaked_step)
  ultimately show ?thesis by (simp add: leaked_def)
qed

lemma failed_start_leaks_config_example:
  "\<exists>env s s'. (proxy_step env)\<^sup>*\<^sup>* s s' \<and> px_process (sy_proxy s') = None \<and> px_files (sy_proxy s') \<noteq> []"
proof -
  let ?env = "(sample_proxy_env True)\<lparr>xe_answer := (\<lambda>_. (sample_outside True)\<lparr>ou_port_ready := False\<rparr>)\<rparr>"
  let ?s = "proxy_system_new proxy_config_default ''sing-box''"
  let ?c = "sample_trojan ''x''"
  have "\<not> isl (sing_box_outbound_from_share_link sample_crates (r_uri ?c))" by code_simp
  then obtain outbound where o: "sing_box_outbound_from_share_link (xe_crates ?env) (r_uri ?c) = Inr outbound"
    using not_isl_Inr[of "sing_box_outbound_from_share_link sample_crates (r_uri ?c)"]
    by (auto simp: sample_proxy_env_def)
  obtain result p where st: "start_with_config ?env ?c (sy_proxy ?s) = (result, p)" by fastforce
  let ?s1 = "?s\<lparr>sy_proxy := p\<rparr>" and ?s2 = "?s\<lparr>sy_proxy := shutdown p\<rparr>"
  have steps: "(proxy_step ?env)\<^sup>*\<^sup>* ?s1 ?s2"
    using proxy_step.halt[of ?env ?s1] by (simp add: r_into_rtranclp)
  have "ou_write (xe_answer ?env (px_tick (sy_proxy ?s))) = Inr ()"
    "\<not> ou_port_ready (xe_answer ?env (px_tick (sy_proxy ?s)))"
    by (simp_all add: sample_outside_def)
  from failed_start_leaks_config[OF o this(1) disjI2[OF this(2)] st steps]
  have "px_files (sy_proxy ?s2) \<noteq> []" by auto
  moreover have "px_process (sy_proxy ?s2) = None" by (simp add: shutdown_def)
  ultimately show ?thesis using steps by blast
qed

end
