(* ===== verification/Db.thy ===== *)
theory Db
  imports Ranking Json
begin

text \<open>
  The database (\<open>src/db.rs\<close>): its two tables as the statements of the source leave them.  A row
  of \<open>configs\<close> is a record with its columns, the table the list of its rows; integer columns hold
  64-bit signed numbers, so the casts of the source are written out.  Opening the file and the
  time stamps' text come from outside; whether a statement fails is the caller's parameter.
\<close>

subsection \<open>Columns\<close>

text \<open>\<open>as i64\<close> of an unsigned number, and \<open>as u128\<close>, \<open>as usize\<close>, \<open>as u16\<close> back.\<close>

definition as_i64 :: "nat \<Rightarrow> int" where
  "as_i64 n = (let m = int n mod 2 ^ 64 in if m < 2 ^ 63 then m else m - 2 ^ 64)"

definition as_unsigned :: "nat \<Rightarrow> int \<Rightarrow> nat" where
  "as_unsigned bits v = nat (v mod 2 ^ bits)"

record db_row =
  d_id :: nat
  d_dedup_key :: string
  d_uri :: string
  d_source :: string
  d_priority :: nat
  d_protocol :: string
  d_name :: string
  d_endpoint_host :: string
  d_endpoint_port :: nat
  d_reachable :: int
  d_validation :: string
  d_latency_ms :: "int option"
  d_http_status :: "int option"
  d_download_mbps :: "f64 option"
  d_download_bytes :: "int option"
  d_country_code :: "string option"
  d_stability_count :: nat
  d_last_online :: string
  d_created_at :: string
  d_updated_at :: string

record database =
  db_configs :: "db_row list"
  db_sequence :: nat
  db_stable_top :: "string option"

definition empty_database :: database where
  "empty_database = \<lparr>db_configs = [], db_sequence = 0, db_stable_top = None\<rparr>"

text \<open>A REAL column stores a NaN as NULL.\<close>

fun real_column :: "f64 option \<Rightarrow> f64 option" where
  "real_column (Some NaN) = None"
| "real_column v = v"

definition row_of_config :: "string \<Rightarrow> nat \<Rightarrow> ranked_config \<Rightarrow> db_row" where
  "row_of_config now i c = \<lparr>
     d_id = i, d_dedup_key = r_dedup_key c, d_uri = r_uri c, d_source = r_source c,
     d_priority = r_priority c, d_protocol = r_protocol c, d_name = r_name c,
     d_endpoint_host = ep_host (r_endpoint c), d_endpoint_port = ep_port (r_endpoint c),
     d_reachable = of_bool (r_reachable c), d_validation = r_validation c,
     d_latency_ms = map_option as_i64 (r_latency_ms c), d_http_status = map_option int (r_http_status c),
     d_download_mbps = real_column (r_download_mbps c),
     d_download_bytes = map_option as_i64 (r_download_bytes c), d_country_code = r_country_code c,
     d_stability_count = r_stability_count c, d_last_online = now, d_created_at = now, d_updated_at = now \<rparr>"

subsection \<open>Storing results\<close>

text \<open>The \<open>ON CONFLICT\<close> clause: the row that is there, updated from the excluded one.\<close>

definition update_row :: "db_row \<Rightarrow> db_row \<Rightarrow> db_row" where
  "update_row excluded row = excluded\<lparr>
     d_id := d_id row, d_created_at := d_created_at row,
     d_last_online := (if d_reachable excluded = 1 then d_last_online excluded else d_last_online row) \<rparr>"

definition upsert_row :: "string \<Rightarrow> ranked_config \<Rightarrow> database \<Rightarrow> database" where
  "upsert_row now c db =
     (if r_dedup_key c \<in> d_dedup_key ` set (db_configs db)
      then db\<lparr>db_configs := map (\<lambda>row. if d_dedup_key row = r_dedup_key c
                then update_row (row_of_config now (d_id row) c) row else row) (db_configs db)\<rparr>
      else db\<lparr>db_configs := db_configs db @ [row_of_config now (Suc (db_sequence db)) c],
              db_sequence := Suc (db_sequence db)\<rparr>)"

text \<open>
  \<open>executed c\<close> is what executing the statement for a result returns; an error ends the loop and
  leaves what is stored so far, since there is no transaction.
\<close>

fun upsert_configs ::
  "(ranked_config \<Rightarrow> unit result) \<Rightarrow> string \<Rightarrow> ranked_config list \<Rightarrow> database \<Rightarrow> unit result \<times> database" where
  "upsert_configs executed now [] db = (Inr (), db)"
| "upsert_configs executed now (c # configs) db =
     (case executed c of
        Inl e \<Rightarrow> (Inl (''failed to upsert config with dedup_key='' @ r_dedup_key c), db)
      | Inr _ \<Rightarrow> upsert_configs executed now configs (upsert_row now c db))"

subsection \<open>Loading results\<close>

text \<open>\<open>ORDER BY stability_count DESC, latency_ms ASC NULLS LAST\<close>.\<close>

definition compare_rows :: "db_row \<Rightarrow> db_row \<Rightarrow> ordering" where
  "compare_rows a b =
     then_with (cmp (d_stability_count b) (d_stability_count a))
       (then_with (cmp (d_latency_ms a = None) (d_latency_ms b = None))
         (cmp (unwrap_or (d_latency_ms a) 0) (unwrap_or (d_latency_ms b) 0)))"

fun hex_digits :: "nat \<Rightarrow> nat \<Rightarrow> string" where
  "hex_digits 0 n = []"
| "hex_digits (Suc width) n = hex_digits width (n div 16)
     @ [let d = n mod 16 in char_of (if d < 10 then 48 + d else 87 + d)]"

definition config_of_row :: "nat \<Rightarrow> db_row \<Rightarrow> ranked_config" where
  "config_of_row rank row = \<lparr>
     r_rank = rank, r_stability_count = d_stability_count row, r_id = hex_digits 16 (d_id row),
     r_dedup_key = d_dedup_key row, r_source = d_source row, r_priority = d_priority row,
     r_protocol = d_protocol row, r_name = d_name row,
     r_endpoint = \<lparr>ep_host = d_endpoint_host row, ep_port = d_endpoint_port row\<rparr>, r_uri = d_uri row,
     r_reachable = (d_reachable row \<noteq> 0), r_validation = d_validation row,
     r_latency_ms = map_option (as_unsigned 128) (d_latency_ms row),
     r_http_status = map_option (as_unsigned 16) (d_http_status row),
     r_download_mbps = d_download_mbps row,
     r_download_bytes = map_option (as_unsigned 64) (d_download_bytes row),
     r_error = None, r_country_code = d_country_code row \<rparr>"

text \<open>
  \<open>visit\<close> is the order in which the engine visits the rows, which decides between equal ones.  A
  limit above the largest \<open>i64\<close> becomes negative, which means no limit.
\<close>

definition load_ranked_configs :: "(db_row list \<Rightarrow> db_row list) \<Rightarrow> database \<Rightarrow> nat \<Rightarrow> ranked_config list" where
  "load_ranked_configs visit db limit =
     (let rows = sort_by compare_rows (visit (filter (\<lambda>row. d_reachable row = 1) (db_configs db)));
          rows = (if as_i64 limit < 0 then rows else take (nat (as_i64 limit)) rows)
      in map (\<lambda>i. config_of_row (i + 1) (rows ! i)) [0..<length rows])"

text \<open>The rows in a form that evaluates.\<close>

fun number_rows :: "nat \<Rightarrow> db_row list \<Rightarrow> ranked_config list" where
  "number_rows n [] = []"
| "number_rows n (row # rows) = config_of_row n row # number_rows (Suc n) rows"

lemma number_rows_nth: "number_rows n rows = map (\<lambda>i. config_of_row (i + n) (rows ! i)) [0..<length rows]"
proof (induction rows arbitrary: n)
  case Nil
  then show ?case by simp
next
  case (Cons row rows)
  show ?case
    unfolding number_rows.simps Cons.IH by (simp add: upt_conv_Cons map_Suc_upt[symmetric] comp_def del: upt_Suc)
qed

lemma load_ranked_configs_code [code]:
  "load_ranked_configs visit db limit =
     (let rows = sort_by compare_rows (visit (filter (\<lambda>row. d_reachable row = 1) (db_configs db)))
      in number_rows 1 (if as_i64 limit < 0 then rows else take (nat (as_i64 limit)) rows))"
  by (simp only: load_ranked_configs_def number_rows_nth Let_def)

subsection \<open>The other statements\<close>

text \<open>\<open>cutoff\<close> is the text of \<open>datetime('now', '-N days')\<close>; texts compare byte by byte.\<close>

definition clean_offline_configs :: "string \<Rightarrow> database \<Rightarrow> nat \<times> database" where
  "clean_offline_configs cutoff db =
     (length (filter (\<lambda>row. d_last_online row < cutoff) (db_configs db)),
      db\<lparr>db_configs := filter (\<lambda>row. \<not> d_last_online row < cutoff) (db_configs db)\<rparr>)"

definition load_stable_top_keys :: "(string \<Rightarrow> string list result) \<Rightarrow> database \<Rightarrow> string set result" where
  "load_stable_top_keys from_str db =
     (case db_stable_top db of
        Some json \<Rightarrow> (case from_str json of
            Inr keys \<Rightarrow> Inr (set keys) | Inl e \<Rightarrow> Inl ''failed to parse stable_top keys JSON'')
      | None \<Rightarrow> Inr {})"

definition save_stable_top_keys :: "(string list \<Rightarrow> string) \<Rightarrow> string list \<Rightarrow> database \<Rightarrow> database" where
  "save_stable_top_keys to_string keys db = db\<lparr>db_stable_top := Some (to_string keys)\<rparr>"

definition delete_stable_top_keys :: "database \<Rightarrow> database" where
  "delete_stable_top_keys db = db\<lparr>db_stable_top := None\<rparr>"

definition delete_all :: "database \<Rightarrow> database" where
  "delete_all db = db\<lparr>db_configs := [], db_stable_top := None\<rparr>"

subsection \<open>The table as a map\<close>

definition db_ok :: "database \<Rightarrow> bool" where
  "db_ok db \<longleftrightarrow> distinct (map d_dedup_key (db_configs db)) \<and> distinct (map d_id (db_configs db))
     \<and> (\<forall>row\<in>set (db_configs db). 1 \<le> d_id row \<and> d_id row \<le> db_sequence db \<and> d_reachable row \<in> {0, 1})"

text \<open>What a row says of its key: the result it loads as, and when it was last reachable.\<close>

definition stored :: "db_row \<Rightarrow> ranked_config \<times> string" where
  "stored row = ((config_of_row 0 row)\<lparr>r_id := ''''\<rparr>, d_last_online row)"

definition db_map :: "database \<Rightarrow> (string \<rightharpoonup> ranked_config \<times> string)" where
  "db_map db key = map_option stored (find (\<lambda>row. d_dedup_key row = key) (db_configs db))"

text \<open>
  The abstract store: a result replaces what its key had, and the time it was last reachable moves
  only when it is reachable.
\<close>

definition as_loaded :: "ranked_config \<Rightarrow> ranked_config" where
  "as_loaded c = c\<lparr>r_rank := 0, r_id := '''', r_error := None, r_download_mbps := real_column (r_download_mbps c)\<rparr>"

definition map_upsert ::
  "string \<Rightarrow> ranked_config \<Rightarrow> (string \<rightharpoonup> ranked_config \<times> string) \<Rightarrow> (string \<rightharpoonup> ranked_config \<times> string)" where
  "map_upsert now c m = m(r_dedup_key c \<mapsto> (as_loaded c,
     (if r_reachable c then now else case m (r_dedup_key c) of Some (_, before) \<Rightarrow> before | None \<Rightarrow> now)))"

text \<open>The numbers of a result fit their columns.\<close>

definition fits_columns :: "ranked_config \<Rightarrow> bool" where
  "fits_columns c \<longleftrightarrow> (\<forall>v. r_latency_ms c = Some v \<longrightarrow> v < 2 ^ 63)
     \<and> (\<forall>v. r_download_bytes c = Some v \<longrightarrow> v \<le> usize_max) \<and> (\<forall>v. r_http_status c = Some v \<longrightarrow> v \<le> u16_max)"

lemma as_i64_small: "n < 2 ^ 63 \<Longrightarrow> as_i64 n = int n"
  by (simp add: as_i64_def Let_def)

lemma as_unsigned_i64: "n < 2 ^ 64 \<Longrightarrow> as_unsigned 64 (as_i64 n) = n"
  by (simp add: as_i64_def as_unsigned_def Let_def)

lemma as_unsigned_small: "n < 2 ^ bits \<Longrightarrow> as_unsigned bits (int n) = n"
  by (simp add: as_unsigned_def)

lemma stored_row:
  assumes "fits_columns c"
  shows "stored (row_of_config now i c) = (as_loaded c, now)"
proof -
  have "map_option (as_unsigned 128) (map_option as_i64 (r_latency_ms c)) = r_latency_ms c"
    using assms by (cases "r_latency_ms c") (auto simp: fits_columns_def as_i64_small as_unsigned_small)
  moreover have "map_option (as_unsigned 64) (map_option as_i64 (r_download_bytes c)) = r_download_bytes c"
    using assms by (cases "r_download_bytes c") (auto simp: fits_columns_def as_unsigned_i64 usize_max_def)
  moreover have "map_option (as_unsigned 16) (map_option int (r_http_status c)) = r_http_status c"
    using assms by (cases "r_http_status c") (auto simp: fits_columns_def as_unsigned_small u16_max_def)
  ultimately show ?thesis
    by (simp add: stored_def config_of_row_def row_of_config_def as_loaded_def)
qed

lemma stored_update:
  assumes "fits_columns c"
  shows "stored (update_row (row_of_config now i c) row)
    = (as_loaded c, if r_reachable c then now else d_last_online row)"
  using stored_row[OF assms, of now i]
  by (simp add: stored_def config_of_row_def update_row_def row_of_config_def)

lemma find_key: "distinct (map d_dedup_key rows) \<Longrightarrow> row \<in> set rows \<Longrightarrow>
    find (\<lambda>r. d_dedup_key r = d_dedup_key row) rows = Some row"
  by (induction rows) (auto simp: rev_image_eqI)

lemma find_map_rows:
  assumes "\<And>r. d_dedup_key (f r) = d_dedup_key r"
  shows "find (\<lambda>r. d_dedup_key r = key) (map f rows) = map_option f (find (\<lambda>r. d_dedup_key r = key) rows)"
  by (induction rows) (simp_all add: assms)

lemma row_keys [simp]:
  "d_dedup_key (row_of_config now i c) = r_dedup_key c" "d_id (row_of_config now i c) = i"
  "d_reachable (row_of_config now i c) = of_bool (r_reachable c)"
  "d_dedup_key (update_row e row) = d_dedup_key e" "d_id (update_row e row) = d_id row"
  "d_reachable (update_row e row) = d_reachable e"
  by (simp_all add: row_of_config_def update_row_def)

lemma upsert_row_ok:
  assumes "db_ok db"
  shows "db_ok (upsert_row now c db)"
proof (cases "r_dedup_key c \<in> d_dedup_key ` set (db_configs db)")
  case True
  let ?f = "\<lambda>row. if d_dedup_key row = r_dedup_key c then update_row (row_of_config now (d_id row) c) row else row"
  have "map d_dedup_key (map ?f (db_configs db)) = map d_dedup_key (db_configs db)"
    "map d_id (map ?f (db_configs db)) = map d_id (db_configs db)" by auto
  moreover have "d_reachable (?f row) \<in> {0, 1} \<and> d_id (?f row) = d_id row" if "row \<in> set (db_configs db)" for row
    using assms that by (auto simp: db_ok_def)
  ultimately show ?thesis
    using assms True by (auto simp: db_ok_def upsert_row_def simp del: map_map)
next
  case False
  have "Suc (db_sequence db) \<notin> d_id ` set (db_configs db)" using assms by (force simp: db_ok_def)
  with False assms show ?thesis by (auto simp: db_ok_def upsert_row_def)
qed

lemma upsert_row_map:
  assumes "db_ok db" and "fits_columns c"
  shows "db_map (upsert_row now c db) = map_upsert now c (db_map db)"
proof
  fix key
  let ?rows = "db_configs db"
  show "db_map (upsert_row now c db) key = map_upsert now c (db_map db) key"
  proof (cases "r_dedup_key c \<in> d_dedup_key ` set ?rows")
    case True
    then obtain row where row: "row \<in> set ?rows" "d_dedup_key row = r_dedup_key c" by auto
    then have found: "find (\<lambda>r. d_dedup_key r = r_dedup_key c) ?rows = Some row"
      using find_key[of ?rows row] assms(1) by (simp add: db_ok_def)
    let ?f = "\<lambda>row. if d_dedup_key row = r_dedup_key c then update_row (row_of_config now (d_id row) c) row else row"
    have "d_dedup_key (?f r) = d_dedup_key r" for r by simp
    from find_map_rows[of ?f, OF this]
    have "db_map (upsert_row now c db) key = map_option (stored \<circ> ?f) (find (\<lambda>r. d_dedup_key r = key) ?rows)"
      using True by (simp add: db_map_def upsert_row_def option.map_comp)
    moreover have "find (\<lambda>r. d_dedup_key r = key) ?rows = Some r \<Longrightarrow> d_dedup_key r = key" for r
      by (auto simp: find_Some_iff)
    ultimately show ?thesis
      using found row stored_update[OF assms(2)]
      by (cases "find (\<lambda>r. d_dedup_key r = key) ?rows") (auto simp: map_upsert_def db_map_def stored_def)
  next
    case False
    then have "find (\<lambda>r. d_dedup_key r = r_dedup_key c) ?rows = None" by (force simp: find_None_iff)
    with False show ?thesis
      using stored_row[OF assms(2)]
      by (auto simp: db_map_def upsert_row_def map_upsert_def find_append split: option.splits)
  qed
qed

text \<open>
  The contract of a store that keeps one entry per key: putting a value refines an operation on maps
  that changes the value's own key only.
\<close>

locale refined_store =
  fixes ok :: "'db \<Rightarrow> bool"
    and abs_map :: "'db \<Rightarrow> 'k \<rightharpoonup> 'v"
    and put :: "'c \<Rightarrow> 'db \<Rightarrow> 'db"
    and map_put :: "'c \<Rightarrow> ('k \<rightharpoonup> 'v) \<Rightarrow> ('k \<rightharpoonup> 'v)"
    and fits :: "'c \<Rightarrow> bool"
    and key_of :: "'c \<Rightarrow> 'k"
  assumes ok_put: "ok db \<Longrightarrow> ok (put c db)"
    and put_refines: "ok db \<Longrightarrow> fits c \<Longrightarrow> abs_map (put c db) = map_put c (abs_map db)"
    and put_local: "k \<noteq> key_of c \<Longrightarrow> map_put c m k = m k"
    and put_there: "map_put c m (key_of c) \<noteq> None"
begin

lemma fold_refines:
  "ok db \<Longrightarrow> \<forall>c\<in>set cs. fits c \<Longrightarrow> ok (fold put cs db) \<and> abs_map (fold put cs db) = fold map_put cs (abs_map db)"
  by (induction cs arbitrary: db) (auto simp: ok_put put_refines)

lemma fold_local: "k \<notin> key_of ` set cs \<Longrightarrow> fold map_put cs m k = m k"
  by (induction cs arbitrary: m) (auto simp: put_local)

lemma fold_there: "m k \<noteq> None \<or> k \<in> key_of ` set cs \<Longrightarrow> fold map_put cs m k \<noteq> None"
proof (induction cs arbitrary: m)
  case (Cons c cs)
  have "map_put c m k \<noteq> None \<or> k \<in> key_of ` set cs"
    using Cons.prems put_there put_local by (cases "k = key_of c") auto
  then show ?case using Cons.IH by simp
qed simp

text \<open>Storing changes the entries of the keys stored and no other, and after it they are all there.\<close>

lemma stored_keys:
  assumes "ok db" and "\<forall>c\<in>set cs. fits c"
  shows "dom (abs_map (fold put cs db)) = dom (abs_map db) \<union> key_of ` set cs
     \<and> (\<forall>k. k \<notin> key_of ` set cs \<longrightarrow> abs_map (fold put cs db) k = abs_map db k)"
  using fold_refines[OF assms] fold_local[of _ cs "abs_map db"] fold_there[of "abs_map db" _ cs] by (auto simp: dom_def)

end

interpretation result_store: refined_store db_ok db_map "upsert_row now" "map_upsert now" fits_columns r_dedup_key for now
  by unfold_locales (auto simp: upsert_row_ok upsert_row_map map_upsert_def)

lemma upsert_configs_fold:
  "\<forall>c\<in>set configs. executed c = Inr () \<Longrightarrow> upsert_configs executed now configs db = (Inr (), fold (upsert_row now) configs db)"
  by (induction configs arbitrary: db) auto

text \<open>Storing results leaves every other key's row as it is.\<close>

lemma upsert_keeps_other_keys:
  assumes "db_ok db" and "\<forall>c\<in>set configs. fits_columns c" and "\<forall>c\<in>set configs. executed c = Inr ()"
    and "key \<notin> r_dedup_key ` set configs"
  shows "db_map (snd (upsert_configs executed now configs db)) key = db_map db key"
  using result_store.stored_keys[OF assms(1,2)] assms(4) by (simp add: upsert_configs_fold[OF assms(3)])

text \<open>
  C15: The \<open>configs\<close> table implements the abstract store: storing results keeps the keys and the row
  ids unique and is, on the map the table stands for, replacing each key's result and moving its
  last-online time only when the result is reachable.
\<close>

theorem upsert_refines_map:
  assumes "db_ok db" and "\<forall>c\<in>set configs. fits_columns c" and "\<forall>c\<in>set configs. executed c = Inr ()"
  shows "\<exists>db'. upsert_configs executed now configs db = (Inr (), db')
     \<and> db_ok db' \<and> db_map db' = fold (map_upsert now) configs (db_map db)"
  using result_store.fold_refines[OF assms(1,2)] by (simp add: upsert_configs_fold[OF assms(3)])

lemma sample_fits: "fits_columns (sample_ranked key r 10)"
  by (simp add: fits_columns_def sample_ranked_def)

theorem upsert_refines_map_witness:
  "\<exists>db'. upsert_configs (\<lambda>_. Inr ()) ''t1'' [sample_ranked ''a'' True 10, sample_ranked ''a'' False 10] empty_database
       = (Inr (), db')
     \<and> db_ok db' \<and> db_map db' = fold (map_upsert ''t1'') [sample_ranked ''a'' True 10, sample_ranked ''a'' False 10] (db_map empty_database)"
  by (rule upsert_refines_map) (simp_all add: sample_fits db_ok_def empty_database_def)

subsection \<open>Loading\<close>

lemma comparator_rows: "comparator compare_rows (\<lambda>_. True)"
  unfolding compare_rows_def[abs_def] by (intro comparator_lex comparator_key comparator_key_rev)

interpretation rows: comparator compare_rows "\<lambda>_. True"
  by (rule comparator_rows)

lemma config_of_row_rank: "(config_of_row n row)\<lparr>r_rank := 0, r_id := ''''\<rparr> = fst (stored row)"
  by (simp add: stored_def config_of_row_def)

text \<open>
  Loading returns at most \<open>limit\<close> reachable results, numbered from one, one per key, each as its
  key's stored result; they come in the order of the query, and no reachable row that was left
  out would come before one that was returned.
\<close>

lemma load_ranked_configs_correct:
  assumes "db_ok db" and "\<And>rows. mset (visit rows) = mset rows" and "limit < 2 ^ 63"
  shows "\<exists>rows. load_ranked_configs visit db limit = map (\<lambda>i. config_of_row (i + 1) (rows ! i)) [0..<length rows]
     \<and> length rows = min limit (length (filter (\<lambda>row. d_reachable row = 1) (db_configs db)))
     \<and> distinct (map d_dedup_key rows)
     \<and> (\<forall>i<length rows. \<exists>since. db_map db (d_dedup_key (rows ! i))
           = Some ((config_of_row (i + 1) (rows ! i))\<lparr>r_rank := 0, r_id := ''''\<rparr>, since)
         \<and> r_reachable (config_of_row (i + 1) (rows ! i)))
     \<and> sorted_wrt (\<lambda>a b. compare_rows a b \<noteq> Greater) rows
     \<and> (\<forall>out\<in>set (db_configs db) - set rows. d_reachable out = 1 \<longrightarrow>
          (\<forall>row\<in>set rows. compare_rows row out \<noteq> Greater))"
proof -
  let ?all = "filter (\<lambda>row. d_reachable row = 1) (db_configs db)"
  let ?sorted = "sort_by compare_rows (visit ?all)"
  let ?rows = "take limit ?sorted"
  have limit: "as_i64 limit = int limit" by (rule as_i64_small[OF assms(3)])
  have m: "mset ?sorted = mset ?all" using assms(2) by simp
  then have sets: "set ?sorted = set ?all" and len: "length ?sorted = length ?all"
    by (metis set_mset_mset, metis size_mset)
  have "mset (map d_dedup_key ?sorted) = mset (map d_dedup_key ?all)" using m by simp
  moreover have "distinct (map d_dedup_key ?all)"
    using assms(1) by (auto simp: db_ok_def intro: distinct_map_filter)
  ultimately have dist: "distinct (map d_dedup_key ?sorted)" by (metis mset_eq_imp_distinct_iff)
  have sorted: "sorted_wrt (\<lambda>a b. compare_rows a b \<noteq> Greater) ?sorted"
    using rows.sorted_sort_by[of "visit ?all"] by (simp add: list_all_iff)
  have split: "?sorted = ?rows @ drop limit ?sorted" by simp
  have each: "\<exists>since. db_map db (d_dedup_key (?rows ! i))
           = Some ((config_of_row (i + 1) (?rows ! i))\<lparr>r_rank := 0, r_id := ''''\<rparr>, since)
         \<and> r_reachable (config_of_row (i + 1) (?rows ! i))" if "i < length ?rows" for i
  proof -
    have "?rows ! i \<in> set ?all" using that sets by (metis in_set_takeD nth_mem)
    then have row: "?rows ! i \<in> set (db_configs db)" "d_reachable (?rows ! i) = 1" by auto
    have "distinct (map d_dedup_key (db_configs db))" using assms(1) by (simp add: db_ok_def)
    from find_key[OF this row(1)] row(2) show ?thesis
      unfolding config_of_row_rank by (simp add: db_map_def stored_def config_of_row_def)
  qed
  have best: "compare_rows row out \<noteq> Greater"
    if "out \<in> set (db_configs db) - set ?rows" "d_reachable out = 1" "row \<in> set ?rows" for out row
  proof -
    have "out \<in> set ?sorted" using that sets by auto
    then have "out \<in> set (?rows @ drop limit ?sorted)" by simp
    then have "out \<in> set (drop limit ?sorted)" using that(1) unfolding set_append by blast
    moreover have "sorted_wrt (\<lambda>a b. compare_rows a b \<noteq> Greater) (?rows @ drop limit ?sorted)"
      using sorted by simp
    ultimately show ?thesis using that(3) unfolding sorted_wrt_append by blast
  qed
  have "load_ranked_configs visit db limit = map (\<lambda>i. config_of_row (i + 1) (?rows ! i)) [0..<length ?rows]"
    by (simp add: load_ranked_configs_def limit Let_def)
  moreover have "length ?rows = min limit (length ?all)" using len by (simp add: min.commute)
  moreover have "distinct (map d_dedup_key ?rows)" using dist by (simp add: take_map[symmetric] distinct_take)
  moreover have "\<forall>i<length ?rows. \<exists>since. db_map db (d_dedup_key (?rows ! i))
           = Some ((config_of_row (i + 1) (?rows ! i))\<lparr>r_rank := 0, r_id := ''''\<rparr>, since)
         \<and> r_reachable (config_of_row (i + 1) (?rows ! i))" using each by (intro allI impI)
  moreover have "sorted_wrt (\<lambda>a b. compare_rows a b \<noteq> Greater) ?rows" using sorted by (simp add: sorted_wrt_take)
  moreover have "\<forall>out\<in>set (db_configs db) - set ?rows. d_reachable out = 1 \<longrightarrow>
          (\<forall>row\<in>set ?rows. compare_rows row out \<noteq> Greater)" using best by (intro ballI impI)
  ultimately show ?thesis by (intro exI[of _ ?rows] conjI)
qed

lemma load_ranked_configs_correct_example:
  "length (load_ranked_configs rev (upsert_row ''t'' (sample_ranked ''b'' True 5)
      (upsert_row ''t'' (sample_ranked ''a'' True 10) empty_database)) 1) = 1"
proof -
  let ?db = "upsert_row ''t'' (sample_ranked ''b'' True 5) (upsert_row ''t'' (sample_ranked ''a'' True 10) empty_database)"
  have "db_ok ?db" by (intro upsert_row_ok) (simp add: db_ok_def empty_database_def)
  from load_ranked_configs_correct[OF this mset_rev, of 1]
  obtain rows where "load_ranked_configs rev ?db 1 = map (\<lambda>i. config_of_row (i + 1) (rows ! i)) [0..<length rows]"
    "length rows = min 1 (length (filter (\<lambda>row. d_reachable row = 1) (db_configs ?db)))"
    by (elim meta_impE) (simp, elim exE conjE, rule that)
  moreover have "length (filter (\<lambda>row. d_reachable row = 1) (db_configs ?db)) = 2"
    by (simp add: upsert_row_def empty_database_def sample_ranked_def row_of_config_def)
  ultimately show ?thesis by simp
qed

subsection \<open>Cleaning\<close>

text \<open>
  Cleaning works by whole days: \<open>last_online\<close> is written with a \<open>T\<close> between date and time, the
  cutoff with a space, so a result is deleted exactly when the date it was last online is before
  the date of the cutoff, whatever the time of day.
\<close>

lemma clean_compares_dates:
  assumes "\<forall>row\<in>set (db_configs db). length (day row) = 10
      \<and> d_last_online row = day row @ ''T'' @ time row"
    and "length cutoff_day = 10"
  shows "db_configs (snd (clean_offline_configs (cutoff_day @ '' '' @ cutoff_time) db))
       = filter (\<lambda>row. \<not> day row < cutoff_day) (db_configs db)"
proof -
  have "(d1 @ ''T'' @ t1 < d2 @ '' '' @ t2) = (d1 < d2)" if "length d1 = length d2" for d1 d2 t1 t2 :: string
    using that by (induction d1 d2 rule: list_induct2) (auto simp: less_char_def)
  then show ?thesis
    using assms by (auto simp: clean_offline_configs_def intro!: filter_cong)
qed

lemma clean_compares_dates_example:
  "db_configs (snd (clean_offline_configs ''2026-07-08 23:00:00''
      (upsert_row ''2026-07-08T01:00:00'' (sample_ranked ''a'' True 10) empty_database))) \<noteq> []"
proof -
  let ?db = "upsert_row ''2026-07-08T01:00:00'' (sample_ranked ''a'' True 10) empty_database"
  have "\<forall>row\<in>set (db_configs ?db). length ''2026-07-08'' = 10
      \<and> d_last_online row = ''2026-07-08'' @ ''T'' @ ''01:00:00''"
    by (simp add: upsert_row_def empty_database_def row_of_config_def)
  from clean_compares_dates[OF this, of "''2026-07-08''" "''23:00:00''"]
  show ?thesis by (simp add: upsert_row_def empty_database_def)
qed

end
