(* ===== verification/Server.thy ===== *)
theory Server
  imports Config Runtime
begin

text \<open>
  The HTTP endpoint (\<open>src/server.rs\<close>): who may ask, what is answered, when a subscription waits
  for results, and the listener on the local network that follows the sharing switch.  The router
  and the sockets are the web framework's; the Clash generator and the JSON writer are parameters.
\<close>

subsection \<open>Authorization\<close>

record auth_failure =
  af_status :: nat
  af_message :: string

definition NEWLINE :: string where "NEWLINE = [CHR 0x0A]"

definition authorize_request :: "runtime_config \<Rightarrow> socket_addr \<Rightarrow> string option \<Rightarrow> auth_failure + unit" where
  "authorize_request config remote_addr token =
     (let local_request = is_loopback (sa_ip remote_addr) in
      if \<not> local_request \<and> \<not> rtc_sharing_enabled config
      then Inl \<lparr>af_status = 403, af_message = ''LAN sharing is disabled'' @ NEWLINE\<rparr>
      else if \<not> local_request \<and> rtc_require_token config \<and> token \<noteq> Some (rtc_token config)
      then Inl \<lparr>af_status = 401, af_message = ''missing or invalid token'' @ NEWLINE\<rparr>
      else Inr ())"

record response =
  re_status :: nat
  re_headers :: "(string \<times> string) list"
  re_body :: string

definition text_plain :: "string \<times> string" where
  "text_plain = (''content-type'', ''text/plain; charset=utf-8'')"

definition no_store :: "(string \<times> string) list" where
  "no_store = [(''cache-control'', ''no-store, no-cache, max-age=0''), (''pragma'', ''no-cache''), (''expires'', ''0'')]"

definition auth_response :: "auth_failure \<Rightarrow> response" where
  "auth_response f = \<lparr>re_status = af_status f, re_headers = [text_plain], re_body = af_message f\<rparr>"

subsection \<open>Bodies\<close>

definition served_uris :: "runtime_state \<Rightarrow> runtime_config \<Rightarrow> string list" where
  "served_uris runtime config = map r_uri (take (rtc_top_n config) (filter r_reachable (rs_ranked runtime)))"

definition subscription_body :: "runtime_state \<Rightarrow> runtime_config \<Rightarrow> string" where
  "subscription_body runtime config =
     (let body = join_str NEWLINE (served_uris runtime config)
      in if body \<noteq> [] then body @ NEWLINE else body)"

text \<open>
  Waiting for results: \<open>reads\<close> are the states the endpoint reads, with the milliseconds since it
  started waiting.  Milliseconds of \<open>SUBSCRIPTION_READY_WAIT\<close>.
\<close>

definition SUBSCRIPTION_READY_WAIT :: nat where "SUBSCRIPTION_READY_WAIT = 20000"
definition SUBSCRIPTION_READY_POLL :: nat where "SUBSCRIPTION_READY_POLL = 100"

partial_function (option) subscription_snapshot ::
  "(nat \<Rightarrow> runtime_state \<times> nat) \<Rightarrow> nat \<Rightarrow> runtime_state option" where
  "subscription_snapshot reads n =
     (case reads n of (runtime, elapsed) \<Rightarrow>
        if \<not> rs_refreshing runtime \<or> list_ex r_reachable (rs_ranked runtime)
          \<or> SUBSCRIPTION_READY_WAIT \<le> elapsed
        then Some runtime else subscription_snapshot reads (Suc n))"

declare subscription_snapshot.simps [code]

subsection \<open>Handlers\<close>

record server_env =
  sv_reads :: "nat \<Rightarrow> runtime_state \<times> nat"
  sv_base64 :: "string \<Rightarrow> string"
  sv_clash :: "string list \<Rightarrow> string result"
  sv_json :: "runtime_state \<Rightarrow> string"

text \<open>
  A handler reads the shared configuration more than once; \<open>config n\<close> is what the n-th read of a
  request gives.
\<close>

definition subscription_response ::
  "server_env \<Rightarrow> (nat \<Rightarrow> runtime_config) \<Rightarrow> socket_addr \<Rightarrow> string option \<Rightarrow> bool \<Rightarrow> response option" where
  "subscription_response env config remote_addr token encoded =
     (case authorize_request (config 0) remote_addr token of
        Inl failure \<Rightarrow> Some (auth_response failure)
      | Inr _ \<Rightarrow> map_option (\<lambda>runtime.
          let body = subscription_body runtime (config 1);
              body = (if encoded then sv_base64 env body else body)
          in \<lparr>re_status = 200, re_headers = text_plain # no_store, re_body = body\<rparr>)
          (subscription_snapshot (sv_reads env) 0))"

definition mihomo_response ::
  "server_env \<Rightarrow> (nat \<Rightarrow> runtime_config) \<Rightarrow> socket_addr \<Rightarrow> string option \<Rightarrow> response option" where
  "mihomo_response env config remote_addr token =
     (case authorize_request (config 0) remote_addr token of
        Inl failure \<Rightarrow> Some (auth_response failure)
      | Inr _ \<Rightarrow> map_option (\<lambda>runtime.
          (case sv_clash env (served_uris runtime (config 1)) of
             Inl err \<Rightarrow> \<lparr>re_status = 500, re_headers = [text_plain],
                re_body = ''failed to generate clash config: '' @ err\<rparr>
           | Inr body \<Rightarrow> \<lparr>re_status = 200,
                re_headers = (''content-type'', ''text/yaml; charset=utf-8'') # no_store, re_body = body\<rparr>))
          (subscription_snapshot (sv_reads env) 0))"

definition results :: "server_env \<Rightarrow> (nat \<Rightarrow> runtime_config) \<Rightarrow> socket_addr \<Rightarrow> string option \<Rightarrow> response option" where
  "results env config remote_addr token =
     (case authorize_request (config 0) remote_addr token of
        Inl failure \<Rightarrow> Some (auth_response failure)
      | Inr _ \<Rightarrow> Some \<lparr>re_status = 200, re_headers = [(''content-type'', ''application/json'')],
          re_body = sv_json env (fst (sv_reads env 0))\<rparr>)"

definition health :: "response option" where
  "health = Some \<lparr>re_status = 200, re_headers = [text_plain], re_body = ''ok'' @ NEWLINE\<rparr>"

datatype route = Health | Results | Subscription | SubscriptionTxt | MihomoYaml

definition route_of :: "string \<Rightarrow> route option" where
  "route_of path = map_of
     [(''/health'', Health), (''/results'', Results), (''/subscription'', Subscription),
      (''/subscription.txt'', SubscriptionTxt), (''/mihomo.yaml'', MihomoYaml)] path"

text \<open>\<^term>\<open>None\<close>: the handler is still waiting.\<close>

fun handle :: "server_env \<Rightarrow> (nat \<Rightarrow> runtime_config) \<Rightarrow> route \<Rightarrow> socket_addr \<Rightarrow> string option \<Rightarrow> response option" where
  "handle env config Health remote_addr token = health"
| "handle env config Results remote_addr token = results env config remote_addr token"
| "handle env config Subscription remote_addr token =
     subscription_response env (\<lambda>n. config (Suc n)) remote_addr token (rtc_encoded_subscription (config 0))"
| "handle env config SubscriptionTxt remote_addr token =
     subscription_response env config remote_addr token False"
| "handle env config MihomoYaml remote_addr token = mihomo_response env config remote_addr token"

subsection \<open>The listener on the local network\<close>

definition desired_lan_bind :: "ip_addr option \<Rightarrow> socket_addr \<Rightarrow> runtime_config \<Rightarrow> socket_addr option" where
  "desired_lan_bind primary_lan_ip local_bind config =
     (if \<not> rtc_sharing_enabled config \<or> \<not> is_loopback (sa_ip local_bind) then None
      else map_option (\<lambda>ip. \<lparr>sa_ip = ip, sa_port = sa_port local_bind\<rparr>) primary_lan_ip)"

text \<open>
  One turn of the loop, once a second.  The state is the address of the active listener; the
  environment says which configuration and address it reads and whether its task has ended.
\<close>

definition lan_turn ::
  "socket_addr \<Rightarrow> runtime_config \<times> ip_addr option \<times> (socket_addr \<Rightarrow> bool) \<Rightarrow> socket_addr option \<Rightarrow> socket_addr option" where
  "lan_turn local_bind world active =
     (case world of (config, lan_ip, finished) \<Rightarrow>
        let desired = desired_lan_bind lan_ip local_bind config;
            active = (if desired \<noteq> active then desired else active)
        in case active of
             Some bind \<Rightarrow> if finished bind then None else active
           | None \<Rightarrow> None)"

subsection \<open>The configuration of a running program\<close>

fun probe_mode_name :: "probe_mode \<Rightarrow> string" where
  "probe_mode_name Active = ''active''"
| "probe_mode_name Tcp = ''tcp''"

definition runtime_config_of :: "app_config \<Rightarrow> runtime_config" where
  "runtime_config_of config = \<lparr>
     rtc_bind = ac_bind config, rtc_top_n = ac_top_n config, rtc_refresh_seconds = ac_refresh_seconds config,
     rtc_encoded_subscription = ac_encoded_subscription config,
     rtc_prioritize_stability = ac_prioritize_stability config,
     rtc_return_configs_asap = ac_return_configs_asap config,
     rtc_scan_all_configs = ac_scan_all_configs config, rtc_fetch_timeout_ms = ac_fetch_timeout_ms config,
     rtc_fetch_concurrency = ac_fetch_concurrency config,
     rtc_max_subscription_bytes = ac_max_subscription_bytes config,
     rtc_sharing_enabled = sc_enabled (ac_sharing config),
     rtc_require_token = sc_require_token (ac_sharing config), rtc_token = sc_token (ac_sharing config),
     rtc_probe_mode = probe_mode_name (pc_mode (ac_probe config)),
     rtc_speedtest_enabled = is_some_and (pc_download_url (ac_probe config)) (\<lambda>url. trim url \<noteq> []),
     rtc_probe_concurrency = pc_concurrency (ac_probe config),
     rtc_probe_batch_size = pc_batch_size (ac_probe config),
     rtc_active_timeout_ms = pc_active_timeout_ms (ac_probe config),
     rtc_startup_timeout_ms = pc_startup_timeout_ms (ac_probe config),
     rtc_test_url = pc_test_url (ac_probe config), rtc_accepted_statuses = pc_accepted_statuses (ac_probe config),
     rtc_download_bytes_limit = pc_download_bytes_limit (ac_probe config),
     rtc_subscription_count = length (ac_subscriptions config),
     rtc_enabled_subscription_count = length (filter ss_enabled (ac_subscriptions config)),
     rtc_proxy_enabled = xc_enabled (ac_proxy config), rtc_proxy_port = xc_port (ac_proxy config),
     rtc_proxy_discoverable = xc_discoverable (ac_proxy config) \<rparr>"

subsection \<open>Who is served\<close>

lemma authorize_iff:
  "authorize_request config remote token = Inr u \<longleftrightarrow>
     is_loopback (sa_ip remote) \<or> rtc_sharing_enabled config
       \<and> (rtc_require_token config \<longrightarrow> token = Some (rtc_token config))"
  by (auto simp: authorize_request_def Let_def)

lemma authorize_failure:
  "authorize_request config remote token = Inl f \<Longrightarrow> af_status f \<in> {401, 403}"
  by (auto simp: authorize_request_def Let_def split: if_splits)

lemma handle_authorized:
  assumes "handle env (\<lambda>_. config) r remote token = Some resp" and "r \<noteq> Health"
    and "re_status resp \<notin> {401, 403}"
  shows "authorize_request config remote token = Inr ()"
proof (cases "authorize_request config remote token")
  case (Inl f)
  then have "resp = auth_response f"
    using assms(1,2) by (cases r) (simp_all add: results_def subscription_response_def mihomo_response_def)
  then show ?thesis using authorize_failure[OF Inl] assms(3) by (simp add: auth_response_def)
qed simp

lemma served_uris_reachable:
  "set (served_uris runtime config) \<subseteq> {r_uri r |r. r \<in> set (rs_ranked runtime) \<and> r_reachable r}"
  using set_take_subset by (fastforce simp: served_uris_def)

lemma join_str_snoc: "xs \<noteq> [] \<Longrightarrow> join_str sep (xs @ [[]]) = join_str sep xs @ sep"
  by (induction sep xs rule: join_str.induct) simp_all

lemma snapshot_waits:
  assumes "SUBSCRIPTION_READY_WAIT \<le> snd (reads (n + d))"
  shows "\<exists>m\<ge>n. subscription_snapshot reads n = Some (fst (reads m))
     \<and> (rs_refreshing (fst (reads m)) \<longrightarrow> list_ex r_reachable (rs_ranked (fst (reads m)))
          \<or> SUBSCRIPTION_READY_WAIT \<le> snd (reads m))
     \<and> (\<forall>k. n \<le> k \<and> k < m \<longrightarrow> rs_refreshing (fst (reads k)) \<and> \<not> list_ex r_reachable (rs_ranked (fst (reads k))))"
  using assms
proof (induction d arbitrary: n)
  case 0
  then show ?case
    by (intro exI[of _ n]) (auto simp: subscription_snapshot.simps[of reads n] case_prod_beta)
next
  case (Suc d)
  show ?case
  proof (cases "\<not> rs_refreshing (fst (reads n)) \<or> list_ex r_reachable (rs_ranked (fst (reads n)))
          \<or> SUBSCRIPTION_READY_WAIT \<le> snd (reads n)")
    case True
    then show ?thesis
      by (intro exI[of _ n]) (auto simp: subscription_snapshot.simps[of reads n] case_prod_beta)
  next
    case False
    then have step: "subscription_snapshot reads n = subscription_snapshot reads (Suc n)"
      by (simp add: subscription_snapshot.simps[of reads n] case_prod_beta)
    from Suc.IH[of "Suc n"] Suc.prems obtain m where m: "m \<ge> Suc n"
      "subscription_snapshot reads (Suc n) = Some (fst (reads m))"
      "rs_refreshing (fst (reads m)) \<longrightarrow> list_ex r_reachable (rs_ranked (fst (reads m)))
          \<or> SUBSCRIPTION_READY_WAIT \<le> snd (reads m)"
      "\<forall>k. Suc n \<le> k \<and> k < m \<longrightarrow> rs_refreshing (fst (reads k)) \<and> \<not> list_ex r_reachable (rs_ranked (fst (reads k)))"
      by auto
    then show ?thesis using step False by (intro exI[of _ m]) (auto simp: not_less_eq_eq le_Suc_eq dest: Suc_leI le_neq_implies_less)
  qed
qed


definition sample_server :: server_env where
  "sample_server = \<lparr> sv_reads = (\<lambda>n. (runtime_state_default\<lparr>rs_refreshing := True,
       rs_ranked := [sample_ranked ''a'' True 10, sample_ranked ''b'' False 20]\<rparr>, 100 * n)),
     sv_base64 = (\<lambda>s. s), sv_clash = (\<lambda>_. Inl ''none''), sv_json = (\<lambda>_. ''{}'') \<rparr>"

definition sample_sharing :: app_config where
  "sample_sharing = app_config_default\<lparr>ac_sharing :=
     \<lparr>sc_enabled = True, sc_require_token = True, sc_token = ''secret''\<rparr>\<rparr>"

definition sample_lan_client :: socket_addr where
  "sample_lan_client = \<lparr>sa_ip = IpV4 192 168 1 50, sa_port = 50000\<rparr>"


subsection \<open>What a subscription is\<close>



end
