(* ===== verification/Network.thy ===== *)
theory Network
  imports Server Links
begin

text \<open>
  Local addresses and what is shown about sharing (\<open>src/network.rs\<close>), with the textual form of
  addresses of the standard library (\<open>IpAddr\<close>'s \<open>parse\<close> and \<open>to_string\<close>).
\<close>

unbundle bit_operations_syntax

subsection \<open>The textual form of addresses\<close>

text \<open>The readers of the standard library take the front of a text and return the rest.\<close>

definition digit_value :: "char \<Rightarrow> nat" where
  "digit_value c =
     (if is_ascii_digit c then byte_of c - 48 else byte_of (ascii_lower_char c) - 87)"

definition is_radix_digit :: "nat \<Rightarrow> char \<Rightarrow> bool" where
  "is_radix_digit radix c = (if radix = 16 then is_ascii_hexdigit c else is_ascii_digit c)"

definition radix_value :: "nat \<Rightarrow> string \<Rightarrow> nat" where
  "radix_value radix ds = foldl (\<lambda>v c. radix * v + digit_value c) 0 ds"

definition read_number :: "nat \<Rightarrow> nat \<Rightarrow> bool \<Rightarrow> nat \<Rightarrow> string \<Rightarrow> (nat \<times> string) option" where
  "read_number radix max_digits allow_zero_prefix max_value s =
     (let ds = takeWhile (is_radix_digit radix) s in
      if ds = [] \<or> max_digits < length ds \<or> max_value < radix_value radix ds
         \<or> (\<not> allow_zero_prefix \<and> hd ds = CHR ''0'' \<and> 1 < length ds)
      then None else Some (radix_value radix ds, drop (length ds) s))"

fun read_given_char :: "char \<Rightarrow> string \<Rightarrow> string option" where
  "read_given_char d [] = None"
| "read_given_char d (c # cs) = (if c = d then Some cs else None)"

definition read_separator :: "char \<Rightarrow> nat \<Rightarrow> (string \<Rightarrow> ('a \<times> string) option) \<Rightarrow> string \<Rightarrow> ('a \<times> string) option" where
  "read_separator d i inner s = (if 0 < i then Option.bind (read_given_char d s) inner else inner s)"

definition read_octet :: "nat \<Rightarrow> string \<Rightarrow> (nat \<times> string) option" where
  "read_octet i s = read_separator (CHR ''.'') i (read_number 10 3 False 255) s"

definition read_ipv4_addr :: "string \<Rightarrow> ((8 word \<times> 8 word \<times> 8 word \<times> 8 word) \<times> string) option" where
  "read_ipv4_addr s =
     Option.bind (read_octet 0 s) (\<lambda>(a, s).
     Option.bind (read_octet 1 s) (\<lambda>(b, s).
     Option.bind (read_octet 2 s) (\<lambda>(c, s).
     Option.bind (read_octet 3 s) (\<lambda>(d, s).
     Some ((of_nat a, of_nat b, of_nat c, of_nat d), s)))))"

text \<open>
  The groups of an IPv6 address, at most \<open>limit\<close>, and whether they ended in an embedded IPv4 address.
\<close>

definition be_bytes :: "8 word \<Rightarrow> 8 word \<Rightarrow> 16 word" where
  "be_bytes a b = push_bit 8 (ucast a) OR ucast b"

function read_groups :: "nat \<Rightarrow> nat \<Rightarrow> string \<Rightarrow> 16 word list \<times> bool \<times> string" where
  "read_groups limit i s =
     (if limit \<le> i then ([], False, s)
      else case (if i < limit - 1 then read_separator (CHR '':'') i read_ipv4_addr s else None) of
        Some ((a, b, c, d), s') \<Rightarrow> ([be_bytes a b, be_bytes c d], True, s')
      | None \<Rightarrow>
          (case read_separator (CHR '':'') i (read_number 16 4 True 65535) s of
             Some (g, s') \<Rightarrow> (case read_groups limit (Suc i) s' of (gs, v4, s'') \<Rightarrow> (of_nat g # gs, v4, s''))
           | None \<Rightarrow> ([], False, s)))"
  by pat_completeness auto
termination
  by (relation "measure (\<lambda>(limit, i, s). limit - i)") auto

declare read_groups.simps [simp del]

fun ipv6_of_groups :: "16 word list \<Rightarrow> ip_addr option" where
  "ipv6_of_groups [a, b, c, d, e, f, g, h] = Some (IpV6 a b c d e f g h)"
| "ipv6_of_groups gs = None"

definition read_ipv6_addr :: "string \<Rightarrow> (ip_addr \<times> string) option" where
  "read_ipv6_addr s =
     (case read_groups 8 0 s of (head, head_ipv4, s1) \<Rightarrow>
        if length head = 8 then map_option (\<lambda>ip. (ip, s1)) (ipv6_of_groups head)
        else if head_ipv4 then None
        else
          Option.bind (read_given_char (CHR '':'') s1) (\<lambda>s2.
          Option.bind (read_given_char (CHR '':'') s2) (\<lambda>s3.
          case read_groups (8 - (length head + 1)) 0 s3 of (tail, _, s4) \<Rightarrow>
            map_option (\<lambda>ip. (ip, s4))
              (ipv6_of_groups (head @ replicate (8 - length head - length tail) 0 @ tail)))))"

definition parse_ip :: "string \<Rightarrow> ip_addr option" where
  "parse_ip s =
     (case (case read_ipv4_addr s of
              Some ((a, b, c, d), rest) \<Rightarrow> Some (IpV4 a b c d, rest)
            | None \<Rightarrow> read_ipv6_addr s) of
        Some (ip, []) \<Rightarrow> Some ip
      | _ \<Rightarrow> None)"

subsubsection \<open>Printing\<close>

fun show_hex :: "nat \<Rightarrow> string" where
  "show_hex n =
     (let d = ''0123456789abcdef'' ! (n mod 16) in if n < 16 then [d] else show_hex (n div 16) @ [d])"

declare show_hex.simps [simp del]

definition show_ipv4 :: "8 word \<Rightarrow> 8 word \<Rightarrow> 8 word \<Rightarrow> 8 word \<Rightarrow> string" where
  "show_ipv4 a b c d = show_nat (unat a) @ ''.'' @ show_nat (unat b) @ ''.'' @ show_nat (unat c)
     @ ''.'' @ show_nat (unat d)"

text \<open>The longest run of zero groups (the first of them), as its start and length.\<close>

fun longest_zeros :: "nat \<Rightarrow> nat \<times> nat \<Rightarrow> nat \<times> nat \<Rightarrow> 16 word list \<Rightarrow> nat \<times> nat" where
  "longest_zeros i longest current [] = longest"
| "longest_zeros i longest current (g # gs) =
     (if g = 0 then
        let current = (if snd current = 0 then (i, 1) else (fst current, snd current + 1));
            longest = (if snd longest < snd current then current else longest)
        in longest_zeros (Suc i) longest current gs
      else longest_zeros (Suc i) longest (0, 0) gs)"

definition show_groups :: "16 word list \<Rightarrow> string" where
  "show_groups gs = join_str '':'' (map (\<lambda>g. show_hex (unat g)) gs)"

fun show_ip :: "ip_addr \<Rightarrow> string" where
  "show_ip (IpV4 a b c d) = show_ipv4 a b c d"
| "show_ip (IpV6 a b c d e f g h) =
     (if [a, b, c, d, e, f] = [0, 0, 0, 0, 0, 0xFFFF] then
        ''::ffff:'' @ show_ipv4 (ucast (drop_bit 8 g)) (ucast g) (ucast (drop_bit 8 h)) (ucast h)
      else
        let gs = [a, b, c, d, e, f, g, h]; (start, len) = longest_zeros 0 (0, 0) (0, 0) gs in
        if 1 < len then show_groups (take start gs) @ ''::'' @ show_groups (drop (start + len) gs)
        else show_groups gs)"

subsection \<open>Addresses of the local network\<close>

fun is_lan_reachable :: "ip_addr \<Rightarrow> bool" where
  "is_lan_reachable (IpV4 a b c d) \<longleftrightarrow>
     \<not> is_loopback (IpV4 a b c d) \<and> \<not> is_unspecified (IpV4 a b c d)
     \<and> \<not> (a = 255 \<and> b = 255 \<and> c = 255 \<and> d = 255)
     \<and> \<not> (a = 169 \<and> b = 254)
     \<and> \<not> (224 \<le> a \<and> a \<le> 239)
     \<and> \<not> (a = 192 \<and> b = 0 \<and> c = 2 \<or> a = 198 \<and> b = 51 \<and> c = 100 \<or> a = 203 \<and> b = 0 \<and> c = 113)"
| "is_lan_reachable (IpV6 a b c d e f g h) \<longleftrightarrow>
     \<not> is_loopback (IpV6 a b c d e f g h) \<and> \<not> is_unspecified (IpV6 a b c d e f g h)
     \<and> a AND 0xFF00 \<noteq> 0xFF00
     \<and> a AND 0xFFC0 \<noteq> 0xFE80"

function split_whitespace_from :: "string \<Rightarrow> string \<Rightarrow> string list" where
  "split_whitespace_from token s =
     (if s = [] then (if token = [] then [] else [rev token])
      else if 0 < ws_prefix s
      then (if token = [] then [] else [rev token]) @ split_whitespace_from [] (drop (ws_prefix s) s)
      else split_whitespace_from (hd s # token) (tl s))"
  by pat_completeness auto
termination
  by (relation "measure (\<lambda>(token, s). length s)") (auto simp: neq_Nil_conv)

declare split_whitespace_from.simps [simp del]

definition split_whitespace :: "string \<Rightarrow> string list" where
  "split_whitespace s = split_whitespace_from [] s"

function trim_start_matches :: "string \<Rightarrow> string \<Rightarrow> string" where
  "trim_start_matches p s =
     (if p \<noteq> [] \<and> starts_with s p then trim_start_matches p (drop (length p) s) else s)"
  by pat_completeness auto
termination
  by (relation "measure (\<lambda>(p, s). length s)") (auto simp: starts_with_iff)

declare trim_start_matches.simps [simp del]

definition split_first :: "char \<Rightarrow> string \<Rightarrow> string" where
  "split_first d s = hd (split_char s (\<lambda>c. c = d))"

definition parse_ip_token :: "string \<Rightarrow> ip_addr option" where
  "parse_ip_token value =
     parse_ip (trim (split_first (CHR ''('') (split_first (CHR ''%'') (split_first (CHR ''/'')
       (trim_start_matches ''addr:'' (trim value))))))"

definition parse_ipconfig_ips :: "string \<Rightarrow> ip_addr list" where
  "parse_ipconfig_ips output =
     filter_map parse_ip_token
       (filter_map (\<lambda>value. case split_whitespace value of t # _ \<Rightarrow> Some t | [] \<Rightarrow> None)
         (filter_map (\<lambda>line. map_option (\<lambda>(_, value). trim value) (split_once_char line (CHR '':'')))
           (filter (\<lambda>line. contains_str (to_ascii_lowercase line) ''ipv4''
                         \<or> contains_str (to_ascii_lowercase line) ''ipv6'') (str_lines output))))"

text \<open>The token after \<open>inet\<close> or \<open>inet6\<close> is taken, whether it is an address or not.\<close>

fun inet_ips :: "string list \<Rightarrow> ip_addr list" where
  "inet_ips [] = []"
| "inet_ips (token # tokens) =
     (if token \<in> {''inet'', ''inet6''} then
        (case tokens of
           [] \<Rightarrow> []
         | address # rest \<Rightarrow>
             (case parse_ip_token address of Some ip \<Rightarrow> [ip] | None \<Rightarrow> []) @ inet_ips rest)
      else inet_ips tokens)"

definition parse_ip_addr_ips :: "string \<Rightarrow> ip_addr list" where
  "parse_ip_addr_ips output = concat (map (\<lambda>line. inet_ips (split_whitespace line)) (str_lines output))"

definition parse_ifconfig_ips :: "string \<Rightarrow> ip_addr list" where
  "parse_ifconfig_ips output = inet_ips (split_whitespace output)"

text \<open>
  What the operating system answers: its kind, the output of a command that succeeded, the local
  address of the route to the outside, and the clock in milliseconds.
\<close>

record net_env =
  ne_windows :: bool
  ne_command :: "string \<Rightarrow> string list \<Rightarrow> string option"
  ne_route_local_ip :: "ip_addr option"
  ne_now :: nat

definition INTERFACE_CACHE_TTL :: nat where "INTERFACE_CACHE_TTL = 5000"

definition read_os_interface_ips :: "net_env \<Rightarrow> ip_addr list" where
  "read_os_interface_ips env =
     (if ne_windows env then
        unwrap_or (map_option parse_ipconfig_ips (ne_command env ''ipconfig'' [])) []
      else
        let ips = unwrap_or (map_option parse_ip_addr_ips
              (ne_command env ''ip'' [''-o'', ''addr'', ''show'', ''scope'', ''global''])) []
        in if ips = [] then unwrap_or (map_option parse_ifconfig_ips (ne_command env ''ifconfig'' [''-a''])) []
           else ips)"

type_synonym interface_ip_cache = "(nat \<times> ip_addr list) option"

definition os_interface_ips :: "net_env \<Rightarrow> interface_ip_cache \<Rightarrow> ip_addr list \<times> interface_ip_cache" where
  "os_interface_ips env cache =
     (case filter_opt (\<lambda>(cached_at, _). ne_now env - cached_at \<le> INTERFACE_CACHE_TTL) cache of
        Some (cached_at, ips) \<Rightarrow> (ips, cache)
      | None \<Rightarrow> let ips = read_os_interface_ips env in (ips, Some (ne_now env, ips)))"

definition interface_lan_ips :: "net_env \<Rightarrow> interface_ip_cache \<Rightarrow> ip_addr list \<times> interface_ip_cache" where
  "interface_lan_ips env cache =
     (let (ips, cache) = os_interface_ips env cache in (filter is_lan_reachable ips, cache))"

definition detected_lan_ips :: "net_env \<Rightarrow> interface_ip_cache \<Rightarrow> ip_addr list \<times> interface_ip_cache" where
  "detected_lan_ips env cache =
     (let route = (case filter_opt is_lan_reachable (ne_route_local_ip env) of Some ip \<Rightarrow> [ip] | None \<Rightarrow> []);
          (ips, cache) = interface_lan_ips env cache
      in (route @ ips, cache))"

definition primary_lan_ip :: "net_env \<Rightarrow> interface_ip_cache \<Rightarrow> ip_addr option \<times> interface_ip_cache" where
  "primary_lan_ip env cache =
     (let (ips, cache) = detected_lan_ips env cache in (find is_lan_reachable ips, cache))"

definition discoverable_hosts_from_ips :: "ip_addr list \<Rightarrow> string list" where
  "discoverable_hosts_from_ips ips =
     map show_ip (take 1 (fst (retain_new id {} (filter is_lan_reachable ips))))"

definition discoverable_hosts ::
  "net_env \<Rightarrow> runtime_config \<Rightarrow> interface_ip_cache \<Rightarrow> string list \<times> interface_ip_cache" where
  "discoverable_hosts env config cache =
     (let bind_ip = sa_ip (rtc_bind config) in
      if is_lan_reachable bind_ip \<and> \<not> is_unspecified bind_ip then ([show_ip bind_ip], cache)
      else if is_loopback bind_ip \<and> rtc_sharing_enabled config then
        (let (ip, cache) = primary_lan_ip env cache
         in (case ip of Some ip \<Rightarrow> [show_ip ip] | None \<Rightarrow> [], cache))
      else if \<not> is_unspecified bind_ip then ([], cache)
      else let (ips, cache) = detected_lan_ips env cache in (discoverable_hosts_from_ips ips, cache))"

definition discoverable_subscription_url ::
  "net_env \<Rightarrow> runtime_config \<Rightarrow> interface_ip_cache \<Rightarrow> string option \<times> interface_ip_cache" where
  "discoverable_subscription_url env config cache =
     (let (hosts, cache) = discoverable_hosts env config cache
      in (case hosts of host # _ \<Rightarrow> Some (runtime_subscription_url config host True) | [] \<Rightarrow> None, cache))"

definition format_discoverable_url :: "runtime_config \<Rightarrow> string list \<Rightarrow> string" where
  "format_discoverable_url config hosts =
     (case hosts of host # _ \<Rightarrow> runtime_subscription_url config host True | [] \<Rightarrow> [])"

record sharing_status =
  sh_sharing :: string
  sh_discoverable :: string
  sh_subscription_url :: "string option"
  sh_firewall :: string

text \<open>\<^term>\<open>None\<close>: the \<open>expect\<close> on the address panics.\<close>

definition sharing_status_from_hosts :: "runtime_config \<Rightarrow> string list \<Rightarrow> sharing_status option" where
  "sharing_status_from_hosts config hosts =
     (let sharing = (if rtc_sharing_enabled config then ''on'' else ''off'');
          subscription_url = filter_opt (\<lambda>url. url \<noteq> [])
            (if rtc_sharing_enabled config then Some (format_discoverable_url config hosts) else None);
          port = show_nat (sa_port (rtc_bind config)); proxy_port = show_nat (rtc_proxy_port config);
          proxy_shared = (rtc_proxy_enabled config \<and> rtc_proxy_discoverable config);
          firewall = (if rtc_sharing_enabled config \<and> hosts \<noteq> [] then
                        (if proxy_shared then ''allowed TCP '' @ port @ '', '' @ proxy_port
                         else ''allowed TCP '' @ port)
                      else if proxy_shared then ''allowed TCP '' @ proxy_port
                      else ''not required for local-only bind'')
      in Option.bind
           (if rtc_sharing_enabled config \<and> hosts \<noteq> [] then map_option (\<lambda>url. ''yes '' @ url) subscription_url
            else if rtc_sharing_enabled config then Some ''no reachable LAN IP found''
            else Some ''no'')
           (\<lambda>discoverable. Some \<lparr> sh_sharing = sharing, sh_discoverable = discoverable,
              sh_subscription_url = subscription_url, sh_firewall = firewall \<rparr>))"

definition sharing_status_of ::
  "net_env \<Rightarrow> runtime_config \<Rightarrow> interface_ip_cache \<Rightarrow> sharing_status option \<times> interface_ip_cache" where
  "sharing_status_of env config cache =
     (let (hosts, cache) = discoverable_hosts env config cache
      in (sharing_status_from_hosts config hosts, cache))"

subsection \<open>Reading back what was printed\<close>

lemma digit_value_digit: "is_ascii_digit c \<Longrightarrow> digit_value c = byte_of c - 48"
  by (simp add: digit_value_def)

lemma foldl_digits: "\<forall>c\<in>set ds. is_ascii_digit c \<Longrightarrow>
    digits_value acc ds = Some (foldl (\<lambda>v c. 10 * v + digit_value c) acc ds)"
  by (induction ds arbitrary: acc) (simp_all add: digit_value_digit)

lemma radix_value_show_nat: "radix_value 10 (show_nat n) = n"
  using foldl_digits[of "show_nat n" 0] show_nat_digits by (simp add: radix_value_def)

lemma digit_char_0: "d < 10 \<Longrightarrow> digit_char d = CHR ''0'' \<longleftrightarrow> d = 0"
proof -
  assume d: "d < 10"
  have "byte_of (CHR ''0'') = 48" by (simp add: byte_of_def)
  then have "digit_char d = CHR ''0'' \<Longrightarrow> d = 0" using byte_of_digit_char[OF d] by simp
  moreover have "digit_char 0 = CHR ''0''" by code_simp
  ultimately show ?thesis by blast
qed

lemma show_octet_shape:
  assumes "n < 256"
  shows "length (show_nat n) \<le> 3 \<and> (hd (show_nat n) = CHR ''0'' \<longrightarrow> length (show_nat n) \<le> 1)"
proof -
  have one: "show_nat m = [digit_char m]" if "m < 10" for m using that by (simp add: show_nat.simps)
  have two: "show_nat m = [digit_char (m div 10), digit_char (m mod 10)]" if "10 \<le> m" "m < 100" for m
    using that one[of "m div 10"] by (simp add: show_nat.simps[of m])
  consider "n < 10" | "10 \<le> n" "n < 100" | "100 \<le> n" by linarith
  then show ?thesis
  proof cases
    case 1
    then show ?thesis by (simp add: one)
  next
    case 2
    then show ?thesis by (simp add: two digit_char_0)
  next
    case 3
    then have "show_nat n = show_nat (n div 10) @ [digit_char (n mod 10)]" by (simp add: show_nat.simps[of n])
    moreover have "10 \<le> n div 10" "n div 10 < 100" using 3 assms by linarith+
    ultimately show ?thesis using 3 assms by (simp add: two digit_char_0)
  qed
qed

lemma takeWhile_digits:
  "rest = [] \<or> \<not> is_ascii_digit (hd rest) \<Longrightarrow> takeWhile is_ascii_digit (show_nat n @ rest) = show_nat n"
  using show_nat_digits[of _ n] by (cases rest) (auto simp: takeWhile_append)

lemma read_octet_show:
  assumes "n < 256" and "rest = [] \<or> \<not> is_ascii_digit (hd rest)"
  shows "read_number 10 3 False 255 (show_nat n @ rest) = Some (n, rest)"
proof -
  have "is_radix_digit 10 = is_ascii_digit" by (rule ext) (simp add: is_radix_digit_def)
  then have t: "takeWhile (is_radix_digit 10) (show_nat n @ rest) = show_nat n"
    using takeWhile_digits[OF assms(2)] by simp
  show ?thesis
    using show_octet_shape[OF assms(1)] assms(1)
    by (simp add: read_number_def t radix_value_show_nat Let_def del: One_nat_def) linarith
qed

lemma unat_octet: "unat (a :: 8 word) < 256"
  using unsigned_less[of a, where 'a = nat] by simp

lemma not_digit_dot [simp]: "\<not> is_ascii_digit (CHR ''.'')"
  by (simp add: is_ascii_digit_def byte_of_def)

lemma read_ipv4_show:
  assumes "rest = [] \<or> \<not> is_ascii_digit (hd rest)"
  shows "read_ipv4_addr (show_ipv4 a b c d @ rest) = Some ((a, b, c, d), rest)"
  using assms
  by (simp add: read_ipv4_addr_def read_octet_def read_separator_def show_ipv4_def read_octet_show unat_octet)

lemma parse_ip_show: "parse_ip (show_ipv4 a b c d) = Some (IpV4 a b c d)"
  using read_ipv4_show[of "[]" a b c d] by (simp add: parse_ip_def)

definition ipv4_char :: "char \<Rightarrow> bool" where
  "ipv4_char c \<longleftrightarrow> is_ascii_digit c \<or> c = CHR ''.''"

lemma show_ipv4_chars: "\<forall>c\<in>set (show_ipv4 a b c' d). ipv4_char c"
  using show_nat_digits by (auto simp: show_ipv4_def ipv4_char_def)

lemma ipv4_char_facts:
  assumes "ipv4_char c"
  shows "33 \<le> byte_of c \<and> byte_of c < 128 \<and> c \<notin> {CHR ''/'', CHR ''%'', CHR ''('', CHR '':'', CHR ''a''}"
  using assms by (auto simp: ipv4_char_def is_ascii_digit_def byte_of_def)

lemma split_first_eq: "split_first d s = takeWhile (\<lambda>c. c \<noteq> d) s"
proof (induction s)
  case Nil
  then show ?case by (simp add: split_first_def)
next
  case (Cons c s)
  then show ?case
    by (cases "split_char s (\<lambda>c. c = d)") (auto simp: split_first_def)
qed

text \<open>
  An IPv4 address is read back from every form the three commands print it in: as it is, with
  the \<open>addr:\<close> of old versions of \<open>ifconfig\<close> in front, and followed by a prefix length, a zone
  or a remark in parentheses.
\<close>

lemma ip_token_round_trip:
  assumes "pre \<in> {[], ''addr:''}"
    and "rest = [] \<or> hd rest \<in> {CHR ''/'', CHR ''%'', CHR ''(''}" and "graphic rest"
  shows "parse_ip_token (pre @ show_ip (IpV4 a b c d) @ rest) = Some (IpV4 a b c d)"
proof -
  let ?ip = "show_ipv4 a b c d"
  have chars: "\<forall>x\<in>set ?ip. ipv4_char x" by (rule show_ipv4_chars)
  have gip: "graphic ?ip" using chars ipv4_char_facts unfolding graphic_def by blast
  have ne: "?ip \<noteq> []" by (simp add: show_ipv4_def)
  then obtain x xs where x: "?ip = x # xs" by (cases ?ip) auto
  then have na: "x \<noteq> CHR ''a''" using chars ipv4_char_facts by auto
  have "graphic (pre @ ?ip @ rest)" using assms(1,3) gip by (auto simp: byte_of_def)
  then have t: "trim (pre @ ?ip @ rest) = pre @ ?ip @ rest" unfolding graphic_def by (rule trim_graphic)
  have "\<not> starts_with (?ip @ rest) ''addr:''" using na by (simp add: x starts_with_def)
  then have plain: "trim_start_matches ''addr:'' (?ip @ rest) = ?ip @ rest"
    by (simp add: trim_start_matches.simps)
  moreover have "trim_start_matches ''addr:'' (''addr:'' @ r) = trim_start_matches ''addr:'' r" for r
    by (subst trim_start_matches.simps) (simp add: starts_with_def)
  ultimately have strip: "trim_start_matches ''addr:'' (pre @ ?ip @ rest) = ?ip @ rest"
    using assms(1) by (auto simp del: append_Cons)
  have keep: "takeWhile (\<lambda>y. y \<noteq> k) (?ip @ r) = ?ip @ takeWhile (\<lambda>y. y \<noteq> k) r"
    if "k \<in> {CHR ''/'', CHR ''%'', CHR ''(''}" for k r
    by (rule takeWhile_append2) (use chars ipv4_char_facts that in blast)
  have "takeWhile (\<lambda>y. y \<noteq> CHR ''('') (takeWhile (\<lambda>y. y \<noteq> CHR ''%'') (takeWhile (\<lambda>y. y \<noteq> CHR ''/'') rest)) = []"
    using assms(2) by (cases rest) auto
  then have cut: "split_first (CHR ''('') (split_first (CHR ''%'') (split_first (CHR ''/'') (?ip @ rest))) = ?ip"
    by (simp add: split_first_eq keep)
  have "trim ?ip = ?ip" using gip unfolding graphic_def by (rule trim_graphic)
  then show ?thesis by (simp add: parse_ip_token_def t strip cut parse_ip_show)
qed

lemma ip_token_round_trip_example:
  "parse_ip_token (''addr:'' @ show_ip (IpV4 192 168 43 1) @ ''/24'') = Some (IpV4 192 168 43 1)"
  by (rule ip_token_round_trip) (simp_all add: byte_of_def)

subsection \<open>What is shown about sharing\<close>

lemma find_lan: "find is_lan_reachable ips = Some ip \<Longrightarrow> is_lan_reachable ip"
  by (auto simp: find_Some_iff)

lemma lan_hosts: "h \<in> set (discoverable_hosts_from_ips ips) \<Longrightarrow> \<exists>ip. is_lan_reachable ip \<and> h = show_ip ip"
  using retain_new_set[of id "{}" "filter is_lan_reachable ips"]
  by (auto simp: discoverable_hosts_from_ips_def dest!: in_set_takeD)

lemma loopback_not_lan: "is_loopback ip \<Longrightarrow> \<not> is_lan_reachable ip \<and> \<not> is_unspecified ip"
  by (cases ip) auto

lemma hosts_shape:
  assumes "discoverable_hosts env config cache = (hosts, cache')"
  shows "length hosts \<le> 1 \<and> (\<forall>h\<in>set hosts. \<exists>ip. is_lan_reachable ip \<and> h = show_ip ip)"
  using assms unfolding discoverable_hosts_def primary_lan_ip_def Let_def case_prod_beta
  by (auto simp: discoverable_hosts_from_ips_def dest: find_lan split: if_splits option.splits
      intro: lan_hosts[unfolded discoverable_hosts_from_ips_def])

lemma hosts_of_loopback:
  assumes "is_loopback (sa_ip (rtc_bind config))"
  shows "fst (discoverable_hosts env config cache) =
    (case desired_lan_bind (fst (primary_lan_ip env cache)) (rtc_bind config) config of
       Some address \<Rightarrow> [show_ip (sa_ip address)] | None \<Rightarrow> [])"
  using assms loopback_not_lan[OF assms]
  by (cases "fst (primary_lan_ip env cache)")
    (simp_all add: discoverable_hosts_def desired_lan_bind_def Let_def case_prod_beta)

lemma subscription_url_nonempty: "runtime_subscription_url config host raw \<noteq> []"
  by (simp add: runtime_subscription_url_def Let_def)

text \<open>
  C26: At most one host is shown, always an address the local network can reach; for a program bound
  to the loopback it is the address the LAN listener would bind, and none without sharing.
  Describing it never panics, and the status has an address exactly when sharing is on and there
  is a host.
\<close>

theorem sharing_status_correct:
  assumes "discoverable_hosts env config cache = (hosts, cache')"
  shows "length hosts \<le> 1 \<and> (\<forall>h\<in>set hosts. \<exists>ip. is_lan_reachable ip \<and> h = show_ip ip)
    \<and> (is_loopback (sa_ip (rtc_bind config)) \<longrightarrow> hosts =
        (case desired_lan_bind (fst (primary_lan_ip env cache)) (rtc_bind config) config of
           Some address \<Rightarrow> [show_ip (sa_ip address)] | None \<Rightarrow> []))
    \<and> (\<exists>st. sharing_status_of env config cache = (Some st, cache')
         \<and> (sh_subscription_url st \<noteq> None \<longleftrightarrow> rtc_sharing_enabled config \<and> hosts \<noteq> []))"
proof -
  have "\<exists>st. sharing_status_from_hosts config hosts = Some st
     \<and> (sh_subscription_url st \<noteq> None \<longleftrightarrow> rtc_sharing_enabled config \<and> hosts \<noteq> [])"
    using subscription_url_nonempty
    by (cases hosts) (simp_all add: sharing_status_from_hosts_def format_discoverable_url_def filter_opt_def Let_def)
  then show ?thesis
    using hosts_shape[OF assms] hosts_of_loopback[of config env cache] assms
    by (auto simp: sharing_status_of_def)
qed

definition sample_net_env :: net_env where
  "sample_net_env = \<lparr> ne_windows = False, ne_command = (\<lambda>_ _. None),
     ne_route_local_ip = Some (IpV4 192 168 1 87), ne_now = 0 \<rparr>"

theorem sharing_status_correct_witness:
  "\<exists>hosts cache'. discoverable_hosts sample_net_env
       (runtime_config_of (app_config_default\<lparr>ac_sharing := sharing_config_default\<lparr>sc_enabled := True\<rparr>\<rparr>)) None = (hosts, cache')
     \<and> hosts = [''192.168.1.87''] \<and> length hosts \<le> 1"
proof -
  let ?c = "runtime_config_of (app_config_default\<lparr>ac_sharing := sharing_config_default\<lparr>sc_enabled := True\<rparr>\<rparr>)"
  have "fst (discoverable_hosts sample_net_env ?c None) = [''192.168.1.87'']" by code_simp
  then obtain cache' where h: "discoverable_hosts sample_net_env ?c None = ([''192.168.1.87''], cache')"
    by (metis prod.collapse)
  from sharing_status_correct[OF h] h show ?thesis by blast
qed

end
