(* ===== verification/Parser.thy ===== *)
theory Parser
  imports Links Yaml
begin

text \<open>
  Reading subscriptions (\<open>src/parser/mod.rs\<close>): share links into candidates, the key under which
  candidates are considered the same, and the collection of links from text, JSON and YAML.  The
  YAML parser, \<open>from_utf8_lossy\<close> and the 64-bit hash are the record \<open>parsers\<close>, beside
  the crates of the link helpers.
\<close>

record parsers =
  pk_crates :: crates
  pk_utf8_lossy :: "string \<Rightarrow> string"
  pk_yaml :: "string \<Rightarrow> yaml result"
  pk_hash :: "string \<Rightarrow> string"

subsection \<open>The key of a candidate\<close>

definition trim_chars :: "char set \<Rightarrow> string \<Rightarrow> string" where
  "trim_chars cs s = rev (dropWhile (\<lambda>c. c \<in> cs) (rev (dropWhile (\<lambda>c. c \<in> cs) s)))"

definition normalize_transport :: "string \<Rightarrow> string" where
  "normalize_transport value =
     (let v = to_ascii_lowercase (trim value) in
      if v \<in> {'''', ''tcp''} then ''tcp'' else if v = ''websocket'' then ''ws'' else v)"

definition normalize_tls :: "string \<Rightarrow> string" where
  "normalize_tls value =
     (let v = to_ascii_lowercase (trim value) in
      if v \<in> {'''', ''none'', ''false'', ''0''} then ''none''
      else if v = ''reality'' then ''reality'' else ''tls'')"

definition normalize_host :: "string \<Rightarrow> string" where
  "normalize_host host = to_ascii_lowercase (trim_chars {CHR ''['', CHR '']''} host)"

definition protocol_defaults_to_tls :: "string \<Rightarrow> bool" where
  "protocol_defaults_to_tls protocol \<longleftrightarrow> to_ascii_lowercase protocol \<in> {''trojan'', ''hysteria2'', ''tuic''}"

definition query_dedup_parts :: "crates \<Rightarrow> string \<Rightarrow> bool \<Rightarrow> string \<times> string" where
  "query_dedup_parts L query default_tls =
     (let params = query_pairs L query;
          transport = (case or_else (bt_get params ''type'') (or_else (bt_get params ''net'') (bt_get params ''network'')) of
             None \<Rightarrow> ''tcp'' | Some value \<Rightarrow> normalize_transport value);
          reality_key = filter_opt (\<lambda>value. trim value \<noteq> [])
             (or_else (bt_get params ''pbk'') (or_else (bt_get params ''public_key'') (bt_get params ''reality_pbk'')));
          tls = (case or_else (bt_get params ''security'') (bt_get params ''tls'') of
             Some value \<Rightarrow>
               if normalize_tls value = ''none'' then ''none''
               else if normalize_tls value = ''reality'' \<or> reality_key \<noteq> None then ''reality''
               else normalize_tls value
           | None \<Rightarrow>
               if reality_key \<noteq> None then ''reality'' else if default_tls then ''tls'' else ''none'')
      in (transport, tls))"

definition standard_uri_dedup_parts :: "crates \<Rightarrow> string \<Rightarrow> bool \<Rightarrow> string \<times> string" where
  "standard_uri_dedup_parts L uri default_tls =
     (case url_parse L uri of
        Inl e \<Rightarrow> (''tcp'', ''none'')
      | Inr url \<Rightarrow> query_dedup_parts L (unwrap_or (url_query url) []) default_tls)"

definition shadowsocks_dedup_parts :: "crates \<Rightarrow> string \<Rightarrow> string \<times> string" where
  "shadowsocks_dedup_parts L uri =
     (case strip_prefix uri ''ss://'' of
        None \<Rightarrow> (''tcp'', ''none'')
      | Some body \<Rightarrow>
          (case snd (split_once_opt (fst (split_once_opt body (CHR ''#''))) (CHR ''?'')) of
             None \<Rightarrow> (''tcp'', ''none'')
           | Some query \<Rightarrow> query_dedup_parts L query False))"

definition vmess_dedup_parts :: "crates \<Rightarrow> string \<Rightarrow> string \<times> string" where
  "vmess_dedup_parts L uri =
     (case strip_prefix uri ''vmess://'' of
        None \<Rightarrow> (''tcp'', ''none'')
      | Some payload \<Rightarrow>
          (case decode_base64_to_string L payload of
             None \<Rightarrow> standard_uri_dedup_parts L uri False
           | Some decoded \<Rightarrow>
               (case json_from_str L decoded of
                  Inl e \<Rightarrow> standard_uri_dedup_parts L uri False
                | Inr j \<Rightarrow>
                    (case Option.bind (or_else (json_get j ''net'') (json_get j ''type'')) as_str of
                       None \<Rightarrow> ''tcp'' | Some v \<Rightarrow> normalize_transport v,
                     case Option.bind (json_get j ''tls'') as_str of
                       None \<Rightarrow> ''none'' | Some v \<Rightarrow> normalize_tls v))))"

definition config_dedup_key :: "crates \<Rightarrow> string \<Rightarrow> endpoint \<Rightarrow> string \<Rightarrow> string" where
  "config_dedup_key L protocol ep uri =
     (let lower = to_ascii_lowercase uri;
          (transport, tls) =
            (if starts_with lower ''vmess://'' then vmess_dedup_parts L uri
             else if starts_with lower ''ssr://'' then (''tcp'', ''none'')
             else if starts_with lower ''ss://'' then shadowsocks_dedup_parts L uri
             else standard_uri_dedup_parts L uri (protocol_defaults_to_tls protocol))
      in to_ascii_lowercase protocol @ ''|'' @ normalize_host (ep_host ep) @ ''|'' @ show_nat (ep_port ep)
         @ ''|'' @ transport @ ''|'' @ tls)"

subsection \<open>Share links\<close>

record parsed_link =
  pl_protocol :: string
  pl_name :: string
  pl_endpoint :: endpoint

definition json_value_to_u16 :: "json \<Rightarrow> nat option" where
  "json_value_to_u16 value =
     or_else (filter_opt (\<lambda>v. v \<le> u16_max) (as_u64 value)) (Option.bind (as_str value) (parse_uint u16_max))"

definition name_or_endpoint :: "crates \<Rightarrow> string option \<Rightarrow> string \<Rightarrow> nat \<Rightarrow> string" where
  "name_or_endpoint L name host port =
     unwrap_or (filter_opt (\<lambda>v. v \<noteq> []) (map_option (percent_decode L) name)) (host_port_name host port)"

definition parse_standard_uri :: "crates \<Rightarrow> string \<Rightarrow> parsed_link result" where
  "parse_standard_uri L uri =
     and_then (case url_parse L uri of Inl e \<Rightarrow> Inl (''invalid uri: '' @ e) | Inr u \<Rightarrow> Inr u) (\<lambda>url.
     and_then (ok_or (url_host_str url) ''uri has no host'') (\<lambda>host.
     and_then (ok_or (url_port url) ''uri has no port'') (\<lambda>port.
     Inr \<lparr> pl_protocol = (if url_scheme url = ''hy2'' then ''hysteria2'' else url_scheme url),
           pl_name = name_or_endpoint L (url_fragment url) host port,
           pl_endpoint = \<lparr>ep_host = host, ep_port = port\<rparr> \<rparr>)))"

definition parse_vmess_json :: "crates \<Rightarrow> json \<Rightarrow> parsed_link result" where
  "parse_vmess_json L j =
     and_then (ok_or (Option.bind (or_else (json_get j ''add'') (json_get j ''address'')) as_str)
                 ''vmess link has no address'') (\<lambda>host.
     and_then (ok_or (Option.bind (json_get j ''port'') json_value_to_u16) ''vmess link has no port'') (\<lambda>port.
     Inr \<lparr> pl_protocol = ''vmess'',
           pl_name = name_or_endpoint L (Option.bind (json_get j ''ps'') as_str) host port,
           pl_endpoint = \<lparr>ep_host = host, ep_port = port\<rparr> \<rparr>))"

definition parse_vmess :: "crates \<Rightarrow> string \<Rightarrow> parsed_link result" where
  "parse_vmess L uri =
     and_then (ok_or (strip_prefix uri ''vmess://'') ''invalid vmess link'') (\<lambda>payload.
     case Option.bind (decode_base64_to_string L payload)
            (\<lambda>decoded. case json_from_str L decoded of Inr j \<Rightarrow> Some j | Inl e \<Rightarrow> None) of
       Some j \<Rightarrow> parse_vmess_json L j
     | None \<Rightarrow> and_then (parse_standard_uri L uri) (\<lambda>parsed. Inr (parsed\<lparr>pl_protocol := ''vmess''\<rparr>)))"

definition parse_shadowsocks :: "crates \<Rightarrow> string \<Rightarrow> parsed_link result" where
  "parse_shadowsocks L uri =
     and_then (ok_or (strip_prefix uri ''ss://'') ''invalid shadowsocks link'') (\<lambda>body.
     let (without_fragment, fragment) = split_once_opt body (CHR ''#'');
         authority_part = fst (split_once_opt without_fragment (CHR ''?''))
     in and_then (if CHR ''@'' \<in> set authority_part then Inr authority_part
                  else ok_or (decode_base64_to_string L authority_part) ''invalid base64 shadowsocks authority'')
          (\<lambda>authority.
        let endpoint_part = (case rsplit_once_char authority (CHR ''@'') of
              Some (_, ep) \<Rightarrow> ep | None \<Rightarrow> authority)
        in and_then (parse_host_port endpoint_part) (\<lambda>(host, port).
           Inr \<lparr> pl_protocol = ''ss'', pl_name = name_or_endpoint L fragment host port,
                 pl_endpoint = \<lparr>ep_host = host, ep_port = port\<rparr> \<rparr>)))"

text \<open>\<open>return\<close> ends the search at the first \<open>remarks\<close>, also when it has no value.\<close>

fun ssr_remarks :: "crates \<Rightarrow> string list \<Rightarrow> string option" where
  "ssr_remarks L [] = None"
| "ssr_remarks L (pair # pairs) =
     (let (key, value) = split_once_opt pair (CHR ''='') in
      if key = ''remarks''
      then map_option (percent_decode L) (Option.bind value (decode_base64_to_string L))
      else ssr_remarks L pairs)"

definition extract_ssr_remarks :: "crates \<Rightarrow> string \<Rightarrow> string option" where
  "extract_ssr_remarks L query = ssr_remarks L (split_char query (\<lambda>c. c = CHR ''&''))"

definition parse_shadowsocksr :: "crates \<Rightarrow> string \<Rightarrow> parsed_link result" where
  "parse_shadowsocksr L uri =
     and_then (ok_or (strip_prefix uri ''ssr://'') ''invalid shadowsocksr link'') (\<lambda>payload.
     and_then (ok_or (decode_base64_to_string L payload) ''invalid base64 shadowsocksr payload'') (\<lambda>decoded.
     let (main, query) = split_once_opt decoded (CHR ''?'');
         pieces = split_char main (\<lambda>c. c = CHR '':'')
     in and_then (ok_or (case pieces of host # _ \<Rightarrow> filter_opt (\<lambda>v. v \<noteq> []) (Some host) | [] \<Rightarrow> None)
                    ''ssr link has no host'') (\<lambda>host.
        and_then (ok_or (case pieces of _ # p # _ \<Rightarrow> parse_uint u16_max p | _ \<Rightarrow> None)
                    ''ssr link has no port'') (\<lambda>port.
        Inr \<lparr> pl_protocol = ''ssr'',
              pl_name = unwrap_or (filter_opt (\<lambda>v. v \<noteq> []) (Option.bind query (extract_ssr_remarks L)))
                          (host_port_name host port),
              pl_endpoint = \<lparr>ep_host = host, ep_port = port\<rparr> \<rparr>))))"

definition parse_share_link :: "parsers \<Rightarrow> string \<Rightarrow> nat \<Rightarrow> string \<Rightarrow> candidate result" where
  "parse_share_link K source priority uri =
     (let L = pk_crates K; lower = to_ascii_lowercase uri in
      and_then (if starts_with lower ''vmess://'' then parse_vmess L uri
                else if starts_with lower ''ss://'' then parse_shadowsocks L uri
                else if starts_with lower ''ssr://'' then parse_shadowsocksr L uri
                else parse_standard_uri L uri) (\<lambda>parsed.
      Inr \<lparr> c_id = pk_hash K uri,
            c_dedup_key = config_dedup_key L (pl_protocol parsed) (pl_endpoint parsed) uri,
            c_source = source, c_priority = priority, c_protocol = pl_protocol parsed,
            c_name = pl_name parsed, c_endpoint = pl_endpoint parsed, c_uri = uri \<rparr>))"

subsection \<open>Collecting links\<close>

text \<open>
  The length in bytes of the boundary character at the front of a text: white space, quotes,
  comma and square brackets.
\<close>

definition boundary_len :: "string \<Rightarrow> nat" where
  "boundary_len s =
     (if 0 < ws_prefix s then ws_prefix s
      else case s of c # _ \<Rightarrow> of_bool (c \<in> {CHR 0x22, CHR 0x27, CHR '','', CHR ''['', CHR '']''}) | [] \<Rightarrow> 0)"

function split_tokens :: "string \<Rightarrow> string \<Rightarrow> string list" where
  "split_tokens token s =
     (if s = [] then [rev token]
      else if 0 < boundary_len s then rev token # split_tokens [] (drop (boundary_len s) s)
      else split_tokens (hd s # token) (tl s))"
  by pat_completeness auto
termination
  by (relation "measure (\<lambda>(token, s). length s)") (auto simp: neq_Nil_conv)

declare split_tokens.simps [simp del]

definition supported_entry :: "string \<Rightarrow> bool" where
  "supported_entry entry \<longleftrightarrow>
     list_ex (\<lambda>scheme. starts_with (to_ascii_lowercase entry) scheme) SUPPORTED_URI_SCHEMES"

definition token_entry :: "string \<Rightarrow> string" where
  "token_entry token = trim_chars {CHR 0x22, CHR 0x27, CHR '','', CHR '';''} (trim token)"

type_synonym collection = "candidate list \<times> string set"

fun collect_tokens :: "parsers \<Rightarrow> string \<Rightarrow> nat \<Rightarrow> string list \<Rightarrow> collection \<Rightarrow> collection" where
  "collect_tokens K source priority [] acc = acc"
| "collect_tokens K source priority (token # tokens) (candidates, seen) =
     (let entry = token_entry token in
      if supported_entry entry \<and> entry \<notin> seen
      then collect_tokens K source priority tokens
        (case parse_share_link K source priority entry of
           Inr candidate \<Rightarrow> candidates @ [candidate] | Inl e \<Rightarrow> candidates, insert entry seen)
      else collect_tokens K source priority tokens (candidates, seen))"

definition collect_entries_from_text ::
  "parsers \<Rightarrow> string \<Rightarrow> nat \<Rightarrow> string \<Rightarrow> collection \<Rightarrow> collection" where
  "collect_entries_from_text K source priority text acc =
     collect_tokens K source priority (split_tokens [] text) acc"

fun collect_entries_from_json :: "parsers \<Rightarrow> string \<Rightarrow> nat \<Rightarrow> json \<Rightarrow> collection \<Rightarrow> collection" where
  "collect_entries_from_json K source priority (JString text) acc =
     collect_entries_from_text K source priority text acc"
| "collect_entries_from_json K source priority (JArray values) acc =
     fold (\<lambda>item. collect_entries_from_json K source priority item) values acc"
| "collect_entries_from_json K source priority (JObject m) acc =
     fold (\<lambda>kv. collect_entries_from_json K source priority (snd kv)) m acc"
| "collect_entries_from_json K source priority v acc = acc"

fun collect_entries_from_yaml :: "parsers \<Rightarrow> string \<Rightarrow> nat \<Rightarrow> yaml \<Rightarrow> collection \<Rightarrow> collection" where
  "collect_entries_from_yaml K source priority (YString text) acc =
     collect_entries_from_text K source priority text acc"
| "collect_entries_from_yaml K source priority (YSequence values) acc =
     fold (\<lambda>item. collect_entries_from_yaml K source priority item) values acc"
| "collect_entries_from_yaml K source priority (YMapping m) acc =
     fold (\<lambda>kv. collect_entries_from_yaml K source priority (snd kv)) m acc"
| "collect_entries_from_yaml K source priority v acc = acc"

subsection \<open>What the collection of links from a text is\<close>

definition entries_of :: "string list \<Rightarrow> string list" where
  "entries_of tokens = filter supported_entry (map token_entry tokens)"

definition ok_link :: "parsers \<Rightarrow> string \<Rightarrow> nat \<Rightarrow> string \<Rightarrow> candidate option" where
  "ok_link K source priority entry =
     (case parse_share_link K source priority entry of Inr c \<Rightarrow> Some c | Inl e \<Rightarrow> None)"

lemma collect_tokens_eq:
  "collect_tokens K source priority tokens (candidates, seen) =
     (candidates @ filter_map (ok_link K source priority) (fst (retain_new id seen (entries_of tokens))),
      seen \<union> set (entries_of tokens))"
proof (induction tokens arbitrary: candidates seen)
  case Nil
  then show ?case by (simp add: entries_of_def)
next
  case (Cons token tokens)
  show ?case
  proof (cases "supported_entry (token_entry token)")
    case False
    then show ?thesis using Cons.IH by (simp add: entries_of_def)
  next
    case True
    then have e: "entries_of (token # tokens) = token_entry token # entries_of tokens"
      by (simp add: entries_of_def)
    show ?thesis
    proof (cases "token_entry token \<in> seen")
      case True
      then show ?thesis using Cons.IH e by (auto simp: Let_def case_prod_beta insert_absorb)
    next
      case False
      then show ?thesis
        using Cons.IH e \<open>supported_entry (token_entry token)\<close>
        by (auto simp: Let_def case_prod_beta ok_link_def split: sum.splits)
    qed
  qed
qed


subsection \<open>What a document yields\<close>

definition link_of :: "parsers \<Rightarrow> string \<Rightarrow> nat \<Rightarrow> candidate \<Rightarrow> bool" where
  "link_of K source priority c \<longleftrightarrow>
     supported_entry (c_uri c) \<and> parse_share_link K source priority (c_uri c) = Inr c"

definition collection_ok :: "(candidate \<Rightarrow> bool) \<Rightarrow> collection \<Rightarrow> bool" where
  "collection_ok P acc \<longleftrightarrow> distinct (map c_uri (fst acc)) \<and> c_uri ` set (fst acc) \<subseteq> snd acc
     \<and> (\<forall>c\<in>set (fst acc). P c)"

lemma parse_share_link_uri:
  "parse_share_link K source priority uri = Inr c \<Longrightarrow> c_uri c = uri \<and> c_source c = source \<and> c_priority c = priority"
  by (auto simp: parse_share_link_def Let_def and_then_Inr_iff)

lemma collection_ok_push:
  assumes "collection_ok P (candidates, seen)" and "c_uri c \<notin> seen" and "P c"
  shows "collection_ok P (candidates @ [c], insert (c_uri c) seen)"
  using assms by (auto simp: collection_ok_def)

lemma collection_ok_seen: "collection_ok P (candidates, seen) \<Longrightarrow> collection_ok P (candidates, insert e seen)"
  by (auto simp: collection_ok_def)

lemma collect_tokens_ok:
  assumes "\<And>c. link_of K source priority c \<Longrightarrow> P c"
  shows "collection_ok P (candidates, seen) \<Longrightarrow>
    collection_ok P (collect_tokens K source priority tokens (candidates, seen))"
proof (induction tokens arbitrary: candidates seen)
  case Nil
  then show ?case by simp
next
  case (Cons token tokens)
  let ?e = "token_entry token"
  show ?case
  proof (cases "supported_entry ?e \<and> ?e \<notin> seen")
    case False
    then have "collect_tokens K source priority (token # tokens) (candidates, seen)
        = collect_tokens K source priority tokens (candidates, seen)" by (simp only: collect_tokens.simps Let_def if_False)
    then show ?thesis using Cons by metis
  next
    case True
    show ?thesis
    proof (cases "parse_share_link K source priority ?e")
      case (Inl e)
      then show ?thesis using True Cons.IH[OF collection_ok_seen[OF Cons.prems]] by (simp add: Let_def)
    next
      case (Inr c)
      then have uri: "c_uri c = ?e" using parse_share_link_uri by blast
      then have "P c" using True Inr by (intro assms) (simp add: link_of_def)
      then have "collection_ok P (candidates @ [c], insert ?e seen)"
        using collection_ok_push[OF Cons.prems, of c] True uri by simp
      then show ?thesis using True Inr Cons.IH by (simp add: Let_def)
    qed
  qed
qed

lemma collect_text_ok:
  assumes "\<And>c. link_of K source priority c \<Longrightarrow> P c" and "collection_ok P acc"
  shows "collection_ok P (collect_entries_from_text K source priority text acc)"
  using collect_tokens_ok[of K source priority P, OF assms(1)] assms(2)
  by (cases acc) (simp add: collect_entries_from_text_def)

lemma fold_inv: "(\<And>x acc. x \<in> set xs \<Longrightarrow> I acc \<Longrightarrow> I (f x acc)) \<Longrightarrow> I acc \<Longrightarrow> I (fold f xs acc)"
  by (induction xs arbitrary: acc) auto

lemma snd_in_snds: "snd kv \<in> Basic_BNFs.snds kv"
  by (cases kv) (simp add: snds.simps)

text \<open>What collecting from a text keeps, collecting from a JSON or YAML value keeps.\<close>

lemma collect_json_inv:
  assumes "\<And>t acc. I acc \<Longrightarrow> I (collect_entries_from_text K source priority t acc)"
  shows "I acc \<Longrightarrow> I (collect_entries_from_json K source priority j acc)"
proof (induction j arbitrary: acc)
  case (JArray xs)
  then show ?case by (simp add: fold_inv)
next
  case (JObject m)
  have "I (fold (\<lambda>kv. collect_entries_from_json K source priority (snd kv)) m acc)"
  proof (rule fold_inv)
    fix kv acc
    assume "kv \<in> set m" "I acc"
    then show "I (collect_entries_from_json K source priority (snd kv) acc)"
      using JObject(1) snd_in_snds by blast
  qed (rule JObject(2))
  then show ?case by simp
qed (simp_all add: assms)

lemma collect_yaml_inv:
  assumes "\<And>t acc. I acc \<Longrightarrow> I (collect_entries_from_text K source priority t acc)"
  shows "I acc \<Longrightarrow> I (collect_entries_from_yaml K source priority y acc)"
proof (induction y arbitrary: acc)
  case (YSequence xs)
  then show ?case by (simp add: fold_inv)
next
  case (YMapping m)
  have "I (fold (\<lambda>kv. collect_entries_from_yaml K source priority (snd kv)) m acc)"
  proof (rule fold_inv)
    fix kv acc
    assume "kv \<in> set m" "I acc"
    then show "I (collect_entries_from_yaml K source priority (snd kv) acc)"
      using YMapping(2) snd_in_snds by blast
  qed (rule YMapping(3))
  then show ?case by simp
qed (simp_all add: assms)

text \<open>The candidates collected so far stay, in front.\<close>

lemma collect_text_prefix:
  "prefix base (fst acc) \<Longrightarrow> prefix base (fst (collect_entries_from_text K source priority t acc))"
  by (cases acc) (simp add: collect_entries_from_text_def collect_tokens_eq)

end
