(* ===== verification/Clash.thy ===== *)
theory Clash
  imports Parser
begin

text \<open>
  Clash and Mihomo proxies (\<open>src/convert.rs\<close> and \<open>src/clash.rs\<close>): a proxy entry as a share link,
  a share link as a proxy entry, the reading of a subscription that is a Clash configuration, and
  the generation of a whole configuration.  What the crates print (base64, JSON, YAML, percent
  encoding, given the bytes to encode) is the record \<open>encoders\<close>.
\<close>

record encoders =
  en_base64 :: "string \<Rightarrow> string"
  en_json :: "json \<Rightarrow> string"
  en_yaml :: "yaml \<Rightarrow> string result"
  en_percent :: "(char \<Rightarrow> bool) \<Rightarrow> string \<Rightarrow> string"

subsection \<open>Reading YAML values\<close>

definition yaml_map_get :: "(yaml \<times> yaml) list \<Rightarrow> string \<Rightarrow> yaml option" where
  "yaml_map_get m key = map_of m (YString key)"

text \<open>
  The readers below walk over the keys of an untagged mapping; the first key with an answer ends
  the walk.
\<close>

definition yaml_scan :: "(yaml \<Rightarrow> 'a option) \<Rightarrow> yaml \<Rightarrow> string list \<Rightarrow> 'a option" where
  "yaml_scan answer value keys =
     (case value of YMapping m \<Rightarrow> find_map (\<lambda>key. Option.bind (yaml_map_get m key) answer) keys | _ \<Rightarrow> None)"

fun yaml_path :: "yaml \<Rightarrow> string list \<Rightarrow> yaml option" where
  "yaml_path current [] = Some current"
| "yaml_path current (segment # segments) =
     Option.bind (yaml_as_mapping current) (\<lambda>m.
     Option.bind (yaml_map_get m segment) (\<lambda>current. yaml_path current segments))"

definition yaml_nested_string :: "yaml \<Rightarrow> string \<Rightarrow> string option" where
  "yaml_nested_string value path =
     Option.bind (yaml_path value (split_char path (\<lambda>c. c = CHR ''.''))) yaml_as_str"

definition yaml_string :: "yaml \<Rightarrow> string list \<Rightarrow> string option" where
  "yaml_string = yaml_scan (\<lambda>v. case v of YString s \<Rightarrow> if s \<noteq> [] then Some s else None | _ \<Rightarrow> None)"

definition yaml_u16 :: "yaml \<Rightarrow> string list \<Rightarrow> nat option" where
  "yaml_u16 value keys = unwrap_or (yaml_scan (\<lambda>v. case v of
       YNumber n \<Rightarrow> map_option (\<lambda>u. if u \<le> u16_max then Some u else None) (yn_u64 n)
     | YString s \<Rightarrow> map_option Some (parse_uint u16_max s)
     | _ \<Rightarrow> None) value keys) None"

definition yaml_u64 :: "yaml \<Rightarrow> string list \<Rightarrow> nat option" where
  "yaml_u64 value keys = unwrap_or (yaml_scan (\<lambda>v. case v of
       YNumber n \<Rightarrow> Some (yn_u64 n)
     | YString s \<Rightarrow> map_option Some (parse_uint u64_max s)
     | _ \<Rightarrow> None) value keys) None"

definition yaml_bool :: "yaml \<Rightarrow> string list \<Rightarrow> bool" where
  "yaml_bool value keys = unwrap_or (yaml_scan (\<lambda>v. case v of
       YBool b \<Rightarrow> Some b
     | YString s \<Rightarrow> Some (truthy s)
     | YNumber n \<Rightarrow> Some (unwrap_or (yn_u64 n) 0 \<noteq> 0)
     | _ \<Rightarrow> None) value keys) False"

definition yaml_bool_or_string :: "yaml \<Rightarrow> string list \<Rightarrow> bool option" where
  "yaml_bool_or_string value keys = unwrap_or (yaml_scan (\<lambda>v. case v of
       YBool b \<Rightarrow> Some (Some b)
     | YString s \<Rightarrow> Some (let l = to_ascii_lowercase s in
         if l \<in> {''true'', ''1'', ''yes''} then Some True
         else if l \<in> {''false'', ''0'', ''no'', ''none''} then Some False else None)
     | _ \<Rightarrow> None) value keys) None"

definition yaml_alpn :: "yaml \<Rightarrow> string option" where
  "yaml_alpn value = (case value of
     YMapping m \<Rightarrow>
       (case yaml_map_get m ''alpn'' of
          Some (YString s) \<Rightarrow> Some s
        | Some (YSequence vs) \<Rightarrow>
            (let parts = filter_map (\<lambda>v. case v of YString s \<Rightarrow> Some s | _ \<Rightarrow> None) vs
             in if parts = [] then None else Some (join_str '','' parts))
        | _ \<Rightarrow> None)
   | _ \<Rightarrow> None)"

definition yaml_ws_host :: "yaml \<Rightarrow> string option" where
  "yaml_ws_host value =
     Option.bind (yaml_as_mapping value) (\<lambda>m.
     Option.bind (yaml_map_get m ''ws-opts'') (\<lambda>ws.
     Option.bind (yaml_as_mapping ws) (\<lambda>ws_map.
     Option.bind (yaml_map_get ws_map ''headers'') (\<lambda>headers.
     Option.bind (yaml_as_mapping headers) (\<lambda>h.
     case yaml_map_get h ''Host'' of Some (YString host) \<Rightarrow> Some host | _ \<Rightarrow> None)))))"

definition yaml_h2_host :: "yaml \<Rightarrow> string option" where
  "yaml_h2_host value =
     Option.bind (yaml_as_mapping value) (\<lambda>m.
     Option.bind (yaml_map_get m ''h2-opts'') (\<lambda>h2.
     Option.bind (yaml_as_mapping h2) (\<lambda>h2_map.
     Option.bind (yaml_map_get h2_map ''host'') (\<lambda>host.
     case host of
       YString s \<Rightarrow> Some s
     | YSequence (YString s # vs) \<Rightarrow> Some s
     | _ \<Rightarrow> None))))"

definition is_ascii_alphanumeric :: "char \<Rightarrow> bool" where
  "is_ascii_alphanumeric c \<longleftrightarrow> is_ascii_digit c \<or> is_ascii_alphabetic c"

text \<open>The sets of bytes to encode: \<open>NON_ALPHANUMERIC\<close>, and the one of query parameters.\<close>

definition NON_ALPHANUMERIC :: "char \<Rightarrow> bool" where
  "NON_ALPHANUMERIC c \<longleftrightarrow> \<not> is_ascii_alphanumeric c"

definition URI_QUERY :: "char \<Rightarrow> bool" where
  "URI_QUERY c \<longleftrightarrow> NON_ALPHANUMERIC c \<and> c \<notin> {CHR ''-'', CHR ''_'', CHR ''.'', CHR ''~'', CHR ''/''}"

definition encode_query :: "encoders \<Rightarrow> (string \<times> string) list \<Rightarrow> string" where
  "encode_query E params =
     join_str ''&'' (map (\<lambda>(k, v). en_percent E URI_QUERY k @ ''='' @ en_percent E URI_QUERY v) params)"

subsection \<open>From a proxy entry to a share link\<close>

text \<open>\<open>if let Some(v) = ... { params.insert(key, v) }\<close>.\<close>

definition put_opt :: "string \<Rightarrow> 'v option \<Rightarrow> (string \<times> 'v) list \<Rightarrow> (string \<times> 'v) list" where
  "put_opt key v m = (case v of Some x \<Rightarrow> bt_insert key x m | None \<Rightarrow> m)"

definition put_str :: "string \<Rightarrow> string \<Rightarrow> (string \<times> json) list \<Rightarrow> (string \<times> json) list" where
  "put_str key v m = bt_insert key (JString v) m"

definition put_str_opt :: "string \<Rightarrow> string option \<Rightarrow> (string \<times> json) list \<Rightarrow> (string \<times> json) list" where
  "put_str_opt key v m = put_opt key (map_option JString v) m"

definition clash_vmess_to_uri :: "encoders \<Rightarrow> yaml \<Rightarrow> string \<Rightarrow> nat \<Rightarrow> string \<Rightarrow> string result" where
  "clash_vmess_to_uri E proxy server port name =
     and_then (ok_or (yaml_string proxy [''uuid'']) ''VMess proxy has no uuid'') (\<lambda>uuid.
     let aid = unwrap_or (yaml_u64 proxy [''alterId'']) 0;
         cipher = unwrap_or (yaml_string proxy [''cipher'', ''security'']) ''auto'';
         tls = unwrap_or (yaml_bool_or_string proxy [''tls'']) False;
         network = yaml_string proxy [''network''];
         m = put_str ''scy'' cipher (put_str ''aid'' (show_nat aid) (put_str ''id'' uuid
               (put_str ''port'' (show_nat port) (put_str ''add'' server (put_str ''ps'' name
               (put_str ''v'' ''2'' []))))));
         m = (if tls then
                let m = put_str ''tls'' ''tls'' m;
                    m = put_str_opt ''sni'' (yaml_string proxy [''servername'']) m;
                    m = put_str_opt ''fp'' (yaml_string proxy [''client-fingerprint'']) m;
                    m = put_str_opt ''alpn'' (yaml_alpn proxy) m
                in if yaml_bool proxy [''skip-cert-verify''] then put_str ''allowInsecure'' ''1'' m else m
              else m);
         net = unwrap_or network ''tcp'';
         m = put_str ''net'' net m;
         m = (if net = ''ws'' then
                put_str_opt ''host'' (yaml_ws_host proxy)
                  (put_str_opt ''path'' (yaml_nested_string proxy ''ws-opts.path'') m)
              else if net = ''grpc'' then
                put_str_opt ''path'' (yaml_nested_string proxy ''grpc-opts.grpc-service-name'') m
              else if net \<in> {''h2'', ''http''} then
                put_str_opt ''host'' (yaml_h2_host proxy)
                  (put_str_opt ''path'' (yaml_nested_string proxy ''h2-opts.path'') m)
              else if net = ''httpupgrade'' then
                put_str_opt ''host'' (yaml_string proxy [''httpupgrade-opts'', ''host''])
                  (put_str_opt ''path'' (yaml_string proxy [''httpupgrade-opts'', ''path'']) m)
              else m)
     in Inr (''vmess://'' @ en_base64 E (en_json E (JObject m))))"

text \<open>The link of the protocols whose parameters go into a query.\<close>

definition query_link :: "encoders \<Rightarrow> string \<Rightarrow> string \<Rightarrow> string \<Rightarrow> nat \<Rightarrow> (string \<times> string) list \<Rightarrow> string \<Rightarrow> string" where
  "query_link E scheme user server port params name =
     scheme @ ''://'' @ user @ ''@'' @ server @ '':'' @ show_nat port @ ''?'' @ encode_query E params
       @ ''#'' @ en_percent E NON_ALPHANUMERIC name"

definition clash_vless_to_uri :: "encoders \<Rightarrow> yaml \<Rightarrow> string \<Rightarrow> nat \<Rightarrow> string \<Rightarrow> string result" where
  "clash_vless_to_uri E proxy server port name =
     and_then (ok_or (yaml_string proxy [''uuid'']) ''VLESS proxy has no uuid'') (\<lambda>uuid.
     let params = (if yaml_bool_or_string proxy [''tls''] = Some True then bt_insert ''security'' ''tls'' [] else []);
         params = put_opt ''sni'' (yaml_string proxy [''servername'']) params;
         params = put_opt ''fp'' (yaml_string proxy [''client-fingerprint'']) params;
         params = put_opt ''alpn'' (yaml_string proxy [''alpn'']) params;
         params = put_opt ''flow'' (yaml_string proxy [''flow'']) params;
         params = (case yaml_nested_string proxy ''reality-opts.public-key'' of
                     Some pk \<Rightarrow> let params = bt_insert ''pbk'' pk params in
                       if bt_get params ''security'' \<noteq> Some ''reality''
                       then bt_insert ''security'' ''reality'' params else params
                   | None \<Rightarrow> params);
         params = put_opt ''sid'' (yaml_nested_string proxy ''reality-opts.short-id'') params;
         params = (if yaml_bool proxy [''skip-cert-verify''] then bt_insert ''allowInsecure'' ''1'' params else params);
         network = unwrap_or (yaml_string proxy [''network'']) ''tcp'';
         params = (if network \<noteq> ''tcp'' then bt_insert ''type'' network params else params);
         params = (if network = ''ws'' then
                     put_opt ''host'' (yaml_ws_host proxy)
                       (put_opt ''path'' (yaml_nested_string proxy ''ws-opts.path'') params)
                   else if network = ''grpc'' then
                     put_opt ''serviceName'' (yaml_nested_string proxy ''grpc-opts.grpc-service-name'') params
                   else if network \<in> {''h2'', ''http''} then
                     put_opt ''host'' (yaml_h2_host proxy)
                       (put_opt ''path'' (yaml_nested_string proxy ''h2-opts.path'') params)
                   else if network = ''httpupgrade'' then
                     put_opt ''host'' (yaml_string proxy [''httpupgrade-opts'', ''host''])
                       (put_opt ''path'' (yaml_nested_string proxy ''httpupgrade-opts.path'') params)
                   else params)
     in Inr (query_link E ''vless'' uuid server port params name))"

definition clash_trojan_to_uri :: "encoders \<Rightarrow> yaml \<Rightarrow> string \<Rightarrow> nat \<Rightarrow> string \<Rightarrow> string result" where
  "clash_trojan_to_uri E proxy server port name =
     and_then (ok_or (yaml_string proxy [''password'']) ''Trojan proxy has no password'') (\<lambda>password.
     let params = (if unwrap_or (yaml_bool_or_string proxy [''tls'']) True then bt_insert ''security'' ''tls'' [] else []);
         params = put_opt ''sni'' (yaml_string proxy [''servername'']) params;
         params = (if yaml_bool proxy [''skip-cert-verify''] then bt_insert ''allowInsecure'' ''1'' params else params);
         network = unwrap_or (yaml_string proxy [''network'']) ''tcp'';
         params = (if network \<noteq> ''tcp'' then bt_insert ''type'' network params else params);
         params = (if network = ''ws'' then
                     put_opt ''host'' (yaml_ws_host proxy)
                       (put_opt ''path'' (yaml_string proxy [''ws-opts'', ''path'']) params)
                   else if network = ''grpc'' then
                     put_opt ''serviceName'' (yaml_string proxy [''grpc-opts'', ''grpc-service-name'']) params
                   else params)
     in Inr (query_link E ''trojan'' password server port params name))"

definition clash_ss_to_uri :: "encoders \<Rightarrow> yaml \<Rightarrow> string \<Rightarrow> nat \<Rightarrow> string \<Rightarrow> string result" where
  "clash_ss_to_uri E proxy server port name =
     and_then (ok_or (yaml_string proxy [''cipher'']) ''SS proxy has no cipher'') (\<lambda>cipher.
     and_then (ok_or (yaml_string proxy [''password'']) ''SS proxy has no password'') (\<lambda>password.
     let authority = en_base64 E (cipher @ '':'' @ password);
         uri = ''ss://'' @ authority @ ''@'' @ server @ '':'' @ show_nat port @ ''#'' @ en_percent E NON_ALPHANUMERIC name;
         query_parts = (case yaml_string proxy [''plugin''] of
             Some plugin \<Rightarrow> [''plugin='' @ plugin
               @ unwrap_or (map_option (\<lambda>o'. '';'' @ o') (yaml_string proxy [''plugin-opts''])) []]
           | None \<Rightarrow> []);
         uri = (if query_parts \<noteq> [] then
                  let hash_pos = unwrap_or (find_str uri ''#'') (length uri)
                  in take hash_pos uri @ ''?'' @ join_str ''&'' query_parts @ drop hash_pos uri
                else uri)
     in Inr uri))"

definition clash_proxy_to_uri :: "encoders \<Rightarrow> yaml \<Rightarrow> string result" where
  "clash_proxy_to_uri E proxy =
     and_then (ok_or (yaml_string proxy [''type'']) ''Clash proxy has no type'') (\<lambda>proxy_type.
     and_then (ok_or (yaml_string proxy [''server'']) ''Clash proxy has no server'') (\<lambda>server.
     and_then (ok_or (yaml_u16 proxy [''port'']) ''Clash proxy has no port'') (\<lambda>port.
     let name = unwrap_or (yaml_string proxy [''name'']) (host_port_name server port);
         t = to_ascii_lowercase proxy_type
     in if t = ''vmess'' then clash_vmess_to_uri E proxy server port name
        else if t = ''vless'' then clash_vless_to_uri E proxy server port name
        else if t = ''trojan'' then clash_trojan_to_uri E proxy server port name
        else if t = ''ss'' then clash_ss_to_uri E proxy server port name
        else Inl (''unsupported Clash proxy type: '' @ t))))"

subsection \<open>From a share link to a proxy entry\<close>

type_synonym mapping = "(yaml \<times> yaml) list"

definition yput :: "string \<Rightarrow> yaml \<Rightarrow> mapping \<Rightarrow> mapping" where
  "yput key v m = ymap_insert (yaml_key key) v m"

definition yput_opt :: "string \<Rightarrow> yaml option \<Rightarrow> mapping \<Rightarrow> mapping" where
  "yput_opt key v m = (case v of Some x \<Rightarrow> yput key x m | None \<Rightarrow> m)"

definition ystr :: "string option \<Rightarrow> yaml option" where
  "ystr v = map_option YString v"

definition ynum :: "nat \<Rightarrow> yaml" where
  "ynum n = YNumber \<lparr> yn_u64 = Some n, yn_text = show_nat n \<rparr>"

definition alpn_sequence :: "string \<Rightarrow> yaml" where
  "alpn_sequence alpn = YSequence (map (\<lambda>s. YString (trim s)) (split_char alpn (\<lambda>c. c = CHR '','')))"

text \<open>
  The transport options, which the two conversions write the same way, from the network, the path,
  the host and the gRPC service name.
\<close>

definition transport_opts ::
  "string set \<Rightarrow> string \<Rightarrow> string option \<Rightarrow> string option \<Rightarrow> string option \<Rightarrow> mapping \<Rightarrow> mapping" where
  "transport_opts ws_names net path host service_name proxy =
     (if net \<in> ws_names then
        let ws_opts = yput_opt ''path'' (ystr path) [];
            ws_opts = yput_opt ''headers''
              (map_option (\<lambda>h. YMapping (yput ''Host'' (YString h) [])) host) ws_opts
        in yput ''ws-opts'' (YMapping ws_opts) proxy
      else if net = ''grpc'' then
        (case service_name of
           Some sn \<Rightarrow> yput ''grpc-opts'' (YMapping (yput ''grpc-service-name'' (YString sn) [])) proxy
         | None \<Rightarrow> proxy)
      else if net \<in> {''h2'', ''http''} then
        let h2_opts = yput_opt ''path'' (ystr path) [];
            h2_opts = yput_opt ''host'' (map_option (\<lambda>h. YSequence [YString h]) host) h2_opts
        in yput ''h2-opts'' (YMapping h2_opts) proxy
      else if net = ''httpupgrade'' then
        let opts = yput_opt ''path'' (ystr path) [];
            opts = yput_opt ''host'' (ystr host) opts
        in yput ''httpupgrade-opts'' (YMapping opts) proxy
      else proxy)"

definition vmess_uri_to_clash :: "crates \<Rightarrow> string \<Rightarrow> yaml result" where
  "vmess_uri_to_clash L uri =
     and_then (vmess_fields L uri) (\<lambda>f.
     let proxy = yput ''name'' (YString (vf_name f)) [];
         proxy = yput ''type'' (YString ''vmess'') proxy;
         proxy = yput ''server'' (YString (vf_host f)) proxy;
         proxy = yput ''port'' (ynum (vf_port f)) proxy;
         proxy = yput ''uuid'' (YString (vf_uuid f)) proxy;
         proxy = yput ''alterId'' (ynum (vf_aid f)) proxy;
         proxy = yput ''cipher'' (YString (vf_security f)) proxy;
         proxy = yput ''udp'' (YBool True) proxy;
         tls_enabled = is_some_and (vf_tls f) (\<lambda>s. eq_ignore_ascii_case s ''tls'');
         proxy = (if tls_enabled then
                    let proxy = yput ''tls'' (YBool True) proxy;
                        proxy = yput_opt ''servername'' (ystr (vf_sni f)) proxy;
                        proxy = yput_opt ''client-fingerprint'' (ystr (vf_fp f)) proxy
                    in yput_opt ''alpn'' (map_option alpn_sequence (vf_alpn f)) proxy
                  else proxy);
         net = unwrap_or (vf_net f) ''tcp'';
         proxy = (if net \<noteq> ''tcp'' then yput ''network'' (YString net) proxy else proxy);
         proxy = transport_opts {''ws''} net (vf_path f) (vf_host_header f) (vf_path f) proxy
     in Inr (YMapping proxy))"

text \<open>The Reality or TLS part of an entry, from the parameters of the link.\<close>

definition clash_security :: "(string \<times> string) list \<Rightarrow> string \<Rightarrow> mapping \<Rightarrow> mapping" where
  "clash_security params protocol proxy =
     (let param = first_param params;
          has_reality = bt_get params ''pbk'' \<noteq> None \<or> bt_get params ''public_key'' \<noteq> None;
          security = unwrap_or (param [''security'', ''tls'']) [];
          with_tls = (\<lambda>proxy. yput_opt ''client-fingerprint'' (ystr (param [''fp'', ''fingerprint'']))
             (yput_opt ''servername'' (ystr (param [''sni'', ''serverName'', ''peer'']))
               (yput ''tls'' (YBool True) proxy)))
      in if security = ''reality'' \<or> has_reality then
           let reality_opts = yput_opt ''public-key'' (ystr (param [''pbk'', ''public_key''])) [];
               reality_opts = yput_opt ''short-id'' (ystr (param [''sid'', ''short_id''])) reality_opts
           in if reality_opts \<noteq> [] then yput ''reality-opts'' (YMapping reality_opts) (with_tls proxy)
              else with_tls proxy
         else if security = ''tls'' \<or> protocol = ''trojan'' then with_tls proxy
         else proxy)"

definition standard_uri_to_clash :: "crates \<Rightarrow> string \<Rightarrow> string \<Rightarrow> yaml result" where
  "standard_uri_to_clash L uri protocol =
     and_then (standard_uri_fields L uri) (\<lambda>f.
     let param = first_param (uf_params f);
         proxy = yput ''name'' (YString (uf_name f)) [];
         proxy = yput ''type'' (YString protocol) proxy;
         proxy = yput ''server'' (YString (uf_host f)) proxy;
         proxy = yput ''port'' (ynum (uf_port f)) proxy;
         proxy = yput ''udp'' (YBool True) proxy;
         proxy = (if protocol = ''vless'' then
                    yput_opt ''flow'' (ystr (param [''flow''])) (yput ''uuid'' (YString (uf_username f)) proxy)
                  else if protocol = ''trojan'' then yput ''password'' (YString (uf_username f)) proxy
                  else proxy);
         proxy = clash_security (uf_params f) protocol proxy;
         proxy = (if is_some_and (param [''allowInsecure'', ''insecure'', ''skip-cert-verify'']) truthy
                  then yput ''skip-cert-verify'' (YBool True) proxy else proxy);
         proxy = yput_opt ''alpn'' (map_option alpn_sequence (param [''alpn''])) proxy;
         network = unwrap_or (param [''type'', ''net'', ''network'']) ''tcp'';
         proxy = (if network \<noteq> ''tcp'' then yput ''network'' (YString network) proxy else proxy);
         proxy = transport_opts {''ws'', ''websocket''} network (param [''path'']) (param [''host''])
                   (param [''serviceName'', ''service_name'']) proxy
     in Inr (YMapping proxy))"

definition ss_uri_to_clash :: "crates \<Rightarrow> string \<Rightarrow> yaml result" where
  "ss_uri_to_clash L uri =
     and_then (shadowsocks_fields L uri) (\<lambda>f.
     let proxy = yput ''name'' (YString (sf_name f)) [];
         proxy = yput ''type'' (YString ''ss'') proxy;
         proxy = yput ''server'' (YString (sf_host f)) proxy;
         proxy = yput ''port'' (ynum (sf_port f)) proxy;
         proxy = yput ''cipher'' (YString (sf_method f)) proxy;
         proxy = yput ''password'' (YString (sf_password f)) proxy;
         proxy = yput ''udp'' (YBool True) proxy;
         proxy = yput_opt ''plugin'' (ystr (sf_plugin f)) proxy;
         proxy = yput_opt ''plugin-opts'' (ystr (sf_plugin_opts f)) proxy
     in Inr (YMapping proxy))"

definition uri_to_clash_proxy :: "crates \<Rightarrow> string \<Rightarrow> yaml result" where
  "uri_to_clash_proxy L uri =
     (let lower = to_ascii_lowercase uri in
      if starts_with lower ''vmess://'' then vmess_uri_to_clash L uri
      else if starts_with lower ''vless://'' then standard_uri_to_clash L uri ''vless''
      else if starts_with lower ''trojan://'' then standard_uri_to_clash L uri ''trojan''
      else if starts_with lower ''ss://'' then ss_uri_to_clash L uri
      else Inl ''unsupported URI scheme for Clash conversion'')"

subsection \<open>Reading a Clash subscription\<close>

definition proxy_entry_to_uri :: "encoders \<Rightarrow> yaml \<Rightarrow> string option" where
  "proxy_entry_to_uri E entry = (case clash_proxy_to_uri E entry of Inr uri \<Rightarrow> Some uri | Inl e \<Rightarrow> None)"

definition extract_clash_proxies ::
  "encoders \<Rightarrow> parsers \<Rightarrow> string \<Rightarrow> nat \<Rightarrow> yaml \<Rightarrow> candidate list option" where
  "extract_clash_proxies E K source priority y =
     Option.bind (yaml_as_mapping y) (\<lambda>root.
     Option.bind (yaml_map_get root ''proxies'') (\<lambda>proxies.
     Option.bind (yaml_as_sequence proxies) (\<lambda>entries.
     let candidates = filter_map (\<lambda>entry.
           case proxy_entry_to_uri E entry of
             Some uri \<Rightarrow> if supported_entry uri then ok_link K source priority uri else None
           | None \<Rightarrow> None) entries
     in if candidates = [] then None else Some candidates)))"

definition try_parse_clash_yaml ::
  "encoders \<Rightarrow> parsers \<Rightarrow> string \<Rightarrow> nat \<Rightarrow> string \<Rightarrow> candidate list option" where
  "try_parse_clash_yaml E K source priority text =
     (case pk_yaml K text of Inr y \<Rightarrow> extract_clash_proxies E K source priority y | Inl e \<Rightarrow> None)"

definition try_parse_clash_subscription ::
  "encoders \<Rightarrow> parsers \<Rightarrow> string \<Rightarrow> nat \<Rightarrow> string \<Rightarrow> candidate list option" where
  "try_parse_clash_subscription E K source priority body =
     (let text = pk_utf8_lossy K body in
      or_else (try_parse_clash_yaml E K source priority text)
        (Option.bind (decode_base64_to_string (pk_crates K) (trim text))
           (\<lambda>decoded. try_parse_clash_yaml E K source priority decoded)))"

subsection \<open>A whole configuration\<close>

definition nl_lines :: "string list \<Rightarrow> string" where
  "nl_lines ls = join_str [CHR 0x0A] ls"

definition CLASH_HEADER :: string where
  "CLASH_HEADER = nl_lines [
     ''mixed-port: 7890'',
     ''allow-lan: false'',
     ''mode: rule'',
     ''log-level: info'',
     ''external-controller: '' @ [CHR 0x27] @ ''127.0.0.1:9090'' @ [CHR 0x27],
     '''',
     ''dns:'',
     ''  enable: true'',
     ''  listen: 0.0.0.0:1053'',
     ''  enhanced-mode: fake-ip'',
     ''  fake-ip-range: 198.18.0.1/16'',
     ''  default-nameserver:'',
     ''    - 223.5.5.5'',
     ''    - 8.8.8.8'',
     ''  nameserver:'',
     ''    - https://dns.alidns.com/dns-query'',
     ''    - https://doh.pub/dns-query'',
     ''  fallback:'',
     ''    - https://1.1.1.1/dns-query'',
     ''    - https://8.8.8.8/dns-query'',
     ''  fallback-filter:'',
     ''    geoip: true'',
     ''    geoip-code: CN'']"

definition minimal_clash_config :: string where
  "minimal_clash_config = CLASH_HEADER @ [CHR 0x0A]"

definition generate_clash_rules :: string where
  "generate_clash_rules = nl_lines [''rules:'', ''  - MATCH,DIRECT'']"

definition keywords_to_regex :: "string list \<Rightarrow> string" where
  "keywords_to_regex keywords =
     (if keywords = [] then [] else ''(?i)('' @ join_str ''|'' keywords @ '')'')"

type_synonym country_def = "string \<times> string \<times> string list"

definition country_defs :: "country_def list" where
  "country_defs = [
     (''HK'', [CHR 0xF0, CHR 0x9F, CHR 0x87, CHR 0xAD, CHR 0xF0, CHR 0x9F, CHR 0x87, CHR 0xB0] @ '' HK'',
       [''HK'',
        ''Hong Kong'',
        [CHR 0xE6, CHR 0xB8, CHR 0xAF]]),
     (''JP'', [CHR 0xF0, CHR 0x9F, CHR 0x87, CHR 0xAF, CHR 0xF0, CHR 0x9F, CHR 0x87, CHR 0xB5] @ '' JP'',
       [''JP'',
        ''Japan'',
        [CHR 0xE4, CHR 0xB8, CHR 0x9C, CHR 0xE4, CHR 0xBA, CHR 0xAC],
        [CHR 0xE5, CHR 0xA4, CHR 0xA7, CHR 0xE9, CHR 0x98, CHR 0xAA],
        [CHR 0xE6, CHR 0x97, CHR 0xA5, CHR 0xE6, CHR 0x9C, CHR 0xAC]]),
     (''SG'', [CHR 0xF0, CHR 0x9F, CHR 0x87, CHR 0xB8, CHR 0xF0, CHR 0x9F, CHR 0x87, CHR 0xAC] @ '' SG'',
       [''SG'',
        ''Singapore'',
        [CHR 0xE6, CHR 0x96, CHR 0xB0, CHR 0xE5, CHR 0x8A, CHR 0xA0, CHR 0xE5, CHR 0x9D, CHR 0xA1],
        [CHR 0xE7, CHR 0x8B, CHR 0xAE, CHR 0xE5, CHR 0x9F, CHR 0x8E]]),
     (''US'', [CHR 0xF0, CHR 0x9F, CHR 0x87, CHR 0xBA, CHR 0xF0, CHR 0x9F, CHR 0x87, CHR 0xB8] @ '' US'',
       [''US'',
        ''USA'',
        [CHR 0xE7, CHR 0xBE, CHR 0x8E, CHR 0xE5, CHR 0x9B, CHR 0xBD],
        [CHR 0xE7, CHR 0xA1, CHR 0x85, CHR 0xE8, CHR 0xB0, CHR 0xB7],
        [CHR 0xE6, CHR 0xB4, CHR 0x9B, CHR 0xE6, CHR 0x9D, CHR 0x89, CHR 0xE7, CHR 0x9F, CHR 0xB6],
        [CHR 0xE6, CHR 0xB3, CHR 0xA2, CHR 0xE7, CHR 0x89, CHR 0xB9, CHR 0xE5, CHR 0x85, CHR 0xB0],
        [CHR 0xE8, CHR 0xBE, CHR 0xBE, CHR 0xE6, CHR 0x8B, CHR 0x89, CHR 0xE6, CHR 0x96, CHR 0xAF],
        [CHR 0xE8, CHR 0x8A, CHR 0x9D, CHR 0xE5, CHR 0x8A, CHR 0xA0, CHR 0xE5, CHR 0x93, CHR 0xA5],
        [CHR 0xE8, CHR 0xA5, CHR 0xBF, CHR 0xE9, CHR 0x9B, CHR 0x85, CHR 0xE5, CHR 0x9B, CHR 0xBE]]),
     (''TW'', [CHR 0xF0, CHR 0x9F, CHR 0x87, CHR 0xB9, CHR 0xF0, CHR 0x9F, CHR 0x87, CHR 0xBC] @ '' TW'',
       [''TW'',
        ''Taiwan'',
        [CHR 0xE5, CHR 0x8F, CHR 0xB0, CHR 0xE6, CHR 0xB9, CHR 0xBE],
        [CHR 0xE6, CHR 0x96, CHR 0xB0, CHR 0xE5, CHR 0x8C, CHR 0x97]]),
     (''DE'', [CHR 0xF0, CHR 0x9F, CHR 0x87, CHR 0xA9, CHR 0xF0, CHR 0x9F, CHR 0x87, CHR 0xAA] @ '' DE'',
       [''DE'',
        ''Germany'',
        [CHR 0xE5, CHR 0xBE, CHR 0xB7, CHR 0xE5, CHR 0x9B, CHR 0xBD],
        [CHR 0xE6, CHR 0xB3, CHR 0x95, CHR 0xE5, CHR 0x85, CHR 0xB0, CHR 0xE5, CHR 0x85, CHR 0x8B, CHR 0xE7, CHR 0xA6, CHR 0x8F],
        [CHR 0xE6, CHR 0x9F, CHR 0x8F, CHR 0xE6, CHR 0x9E, CHR 0x97]]),
     (''FR'', [CHR 0xF0, CHR 0x9F, CHR 0x87, CHR 0xAB, CHR 0xF0, CHR 0x9F, CHR 0x87, CHR 0xB7] @ '' FR'',
       [''FR'',
        ''France'',
        [CHR 0xE6, CHR 0xB3, CHR 0x95, CHR 0xE5, CHR 0x9B, CHR 0xBD],
        [CHR 0xE5, CHR 0xB7, CHR 0xB4, CHR 0xE9, CHR 0xBB, CHR 0x8E]]),
     (''GB'', [CHR 0xF0, CHR 0x9F, CHR 0x87, CHR 0xAC, CHR 0xF0, CHR 0x9F, CHR 0x87, CHR 0xA7] @ '' UK'',
       [''GB'',
        ''UK'',
        [CHR 0xE8, CHR 0x8B, CHR 0xB1, CHR 0xE5, CHR 0x9B, CHR 0xBD],
        [CHR 0xE4, CHR 0xBC, CHR 0xA6, CHR 0xE6, CHR 0x95, CHR 0xA6]]),
     (''KR'', [CHR 0xF0, CHR 0x9F, CHR 0x87, CHR 0xB0, CHR 0xF0, CHR 0x9F, CHR 0x87, CHR 0xB7] @ '' KR'',
       [''KR'',
        ''Korea'',
        [CHR 0xE9, CHR 0x9F, CHR 0xA9, CHR 0xE5, CHR 0x9B, CHR 0xBD],
        [CHR 0xE9, CHR 0xA6, CHR 0x96, CHR 0xE5, CHR 0xB0, CHR 0x94]]),
     (''NL'', [CHR 0xF0, CHR 0x9F, CHR 0x87, CHR 0xB3, CHR 0xF0, CHR 0x9F, CHR 0x87, CHR 0xB1] @ '' NL'',
       [''NL'',
        ''Netherlands'',
        [CHR 0xE8, CHR 0x8D, CHR 0xB7, CHR 0xE5, CHR 0x85, CHR 0xB0],
        [CHR 0xE9, CHR 0x98, CHR 0xBF, CHR 0xE5, CHR 0xA7, CHR 0x86, CHR 0xE6, CHR 0x96, CHR 0xAF, CHR 0xE7, CHR 0x89, CHR 0xB9, CHR 0xE4, CHR 0xB8, CHR 0xB9]]),
     (''CA'', [CHR 0xF0, CHR 0x9F, CHR 0x87, CHR 0xA8, CHR 0xF0, CHR 0x9F, CHR 0x87, CHR 0xA6] @ '' CA'',
       [''CA'',
        ''Canada'',
        [CHR 0xE5, CHR 0x8A, CHR 0xA0, CHR 0xE6, CHR 0x8B, CHR 0xBF, CHR 0xE5, CHR 0xA4, CHR 0xA7],
        [CHR 0xE5, CHR 0xA4, CHR 0x9A, CHR 0xE4, CHR 0xBC, CHR 0xA6, CHR 0xE5, CHR 0xA4, CHR 0x9A],
        [CHR 0xE6, CHR 0xB8, CHR 0xA9, CHR 0xE5, CHR 0x93, CHR 0xA5, CHR 0xE5, CHR 0x8D, CHR 0x8E]]),
     (''AU'', [CHR 0xF0, CHR 0x9F, CHR 0x87, CHR 0xA6, CHR 0xF0, CHR 0x9F, CHR 0x87, CHR 0xBA] @ '' AU'',
       [''AU'',
        ''Australia'',
        [CHR 0xE6, CHR 0xBE, CHR 0xB3, CHR 0xE5, CHR 0xA4, CHR 0xA7, CHR 0xE5, CHR 0x88, CHR 0xA9, CHR 0xE4, CHR 0xBA, CHR 0x9A],
        [CHR 0xE6, CHR 0x82, CHR 0x89, CHR 0xE5, CHR 0xB0, CHR 0xBC],
        [CHR 0xE5, CHR 0xA2, CHR 0xA8, CHR 0xE5, CHR 0xB0, CHR 0x94, CHR 0xE6, CHR 0x9C, CHR 0xAC]]),
     (''IN'', [CHR 0xF0, CHR 0x9F, CHR 0x87, CHR 0xAE, CHR 0xF0, CHR 0x9F, CHR 0x87, CHR 0xB3] @ '' IN'',
       [''IN'',
        ''India'',
        [CHR 0xE5, CHR 0x8D, CHR 0xB0, CHR 0xE5, CHR 0xBA, CHR 0xA6],
        [CHR 0xE5, CHR 0xAD, CHR 0x9F, CHR 0xE4, CHR 0xB9, CHR 0xB0],
        [CHR 0xE5, CHR 0xBE, CHR 0xB7, CHR 0xE9, CHR 0x87, CHR 0x8C]]),
     (''IR'', [CHR 0xF0, CHR 0x9F, CHR 0x87, CHR 0xAE, CHR 0xF0, CHR 0x9F, CHR 0x87, CHR 0xB7] @ '' IR'',
       [''IR'',
        ''Iran'',
        [CHR 0xE4, CHR 0xBC, CHR 0x8A, CHR 0xE6, CHR 0x9C, CHR 0x97],
        [CHR 0xE5, CHR 0xBE, CHR 0xB7, CHR 0xE9, CHR 0xBB, CHR 0x91, CHR 0xE5, CHR 0x85, CHR 0xB0]])]"

definition mentions_country :: "string list \<Rightarrow> country_def \<Rightarrow> bool" where
  "mentions_country proxy_names def =
     list_ex (\<lambda>name. list_ex (\<lambda>kw. contains_str (to_ascii_lowercase name) (to_ascii_lowercase kw))
       (snd (snd def))) proxy_names"

definition detect_countries :: "string list \<Rightarrow> country_def list" where
  "detect_countries proxy_names =
     (let present = filter (mentions_country proxy_names) country_defs in
      if present = [] then [(''OTHER'', [CHR 0xF0, CHR 0x9F, CHR 0x8C, CHR 0x90] @ '' Other'', [])] else present)"

definition AUTO :: string where "AUTO = [CHR 0xE2, CHR 0x99, CHR 0xBB, CHR 0xEF, CHR 0xB8, CHR 0x8F] @ '' Auto''"

definition generate_proxy_groups :: "string list \<Rightarrow> string" where
  "generate_proxy_groups proxy_names =
     (let auto_proxies = nl_lines (map (\<lambda>n. ''      - '' @ n) proxy_names);
          countries = detect_countries proxy_names;
          country_groups = join_str [CHR 0x0A, CHR 0x0A] (map (\<lambda>(code, label, keywords). nl_lines [
            ''  - name: '' @ label, ''    type: url-test'',
            ''    url: https://www.gstatic.com/generate_204'', ''    interval: 300'',
            ''    tolerance: 150'', ''    include-all: true'',
            ''    filter: '' @ [CHR 0x22] @ keywords_to_regex keywords @ [CHR 0x22]]) countries);
          country_refs = nl_lines (map (\<lambda>(_, label, _). ''      - '' @ label) countries);
          country_select = (if 1 < length countries then nl_lines ['''', ''  - name: '' @ [CHR 0xF0, CHR 0x9F, CHR 0x8C, CHR 0x8D] @ '' Regions'',
            ''    type: select'', ''    proxies:'', country_refs, ''      - '' @ AUTO] else [])
      in nl_lines [''proxy-groups:'', ''  - name: '' @ [CHR 0xF0, CHR 0x9F, CHR 0x9A, CHR 0x80] @ '' Manual'', ''    type: select'', ''    proxies:'',
           ''      - '' @ AUTO @ country_select, ''      - DIRECT'', '''', ''  - name: '' @ AUTO,
           ''    type: url-test'', ''    url: https://www.gstatic.com/generate_204'', ''    interval: 300'',
           ''    tolerance: 150'', ''    proxies:'', auto_proxies, '''', country_groups])"

text \<open>One link of \<open>generate_clash_config\<close>: the proxies, their names, and how often each name was seen.\<close>

type_synonym clash_acc = "yaml list \<times> string list \<times> (string \<rightharpoonup> nat)"

fun add_clash_proxy :: "crates \<Rightarrow> string \<Rightarrow> clash_acc \<Rightarrow> clash_acc" where
  "add_clash_proxy L uri (proxy_values, proxy_names, seen_names) =
     (case uri_to_clash_proxy L uri of
        Inl e \<Rightarrow> (proxy_values, proxy_names, seen_names)
      | Inr proxy_value \<Rightarrow>
          (case yaml_string proxy_value [''name''] of
             Some name \<Rightarrow>
               (let count = unwrap_or (seen_names name) 0 + 1;
                    seen_names = seen_names(name \<mapsto> count);
                    deduped = name @ '' ('' @ show_nat count @ '')''
                in if 1 < count
                   then (proxy_values @ [case proxy_value of
                           YMapping m \<Rightarrow> YMapping (yput ''name'' (YString deduped) m) | v \<Rightarrow> v],
                         proxy_names @ [deduped], seen_names)
                   else (proxy_values @ [proxy_value], proxy_names @ [name], seen_names))
           | None \<Rightarrow> (proxy_values @ [proxy_value], proxy_names, seen_names)))"

definition clash_proxies :: "crates \<Rightarrow> string list \<Rightarrow> clash_acc" where
  "clash_proxies L uris = fold (add_clash_proxy L) uris ([], [], Map.empty)"

definition trim_end_newlines :: "string \<Rightarrow> string" where
  "trim_end_newlines s = rev (dropWhile (\<lambda>c. c = CHR 0x0A) (rev s))"

definition generate_clash_config :: "crates \<Rightarrow> encoders \<Rightarrow> string list \<Rightarrow> string result" where
  "generate_clash_config L E uris =
     (let (proxy_values, proxy_names, _) = clash_proxies L uris in
      if proxy_names = [] then Inr minimal_clash_config
      else and_then (en_yaml E (YSequence proxy_values)) (\<lambda>text.
        let proxies_yaml = trim_end_newlines (unwrap_or (strip_prefix text (nl_lines [''---'', []])) text)
        in Inr (nl_lines [CLASH_HEADER, '''', ''proxies:'', proxies_yaml, '''',
                  generate_proxy_groups proxy_names, '''', generate_clash_rules])))"

subsection \<open>A Shadowsocks link survives the way through Clash\<close>

lemma yaml_map_get_yput [simp]:
  "yaml_map_get (yput k v m) key = (if key = k then Some v else yaml_map_get m key)"
  by (simp add: yaml_map_get_def yput_def yaml_key_def)

lemma yaml_map_get_yput_opt [simp]:
  "yaml_map_get (yput_opt k v m) key = (if key = k \<and> v \<noteq> None then v else yaml_map_get m key)"
  by (cases v) (simp_all add: yput_opt_def)

lemma yaml_map_get_Nil [simp]: "yaml_map_get [] key = None"
  by (simp add: yaml_map_get_def)

text \<open>
  What the crates promise: the standard base64 engine reads what it wrote, which is over its
  alphabet and empty only for nothing; percent decoding reads what percent encoding wrote, which
  is over letters, digits and the percent sign.
\<close>

definition b64_char :: "char \<Rightarrow> bool" where
  "b64_char c \<longleftrightarrow> is_ascii_alphanumeric c \<or> c \<in> {CHR ''+'', CHR ''/'', CHR ''=''}"

definition codec_ok :: "crates \<Rightarrow> encoders \<Rightarrow> bool" where
  "codec_ok L E \<longleftrightarrow>
     (\<forall>s. b64_decode L STANDARD (en_base64 E s) = Some s \<and> list_all b64_char (en_base64 E s)
        \<and> (en_base64 E s = [] \<longrightarrow> s = []))
   \<and> (\<forall>s. utf8_valid (map byte_of s) \<longrightarrow>
        percent_decode_lossy L (en_percent E NON_ALPHANUMERIC s) = s
        \<and> list_all (\<lambda>c. is_ascii_alphanumeric c \<or> c = CHR ''%'') (en_percent E NON_ALPHANUMERIC s))"

lemma b64_char_facts:
  "b64_char c \<Longrightarrow> 33 \<le> byte_of c \<and> byte_of c < 128 \<and> c \<notin> {CHR 13, CHR 10, CHR '':'', CHR ''#'', CHR ''?'', CHR ''@''}"
  by (auto simp: b64_char_def is_ascii_alphanumeric_def is_ascii_digit_def is_ascii_alphabetic_def byte_of_def)

lemma decode_base64_encoded:
  assumes "codec_ok L E" and "s \<noteq> []" and "utf8_valid (map byte_of s)"
  shows "decode_base64_to_string L (en_base64 E s) = Some s"
proof -
  have chars: "\<forall>c\<in>set (en_base64 E s). b64_char c" and dec: "b64_decode L STANDARD (en_base64 E s) = Some s"
    and ne: "en_base64 E s \<noteq> []"
    using assms(1,2) by (auto simp: codec_ok_def list_all_iff)
  have t: "trim (en_base64 E s) = en_base64 E s"
    by (rule trim_graphic) (use chars b64_char_facts in blast)
  have f: "filter (\<lambda>c. c \<noteq> CHR 13 \<and> c \<noteq> CHR 10) (en_base64 E s) = en_base64 E s"
    by (rule filter_True) (use chars b64_char_facts in blast)
  show ?thesis
    using assms(3) dec ne by (simp add: decode_base64_to_string_def decode_base64_bytes_def t f string_from_utf8_def)
qed

lemma normalize_ss_method_cases:
  assumes "normalize_ss_method m = Inr m'"
  obtains (chacha) "m' = ''chacha20-ietf-poly1305''" | (xchacha) "m' = ''xchacha20-ietf-poly1305''"
    | (other) "m' = to_ascii_lowercase m" "m' \<noteq> ''ss''" "m' \<noteq> ''chacha20-poly1305''" "m' \<noteq> ''xchacha20-poly1305''"
  using assms unfolding normalize_ss_method_def Let_def by (metis Inl_Inr_False sum.inject(2))

lemma normalize_ss_method_idem:
  assumes "normalize_ss_method m = Inr m'"
  shows "normalize_ss_method m' = Inr m'"
proof -
  have lits: "normalize_ss_method ''chacha20-ietf-poly1305'' = Inr ''chacha20-ietf-poly1305''"
    "normalize_ss_method ''xchacha20-ietf-poly1305'' = Inr ''xchacha20-ietf-poly1305''" by code_simp+
  from assms show ?thesis
  proof (cases rule: normalize_ss_method_cases)
    case other
    then have "to_ascii_lowercase m' = m'" by (simp only: to_ascii_lowercase_idem)
    with other show ?thesis by (simp only: normalize_ss_method_def Let_def if_False)
  qed (simp_all only: lits)
qed

lemma ss_authority_method: "ss_authority L a = Inr (m, pw, h, p) \<Longrightarrow> CHR '':'' \<notin> set m"
  by (auto simp: ss_authority_def and_then_Inr_iff split: prod.splits dest: split_once_char_Some)

lemma lower_colon:
  assumes "ascii_lower_char c = CHR '':''"
  shows "c = CHR '':''"
proof (cases "65 \<le> byte_of c \<and> byte_of c \<le> 90")
  case True
  then have "byte_of (ascii_lower_char c) = byte_of c + 32" by (simp add: ascii_lower_char_def)
  moreover have "byte_of (CHR '':'') = 58" by (simp add: byte_of_def)
  ultimately show ?thesis using assms True by simp
next
  case False
  then show ?thesis using assms unfolding ascii_lower_char_def by (simp only: if_False)
qed

lemma normalize_ss_method_colon:
  assumes "normalize_ss_method m = Inr m'" and "CHR '':'' \<notin> set m"
  shows "CHR '':'' \<notin> set m'"
proof -
  have lower: "CHR '':'' \<notin> set (to_ascii_lowercase m)"
    using assms(2) lower_colon by (metis (no_types, lifting) imageE set_map to_ascii_lowercase_def)
  from normalize_ss_method_cases[OF assms(1)] show ?thesis
    by cases (use lower in simp_all)
qed

lemma shadowsocks_fields_shape:
  assumes "shadowsocks_fields L uri = Inr f"
  shows "sf_port f \<le> u16_max \<and> normalize_ss_method (sf_method f) = Inr (sf_method f)
    \<and> (trim (sf_name f) = sf_name f \<or> sf_name f = host_port_name (sf_host f) (sf_port f)) \<and> sf_name f \<noteq> []
    \<and> CHR '':'' \<notin> set (sf_method f)"
proof -
  obtain fragment authority_part m pw h p m'
    where a: "ss_authority L authority_part = Inr (m, pw, h, p)" and n: "normalize_ss_method m = Inr m'"
      and f: "sf_host f = h" "sf_port f = p" "sf_method f = m'"
      "sf_name f = unwrap_or (filter_opt (\<lambda>v. v \<noteq> []) (map_option (percent_decode L) fragment)) (host_port_name h p)"
  proof -
    show ?thesis
      using assms unfolding shadowsocks_fields_def and_then_Inr_iff Let_def case_prod_beta
      apply (elim exE conjE)
      subgoal for body x m'
        apply (rule that[of _ "fst x" "fst (snd x)" "fst (snd (snd x))" "snd (snd (snd x))" m'
              "snd (split_once_opt body (CHR ''#''))"])
        apply auto
        done
      done
  qed
  show ?thesis
    using ss_authority_port[OF a] normalize_ss_method_idem[OF n]
      normalize_ss_method_colon[OF n ss_authority_method[OF a]]
    by (cases fragment) (auto simp: f percent_decode_def filter_opt_def host_port_name_def)
qed

lemma show_nat_plain [simp]:
  "CHR ''#'' \<notin> set (show_nat n)" "CHR ''?'' \<notin> set (show_nat n)" "CHR ''@'' \<notin> set (show_nat n)"
  using show_nat_digits[of _ n] by (force simp: is_ascii_digit_def byte_of_def)+

lemma graphic_host_port [simp]: "graphic host \<Longrightarrow> graphic (host_port_name host port)"
  by (simp add: host_port_name_def byte_of_def)

lemma ss_link_read:
  assumes codec: "codec_ok L E"
    and host: "graphic host" "\<not> starts_with host ''[''" "set host \<inter> {CHR ''#'', CHR ''?'', CHR ''@''} = {}"
    and port: "port \<le> u16_max"
    and cipher: "CHR '':'' \<notin> set m" "normalize_ss_method m = Inr m"
    and texts: "utf8_valid (map byte_of (m @ '':'' @ pw))" "utf8_valid (map byte_of name)"
    and name: "trim name = name" "name \<noteq> []"
  shows "shadowsocks_fields L (''ss://'' @ en_base64 E (m @ '':'' @ pw) @ ''@'' @ host @ '':'' @ show_nat port
           @ ''#'' @ en_percent E NON_ALPHANUMERIC name)
       = Inr \<lparr> sf_host = host, sf_port = port, sf_method = m, sf_password = pw, sf_name = name,
               sf_plugin = None, sf_plugin_opts = None \<rparr>"
proof -
  let ?b = "en_base64 E (m @ '':'' @ pw)" and ?n = "en_percent E NON_ALPHANUMERIC name"
  let ?auth = "?b @ ''@'' @ host @ '':'' @ show_nat port"
  have b: "\<forall>c\<in>set ?b. b64_char c" using codec by (simp add: codec_ok_def list_all_iff)
  have n: "percent_decode L ?n = name"
    using codec texts(2) name(1) by (simp add: codec_ok_def percent_decode_def)
  have free: "CHR ''#'' \<notin> set ?b" "CHR ''?'' \<notin> set ?b" using b b64_char_facts by blast+
  have hostfree: "CHR ''#'' \<notin> set host" "CHR ''?'' \<notin> set host" "CHR ''@'' \<notin> set host" using host(3) by blast+
  have plain: "CHR ''#'' \<notin> set ?auth" "CHR ''?'' \<notin> set ?auth" using free hostfree by simp_all
  have s1: "split_once_opt (?auth @ ''#'' @ ?n) (CHR ''#'') = (?auth, Some ?n)"
    using plain(1) by (simp add: split_once_opt_eq(2))
  have s2: "split_once_opt ?auth (CHR ''?'') = (?auth, None)"
    using plain(2) by (simp add: split_once_opt_eq(1))
  have "CHR ''@'' \<notin> set (host @ '':'' @ show_nat port)"
    using hostfree by simp
  then have r: "rsplit_once_char (?b @ CHR ''@'' # host @ '':'' @ show_nat port) (CHR ''@'')
      = Some (?b, host @ '':'' @ show_nat port)" by (rule rsplit_once_char_append)
  have colon: "CHR '':'' \<notin> set ?b" using b b64_char_facts by blast
  have d: "decode_base64_to_string L ?b = Some (m @ '':'' @ pw)"
    using decode_base64_encoded[OF codec _ texts(1)] by simp
  have s3: "split_once_char (m @ CHR '':'' # pw) (CHR '':'') = Some (m, pw)"
    using cipher(1) by simp
  have "ss_authority L ?auth = Inr (m, pw, host, port)"
    using r colon d s3 parse_host_port_plain[OF host(1,2) port] by (simp add: ss_authority_def)
  then show ?thesis
    using s1 s2 n name(2) cipher(2)
    by (simp add: shadowsocks_fields_def ss_plugin_def filter_opt_def strip_prefix_def starts_with_def)
qed

lemma ss_uri_to_clash_to_uri:
  assumes f: "shadowsocks_fields L uri = Inr f"
    and ne: "sf_host f \<noteq> []" "sf_method f \<noteq> []" "sf_password f \<noteq> []" and plugin: "sf_plugin f = None"
  shows "\<exists>entry. ss_uri_to_clash L uri = Inr entry \<and> clash_proxy_to_uri E entry =
    Inr (''ss://'' @ en_base64 E (sf_method f @ '':'' @ sf_password f) @ ''@'' @ sf_host f @ '':''
         @ show_nat (sf_port f) @ ''#'' @ en_percent E NON_ALPHANUMERIC (sf_name f))"
proof -
  have port: "sf_port f \<le> u16_max" and name: "sf_name f \<noteq> []" using shadowsocks_fields_shape[OF f] by auto
  have t: "to_ascii_lowercase ''ss'' = ''ss''" by code_simp
  show ?thesis
    using ne plugin name port
    by (simp add: ss_uri_to_clash_def f clash_proxy_to_uri_def clash_ss_to_uri_def yaml_string_def yaml_u16_def
        yaml_scan_def ystr_def ynum_def t)
qed


text \<open>A codec that keeps its promises: two hexadecimal digits per byte.\<close>

definition hex_pair :: "char \<Rightarrow> string" where
  "hex_pair c = [''0123456789abcdef'' ! (byte_of c div 16), ''0123456789abcdef'' ! (byte_of c mod 16)]"

definition hex_value :: "char \<Rightarrow> nat" where
  "hex_value c = (if is_ascii_digit c then byte_of c - 48 else byte_of c - 87)"

fun unhex :: "string \<Rightarrow> string" where
  "unhex (a # b # cs) = char_of (16 * hex_value a + hex_value b) # unhex cs"
| "unhex cs = []"

definition hex_of :: "string \<Rightarrow> string" where
  "hex_of s = concat (map hex_pair s)"

definition hex_crates :: crates where
  "hex_crates = sample_crates\<lparr>b64_decode := (\<lambda>_ s. Some (unhex s)), percent_decode_lossy := unhex\<rparr>"

definition hex_encoders :: encoders where
  "hex_encoders = \<lparr> en_base64 = hex_of, en_json = (\<lambda>_. []), en_yaml = (\<lambda>_. Inr []), en_percent = (\<lambda>_. hex_of) \<rparr>"

lemma hex_digit:
  assumes "d < 16"
  shows "hex_value (''0123456789abcdef'' ! d) = d \<and> is_ascii_alphanumeric (''0123456789abcdef'' ! d)"
proof -
  have "list_all (\<lambda>d. hex_value (''0123456789abcdef'' ! d) = d \<and> is_ascii_alphanumeric (''0123456789abcdef'' ! d)) [0..<16]"
    by code_simp
  then show ?thesis using assms by (simp add: list_all_iff)
qed

lemma hex_codec: "unhex (hex_of s) = s" "list_all is_ascii_alphanumeric (hex_of s)" "hex_of s = [] \<longleftrightarrow> s = []"
proof -
  have lt: "byte_of c < 256" for c by (simp add: byte_of_def)
  have h: "byte_of c div 16 < 16" for c using lt[of c] by linarith
  have c: "char_of (16 * hex_value (''0123456789abcdef'' ! (byte_of c div 16))
      + hex_value (''0123456789abcdef'' ! (byte_of c mod 16))) = c" for c
  proof -
    have "16 * hex_value (''0123456789abcdef'' ! (byte_of c div 16))
      + hex_value (''0123456789abcdef'' ! (byte_of c mod 16)) = byte_of c"
      using hex_digit[OF h[of c]] hex_digit[of "byte_of c mod 16"] by simp
    then show ?thesis by (simp only:) (simp add: byte_of_def)
  qed
  show "unhex (hex_of s) = s" by (induction s) (simp_all add: hex_of_def hex_pair_def c)
  have d: "is_ascii_alphanumeric (''0123456789abcdef'' ! (byte_of c div 16))"
      "is_ascii_alphanumeric (''0123456789abcdef'' ! (byte_of c mod 16))" for c
    using hex_digit[OF h[of c]] hex_digit[of "byte_of c mod 16"] by simp_all
  show "list_all is_ascii_alphanumeric (hex_of s)" by (induction s) (simp_all add: hex_of_def hex_pair_def d)
  show "hex_of s = [] \<longleftrightarrow> s = []" by (cases s) (simp_all add: hex_of_def hex_pair_def)
qed

lemma hex_codec_ok: "codec_ok hex_crates hex_encoders"
  using hex_codec(2) by (auto simp: codec_ok_def hex_crates_def hex_encoders_def hex_codec b64_char_def list_all_iff)

definition sample_ss_link :: string where
  "sample_ss_link = ''ss://'' @ hex_of ''aes-256-gcm:pw'' @ ''@example.com:8388#'' @ hex_of ''Node''"

definition sample_ss_fields :: ss_fields where
  "sample_ss_fields = \<lparr> sf_host = ''example.com'', sf_port = 8388, sf_method = ''aes-256-gcm'',
     sf_password = ''pw'', sf_name = ''Node'', sf_plugin = None, sf_plugin_opts = None \<rparr>"


subsection \<open>The proxies of a generated configuration\<close>

text \<open>A proxy entry under construction that is called \<open>n\<close>.\<close>

definition called :: "string \<Rightarrow> mapping \<Rightarrow> bool" where
  "called n m \<longleftrightarrow> yaml_map_get m ''name'' = Some (YString n)"

named_theorems calledI \<open>steps that keep the name\<close>

lemma called_yput_name [calledI]: "called n (yput ''name'' (YString n) m)"
  by (simp add: called_def)

lemma called_yput [calledI]: "k \<noteq> ''name'' \<Longrightarrow> called n m \<Longrightarrow> called n (yput k v m)"
  by (simp add: called_def)

lemma called_yput_opt [calledI]: "k \<noteq> ''name'' \<Longrightarrow> called n m \<Longrightarrow> called n (yput_opt k v m)"
  by (simp add: called_def)

lemma called_if [calledI]: "(b \<Longrightarrow> called n m) \<Longrightarrow> (\<not> b \<Longrightarrow> called n m') \<Longrightarrow> called n (if b then m else m')"
  by simp

lemma called_transport_opts [calledI]: "called n m \<Longrightarrow> called n (transport_opts W net path host sn m)"
  unfolding transport_opts_def Let_def
  by (cases sn) (simp_all add: called_yput)

lemma called_clash_security [calledI]: "called n m \<Longrightarrow> called n (clash_security params p m)"
  unfolding clash_security_def Let_def by (simp add: called_def)

lemma yaml_string_called: "called n m \<Longrightarrow> n \<noteq> [] \<Longrightarrow> yaml_string (YMapping m) [''name''] = Some n"
  by (simp add: called_def yaml_string_def yaml_scan_def)

definition named_proxy :: "yaml \<Rightarrow> bool" where
  "named_proxy v \<longleftrightarrow> (\<exists>m n. v = YMapping m \<and> n \<noteq> [] \<and> called n m)"

lemma unwrap_or_nonempty: "d \<noteq> [] \<Longrightarrow> unwrap_or (filter_opt (\<lambda>v. v \<noteq> []) x) d \<noteq> []"
  by (cases x) (simp_all add: filter_opt_def)

lemma host_port_name_nonempty [simp]: "host_port_name h p \<noteq> []"
  by (simp add: host_port_name_def)

lemma vmess_fields_name: "vmess_fields L uri = Inr f \<Longrightarrow> vf_name f \<noteq> []"
  by (auto simp: vmess_fields_def and_then_Inr_iff unwrap_or_nonempty)

lemma standard_uri_fields_name: "standard_uri_fields L uri = Inr f \<Longrightarrow> uf_name f \<noteq> []"
  by (auto simp: standard_uri_fields_def and_then_Inr_iff unwrap_or_nonempty)

lemma vmess_proxy_named: "vmess_uri_to_clash L uri = Inr v \<Longrightarrow> named_proxy v"
  unfolding vmess_uri_to_clash_def and_then_Inr_iff Let_def named_proxy_def
  apply (elim exE conjE)
  subgoal for f
    apply (rule exI, rule exI[of _ "vf_name f"], intro conjI)
      apply (erule sum.inject(2)[THEN iffD1, symmetric])
     apply (erule vmess_fields_name)
    apply (intro calledI; simp)
    done
  done

lemma standard_proxy_named: "standard_uri_to_clash L uri p = Inr v \<Longrightarrow> named_proxy v"
  unfolding standard_uri_to_clash_def and_then_Inr_iff Let_def named_proxy_def
  apply (elim exE conjE)
  subgoal for f
    apply (rule exI, rule exI[of _ "uf_name f"], intro conjI)
      apply (erule sum.inject(2)[THEN iffD1, symmetric])
     apply (erule standard_uri_fields_name)
    apply (intro calledI; simp)
    done
  done

lemma ss_proxy_named: "ss_uri_to_clash L uri = Inr v \<Longrightarrow> named_proxy v"
  unfolding ss_uri_to_clash_def and_then_Inr_iff Let_def named_proxy_def
  apply (elim exE conjE)
  subgoal for f
    apply (rule exI, rule exI[of _ "sf_name f"], intro conjI)
      apply (erule sum.inject(2)[THEN iffD1, symmetric])
     apply (simp add: shadowsocks_fields_shape)
    apply (intro calledI; simp)
    done
  done

lemma proxy_named: "uri_to_clash_proxy L uri = Inr v \<Longrightarrow> named_proxy v"
  unfolding uri_to_clash_proxy_def Let_def
  using vmess_proxy_named standard_proxy_named ss_proxy_named by (metis Inl_Inr_False)

lemma named_proxy_string: "named_proxy v \<Longrightarrow> \<exists>n. n \<noteq> [] \<and> yaml_string v [''name''] = Some n"
  unfolding named_proxy_def using yaml_string_called by metis

lemma add_clash_proxy_step:
  assumes "uri_to_clash_proxy L uri = Inr v" and "yaml_string v [''name''] = Some n"
  shows "\<exists>v' n'. add_clash_proxy L uri (vals, names, seen)
       = (vals @ [v'], names @ [n'], seen(n \<mapsto> unwrap_or (seen n) 0 + 1))
     \<and> yaml_string v' [''name''] = Some n'
     \<and> n' = (if unwrap_or (seen n) 0 = 0 then n else n @ '' ('' @ show_nat (unwrap_or (seen n) 0 + 1) @ '')'')"
proof -
  obtain m where m: "v = YMapping m" using proxy_named[OF assms(1)] by (auto simp: named_proxy_def)
  have "yaml_string (YMapping (yput ''name'' (YString d) m)) [''name''] = Some d" if "d \<noteq> []" for d
    using that by (simp add: yaml_string_def yaml_scan_def)
  then show ?thesis using assms m by (simp add: Let_def)
qed

lemma clash_proxies_snoc: "clash_proxies L (uris @ [uri]) = add_clash_proxy L uri (clash_proxies L uris)"
  by (simp add: clash_proxies_def)


text \<open>
  Appending a counter does not make the names of a generated configuration different: a link
  whose own name is \<open>N (2)\<close>, after two links with the name \<open>N\<close>, gets the same name as the
  second of them (and a Clash client refuses a configuration with two proxies of one name).
\<close>

lemma clash_names_collide:
  assumes "uri_to_clash_proxy L a = Inr va" "yaml_string va [''name''] = Some n"
    and "uri_to_clash_proxy L b = Inr vb" "yaml_string vb [''name''] = Some n"
    and "uri_to_clash_proxy L c = Inr vc" "yaml_string vc [''name''] = Some (n @ '' (2)'')"
  shows "\<exists>vals seen. clash_proxies L [a, b, c] = (vals, [n, n @ '' (2)'', n @ '' (2)''], seen)"
proof -
  have two: "show_nat 2 = ''2''" by code_simp
  have "\<exists>vals seen. clash_proxies L [a] = (vals, [n], seen) \<and> seen = [n \<mapsto> 1]"
    using add_clash_proxy_step[OF assms(1,2), of "[]" "[]" Map.empty] by (auto simp: clash_proxies_def)
  then obtain v1 where "clash_proxies L [a] = (v1, [n], [n \<mapsto> 1])" by blast
  then have "\<exists>v2. clash_proxies L [a, b] = (v2, [n, n @ '' (2)''], [n \<mapsto> 2])"
    using add_clash_proxy_step[OF assms(3,4), of v1 "[n]" "[n \<mapsto> 1]"] clash_proxies_snoc[of L "[a]" b]
    by (auto simp: two numeral_2_eq_2[symmetric])
  then obtain v2 where "clash_proxies L [a, b] = (v2, [n, n @ '' (2)''], [n \<mapsto> 2])" by blast
  then show ?thesis
    using add_clash_proxy_step[OF assms(5,6), of v2 "[n, n @ '' (2)'']" "[n \<mapsto> 2]"]
      clash_proxies_snoc[of L "[a, b]" c] by auto
qed

definition named_link :: "string \<Rightarrow> string" where
  "named_link name = ''ss://'' @ hex_of ''aes-256-gcm:pw'' @ ''@example.com:8388#'' @ hex_of name"

lemma clash_names_collide_example:
  "\<exists>vals seen. clash_proxies hex_crates [named_link ''N'', named_link ''N'', named_link ''N (2)'']
     = (vals, [''N'', ''N'' @ '' (2)'', ''N'' @ '' (2)''], seen)"
proof -
  have "\<not> isl (uri_to_clash_proxy hex_crates (named_link ''N''))"
    "\<not> isl (uri_to_clash_proxy hex_crates (named_link ''N (2)''))" by code_simp+
  then obtain v w where v: "uri_to_clash_proxy hex_crates (named_link ''N'') = Inr v"
    and w: "uri_to_clash_proxy hex_crates (named_link ''N (2)'') = Inr w" using not_isl_Inr by metis
  have "map_option (\<lambda>v. yaml_string v [''name'']) (case uri_to_clash_proxy hex_crates (named_link ''N'') of Inr v \<Rightarrow> Some v | Inl e \<Rightarrow> None) = Some (Some ''N'')"
    "map_option (\<lambda>v. yaml_string v [''name'']) (case uri_to_clash_proxy hex_crates (named_link ''N (2)'') of Inr v \<Rightarrow> Some v | Inl e \<Rightarrow> None) = Some (Some (''N'' @ '' (2)''))"
    by code_simp+
  then show ?thesis using clash_names_collide[OF v _ v _ w] by (simp add: v w)
qed

end
