(* ===== verification/Xray.thy ===== *)
theory Xray
  imports Clash
begin

text \<open>
  Xray client configurations (\<open>src/parser/xray.rs\<close>): an array of them, or a single one, as the
  share links of their outbounds.
\<close>

subsection \<open>Writing links\<close>

definition hex_upper :: "nat \<Rightarrow> char" where
  "hex_upper d = ''0123456789ABCDEF'' ! d"

text \<open>\<open>url_encode\<close>: every byte but the unreserved ones as a percent sign and two digits.\<close>

definition unreserved :: "char \<Rightarrow> bool" where
  "unreserved c \<longleftrightarrow> is_ascii_alphanumeric c \<or> c \<in> {CHR ''-'', CHR ''_'', CHR ''.'', CHR ''~''}"

definition url_encode :: "string \<Rightarrow> string" where
  "url_encode s = concat (map (\<lambda>c. if unreserved c then [c]
     else [CHR ''%'', hex_upper (byte_of c div 16), hex_upper (byte_of c mod 16)]) s)"

definition encode_params :: "(string \<times> string) list \<Rightarrow> string" where
  "encode_params params = join_str ''&'' (map (\<lambda>(k, v). url_encode k @ ''='' @ url_encode v) params)"

definition percent_encode_name :: "encoders \<Rightarrow> string \<Rightarrow> string" where
  "percent_encode_name E name = en_percent E NON_ALPHANUMERIC name"

definition json_str :: "json option \<Rightarrow> string option" where
  "json_str j = Option.bind j as_str"

definition json_first :: "json option \<Rightarrow> json option" where
  "json_first j = Option.bind (Option.bind j as_array) (\<lambda>xs. case xs of x # _ \<Rightarrow> Some x | [] \<Rightarrow> None)"

definition set_param :: "string \<Rightarrow> json \<Rightarrow> string \<Rightarrow> (string \<times> string) list \<Rightarrow> (string \<times> string) list" where
  "set_param key j field params = put_opt key (json_str (json_get j field)) params"

definition ws_header_host :: "json \<Rightarrow> string option" where
  "ws_header_host ws = json_str (Option.bind (json_get ws ''headers'') (\<lambda>h. json_get h ''Host''))"

subsection \<open>Security and transport\<close>

definition apply_security_params ::
  "string \<Rightarrow> json \<Rightarrow> (string \<times> string) list \<Rightarrow> (string \<times> string) list" where
  "apply_security_params security stream params =
     (let params = (case (security = ''tls'', json_get stream ''tlsSettings'') of
            (True, Some tls) \<Rightarrow>
              (let params = set_param ''sni'' tls ''serverName'' params;
                   params = set_param ''fp'' tls ''fingerprint'' params
               in case Option.bind (json_get tls ''alpn'') as_array of
                    Some alpn \<Rightarrow> (let alpn_str = filter_map as_str alpn
                      in if alpn_str \<noteq> [] then bt_insert ''alpn'' (join_str '','' alpn_str) params else params)
                  | None \<Rightarrow> params)
          | _ \<Rightarrow> params)
      in case (security = ''reality'', json_get stream ''realitySettings'') of
           (True, Some reality) \<Rightarrow>
             (let params = set_param ''pbk'' reality ''publicKey'' params;
                  params = set_param ''sid'' reality ''shortId'' params;
                  params = set_param ''fp'' reality ''fingerprint'' params
              in put_opt ''sni'' (json_str (json_first (json_get reality ''serverNames''))) params)
         | _ \<Rightarrow> params)"

definition apply_transport_params ::
  "string \<Rightarrow> json \<Rightarrow> (string \<times> string) list \<Rightarrow> (string \<times> string) list" where
  "apply_transport_params network stream params =
     (let params = (if network \<noteq> ''tcp'' then bt_insert ''type'' network params else params) in
      if network = ''ws'' then
        (case json_get stream ''wsSettings'' of
           Some ws \<Rightarrow> (let params = set_param ''path'' ws ''path'' params in
             case ws_header_host ws of
               Some host \<Rightarrow> bt_insert ''host'' host params
             | None \<Rightarrow> set_param ''host'' ws ''host'' params)
         | None \<Rightarrow> params)
      else if network = ''grpc'' then
        (case json_get stream ''grpcSettings'' of
           Some grpc \<Rightarrow> set_param ''serviceName'' grpc ''serviceName'' params | None \<Rightarrow> params)
      else if network \<in> {''h2'', ''http''} then
        (case json_get stream ''httpSettings'' of
           Some h2 \<Rightarrow> set_param ''host'' h2 ''host'' (set_param ''path'' h2 ''path'' params) | None \<Rightarrow> params)
      else params)"

subsection \<open>One outbound\<close>

text \<open>The server and the user of a VLESS or VMess outbound: address, port, user and its id.\<close>

definition vnext_user :: "json \<Rightarrow> (string \<times> nat \<times> json \<times> string) option" where
  "vnext_user settings =
     Option.bind (json_first (json_get settings ''vnext'')) (\<lambda>server.
     Option.bind (json_str (json_get server ''address'')) (\<lambda>address.
     Option.bind (Option.bind (json_get server ''port'') as_u64) (\<lambda>port.
     Option.bind (json_first (json_get server ''users'')) (\<lambda>user.
     Option.bind (json_str (json_get user ''id'')) (\<lambda>uuid. Some (address, port, user, uuid))))))"

definition str_or :: "json \<Rightarrow> string \<Rightarrow> string \<Rightarrow> string" where
  "str_or j key d = unwrap_or (json_str (json_get j key)) d"

definition xray_vless_to_uri :: "encoders \<Rightarrow> json \<Rightarrow> json option \<Rightarrow> string \<Rightarrow> string option" where
  "xray_vless_to_uri E settings stream name =
     Option.bind (vnext_user settings) (\<lambda>(address, port, user, uuid).
     let encryption = str_or user ''encryption'' ''none''; flow = str_or user ''flow'' []
     in Option.bind stream (\<lambda>stream.
     let network = str_or stream ''network'' ''tcp''; security = str_or stream ''security'' ''none'';
         params = (if encryption \<noteq> [] \<and> encryption \<noteq> ''none'' then bt_insert ''encryption'' encryption [] else []);
         params = (if flow \<noteq> [] then bt_insert ''flow'' flow params else params);
         params = (if security \<noteq> ''none'' then bt_insert ''security'' security params else params);
         params = apply_security_params security stream params;
         params = apply_transport_params network stream params
     in Some (''vless://'' @ uuid @ ''@'' @ address @ '':'' @ show_nat port @ ''?'' @ encode_params params
              @ ''#'' @ percent_encode_name E name)))"

definition xray_vmess_to_uri :: "encoders \<Rightarrow> json \<Rightarrow> json option \<Rightarrow> string \<Rightarrow> string option" where
  "xray_vmess_to_uri E settings stream name =
     Option.bind (vnext_user settings) (\<lambda>(address, port, user, uuid).
     let alter_id = unwrap_or (Option.bind (json_get user ''alterId'') as_u64) 0;
         security = str_or user ''security'' ''auto''
     in Option.bind stream (\<lambda>stream.
     let network = str_or stream ''network'' ''tcp''; tls = str_or stream ''security'' ''none'';
         m = bt_insert ''v'' (json_num 2) [];
         m = put_str ''ps'' name m;
         m = put_str ''add'' address m;
         m = bt_insert ''port'' (json_num port) m;
         m = put_str ''id'' uuid m;
         m = bt_insert ''aid'' (json_num alter_id) m;
         m = put_str ''scy'' security m;
         m = put_str ''net'' network m;
         m = put_str ''tls'' tls m;
         m = (case (tls \<noteq> ''none'', json_get stream ''tlsSettings'') of
                (True, Some tls_settings) \<Rightarrow>
                  put_opt ''alpn'' (json_get tls_settings ''alpn'')
                    (put_str_opt ''fp'' (json_str (json_get tls_settings ''fingerprint''))
                      (put_str_opt ''sni'' (json_str (json_get tls_settings ''serverName'')) m))
              | _ \<Rightarrow> m);
         m = (if network = ''ws'' then
                (case json_get stream ''wsSettings'' of
                   Some ws \<Rightarrow> put_str_opt ''host'' (ws_header_host ws)
                     (put_str_opt ''path'' (json_str (json_get ws ''path'')) m)
                 | None \<Rightarrow> m)
              else if network = ''grpc'' then
                (case json_get stream ''grpcSettings'' of
                   Some grpc \<Rightarrow> put_str_opt ''path'' (json_str (json_get grpc ''serviceName'')) m
                 | None \<Rightarrow> m)
              else if network \<in> {''h2'', ''http''} then
                (case json_get stream ''httpSettings'' of
                   Some h2 \<Rightarrow> put_str_opt ''host'' (json_str (json_get h2 ''host''))
                     (put_str_opt ''path'' (json_str (json_get h2 ''path'')) m)
                 | None \<Rightarrow> m)
              else m)
     in Some (''vmess://'' @ en_base64 E (en_json E (JObject m)))))"

definition xray_trojan_to_uri :: "encoders \<Rightarrow> json \<Rightarrow> json option \<Rightarrow> string \<Rightarrow> string option" where
  "xray_trojan_to_uri E settings stream name =
     Option.bind (json_first (json_get settings ''servers'')) (\<lambda>server.
     Option.bind (json_str (json_get server ''password'')) (\<lambda>password.
     Option.bind (json_str (json_get server ''address'')) (\<lambda>address.
     Option.bind (Option.bind (json_get server ''port'') as_u64) (\<lambda>port.
     Option.bind stream (\<lambda>stream.
     let network = str_or stream ''network'' ''tcp''; security = str_or stream ''security'' ''tls'';
         params = (if security \<noteq> ''none'' then bt_insert ''security'' security [] else []);
         params = (if network \<noteq> ''tcp'' then bt_insert ''type'' network params else params);
         params = (case (security = ''tls'', json_get stream ''tlsSettings'') of
                     (True, Some tls) \<Rightarrow>
                       set_param ''fp'' tls ''fingerprint'' (set_param ''sni'' tls ''serverName'' params)
                   | _ \<Rightarrow> params);
         params = (if network = ''ws'' then
                     (case json_get stream ''wsSettings'' of
                        Some ws \<Rightarrow> put_opt ''host'' (ws_header_host ws) (set_param ''path'' ws ''path'' params)
                      | None \<Rightarrow> params)
                   else if network = ''grpc'' then
                     (case json_get stream ''grpcSettings'' of
                        Some grpc \<Rightarrow> set_param ''serviceName'' grpc ''serviceName'' params
                      | None \<Rightarrow> params)
                   else params)
     in Some (''trojan://'' @ password @ ''@'' @ address @ '':'' @ show_nat port @ ''?''
              @ encode_params params @ ''#'' @ percent_encode_name E name))))))"

definition xray_shadowsocks_to_uri :: "encoders \<Rightarrow> json \<Rightarrow> string \<Rightarrow> string option" where
  "xray_shadowsocks_to_uri E settings name =
     Option.bind (json_first (json_get settings ''servers'')) (\<lambda>server.
     Option.bind (json_str (json_get server ''method'')) (\<lambda>method.
     Option.bind (json_str (json_get server ''password'')) (\<lambda>password.
     Option.bind (json_str (json_get server ''address'')) (\<lambda>address.
     Option.bind (Option.bind (json_get server ''port'') as_u64) (\<lambda>port.
     Some (''ss://'' @ en_base64 E (method @ '':'' @ password) @ ''@'' @ address @ '':'' @ show_nat port
           @ ''#'' @ percent_encode_name E name))))))"

definition xray_outbound_to_uri :: "encoders \<Rightarrow> json \<Rightarrow> string \<Rightarrow> string option" where
  "xray_outbound_to_uri E outbound name =
     Option.bind (json_str (json_get outbound ''protocol'')) (\<lambda>protocol.
     Option.bind (json_get outbound ''settings'') (\<lambda>settings.
     let stream = json_get outbound ''streamSettings'' in
     if protocol = ''vless'' then xray_vless_to_uri E settings stream name
     else if protocol = ''vmess'' then xray_vmess_to_uri E settings stream name
     else if protocol = ''trojan'' then xray_trojan_to_uri E settings stream name
     else if protocol \<in> {''shadowsocks'', ''ss''} then xray_shadowsocks_to_uri E settings name
     else None))"

subsection \<open>A subscription of configurations\<close>

definition parse_xray_json :: "parsers \<Rightarrow> string \<Rightarrow> json list option" where
  "parse_xray_json K text =
     (case json_from_str (pk_crates K) text of
        Inr (JArray arr) \<Rightarrow> if arr \<noteq> [] then Some arr else None
      | Inr (JObject m) \<Rightarrow> Some [JObject m]
      | _ \<Rightarrow> None)"

definition extract_name :: "json \<Rightarrow> string" where
  "extract_name config =
     unwrap_or (json_str (or_else (json_get config ''remarks'') (json_get config ''tag''))) ''Unknown''"

definition config_candidates :: "encoders \<Rightarrow> parsers \<Rightarrow> string \<Rightarrow> nat \<Rightarrow> json \<Rightarrow> candidate list" where
  "config_candidates E K source priority config =
     (let name = extract_name config in
      case Option.bind (json_get config ''outbounds'') as_array of
        None \<Rightarrow> []
      | Some outbounds \<Rightarrow> filter_map (\<lambda>outbound.
          Option.bind (xray_outbound_to_uri E outbound name) (\<lambda>uri. ok_link K source priority uri)) outbounds)"

definition try_parse_xray_configs ::
  "encoders \<Rightarrow> parsers \<Rightarrow> string \<Rightarrow> nat \<Rightarrow> string \<Rightarrow> candidate list option" where
  "try_parse_xray_configs E K source priority body =
     (let text = pk_utf8_lossy K body in
      Option.bind (or_else (parse_xray_json K text)
          (Option.bind (decode_base64_to_string (pk_crates K) (trim text)) (parse_xray_json K)))
        (\<lambda>configs.
      case configs of
        [] \<Rightarrow> None
      | first # _ \<Rightarrow>
          if Option.bind (json_get first ''outbounds'') as_array = None then None
          else let candidates = concat (map (config_candidates E K source priority) configs)
               in if candidates = [] then None else Some candidates))"

end
