(* ===== verification/Html.thy ===== *)
theory Html
  imports Parser
begin

text \<open>
  HTML subscription panels (\<open>src/parser/html.rs\<close>): links inside attributes, in text areas and code
  blocks, and in scripts.  The positions of the code are byte offsets; the text and its lower-case
  copy have the same length.  A slice \<open>text[a..b]\<close> is \<open>slice a b text\<close>; all cuts are at ASCII
  characters, so at character boundaries.
\<close>

definition slice :: "nat \<Rightarrow> nat \<Rightarrow> string \<Rightarrow> string" where
  "slice a b s = take (b - a) (drop a s)"

definition find_char :: "string \<Rightarrow> char \<Rightarrow> nat option" where
  "find_char s c = find_str s [c]"

text \<open>\<open>is_likely_html\<close>, on the first 2048 bytes.\<close>

definition is_likely_html :: "parsers \<Rightarrow> string \<Rightarrow> bool" where
  "is_likely_html K body =
     (let head = to_ascii_lowercase (pk_utf8_lossy K (take (min (length body) 2048) body)) in
      contains_str head ''<html'' \<or> contains_str head ''<!doctype'' \<or> contains_str head ''<input''
      \<or> contains_str head ''<div'' \<or> contains_str head ''<body'' \<or> contains_str head ''<textarea''
      \<or> contains_str head ''<script'' \<or> contains_str head ''<table'')"

subsection \<open>Attributes\<close>

text \<open>
  The loop over the occurrences of one scheme.  (No supported scheme is empty; the first condition
  also covers that case so that the loop ends for every argument.)
\<close>

definition is_quote :: "char \<Rightarrow> bool" where
  "is_quote c \<longleftrightarrow> c \<in> {CHR 0x22, CHR 0x27}"

definition add_attribute_link :: "parsers \<Rightarrow> string \<Rightarrow> collection \<Rightarrow> collection" where
  "add_attribute_link K link acc =
     (let (candidates, seen) = acc in
      if link \<noteq> [] \<and> link \<notin> seen
      then (case parse_share_link K [] 0 link of Inr parsed \<Rightarrow> candidates @ [parsed] | Inl e \<Rightarrow> candidates,
            insert link seen)
      else acc)"

function attribute_loop :: "parsers \<Rightarrow> string \<Rightarrow> string \<Rightarrow> string \<Rightarrow> nat \<Rightarrow> collection \<Rightarrow> collection" where
  "attribute_loop K text lower scheme offset acc =
     (if scheme = [] \<or> length lower \<le> offset then acc
      else case find_str (drop offset lower) scheme of
        None \<Rightarrow> acc
      | Some pos \<Rightarrow>
          let abs_pos = offset + pos; search_from = abs_pos + length scheme in
          case find is_quote (rev (take abs_pos text)) of
            None \<Rightarrow> attribute_loop K text lower scheme search_from acc
          | Some delim \<Rightarrow>
              (case find_char (drop search_from text) delim of
                 None \<Rightarrow> attribute_loop K text lower scheme search_from acc
               | Some close_offset \<Rightarrow>
                   attribute_loop K text lower scheme (search_from + close_offset + 1)
                     (add_attribute_link K (trim (slice abs_pos (search_from + close_offset) text)) acc)))"
  by pat_completeness auto
termination
  by (relation "measure (\<lambda>(K, text, lower, scheme, offset, acc). length lower - offset)")
    (auto simp: neq_Nil_conv)

declare attribute_loop.simps [simp del]

definition extract_uris_from_attributes :: "parsers \<Rightarrow> string \<Rightarrow> collection \<Rightarrow> collection" where
  "extract_uris_from_attributes K text acc =
     fold (\<lambda>scheme. attribute_loop K text (to_ascii_lowercase text) scheme 0) SUPPORTED_URI_SCHEMES acc"

subsection \<open>Elements\<close>

text \<open>
  The loop over the elements of one tag, shared by text blocks and scripts: the content of each
  element, trimmed, if there is any, goes to \<open>body\<close>.
\<close>

function element_loop ::
  "string \<Rightarrow> string \<Rightarrow> (string \<Rightarrow> collection \<Rightarrow> collection) \<Rightarrow> string \<Rightarrow> string \<Rightarrow> nat \<Rightarrow> collection \<Rightarrow> collection" where
  "element_loop open_tag close_tag body text lower offset acc =
     (if length lower \<le> offset then acc
      else case find_str (drop offset lower) open_tag of
        None \<Rightarrow> acc
      | Some open_pos \<Rightarrow>
          let tag_search_start = offset + open_pos in
          case find_char (drop tag_search_start text) (CHR ''>'') of
            None \<Rightarrow> acc
          | Some tag_end_rel \<Rightarrow>
              let content_start = tag_search_start + tag_end_rel + 1 in
              case find_str (drop content_start lower) close_tag of
                None \<Rightarrow> acc
              | Some close_rel \<Rightarrow>
                  let content = trim (slice content_start (content_start + close_rel) text)
                  in element_loop open_tag close_tag body text lower
                       (content_start + close_rel + length close_tag)
                       (if content \<noteq> [] then body content acc else acc))"
  by pat_completeness auto
termination
  by (relation "measure (\<lambda>(ot, ct, body, text, lower, offset, acc). length lower - offset)") auto

declare element_loop.simps [simp del]

definition text_block :: "parsers \<Rightarrow> string \<Rightarrow> nat \<Rightarrow> string \<Rightarrow> collection \<Rightarrow> collection" where
  "text_block K source priority content acc =
     collect_entries_from_text K source priority content
       (case decode_base64_to_string (pk_crates K) content of
          Some decoded \<Rightarrow> collect_entries_from_text K source priority decoded acc
        | None \<Rightarrow> acc)"

definition extract_base64_from_tags :: "parsers \<Rightarrow> string \<Rightarrow> nat \<Rightarrow> string \<Rightarrow> collection \<Rightarrow> collection" where
  "extract_base64_from_tags K source priority text acc =
     fold (\<lambda>tag. element_loop (''<'' @ tag) (to_ascii_lowercase (''</'' @ tag @ ''>''))
         (text_block K source priority) text (to_ascii_lowercase text) 0)
       [''textarea'', ''code'', ''pre''] acc"

fun collect_json_uris :: "parsers \<Rightarrow> string \<Rightarrow> nat \<Rightarrow> json \<Rightarrow> collection \<Rightarrow> collection" where
  "collect_json_uris K source priority (JString text) acc =
     collect_entries_from_text K source priority text acc"
| "collect_json_uris K source priority (JArray arr) acc =
     fold (\<lambda>item. collect_json_uris K source priority item) arr acc"
| "collect_json_uris K source priority (JObject m) acc =
     fold (\<lambda>kv. collect_json_uris K source priority (snd kv)) m acc"
| "collect_json_uris K source priority v acc = acc"

definition script_block :: "parsers \<Rightarrow> string \<Rightarrow> nat \<Rightarrow> string \<Rightarrow> collection \<Rightarrow> collection" where
  "script_block K source priority content acc =
     collect_entries_from_text K source priority content
       (case json_from_str (pk_crates K) content of
          Inr j \<Rightarrow> collect_json_uris K source priority j acc
        | Inl e \<Rightarrow> acc)"

definition extract_from_scripts :: "parsers \<Rightarrow> string \<Rightarrow> nat \<Rightarrow> string \<Rightarrow> collection \<Rightarrow> collection" where
  "extract_from_scripts K source priority text acc =
     element_loop ''<script'' ''</script>'' (script_block K source priority) text
       (to_ascii_lowercase text) 0 acc"

definition try_extract_from_html :: "parsers \<Rightarrow> string \<Rightarrow> nat \<Rightarrow> string \<Rightarrow> candidate list option" where
  "try_extract_from_html K source priority body =
     (if \<not> is_likely_html K body then None
      else let text = pk_utf8_lossy K body;
               acc = extract_uris_from_attributes K text ([], {});
               acc = extract_base64_from_tags K source priority text acc;
               acc = extract_from_scripts K source priority text acc
           in if fst acc = [] then None else Some (fst acc))"

subsection \<open>What the loops keep\<close>

text \<open>
  Two ways to come by a candidate: as a link of the subscription, or (in an attribute) as a link
  without a source and with priority 0.
\<close>

definition parsed_from :: "parsers \<Rightarrow> string \<Rightarrow> nat \<Rightarrow> candidate \<Rightarrow> bool" where
  "parsed_from K source priority c \<longleftrightarrow> parse_share_link K source priority (c_uri c) = Inr c"

lemma collect_json_uris_eq: "collect_json_uris K source priority j acc = collect_entries_from_json K source priority j acc"
proof (induction j arbitrary: acc)
  case (JArray xs)
  then have "x \<in> set xs \<Longrightarrow> collect_json_uris K source priority x = collect_entries_from_json K source priority x" for x
    by blast
  then show ?case by (simp cong: fold_cong)
next
  case (JObject m)
  then have "kv \<in> set m \<Longrightarrow> collect_json_uris K source priority (snd kv) = collect_entries_from_json K source priority (snd kv)" for kv
    using snd_in_snds by (metis ext)
  then show ?case by (simp cong: fold_cong)
qed simp_all

lemma add_attribute_link_ok:
  assumes "\<And>c. parsed_from K [] 0 c \<Longrightarrow> P c" and "collection_ok P acc"
  shows "collection_ok P (add_attribute_link K link acc)"
proof -
  obtain candidates seen where acc: "acc = (candidates, seen)" by fastforce
  show ?thesis
  proof (cases "parse_share_link K [] 0 link")
    case (Inl e)
    then show ?thesis using assms(2) collection_ok_seen by (simp add: add_attribute_link_def acc)
  next
    case (Inr c)
    then have uri: "c_uri c = link" using parse_share_link_uri by blast
    then have "P c" using Inr by (intro assms(1)) (simp add: parsed_from_def)
    then show ?thesis
      using assms(2) Inr uri collection_ok_push[of P candidates seen c] by (simp add: add_attribute_link_def acc)
  qed
qed

lemma attribute_loop_ok:
  "\<forall>c. parsed_from K [] 0 c \<longrightarrow> P c \<Longrightarrow> collection_ok P acc \<Longrightarrow>
     collection_ok P (attribute_loop K tx lower scheme offset acc)"
proof (induction K tx lower scheme offset acc rule: attribute_loop.induct)
  case (1 K tx lower scheme offset acc)
  have "collection_ok P (add_attribute_link K link acc)" for link
    using 1(4,5) add_attribute_link_ok by blast
  then show ?case
    using 1 by (subst attribute_loop.simps) (auto simp: Let_def split: option.splits)
qed

lemma element_loop_ok:
  "\<forall>content acc. collection_ok P acc \<longrightarrow> collection_ok P (body content acc) \<Longrightarrow> collection_ok P acc \<Longrightarrow>
     collection_ok P (element_loop open_tag close_tag body tx lower offset acc)"
proof (induction open_tag close_tag body tx lower offset acc rule: element_loop.induct)
  case (1 open_tag close_tag body tx lower offset acc)
  have "collection_ok P (if content \<noteq> [] then body content acc else acc)" for content
    using 1(2,3) by (cases "content = []") (simp_all only: if_True if_False not_True_eq_False not_False_eq_True simp_thms)
  then show ?case
    using 1 by (cases "length lower \<le> offset"; subst element_loop.simps)
      (simp_all add: Let_def split: option.split split del: if_split)
qed

lemma html_candidates_ok:
  assumes "\<And>c. link_of K source priority c \<Longrightarrow> P c" and "\<And>c. parsed_from K [] 0 c \<Longrightarrow> P c"
    and "try_extract_from_html K source priority body = Some cs" and "c \<in> set cs"
  shows "P c"
proof -
  note from_text = collect_text_ok[of K source priority P, OF assms(1)]
    and from_json = collect_json_inv[of "collection_ok P", OF collect_text_ok[of K source priority P, OF assms(1)]]
  have keep: "collection_ok P (fold f xs acc)" if "\<And>x acc. collection_ok P acc \<Longrightarrow> collection_ok P (f x acc)" "collection_ok P acc"
    for f :: "string \<Rightarrow> collection \<Rightarrow> collection" and xs acc using that fold_inv[of xs "collection_ok P"] by blast
  have attrs: "collection_ok P (extract_uris_from_attributes K tx acc)" if "collection_ok P acc" for tx acc
    unfolding extract_uris_from_attributes_def
    by (rule keep[OF _ that]) (rule attribute_loop_ok, use assms(2) in blast)
  have block: "collection_ok P (text_block K source priority content acc)" if "collection_ok P acc" for content acc
    unfolding text_block_def using that by (auto intro!: from_text split: option.split)
  have tags: "collection_ok P (extract_base64_from_tags K source priority tx acc)" if "collection_ok P acc" for tx acc
    unfolding extract_base64_from_tags_def by (rule keep[OF _ that]) (rule element_loop_ok, use block in blast)
  have script: "collection_ok P (script_block K source priority content acc)" if "collection_ok P acc" for content acc
    unfolding script_block_def collect_json_uris_eq using that
    by (auto intro!: from_text from_json split: sum.split)
  have scripts: "collection_ok P (extract_from_scripts K source priority tx acc)" if "collection_ok P acc" for tx acc
    unfolding extract_from_scripts_def by (rule element_loop_ok) (use script that in blast)+
  let ?tx = "pk_utf8_lossy K body"
  have "cs = fst (extract_from_scripts K source priority ?tx (extract_base64_from_tags K source priority ?tx
      (extract_uris_from_attributes K ?tx ([], {}))))"
    using assms(3) by (simp add: try_extract_from_html_def Let_def split: if_splits)
  moreover have "collection_ok P ([], {})" by (simp add: collection_ok_def)
  ultimately have "\<exists>acc. collection_ok P acc \<and> cs = fst acc" using attrs tags scripts by metis
  then show ?thesis using assms(4) by (auto simp: collection_ok_def)
qed

end
