(* ===== verification/Documents.thy ===== *)
theory Documents
  imports Xray Html
begin

text \<open>
  A whole subscription document (\<open>parse_subscription_document\<close> of \<open>src/parser/mod.rs\<close>): the
  readings it is tried under, in the order of the code.
\<close>

text \<open>
  The three structured readers (Clash, HTML, Xray) are tried only while nothing was found; the
  candidates of one are added unless their link was seen.
\<close>

fun push_new :: "candidate list \<Rightarrow> collection \<Rightarrow> collection" where
  "push_new [] acc = acc"
| "push_new (c # cs) (candidates, seen) =
     push_new cs (if c_uri c \<in> seen then (candidates, seen) else (candidates @ [c], insert (c_uri c) seen))"

definition try_reader :: "candidate list option \<Rightarrow> collection \<Rightarrow> collection" where
  "try_reader found acc =
     (if fst acc = [] then case found of Some cs \<Rightarrow> push_new cs acc | None \<Rightarrow> acc else acc)"

definition parse_subscription_document ::
  "encoders \<Rightarrow> parsers \<Rightarrow> string \<Rightarrow> nat \<Rightarrow> string \<Rightarrow> candidate list" where
  "parse_subscription_document E K source priority body =
     (let text = pk_utf8_lossy K body;
          acc = collect_entries_from_text K source priority text ([], {});
          acc = (case decode_base64_to_string (pk_crates K) (trim text) of
             Some decoded \<Rightarrow> collect_entries_from_text K source priority decoded acc | None \<Rightarrow> acc);
          acc = try_reader (try_parse_clash_subscription E K source priority body) acc;
          acc = (case json_from_str (pk_crates K) text of
             Inr j \<Rightarrow> collect_entries_from_json K source priority j acc | Inl e \<Rightarrow> acc);
          acc = (case pk_yaml K text of
             Inr y \<Rightarrow> collect_entries_from_yaml K source priority y acc | Inl e \<Rightarrow> acc);
          acc = try_reader (try_extract_from_html K source priority body) acc;
          acc = try_reader (try_parse_xray_configs E K source priority body) acc
      in fst acc)"

subsection \<open>What a document yields\<close>

lemma push_new_ok:
  "(\<And>c. c \<in> set cs \<Longrightarrow> P c) \<Longrightarrow> collection_ok P acc \<Longrightarrow> collection_ok P (push_new cs acc)"
proof (induction cs arbitrary: acc)
  case Nil
  then show ?case by simp
next
  case (Cons c cs)
  then show ?case
    using collection_ok_push[of P "fst acc" "snd acc" c]
    by (cases acc) (auto simp: insert_absorb)
qed

lemma try_reader_ok:
  "(\<And>cs c. found = Some cs \<Longrightarrow> c \<in> set cs \<Longrightarrow> P c) \<Longrightarrow> collection_ok P acc \<Longrightarrow> collection_ok P (try_reader found acc)"
  by (auto simp: try_reader_def split: option.splits intro!: push_new_ok)

lemma try_reader_prefix: "prefix base (fst acc) \<Longrightarrow> prefix base (fst (try_reader found acc))"
  by (auto simp: try_reader_def split: option.splits)

lemma ok_link_parsed: "ok_link K source priority uri = Some c \<Longrightarrow> parsed_from K source priority c"
  using parse_share_link_uri by (auto simp: ok_link_def parsed_from_def split: sum.splits)

lemma nonempty_Some: "(if xs = [] then None else Some xs) = Some ys \<longleftrightarrow> ys = xs \<and> xs \<noteq> []"
  by auto

lemma clash_candidates_parsed:
  assumes "try_parse_clash_subscription E K source priority body = Some cs" and "c \<in> set cs"
  shows "parsed_from K source priority c"
proof -
  have entry: "parsed_from K source priority c" if "(case proxy_entry_to_uri E entry of
      Some uri \<Rightarrow> if supported_entry uri then ok_link K source priority uri else None | None \<Rightarrow> None) = Some c" for entry
    using that ok_link_parsed by (cases "proxy_entry_to_uri E entry") (simp_all split: if_splits)
  have extracted: "parsed_from K source priority c"
    if y: "extract_clash_proxies E K source priority y = Some cs" for y
  proof -
    obtain entries where "cs = filter_map (\<lambda>entry. case proxy_entry_to_uri E entry of
        Some uri \<Rightarrow> if supported_entry uri then ok_link K source priority uri else None | None \<Rightarrow> None) entries"
      using y unfolding extract_clash_proxies_def bind_eq_Some_conv Let_def nonempty_Some by blast
    then show ?thesis using assms(2) by (simp only: set_filter_map mem_Collect_eq) (elim bexE, rule entry)
  qed
  have "parsed_from K source priority c" if "try_parse_clash_yaml E K source priority t = Some cs" for t
    using that extracted by (auto simp: try_parse_clash_yaml_def split: sum.splits)
  then show ?thesis
    using assms(1)
    by (auto simp: try_parse_clash_subscription_def Let_def or_else_def bind_eq_Some_conv split: option.splits)
qed

lemma xray_candidates_parsed:
  assumes "try_parse_xray_configs E K source priority body = Some cs" and "c \<in> set cs"
  shows "parsed_from K source priority c"
proof -
  have one: "parsed_from K source priority c" if "c \<in> set (config_candidates E K source priority config)" for config
    using that
    by (auto simp: config_candidates_def Let_def set_filter_map bind_eq_Some_conv ok_link_parsed split: option.splits)
  obtain configs where "(case configs of [] \<Rightarrow> None
      | first # _ \<Rightarrow> if Option.bind (json_get first ''outbounds'') as_array = None then None
          else let candidates = concat (map (config_candidates E K source priority) configs)
               in if candidates = [] then None else Some candidates) = Some cs"
    using assms(1) unfolding try_parse_xray_configs_def Let_def bind_eq_Some_conv by blast
  then have "cs = concat (map (config_candidates E K source priority) configs)"
    by (cases configs) (simp_all add: Let_def split: if_splits del: concat_eq_Nil_conv)
  then show ?thesis using assms(2) one by auto
qed

definition document_candidate :: "parsers \<Rightarrow> string \<Rightarrow> nat \<Rightarrow> string \<Rightarrow> candidate \<Rightarrow> bool" where
  "document_candidate K source priority body c \<longleftrightarrow>
     parsed_from K source priority c \<or> (is_likely_html K body \<and> parsed_from K [] 0 c)"

lemma link_of_parsed: "link_of K source priority c \<Longrightarrow> parsed_from K source priority c"
  by (simp add: link_of_def parsed_from_def)

lemma document_ok:
  fixes E K source priority body
  defines "found \<equiv> collect_entries_from_text K source priority (pk_utf8_lossy K body) ([], {})"
  shows "\<exists>acc. collection_ok (document_candidate K source priority body) acc \<and> prefix (fst found) (fst acc)
    \<and> parse_subscription_document E K source priority body = fst acc"
proof -
  let ?P = "document_candidate K source priority body"
  define I where "I acc \<longleftrightarrow> collection_ok ?P acc \<and> prefix (fst found) (fst acc)" for acc
  have ok: "collection_ok ?P (collect_entries_from_text K source priority t acc)" if "collection_ok ?P acc" for t acc
    by (rule collect_text_ok[OF _ that]) (simp add: document_candidate_def link_of_parsed)
  have from_text: "I (collect_entries_from_text K source priority t acc)" if "I acc" for t acc
    using that ok collect_text_prefix unfolding I_def by blast
  note from_json = collect_json_inv[of I, OF from_text] and from_yaml = collect_yaml_inv[of I, OF from_text]
  have clash: "I (try_reader (try_parse_clash_subscription E K source priority body) acc)" if "I acc" for acc
    using that try_reader_ok[of _ ?P] clash_candidates_parsed try_reader_prefix
    unfolding I_def document_candidate_def by blast
  have xray: "I (try_reader (try_parse_xray_configs E K source priority body) acc)" if "I acc" for acc
    using that try_reader_ok[of _ ?P] xray_candidates_parsed try_reader_prefix
    unfolding I_def document_candidate_def by blast
  have panel: "?P c" if "try_extract_from_html K source priority body = Some cs" "c \<in> set cs" for cs c
  proof -
    have "is_likely_html K body" using that(1) by (simp add: try_extract_from_html_def split: if_splits)
    then show ?thesis
      using html_candidates_ok[of K source priority ?P, OF _ _ that] link_of_parsed
      by (auto simp: document_candidate_def)
  qed
  have html: "I (try_reader (try_extract_from_html K source priority body) acc)" if "I acc" for acc
    using that try_reader_ok[of _ ?P] panel try_reader_prefix unfolding I_def by blast
  have "collection_ok ?P ([], {})" by (simp add: collection_ok_def)
  then have "I found" using ok unfolding I_def found_def by blast
  then have "\<exists>acc. I acc \<and> parse_subscription_document E K source priority body = fst acc"
    unfolding parse_subscription_document_def Let_def found_def
    by (intro exI conjI refl) (auto intro!: from_text from_json from_yaml clash html xray split: option.splits sum.splits)
  then show ?thesis by (simp add: I_def)
qed


definition sample_parsers :: parsers where
  "sample_parsers = \<lparr>pk_crates = sample_crates, pk_utf8_lossy = (\<lambda>s. s), pk_yaml = (\<lambda>_. Inl ''not YAML''),
     pk_hash = (\<lambda>s. s)\<rparr>"

definition sample_encoders :: encoders where
  "sample_encoders = \<lparr>en_base64 = (\<lambda>s. s), en_json = (\<lambda>_. []), en_yaml = (\<lambda>_. Inl ''''),
     en_percent = (\<lambda>_ s. s)\<rparr>"


end
