(* ===== verification/Subscription.thy ===== *)
theory Subscription
  imports Documents Batch
begin

text \<open>
  Fetching subscriptions (\<open>src/subscription.rs\<close>): one source from the network, a \<open>data:\<close> address
  or a file; all enabled sources at once; and the second try of the failed ones through a proxy
  process (\<open>run_with_sing_box_proxy\<close> of \<open>src/probe.rs\<close>).

  What the outside answers is the record \<open>fetch_env\<close>: for the i-th source of a round its HTTP
  answer, the files, and the order in which the fetches finish (\<open>buffer_unordered\<close>).  The log
  lines and progress texts of single fetches are left out, those of the collecting loop are not.
\<close>

subsection \<open>One source\<close>

record fetch_error =
  fx_error :: string
  fx_bytes_read :: nat

record fetched_body =
  fb_body :: string
  fb_bytes_read :: nat

record fetched_source =
  fs_candidates :: "candidate list"
  fs_bytes_read :: nat

text \<open>A response: the chunks of its body end with the first error.\<close>

record http_response =
  hr_status_error :: "string option"
  hr_headers :: "(string \<times> string) list"
  hr_content_length :: "nat option"
  hr_chunks :: "string result list"

record fetch_env =
  fe_client :: "unit result"
  fe_http :: "nat \<Rightarrow> http_response result"
  fe_file :: "string \<Rightarrow> string result"
  fe_order :: "nat list"

definition fetch_error_new :: "string \<Rightarrow> nat \<Rightarrow> fetch_error" where
  "fetch_error_new error bytes = \<lparr>fx_error = error, fx_bytes_read = bytes\<rparr>"

definition with_error_context :: "string \<Rightarrow> fetch_error \<Rightarrow> fetch_error" where
  "with_error_context context e = e\<lparr>fx_error := context\<rparr>"

definition add_bytes :: "nat \<Rightarrow> fetch_error \<Rightarrow> fetch_error" where
  "add_bytes bytes e = e\<lparr>fx_bytes_read := sat_add u64_max (fx_bytes_read e) bytes\<rparr>"

text \<open>\<open>?\<close> on a plain error: no bytes were read.\<close>

definition plain_error :: "'a result \<Rightarrow> fetch_error + 'a" where
  "plain_error r = map_err (\<lambda>e. fetch_error_new e 0) r"

definition is_http_url :: "string \<Rightarrow> bool" where
  "is_http_url url \<longleftrightarrow> starts_with url ''http://'' \<or> starts_with url ''https://''"

definition too_large :: "nat \<Rightarrow> string" where
  "too_large max_bytes =
     ''subscription body is larger than max_subscription_bytes ('' @ show_nat max_bytes @ '')''"

definition ensure_body_size :: "nat \<Rightarrow> nat \<Rightarrow> unit result" where
  "ensure_body_size len max_bytes = (if len \<le> max_bytes then Inr () else Inl (too_large max_bytes))"

definition estimated_request_bytes :: "string \<Rightarrow> nat" where
  "estimated_request_bytes url = sat_add u64_max HTTP_EXCHANGE_OVERHEAD_BYTES (length url)"

definition estimated_response_bytes :: "http_response \<Rightarrow> nat" where
  "estimated_response_bytes response =
     sat_add u64_max (sum_list (map (\<lambda>(name, value). length name + length value + 4) (hr_headers response))) 64"

fun read_body :: "nat \<Rightarrow> string \<Rightarrow> string result list \<Rightarrow> fetch_error + string" where
  "read_body max_bytes body [] = Inr body"
| "read_body max_bytes body (chunk # later) =
     and_then (map_err (\<lambda>e. fetch_error_new e (length body)) chunk) (\<lambda>chunk.
     let next_size = sat_add usize_max (length body) (length chunk) in
     and_then (map_err (\<lambda>e. fetch_error_new e next_size) (ensure_body_size next_size max_bytes)) (\<lambda>_.
     read_body max_bytes (body @ chunk) later))"

definition read_limited_response :: "http_response \<Rightarrow> nat \<Rightarrow> fetch_error + string" where
  "read_limited_response response max_bytes =
     (if max_bytes < unwrap_or (hr_content_length response) 0 then Inl (fetch_error_new (too_large max_bytes) 0)
      else read_body max_bytes [] (hr_chunks response))"

definition fetch_http_body :: "http_response result \<Rightarrow> string \<Rightarrow> nat \<Rightarrow> fetch_error + fetched_body" where
  "fetch_http_body sent url max_bytes =
     (let request_bytes = estimated_request_bytes url in
      and_then (map_err (\<lambda>e. fetch_error_new e request_bytes) sent) (\<lambda>response.
      let exchange_bytes = sat_add u64_max request_bytes (estimated_response_bytes response) in
      and_then (case hr_status_error response of Some e \<Rightarrow> Inl (fetch_error_new e exchange_bytes) | None \<Rightarrow> Inr ()) (\<lambda>_.
      and_then (map_err (add_bytes exchange_bytes) (read_limited_response response max_bytes)) (\<lambda>body.
      Inr \<lparr>fb_body = body, fb_bytes_read = sat_add u64_max exchange_bytes (length body)\<rparr>))))"

definition parse_data_url :: "crates \<Rightarrow> string \<Rightarrow> string result" where
  "parse_data_url L url =
     and_then (ok_or (split_once_char url (CHR '','')) ''invalid data URL subscription'') (\<lambda>(metadata, payload).
     if ends_with metadata '';base64''
     then ok_or (b64_decode L STANDARD payload) ''invalid base64 data URL payload''
     else Inr (percent_decode_lossy L payload))"

definition fetch_body :: "crates \<Rightarrow> fetch_env \<Rightarrow> nat \<Rightarrow> string \<Rightarrow> nat \<Rightarrow> fetch_error + fetched_body" where
  "fetch_body L env index url max_bytes =
     (if is_http_url url then fetch_http_body (fe_http env index) url max_bytes
      else if starts_with url ''data:'' then
        and_then (plain_error (parse_data_url L url)) (\<lambda>body.
        and_then (plain_error (ensure_body_size (length body) max_bytes)) (\<lambda>_.
        Inr \<lparr>fb_body = body, fb_bytes_read = 0\<rparr>))
      else
        let path = unwrap_or (strip_prefix url ''file://'') url in
        and_then (plain_error (map_err (\<lambda>_. ''unable to read local subscription file '' @ path) (fe_file env path))) (\<lambda>body.
        and_then (plain_error (ensure_body_size (length body) max_bytes)) (\<lambda>_.
        Inr \<lparr>fb_body = body, fb_bytes_read = 0\<rparr>)))"

definition fetch_source ::
  "encoders \<Rightarrow> parsers \<Rightarrow> fetch_env \<Rightarrow> nat \<Rightarrow> nat \<Rightarrow> subscription_source \<Rightarrow> fetch_error + fetched_source" where
  "fetch_source E K env max_bytes index source =
     and_then (map_err (with_error_context
         (''failed to fetch subscription '' @ [CHR 39] @ ss_name source @ [CHR 39]))
       (fetch_body (pk_crates K) env index (ss_url source) max_bytes)) (\<lambda>fetched.
     Inr \<lparr>fs_candidates = parse_subscription_document E K (ss_name source) (ss_priority source) (fb_body fetched),
          fs_bytes_read = fb_bytes_read fetched\<rparr>)"

subsection \<open>All sources\<close>

record fetch_failure =
  ff_source :: subscription_source
  ff_error :: string

record fetch_outcome =
  fo_candidates :: "candidate list"
  fo_errors :: "string list"
  fo_failures :: "fetch_failure list"
  fo_successes :: "subscription_source list"

definition no_outcome :: fetch_outcome where
  "no_outcome = \<lparr>fo_candidates = [], fo_errors = [], fo_failures = [], fo_successes = []\<rparr>"

text \<open>
  The locals of the collecting loop, the byte counts it reported and the events it sent.
\<close>

record fetch_state =
  fl_errors :: "string list"
  fl_failures :: "(nat \<times> fetch_failure) list"
  fl_successes :: "subscription_source list"
  fl_fetched_sources :: "(nat \<times> candidate list) list"
  fl_seen_keys :: "string set"
  fl_unique_count :: nat
  fl_reported :: "nat list"
  fl_sent :: "progress_event list"

definition fetch_state_new :: fetch_state where
  "fetch_state_new = \<lparr>fl_errors = [], fl_failures = [], fl_successes = [], fl_fetched_sources = [],
     fl_seen_keys = {}, fl_unique_count = 0, fl_reported = [], fl_sent = []\<rparr>"

definition report_subscription_bytes :: "nat \<Rightarrow> fetch_state \<Rightarrow> fetch_state" where
  "report_subscription_bytes bytes s =
     (if 0 < bytes then s\<lparr>fl_reported := fl_reported s @ [bytes]\<rparr> else s)"

definition send_fetched_delta :: "bool \<Rightarrow> nat \<Rightarrow> progress_event list" where
  "send_fetched_delta progress n = (if progress then [FetchedDelta n] else [])"

definition collect_result ::
  "bool \<Rightarrow> nat \<Rightarrow> subscription_source \<Rightarrow> fetch_error + fetched_source \<Rightarrow> fetch_state \<Rightarrow> fetch_state" where
  "collect_result progress index source r s =
     (case r of
        Inr fetched \<Rightarrow>
          (let s = report_subscription_bytes (fs_bytes_read fetched) s;
               parsed = length (fs_candidates fetched);
               (new, seen_keys) = retain_new c_dedup_key (fl_seen_keys s) (fs_candidates fetched);
               new_unique = length new;
               unique_count = sat_add usize_max (fl_unique_count s) new_unique
           in s\<lparr>fl_seen_keys := seen_keys, fl_unique_count := unique_count,
                fl_sent := fl_sent s
                  @ send_progress progress (''Subscription parsed: '' @ show_nat new_unique
                      @ '' unique configs from '' @ show_nat parsed @ '' entries'')
                  @ send_fetched_delta progress unique_count,
                fl_successes := fl_successes s @ [source],
                fl_fetched_sources := fl_fetched_sources s @ [(index, fs_candidates fetched)]\<rparr>)
      | Inl err \<Rightarrow>
          (let s = report_subscription_bytes (fx_bytes_read err) s
           in s\<lparr>fl_sent := fl_sent s @ send_progress progress (''Subscription fetch failed: '' @ fx_error err),
                fl_errors := fl_errors s @ [fx_error err],
                fl_failures := fl_failures s @ [(index, \<lparr>ff_source = source, ff_error = fx_error err\<rparr>)]\<rparr>))"

definition by_index :: "nat \<times> 'a \<Rightarrow> nat \<times> 'a \<Rightarrow> ordering" where
  "by_index a b = cmp (fst a) (fst b)"

definition outcome_of :: "fetch_state \<Rightarrow> fetch_outcome" where
  "outcome_of s =
     (let (candidates, dedup_keys) =
            fold (\<lambda>(_, fetched) (candidates, dedup_keys).
                let (kept, dedup_keys) = retain_new c_dedup_key dedup_keys fetched
                in (candidates @ kept, dedup_keys))
              (sort_by by_index (fl_fetched_sources s)) ([], {})
      in \<lparr>fo_candidates = candidates, fo_errors = fl_errors s,
          fo_failures = map snd (sort_by by_index (fl_failures s)), fo_successes = fl_successes s\<rparr>)"

definition fetch_sources_with_client ::
  "encoders \<Rightarrow> parsers \<Rightarrow> fetch_env \<Rightarrow> nat \<Rightarrow> bool \<Rightarrow> subscription_source list \<Rightarrow> fetch_outcome \<times> fetch_state" where
  "fetch_sources_with_client E K env max_bytes progress sources =
     (let s = fold (\<lambda>i. collect_result progress i (sources ! i) (fetch_source E K env max_bytes i (sources ! i)))
                (fe_order env) fetch_state_new
      in (outcome_of s, s))"

text \<open>The results: the outcome, the reported bytes and the events.\<close>

type_synonym fetch_result = "(fetch_outcome \<times> nat list \<times> progress_event list) result"

definition load_candidates_with_cache ::
  "encoders \<Rightarrow> parsers \<Rightarrow> fetch_env \<Rightarrow> app_config \<Rightarrow> bool \<Rightarrow> fetch_result" where
  "load_candidates_with_cache E K env config progress =
     (if \<not> list_ex ss_enabled (ac_subscriptions config) then Inr (no_outcome, [], [])
      else and_then (map_err (\<lambda>_. ''failed to build HTTP client'') (fe_client env)) (\<lambda>_.
        let sources = filter ss_enabled (ac_subscriptions config);
            (outcome, s) = fetch_sources_with_client E K env (ac_max_subscription_bytes config) progress sources
        in Inr (outcome, fl_reported s,
             send_progress progress (''Subscription load: fetching '' @ show_nat (length sources) @ '' enabled sources'')
             @ fl_sent s)))"

text \<open>
  A stream that is buffered with no slots is never polled: with \<open>fetch_concurrency\<close> zero the call above
  does not return once it has sources and a client.  Validation refuses zero; the worker's command line
  does not.
\<close>

definition fetch_never_ends :: "fetch_env \<Rightarrow> app_config \<Rightarrow> bool" where
  "fetch_never_ends env config \<longleftrightarrow>
     ac_fetch_concurrency config = 0 \<and> list_ex ss_enabled (ac_subscriptions config) \<and> \<not> isl (fe_client env)"

subsection \<open>Through a proxy\<close>

text \<open>What a process started for one operation meets: a port, the file, the start, the wait.\<close>

record proxy_run_env =
  pr_port :: "nat option result"
  pr_write :: "unit result"
  pr_spawn :: "unit result"
  pr_ready :: "unit result"
  pr_stderr :: string

definition run_with_sing_box_outbound_proxy ::
  "proxy_run_env \<Rightarrow> string \<Rightarrow> (nat \<Rightarrow> 'a result) \<Rightarrow> 'a result" where
  "run_with_sing_box_outbound_proxy pr sing_box_path operation =
     and_then (map_err (\<lambda>_. ''unable to reserve a local proxy port'') (pr_port pr)) (\<lambda>reserved.
     and_then (ok_or reserved ''no local proxy port was reserved'') (\<lambda>port.
     and_then (map_err (\<lambda>_. ''unable to write sing-box retry proxy config'') (pr_write pr)) (\<lambda>_.
     and_then (map_err (\<lambda>_. ''failed to start sing-box retry proxy using '' @ [CHR 39] @ sing_box_path @ [CHR 39])
                 (pr_spawn pr)) (\<lambda>_.
     and_then (map_err (\<lambda>e. with_sing_box_stderr e (pr_stderr pr)) (pr_ready pr)) (\<lambda>_.
     operation port)))))"

definition run_with_sing_box_proxy ::
  "crates \<Rightarrow> proxy_run_env \<Rightarrow> string \<Rightarrow> string \<Rightarrow> (nat \<Rightarrow> 'a result) \<Rightarrow> 'a result" where
  "run_with_sing_box_proxy L pr sing_box_path uri operation =
     and_then (map_err (\<lambda>_. ''unable to convert working config into a sing-box retry proxy'')
                 (sing_box_outbound_from_share_link L uri)) (\<lambda>outbound.
     run_with_sing_box_outbound_proxy pr sing_box_path operation)"

definition retry_failed_sources_with_proxy ::
  "encoders \<Rightarrow> parsers \<Rightarrow> fetch_env \<Rightarrow> proxy_run_env \<Rightarrow> app_config \<Rightarrow> fetch_failure list \<Rightarrow> string \<Rightarrow> bool
     \<Rightarrow> fetch_result" where
  "retry_failed_sources_with_proxy E K env pr config failures proxy_uri progress =
     (let sources = filter (\<lambda>source. is_http_url (ss_url source)) (map ff_source failures) in
      if sources = [] then Inr (no_outcome, [], [])
      else run_with_sing_box_proxy (pk_crates K) pr (pc_sing_box_path (ac_probe config)) proxy_uri (\<lambda>port.
        and_then (fe_client env) (\<lambda>_.
        let (outcome, s) = fetch_sources_with_client E K env (ac_max_subscription_bytes config) progress sources
        in Inr (outcome, fl_reported s,
             send_progress progress (''Subscription retry: fetching '' @ show_nat (length sources)
               @ '' failed sources through sing-box proxy'') @ fl_sent s))))"

subsection \<open>Bounds\<close>

lemma ensure_body_size_Inr [simp]: "ensure_body_size len max_bytes = Inr u \<longleftrightarrow> len \<le> max_bytes"
  by (simp add: ensure_body_size_def)

lemma read_body_le:
  "max_bytes < usize_max \<Longrightarrow> length body \<le> max_bytes \<Longrightarrow> read_body max_bytes body received = Inr b \<Longrightarrow>
     length b \<le> max_bytes"
proof (induction max_bytes body received rule: read_body.induct)
  case (1 max_bytes body)
  then show ?case by simp
next
  case (2 max_bytes body chunk later)
  then obtain c where c: "chunk = Inr c" "sat_add usize_max (length body) (length c) \<le> max_bytes"
    "read_body max_bytes (body @ c) later = Inr b"
    by (auto simp: and_then_Inr_iff Let_def)
  have "length (body @ c) \<le> max_bytes"
    using c(2) 2(2) by (simp add: sat_add_def min_def split: if_splits)
  then show ?case using 2 c by (auto simp: map_err_def Let_def and_then_Inr_iff)
qed

lemma fetch_body_le:
  assumes "max_bytes < usize_max" and "fetch_body L env index url max_bytes = Inr f"
  shows "length (fb_body f) \<le> max_bytes"
  using assms read_body_le[OF assms(1), of "[]"]
  unfolding fetch_body_def fetch_http_body_def read_limited_response_def plain_error_def
  by (auto simp: and_then_Inr_iff Let_def split: if_splits option.splits)

subsection \<open>The order in which fetches finish does not matter\<close>

lemma sort_by_index: "sort_by by_index xs = sort_key fst xs"
proof -
  have ins: "insert_by by_index x xs = insort_key fst x xs" for x :: "nat \<times> 'a" and xs
    by (induction xs) (auto simp: by_index_def cmp_def)
  show ?thesis by (induction xs) (simp_all add: ins)
qed

lemma mset_filter_map:
  "mset (filter_map g xs) = image_mset (\<lambda>x. the (g x)) (filter_mset (\<lambda>x. g x \<noteq> None) (mset xs))"
  by (induction xs) (auto split: option.splits)

text \<open>Sorting indexed results gives them in the order of the indices.\<close>

lemma sort_indexed:
  assumes "mset order = mset [0..<n]" and "\<And>i p. g i = Some p \<Longrightarrow> fst p = i"
  shows "sort_by by_index (filter_map g order) = filter_map g [0..<n]"
proof -
  have m: "mset (filter_map g order) = mset (filter_map g [0..<n])"
    using assms(1) by (simp only: mset_filter_map)
  have i: "a = i" if "g i = Some (a, b)" for i a b using assms(2)[OF that] by simp
  have s: "sorted_wrt (<) (map fst (filter_map g xs))" if "sorted_wrt (<) xs" for xs
    using that by (induction xs) (auto simp: set_filter_map split: option.splits dest!: i)
  have "sorted_wrt (<) (map fst (filter_map g [0..<n]))" by (rule s) (rule sorted_wrt_upt)
  then have strict: "sorted (map fst (filter_map g [0..<n]))" "distinct (map fst (filter_map g [0..<n]))"
    by (simp_all add: strict_sorted_iff)
  have "inj_on fst (set (filter_map g order))"
    using mset_eq_setD[OF m] strict(2) by (simp add: distinct_map)
  then show ?thesis unfolding sort_by_index using sort_key_inj_key_eq[OF m _ strict(1)] by blast
qed

definition ok_result :: "(nat \<Rightarrow> fetch_error + fetched_source) \<Rightarrow> nat \<Rightarrow> (nat \<times> candidate list) option" where
  "ok_result res i = (case res i of Inr f \<Rightarrow> Some (i, fs_candidates f) | Inl e \<Rightarrow> None)"

definition failed_result ::
  "subscription_source list \<Rightarrow> (nat \<Rightarrow> fetch_error + fetched_source) \<Rightarrow> nat \<Rightarrow> (nat \<times> fetch_failure) option" where
  "failed_result sources res i = (case res i of
     Inl e \<Rightarrow> Some (i, \<lparr>ff_source = sources ! i, ff_error = fx_error e\<rparr>) | Inr f \<Rightarrow> None)"

lemma report_frame [simp]:
  "fl_errors (report_subscription_bytes b s) = fl_errors s"
  "fl_failures (report_subscription_bytes b s) = fl_failures s"
  "fl_successes (report_subscription_bytes b s) = fl_successes s"
  "fl_fetched_sources (report_subscription_bytes b s) = fl_fetched_sources s"
  "fl_seen_keys (report_subscription_bytes b s) = fl_seen_keys s"
  "fl_unique_count (report_subscription_bytes b s) = fl_unique_count s"
  by (simp_all add: report_subscription_bytes_def)

lemma length_retain_new: "length (fst (retain_new key seen xs)) = card (key ` set xs - seen)"
  using retain_new_distinct[of key seen xs] retain_new_keys[of key seen xs]
  by (metis distinct_card length_map set_map)

text \<open>What the collecting loop has gathered after the results of \<open>order\<close>.\<close>

lemma collect_all:
  fixes res sources progress
  defines "run order \<equiv> fold (\<lambda>i. collect_result progress i (sources ! i) (res i)) order fetch_state_new"
  shows "fl_fetched_sources (run order) = filter_map (ok_result res) order
     \<and> fl_failures (run order) = filter_map (failed_result sources res) order
     \<and> fl_errors (run order) = map (\<lambda>(_, f). ff_error f) (filter_map (failed_result sources res) order)
     \<and> fl_successes (run order) = map (\<lambda>(i, _). sources ! i) (filter_map (ok_result res) order)
     \<and> fl_seen_keys (run order) = c_dedup_key ` set (concat (map snd (filter_map (ok_result res) order)))
     \<and> fl_unique_count (run order) = min usize_max (card (fl_seen_keys (run order)))"
proof (induction order rule: rev_induct)
  case Nil
  then show ?case by (simp add: run_def fetch_state_new_def)
next
  case (snoc i order)
  have run: "run (order @ [i]) = collect_result progress i (sources ! i) (res i) (run order)"
    by (simp add: run_def)
  show ?case
  proof (cases "res i")
    case (Inl e)
    then show ?thesis
      using snoc.IH by (simp add: run collect_result_def Let_def ok_result_def failed_result_def)
  next
    case (Inr f)
    let ?seen = "fl_seen_keys (run order)" and ?new = "c_dedup_key ` set (fs_candidates f)"
    have fin: "finite ?seen" using snoc.IH by simp
    have "card (?seen \<union> ?new) = card ?seen + card (?new - ?seen)"
      using fin by (metis List.finite_set card_Un_disjoint Diff_disjoint Un_Diff_cancel finite_Diff finite_imageI)
    then show ?thesis
      using snoc.IH Inr
      by (auto simp: run collect_result_def Let_def ok_result_def failed_result_def case_prod_beta retain_new_seen
          length_retain_new sat_add_def)
  qed
qed

lemma fold_dedup:
  "fold (\<lambda>(_, fetched) (candidates, keys). let (kept, keys) = retain_new c_dedup_key keys fetched in (candidates @ kept, keys))
     xs (candidates, keys)
   = (candidates @ fst (retain_new c_dedup_key keys (concat (map snd xs))),
      snd (retain_new c_dedup_key keys (concat (map snd xs))))"
proof (induction xs arbitrary: candidates keys)
  case Nil
  then show ?case by simp
next
  case (Cons x xs)
  then show ?case by (cases x) (simp add: Let_def case_prod_beta retain_new_append retain_new_seen image_Un Un_assoc)
qed

definition source_result ::
  "encoders \<Rightarrow> parsers \<Rightarrow> fetch_env \<Rightarrow> nat \<Rightarrow> subscription_source list \<Rightarrow> nat \<Rightarrow> fetch_error + fetched_source" where
  "source_result E K env max_bytes sources i = fetch_source E K env max_bytes i (sources ! i)"

lemma split_ok_failed:
  "length (filter_map (ok_result res) xs) + length (filter_map (failed_result sources res) xs) = length xs"
  by (induction xs) (auto simp: ok_result_def failed_result_def split: sum.splits)

lemma mset_filter_map_cong: "mset xs = mset ys \<Longrightarrow> mset (filter_map g xs) = mset (filter_map g ys)"
  by (simp only: mset_filter_map)

lemma fetch_outcome_eq:
  fixes E K env max_bytes progress sources
  defines "res \<equiv> source_result E K env max_bytes sources" and "n \<equiv> length sources"
  assumes order: "mset (fe_order env) = mset [0..<n]"
    and fetched: "fetch_sources_with_client E K env max_bytes progress sources = (outcome, s)"
  shows "fo_candidates outcome = fst (retain_new c_dedup_key {} (concat (map snd (filter_map (ok_result res) [0..<n]))))
     \<and> fo_failures outcome = map snd (filter_map (failed_result sources res) [0..<n])
     \<and> mset (fo_errors outcome) = mset (map ff_error (fo_failures outcome))
     \<and> mset (fo_successes outcome) = mset (map (\<lambda>(i, _). sources ! i) (filter_map (ok_result res) [0..<n]))
     \<and> fl_unique_count s = min usize_max (length (fo_candidates outcome))"
proof -
  define run where "run order = fold (\<lambda>i. collect_result progress i (sources ! i) (res i)) order fetch_state_new" for order
  have s: "s = run (fe_order env)" and outcome: "outcome = outcome_of s"
    using fetched by (auto simp: fetch_sources_with_client_def run_def res_def source_result_def Let_def)
  note all = collect_all[of progress sources res "fe_order env", folded run_def s]
  have f: "fst p = i" if "ok_result res i = Some p" for i p
    using that by (auto simp: ok_result_def split: sum.splits)
  have g: "fst p = i" if "failed_result sources res i = Some p" for i p
    using that by (auto simp: failed_result_def split: sum.splits)
  have ok: "sort_by by_index (fl_fetched_sources s) = filter_map (ok_result res) [0..<n]"
    using all sort_indexed[OF order f] by simp
  have failed: "sort_by by_index (fl_failures s) = filter_map (failed_result sources res) [0..<n]"
    using all sort_indexed[OF order g] by simp
  have cands: "fo_candidates outcome = fst (retain_new c_dedup_key {} (concat (map snd (filter_map (ok_result res) [0..<n]))))"
    unfolding outcome outcome_of_def ok fold_dedup by (simp add: case_prod_beta)
  have failures: "fo_failures outcome = map snd (filter_map (failed_result sources res) [0..<n])"
    unfolding outcome outcome_of_def failed by (simp add: case_prod_beta Let_def)
  have errors: "fo_errors outcome = map (\<lambda>(_, f). ff_error f) (filter_map (failed_result sources res) (fe_order env))"
    and successes: "fo_successes outcome = map (\<lambda>(i, _). sources ! i) (filter_map (ok_result res) (fe_order env))"
    using all unfolding outcome outcome_of_def by (simp_all add: case_prod_beta Let_def)
  have me: "mset (fo_errors outcome) = mset (map ff_error (fo_failures outcome))"
    using mset_filter_map_cong[OF order, of "failed_result sources res"]
    unfolding errors failures by (simp add: multiset.map_comp comp_def case_prod_unfold)
  have ms: "mset (fo_successes outcome) = mset (map (\<lambda>(i, _). sources ! i) (filter_map (ok_result res) [0..<n]))"
    using mset_filter_map_cong[OF order, of "ok_result res"] unfolding successes by simp
  have "set (concat (map snd (filter_map (ok_result res) (fe_order env)))) = set (concat (map snd (filter_map (ok_result res) [0..<n])))"
    using mset_eq_setD[OF mset_filter_map_cong[OF order, of "ok_result res"]] by simp
  then have "fl_unique_count s = min usize_max (length (fo_candidates outcome))"
    using all unfolding cands length_retain_new by simp
  then show ?thesis using cands failures me ms by blast
qed

text \<open>
  C25: In whichever order the fetches finish, the outcome is the same: the candidates are those of
  the sources that could be read, in the order of the configuration, the first of each key; the
  failures are the other sources, in that order; errors and successes are theirs up to order; and
  the last number announced is the number of candidates.
\<close>

theorem fetch_order_irrelevant:
  assumes "mset (fe_order env) = mset [0..<length sources]"
    and "fetch_sources_with_client E K env max_bytes progress sources = (outcome, s)"
  shows "let ok = filter_map (ok_result (source_result E K env max_bytes sources)) [0..<length sources];
             failed = filter_map (failed_result sources (source_result E K env max_bytes sources)) [0..<length sources]
     in fo_candidates outcome = fst (retain_new c_dedup_key {} (concat (map snd ok)))
      \<and> fo_failures outcome = map snd failed
      \<and> mset (fo_errors outcome) = mset (map ff_error (fo_failures outcome))
      \<and> mset (fo_successes outcome) = mset (map (\<lambda>(i, _). sources ! i) ok)
      \<and> fl_unique_count s = min usize_max (length (fo_candidates outcome))"
  unfolding Let_def by (rule fetch_outcome_eq[OF assms])

definition sample_source :: subscription_source where
  "sample_source = \<lparr>ss_name = ''A'', ss_url = ''none'', ss_enabled = True, ss_priority = 1\<rparr>"

definition sample_fetch_env :: fetch_env where
  "sample_fetch_env = \<lparr>fe_client = Inr (), fe_http = (\<lambda>_. Inl ''timeout''), fe_file = (\<lambda>_. Inl ''no such file''),
     fe_order = [1, 0]\<rparr>"

theorem fetch_order_irrelevant_witness:
  "\<exists>outcome s. fetch_sources_with_client sample_encoders sample_parsers sample_fetch_env 100 True [sample_source, sample_source\<lparr>ss_url := ''http://x''\<rparr>]
       = (outcome, s)
     \<and> mset (fo_errors outcome) = mset (map ff_error (fo_failures outcome))"
proof -
  let ?sources = "[sample_source, sample_source\<lparr>ss_url := ''http://x''\<rparr>]"
  obtain outcome s where f: "fetch_sources_with_client sample_encoders sample_parsers sample_fetch_env 100 True ?sources = (outcome, s)"
    by fastforce
  have "mset (fe_order sample_fetch_env) = mset [0..<length ?sources]"
    by (simp add: sample_fetch_env_def upt_rec)
  from fetch_order_irrelevant[OF this f] f show ?thesis unfolding Let_def by blast
qed

end
