(* ===== verification/Refresh.thy ===== *)
theory Refresh
  imports Whole ProxyLoop Db Network Subscription
begin

text \<open>
  The refresh cycle (\<open>src/main.rs\<close>): one refresh from fetching to the published state
  (\<open>refresh_once\<close>), the loop that decides when to refresh (\<open>spawn_refresh_loop\<close>) and what it does
  to the proxy (\<open>update_proxy_and_ranked\<close>).

  The progress events of a refresh go through a channel to a forwarder task that applies them to
  the state while the refresh writes to it directly: before its k-th direct write the forwarder
  has taken \<open>rf_forwarded k\<close> of the events waiting.  A log line carries the clock text it is
  written at (\<open>rf_stamp\<close>).  What is only printed to the terminal is left out.
\<close>

subsection \<open>What a refresh meets\<close>

record scan_inputs =
  si_probe :: probe_env
  si_scan :: scan_env
  si_available :: bool
  si_order :: "nat \<Rightarrow> nat list"
  si_outcome :: "nat \<Rightarrow> tcp_outcome"
  si_sent :: "progress_event list"

record refresh_env =
  rf_started_at :: string
  rf_started_clock :: string
  rf_finished_at :: string
  rf_finished_clock :: string
  rf_started_instant :: nat
  rf_marked_instant :: nat
  rf_finished_instant :: nat
  rf_duration_ms :: nat
  rf_fetch_ms :: nat
  rf_stamp :: "nat \<Rightarrow> nat \<Rightarrow> string"
  rf_forwarded :: "nat \<Rightarrow> nat"
  rf_keys_from_str :: "string \<Rightarrow> string list result"
  rf_keys_to_string :: "string list \<Rightarrow> string"
  rf_visit :: "db_row list \<Rightarrow> db_row list"
  rf_executed :: "ranked_config \<Rightarrow> unit result"
  rf_db_now :: string
  rf_cutoff :: "nat \<Rightarrow> string"
  rf_encoders :: encoders
  rf_parsers :: parsers
  rf_fetch :: fetch_env
  rf_retry :: fetch_env
  rf_retry_proxy :: proxy_run_env
  rf_scans :: "nat \<Rightarrow> scan_inputs"

record refresh_run =
  rt_runtime :: runtime_state
  rt_runtime_config :: runtime_config
  rt_db :: database
  rt_pending :: "progress_event list"
  rt_writes :: nat

definition forward_pending :: "refresh_env \<Rightarrow> string set \<Rightarrow> nat \<Rightarrow> refresh_run \<Rightarrow> refresh_run" where
  "forward_pending env previous_top_n n s =
     (let events = map (\<lambda>i. (rf_stamp env (rt_writes s) (Suc i), rt_pending s ! i)) [0..<min n (length (rt_pending s))]
      in s\<lparr>rt_runtime := forward_progress events previous_top_n (rt_runtime s), rt_pending := drop n (rt_pending s)\<rparr>)"

definition flush :: "refresh_env \<Rightarrow> string set \<Rightarrow> refresh_run \<Rightarrow> refresh_run" where
  "flush env previous_top_n s = forward_pending env previous_top_n (length (rt_pending s)) s"

text \<open>A direct write under the lock, given the clock text.\<close>

definition write_runtime ::
  "refresh_env \<Rightarrow> string set \<Rightarrow> (string \<Rightarrow> runtime_state \<Rightarrow> runtime_state) \<Rightarrow> refresh_run \<Rightarrow> refresh_run" where
  "write_runtime env previous_top_n f s =
     (let s = forward_pending env previous_top_n (rf_forwarded env (rt_writes s)) s
      in s\<lparr>rt_runtime := f (rf_stamp env (rt_writes s) 0) (rt_runtime s), rt_writes := Suc (rt_writes s)\<rparr>)"

definition send :: "progress_event list \<Rightarrow> refresh_run \<Rightarrow> refresh_run" where
  "send events s = s\<lparr>rt_pending := rt_pending s @ events\<rparr>"

definition add_all_fetch_bytes :: "nat list \<Rightarrow> refresh_run \<Rightarrow> refresh_run" where
  "add_all_fetch_bytes reported s = s\<lparr>rt_runtime := fold add_fetch_bytes reported (rt_runtime s)\<rparr>"

subsection \<open>The parts of a refresh\<close>

definition stop_policy_for :: "app_config \<Rightarrow> string set \<Rightarrow> candidate list \<Rightarrow> probe_stop_policy" where
  "stop_policy_for config previous_top_n candidates =
     \<lparr> sp_scan_all_configs = ac_scan_all_configs config, sp_top_n = ac_top_n config,
       sp_prioritize_stability = ac_prioritize_stability config,
       sp_return_configs_asap = ac_return_configs_asap config,
       sp_previous_working_keys = {key \<in> previous_top_n. key \<in> c_dedup_key ` set candidates},
       sp_cancel_flag = None \<rparr>"

fun debug_mode :: "probe_mode \<Rightarrow> string" where
  "debug_mode Active = ''Active''"
| "debug_mode Tcp = ''Tcp''"

definition trim_end_dots :: "string \<Rightarrow> string" where
  "trim_end_dots s = rev (dropWhile (\<lambda>c. c = CHR ''.'') (rev s))"

text \<open>\<^term>\<open>None\<close>: the scan does not return.  \<open>phase\<close> numbers the scans of a refresh.\<close>

definition probe_refresh_candidates ::
  "refresh_env \<Rightarrow> app_config \<Rightarrow> string set \<Rightarrow> string \<Rightarrow> nat \<Rightarrow> candidate list \<Rightarrow> refresh_run
     \<Rightarrow> (ranked_config list \<times> refresh_run) option" where
  "probe_refresh_candidates env config previous_top_n label phase candidates s =
     (if candidates = [] then
        let message = (if label = ''Probe'' then ''Probe skipped: no configs were loaded.''
                       else label @ '' skipped: no new configs were loaded.'')
        in Some ([], write_runtime env previous_top_n
             (\<lambda>now. push_tui_progress now (LiveLog (trim_end_dots message)) {}) s)
      else
        let s = write_runtime env previous_top_n (\<lambda>now. push_tui_progress now (LiveLog (label @ '' started: ''
              @ show_nat (length candidates) @ '' candidates with '' @ debug_mode (pc_mode (ac_probe config)))) {}) s;
            inputs = rf_scans env phase;
            pe = (si_probe inputs)\<lparr>pe_config := ac_probe config,
                   pe_policy := stop_policy_for config previous_top_n candidates, pe_progress := True\<rparr>
        in map_option (\<lambda>ranked. (ranked, send (si_sent inputs) s))
             (probe_candidates pe (si_scan inputs) (si_available inputs) (si_order inputs) (si_outcome inputs) candidates))"

definition subscription_retry_proxy_uri :: "app_config \<Rightarrow> ranked_config list \<Rightarrow> runtime_state \<Rightarrow> string option" where
  "subscription_retry_proxy_uri config ranked previous =
     (if pc_mode (ac_probe config) \<noteq> Active \<or> trim (pc_sing_box_path (ac_probe config)) = [] then None
      else case filter_opt (\<lambda>uri. uri \<noteq> []) (map_option trim (ac_emergency_config config)) of
        Some uri \<Rightarrow> Some uri
      | None \<Rightarrow> map_option r_uri (find r_reachable (ranked @ rs_ranked previous)))"

fun merged_fetch_errors :: "fetch_failure list \<Rightarrow> fetch_outcome option \<Rightarrow> string list" where
  "merged_fetch_errors initial_failures None = map ff_error initial_failures"
| "merged_fetch_errors initial_failures (Some retry) =
     concat (map (\<lambda>initial.
        if list_ex (\<lambda>source. source = ff_source initial) (fo_successes retry) then []
        else case find (\<lambda>failure. ff_source failure = ff_source initial) (fo_failures retry) of
          Some retry_failure \<Rightarrow> [ff_error retry_failure]
        | None \<Rightarrow> [ff_error initial]) initial_failures)"

definition start_refresh :: "refresh_env \<Rightarrow> app_config \<Rightarrow> string \<Rightarrow> runtime_state \<Rightarrow> runtime_state" where
  "start_refresh env config now s =
     push_live_log (timestamped_log now (''Refresh started at '' @ rf_started_clock env))
       (s\<lparr>rs_refreshing := True, rs_refresh_started_at := Some (rf_started_at env),
          rs_refresh_started_instant := Some (rf_marked_instant env), rs_last_error := None,
          rs_refresh_finished_at := None, rs_refresh_finished_instant := None,
          rs_refresh_duration_ms := None, rs_total_candidates := 0, rs_tested_candidates := 0,
          rs_reachable_candidates := 0, rs_fetch_errors := [], rs_live_logs := [],
          rs_ranked := (if ac_return_configs_asap config then [] else rs_ranked s)\<rparr>)"

definition loaded_log :: "nat \<Rightarrow> string list \<Rightarrow> string \<Rightarrow> string \<Rightarrow> runtime_state \<Rightarrow> runtime_state" where
  "loaded_log fetched_count fetch_errors message now s =
     push_live_log (timestamped_log now message)
       (s\<lparr>rs_total_candidates := fetched_count, rs_fetch_errors := fetch_errors\<rparr>)"

text \<open>Step one: the candidates, from the network or from the database.\<close>

definition load_fetched ::
  "refresh_env \<Rightarrow> app_config \<Rightarrow> refresh_run \<Rightarrow> fetch_outcome result \<times> refresh_run" where
  "load_fetched env config s =
     (if ac_use_cache_only config then
        let ranked_from_db = load_ranked_configs (rf_visit env) (rt_db s) (ac_top_n config) in
        if ranked_from_db = []
        then (Inr (no_outcome\<lparr>fo_errors := [''no previously-probed configs in database'']\<rparr>), s)
        else (Inr (no_outcome\<lparr>fo_candidates := candidates_from_ranked ranked_from_db,
                fo_successes := filter ss_enabled (ac_subscriptions config)\<rparr>),
              send [LiveLog (''Loaded '' @ show_nat (length ranked_from_db)
                @ '' previously-probed configs from database'')] s)
      else case load_candidates_with_cache (rf_encoders env) (rf_parsers env) (rf_fetch env) config True of
        Inl e \<Rightarrow> (Inl e, s)
      | Inr (outcome, reported, sent) \<Rightarrow> (Inr outcome, send sent (add_all_fetch_bytes reported s)))"

text \<open>
  The locals a refresh carries from step to step: the number of candidates, of sources read, the
  keys seen, the errors left, and the results so far.
\<close>

record refresh_locals =
  lc_fetched_count :: nat
  lc_fresh_success_count :: nat
  lc_seen_candidate_keys :: "string set"
  lc_fetch_errors :: "string list"
  lc_ranked :: "ranked_config list"

text \<open>New candidates of a later step are probed, and their results appended.\<close>

definition probe_more ::
  "refresh_env \<Rightarrow> app_config \<Rightarrow> string set \<Rightarrow> string \<Rightarrow> nat \<Rightarrow> candidate list \<Rightarrow> refresh_locals \<Rightarrow> refresh_run
     \<Rightarrow> (refresh_locals \<times> refresh_run) option" where
  "probe_more env config previous_top_n label phase candidates l s =
     (if 0 < length candidates
      then map_option (\<lambda>(ranked, s). (l\<lparr>lc_ranked := lc_ranked l @ ranked\<rparr>, s))
             (probe_refresh_candidates env config previous_top_n label phase candidates s)
      else Some (l, s))"

text \<open>Step two: the failed sources once more, through a working configuration.\<close>

definition take_retry ::
  "fetch_failure list \<Rightarrow> fetch_outcome \<Rightarrow> refresh_locals \<Rightarrow> candidate list \<times> refresh_locals" where
  "take_retry failures retry l =
     (let (candidates, seen) = retain_new c_dedup_key (lc_seen_candidate_keys l) (fo_candidates retry)
      in (candidates,
          l\<lparr>lc_seen_candidate_keys := seen,
            lc_fetched_count := sat_add usize_max (lc_fetched_count l) (length candidates),
            lc_fresh_success_count := sat_add usize_max (lc_fresh_success_count l) (length (fo_successes retry)),
            lc_fetch_errors := merged_fetch_errors failures (Some retry)\<rparr>))"

definition retried_step ::
  "refresh_env \<Rightarrow> app_config \<Rightarrow> string set \<Rightarrow> fetch_failure list \<Rightarrow> fetch_outcome \<Rightarrow> refresh_locals \<Rightarrow> refresh_run
     \<Rightarrow> (refresh_locals \<times> refresh_run) option" where
  "retried_step env config previous_top_n failures retry l s =
     (let (candidates, l) = take_retry failures retry l;
          s = write_runtime env previous_top_n (loaded_log (lc_fetched_count l) (lc_fetch_errors l)
                (''Subscription retry finished: '' @ show_nat (length candidates) @ '' new configs from ''
                 @ show_nat (length (fo_candidates retry)) @ '' entries; ''
                 @ show_nat (length (lc_fetch_errors l)) @ '' source errors remain'')) s
      in probe_more env config previous_top_n ''Retry probe'' 1 candidates l s)"

definition retry_step ::
  "refresh_env \<Rightarrow> app_config \<Rightarrow> string set \<Rightarrow> runtime_state \<Rightarrow> fetch_failure list \<Rightarrow> refresh_locals \<Rightarrow> refresh_run
     \<Rightarrow> (refresh_locals \<times> refresh_run) option" where
  "retry_step env config previous_top_n previous failures l s =
     (if ac_use_cache_only config \<or> failures = [] then Some (l, s)
      else case subscription_retry_proxy_uri config (lc_ranked l) previous of
        None \<Rightarrow> Some (l, write_runtime env previous_top_n (\<lambda>now. push_tui_progress now
          (LiveLog ''Subscription retry skipped: no emergency or active working config is available'') {}) s)
      | Some proxy_uri \<Rightarrow>
          (case retry_failed_sources_with_proxy (rf_encoders env) (rf_parsers env) (rf_retry env) (rf_retry_proxy env)
                  config failures proxy_uri True of
             Inl error \<Rightarrow> Some (l, write_runtime env previous_top_n (\<lambda>now. push_tui_progress now
               (LiveLog (''Subscription retry through first working config failed: '' @ error)) {}) s)
           | Inr (retry, reported, sent) \<Rightarrow>
               retried_step env config previous_top_n failures retry l (send sent (add_all_fetch_bytes reported s))))"

text \<open>Step three: when no source could be read, the results of earlier runs.\<close>

definition cache_step ::
  "refresh_env \<Rightarrow> app_config \<Rightarrow> string set \<Rightarrow> refresh_locals \<Rightarrow> refresh_run \<Rightarrow> (refresh_locals \<times> refresh_run) option" where
  "cache_step env config previous_top_n l s =
     (let db_configs = load_ranked_configs (rf_visit env) (rt_db s) (ac_top_n config) in
      if ac_use_cache_only config \<or> 0 < lc_fresh_success_count l \<or> db_configs = [] then Some (l, s)
      else
        let (fresh, seen) = retain_new r_dedup_key (lc_seen_candidate_keys l) db_configs;
            l = l\<lparr>lc_seen_candidate_keys := seen,
                  lc_fetched_count := sat_add usize_max (lc_fetched_count l) (length fresh)\<rparr>;
            s = write_runtime env previous_top_n (loaded_log (lc_fetched_count l) (lc_fetch_errors l)
                  (''Database fallback finished: '' @ show_nat (length fresh)
                   @ '' configs from previously-probed entries'')) s
        in probe_more env config previous_top_n ''Cache probe'' 2 (candidates_from_ranked fresh) l s)"

text \<open>Step four: what is stored.\<close>

definition top_keys :: "nat \<Rightarrow> ranked_config list \<Rightarrow> string list" where
  "top_keys top_n configs = map r_dedup_key (take top_n (filter r_reachable configs))"

definition persist :: "refresh_env \<Rightarrow> app_config \<Rightarrow> ranked_config list \<Rightarrow> database \<Rightarrow> unit result \<times> database" where
  "persist env config configs db =
     (case upsert_configs (rf_executed env) (rf_db_now env) configs db of
        (Inl e, db) \<Rightarrow> (Inl ''failed to persist configs to database'', db)
      | (Inr _, db) \<Rightarrow>
          (let keys = top_keys (ac_top_n config) configs;
               db = (if keys = [] then delete_stable_top_keys db
                     else save_stable_top_keys (rf_keys_to_string env) keys db)
           in (Inr (), snd (clean_offline_configs (rf_cutoff env (ac_clean_offlines_after_days config)) db))))"

text \<open>Step five: what is published.  The sum of the byte counts wraps around.\<close>

definition refresh_summary :: "refresh_env \<Rightarrow> runtime_state \<Rightarrow> string" where
  "refresh_summary env r =
     rf_started_clock env @ '' '' @ [CHR 0xE2, CHR 0x86, CHR 0x92] @ '' '' @ rf_finished_clock env @ '' (''
       @ format_duration_short (unwrap_or (rs_refresh_duration_ms r) 0) @ '') '' @ [CHR 0xC2, CHR 0xB7] @ '' ''
       @ show_nat (rs_total_candidates r) @ '' fetched, ''
       @ show_nat (rs_tested_candidates r - rs_reachable_candidates r) @ '' failed, ''
       @ show_nat (rs_reachable_candidates r) @ '' working''"

definition finished_runtime ::
  "refresh_env \<Rightarrow> runtime_state \<Rightarrow> refresh_locals \<Rightarrow> ranked_config list \<Rightarrow> (string \<rightharpoonup> nat) \<Rightarrow> runtime_state" where
  "finished_runtime env progress_state l ranked counts =
     (let runtime = \<lparr>
        rs_last_refresh = Some (rf_started_at env), rs_last_error = None,
        rs_logs = rs_logs progress_state, rs_live_logs = rs_live_logs progress_state,
        rs_refresh_started_at = Some (rf_started_at env), rs_refresh_finished_at = Some (rf_finished_at env),
        rs_refresh_started_instant = Some (rf_started_instant env),
        rs_refresh_finished_instant = Some (rf_finished_instant env),
        rs_refresh_duration_ms = Some (rf_duration_ms env), rs_refreshing = False,
        rs_total_candidates = lc_fetched_count l, rs_tested_candidates = length ranked,
        rs_reachable_candidates = length (filter r_reachable ranked),
        rs_fetch_bytes = rs_fetch_bytes progress_state,
        rs_speedtest_bytes = sat_add u64_max (rs_speedtest_bytes progress_state)
          (sum_list (filter_map r_download_bytes (lc_ranked l)) mod (u64_max + 1)),
        rs_fetch_errors = lc_fetch_errors l, rs_ranked = ranked, rs_stable_working_counts = counts,
        rs_proxy_active_config = None, rs_proxy_running = False, rs_proxy_port = None,
        rs_proxy_discoverable = False \<rparr>
      in push_runtime_log (refresh_summary env runtime) runtime)"

definition finish_refresh ::
  "refresh_env \<Rightarrow> app_config \<Rightarrow> string set \<Rightarrow> runtime_state \<Rightarrow> refresh_locals \<Rightarrow> refresh_run \<Rightarrow> unit result \<times> refresh_run" where
  "finish_refresh env config previous_top_n previous l s =
     (let s = flush env previous_top_n s in
      if lc_fetched_count l = 0 \<and> lc_ranked l = [] \<and> lc_fetch_errors l \<noteq> []
      then (Inl (''no usable configs were loaded; first error: '' @ hd (lc_fetch_errors l)), s)
      else
        let (ranked, counts) = apply_stability_ranking (deduplicate_ranked_configs (lc_ranked l))
              (rs_stable_working_counts previous) previous_top_n (ac_prioritize_stability config)
        in case persist env config ranked (rt_db s) of
             (Inl e, db) \<Rightarrow> (Inl e, s\<lparr>rt_db := db\<rparr>)
           | (Inr _, db) \<Rightarrow>
               (Inr (), s\<lparr>rt_db := db, rt_runtime := finished_runtime env (rt_runtime s) l ranked counts\<rparr>))"

definition previous_keys :: "refresh_env \<Rightarrow> app_config \<Rightarrow> database \<Rightarrow> string set" where
  "previous_keys env config db =
     (if ac_prioritize_stability config
      then (case load_stable_top_keys (rf_keys_from_str env) db of Inr keys \<Rightarrow> keys | Inl e \<Rightarrow> {})
      else {})"

text \<open>What follows the first scan, and what follows the second try.\<close>

fun after_retry ::
  "refresh_env \<Rightarrow> app_config \<Rightarrow> string set \<Rightarrow> runtime_state \<Rightarrow> refresh_locals \<times> refresh_run
     \<Rightarrow> (unit result \<times> refresh_run) option" where
  "after_retry env config previous_top_n previous (l, s) =
     (case cache_step env config previous_top_n l s of
        None \<Rightarrow> None
      | Some (l, s) \<Rightarrow> Some (finish_refresh env config previous_top_n previous l s))"

fun after_probe ::
  "refresh_env \<Rightarrow> app_config \<Rightarrow> string set \<Rightarrow> runtime_state \<Rightarrow> fetch_failure list \<Rightarrow> refresh_locals
     \<Rightarrow> ranked_config list \<times> refresh_run \<Rightarrow> (unit result \<times> refresh_run) option" where
  "after_probe env config previous_top_n previous failures l (ranked, s) =
     Option.bind (retry_step env config previous_top_n previous failures (l\<lparr>lc_ranked := ranked\<rparr>) s)
       (after_retry env config previous_top_n previous)"

text \<open>What the refresh knows once the candidates are loaded.\<close>

definition first_locals :: "fetch_outcome \<Rightarrow> refresh_locals" where
  "first_locals fetched =
     \<lparr>lc_fetched_count = length (fo_candidates fetched), lc_fresh_success_count = length (fo_successes fetched),
      lc_seen_candidate_keys = c_dedup_key ` set (fo_candidates fetched),
      lc_fetch_errors = fo_errors fetched, lc_ranked = []\<rparr>"

fun after_load ::
  "refresh_env \<Rightarrow> app_config \<Rightarrow> string set \<Rightarrow> runtime_state \<Rightarrow> fetch_outcome result \<times> refresh_run
     \<Rightarrow> (unit result \<times> refresh_run) option" where
  "after_load env config previous_top_n previous (Inl e, s) = Some (Inl e, flush env previous_top_n s)"
| "after_load env config previous_top_n previous (Inr fetched, s) =
     Option.bind
       (probe_refresh_candidates env config previous_top_n ''Probe'' 0 (fo_candidates fetched)
         (write_runtime env previous_top_n (loaded_log (length (fo_candidates fetched)) (fo_errors fetched)
            (''Subscription loading finished: '' @ show_nat (length (fo_candidates fetched)) @ '' configs, ''
             @ show_nat (length (fo_errors fetched)) @ '' source errors in ''
             @ format_duration_short (rf_fetch_ms env))) s))
       (after_probe env config previous_top_n previous (fo_failures fetched) (first_locals fetched))"

definition refresh_once :: "refresh_env \<Rightarrow> app_config \<Rightarrow> refresh_run \<Rightarrow> (unit result \<times> refresh_run) option" where
  "refresh_once env config s =
     (let previous_top_n = previous_keys env config (rt_db s);
          started = write_runtime env previous_top_n (start_refresh env config)
            (s\<lparr>rt_runtime_config := runtime_config_of config\<rparr>)
      in after_load env config previous_top_n (rt_runtime s) (load_fetched env config started))"

subsection \<open>What a scan returns\<close>

lemma about_rank_configs [simp]: "about (rank_configs rs) = about rs"
proof -
  have "candidate_of_ranked (set_rank n r) = candidate_of_ranked r" for n r
    by (simp add: candidate_of_ranked_def set_rank_def)
  then show ?thesis
    by (simp add: about_def rank_configs_def map_number_set_rank del: mset_map) simp
qed

lemma about_map [simp]:
  "about (map (\<lambda>c. failed_config c v e) cs) = mset cs"
  "about (map (\<lambda>i. probe_tcp t (f i) (g i)) order) = mset (map f order)"
  by (simp_all add: about_def comp_def)

lemma sweep_loop_about:
  "sweep_loop policy t testable outcome order loads reachable dead = (reachable', dead', loads')
   \<Longrightarrow> about reachable' + about dead' \<subseteq># about reachable + about dead + mset (map ((!) testable) order)"
proof (induction order arbitrary: loads reachable dead)
  case Nil
  then show ?case by simp
next
  case (Cons i order)
  let ?r = "probe_tcp t (testable ! i) (outcome i)"
  let ?alive = "if r_reachable ?r then reachable @ [?r] else reachable"
  let ?dead = "if r_reachable ?r then dead else dead @ [?r]"
  have one: "about ?alive + about ?dead = about reachable + about dead + {#testable ! i#}"
    by (simp add: about_def)
  show ?case
  proof (cases "cancel_flag_set policy loads")
    case True
    then have "reachable' = ?alive" "dead' = ?dead" using Cons.prems by (auto simp: Let_def)
    then show ?thesis using one by simp
  next
    case False
    then have "sweep_loop policy t testable outcome order (Suc loads) ?alive ?dead = (reachable', dead', loads')"
      using Cons.prems by (simp add: Let_def)
    from Cons.IH[OF this] show ?thesis using one by simp
  qed
qed

lemma mset_replace_part:
  fixes A D T X U :: "'a multiset"
  assumes "A + D \<subseteq># T" and "X \<subseteq># U + A"
  shows "X + D \<subseteq># U + T"
proof -
  have "X + D \<subseteq># (U + A) + D" using assms(2) by (rule subset_mset.add_right_mono)
  also have "(U + A) + D = U + (A + D)" by (rule add.assoc)
  also have "U + (A + D) \<subseteq># U + T" using assms(1) by (rule subset_mset.add_left_mono)
  finally show ?thesis .
qed

lemma batched_about:
  assumes "scan_env_ok se" and "probe_active_batched pe se loads candidates = Some out"
  shows "about out \<subseteq># mset candidates"
proof -
  obtain s where s: "scan_loop pe se (scan_start pe se loads candidates) = Some s" "about out = about (sn_ranked s)"
    using assms(2) by (auto simp: probe_active_batched_def)
  have "in_flight (scan_start pe se loads candidates)
      + alias_candidates (ap_prepared (scan_preparation pe se candidates)) = mset candidates"
    using preparation_total by (simp add: in_flight_def)
  then have "in_flight (scan_start pe se loads candidates) \<subseteq># mset candidates"
    by (metis mset_subset_eq_add_left)
  moreover have "about (sn_ranked s) \<subseteq># in_flight s" by (simp add: in_flight_def)
  moreover have "in_flight s \<subseteq># in_flight (scan_start pe se loads candidates)"
    using scan_loop_in_flight[OF s(1)] assms(1) by blast
  ultimately show ?thesis using s(2) by (metis subset_mset.order_trans)
qed

lemma mset_order_nth:
  assumes "mset order = mset [0..<length cs]"
  shows "mset (map ((!) cs) order) = mset cs"
  using arg_cong[OF assms, of "image_mset ((!) cs)"] by (metis map_nth mset_map)

text \<open>Every result of \<open>probe_candidates\<close> is about a candidate of its own.\<close>

lemma probe_candidates_about:
  assumes "scan_env_ok se" and "\<And>n. mset (order n) = mset [0..<n]"
    and "probe_candidates pe se available order outcome candidates = Some out"
  shows "about out \<subseteq># mset candidates"
proof -
  consider (missing) "pc_mode (pe_config pe) = Active" "\<not> available"
    | (tcp) "pc_mode (pe_config pe) = Tcp"
    | (active) "pc_mode (pe_config pe) = Active" "available" "\<not> pc_tcp_prefilter (pe_config pe)"
    | (sweep) "pc_mode (pe_config pe) = Active" "available" "pc_tcp_prefilter (pe_config pe)"
    by (cases "pc_mode (pe_config pe)") auto
  then show ?thesis
  proof cases
    case missing
    then show ?thesis using assms(3) by (auto simp: probe_candidates_def Let_def)
  next
    case tcp
    then have "about out = mset (map ((!) candidates) (order (length candidates)))"
      using assms(3) by (auto simp: probe_candidates_def Let_def)
    then show ?thesis using mset_order_nth[OF assms(2), of candidates] by (simp del: mset_map)
  next
    case active
    then show ?thesis
      using assms(3) batched_about[OF assms(1)] by (auto simp: probe_candidates_def Let_def)
  next
    case sweep
    then obtain ranked where r: "probe_active_with_tcp_prefilter pe se order outcome candidates = Some ranked"
      "about out = about ranked"
      using assms(3) by (auto simp: probe_candidates_def Let_def)
    let ?udp = "filter (\<lambda>c. is_udp_protocol (c_protocol c)) candidates"
    let ?tcp = "filter (\<lambda>c. \<not> is_udp_protocol (c_protocol c)) candidates"
    show ?thesis
    proof (cases "?tcp = []")
      case True
      then have "probe_active_batched pe se 0 ?udp = Some ranked"
        using r by (simp add: probe_active_with_tcp_prefilter_def)
      from batched_about[OF assms(1) this] show ?thesis
        using r(2) multiset_filter_subset[of "\<lambda>c. is_udp_protocol (c_protocol c)" "mset candidates"]
        by (simp del: multiset_filter_subset)
    next
      case False
      obtain alive dead loads where w: "sweep_loop (pe_policy pe)
          (min (pc_connect_timeout_ms (pe_config pe)) TCP_PREFILTER_CONNECT_TIMEOUT_MS) ?tcp outcome
          (order (length ?tcp)) 0 [] [] = (alive, dead, loads)"
        using prod_cases3 by blast
      then obtain tested where t: "probe_active_batched pe se loads (?udp @ candidates_from_ranked alive) = Some tested"
        "ranked = tested @ dead"
        using r(1) False by (auto simp: probe_active_with_tcp_prefilter_def Let_def)
      have "about alive + about dead \<subseteq># mset ?tcp"
        using sweep_loop_about[OF w] mset_order_nth[OF assms(2), of ?tcp] by (simp del: mset_filter)
      moreover have "about tested \<subseteq># mset ?udp + about alive"
        using batched_about[OF assms(1) t(1)] by (simp add: candidates_from_ranked_def about_def)
      ultimately have "about tested + about dead \<subseteq># mset ?udp + mset ?tcp" by (rule mset_replace_part)
      moreover have "mset ?udp + mset ?tcp = mset candidates" by simp
      ultimately show ?thesis using r(2) t(2) by simp
    qed
  qed
qed

lemma probe_candidates_keys:
  assumes "scan_env_ok se" and "\<And>n. mset (order n) = mset [0..<n]"
    and "probe_candidates pe se available order outcome candidates = Some out"
  shows "r_dedup_key ` set out \<subseteq> c_dedup_key ` set candidates"
proof -
  have "set_mset (about out) \<subseteq> set candidates"
    using set_mset_mono[OF probe_candidates_about[OF assms]] by (simp only: set_mset_mset)
  then have "candidate_of_ranked ` set out \<subseteq> set candidates"
    by (simp only: about_def set_mset_mset set_map)
  then have "c_dedup_key (candidate_of_ranked r) \<in> c_dedup_key ` set candidates" if "r \<in> set out" for r
    using that by blast
  then show ?thesis by auto
qed

subsection \<open>What the steps keep\<close>

lemma run_frame [simp]:
  "rt_db (write_runtime env prev f s) = rt_db s" "rt_db (send es s) = rt_db s"
  "rt_db (flush env prev s) = rt_db s" "rt_db (add_all_fetch_bytes bs s) = rt_db s"
  "rt_runtime_config (write_runtime env prev f s) = rt_runtime_config s"
  "rt_runtime_config (send es s) = rt_runtime_config s"
  "rt_runtime_config (flush env prev s) = rt_runtime_config s"
  "rt_runtime_config (add_all_fetch_bytes bs s) = rt_runtime_config s"
  "rt_pending (flush env prev s) = []"
  by (simp_all add: write_runtime_def forward_pending_def send_def flush_def add_all_fetch_bytes_def Let_def)

definition kept :: "refresh_run \<Rightarrow> refresh_run \<Rightarrow> bool" where
  "kept s s' \<longleftrightarrow> rt_db s' = rt_db s \<and> rt_runtime_config s' = rt_runtime_config s"

text \<open>The scans run each probe of a batch once, in some order.\<close>

definition scans_ok :: "refresh_env \<Rightarrow> bool" where
  "scans_ok env \<longleftrightarrow> (\<forall>phase. scan_env_ok (si_scan (rf_scans env phase))
     \<and> (\<forall>n. mset (si_order (rf_scans env phase) n) = mset [0..<n]))"

lemma probe_refresh_keys:
  assumes "scans_ok env" and "probe_refresh_candidates env config prev label phase cs s = Some (ranked, s')"
  shows "r_dedup_key ` set ranked \<subseteq> c_dedup_key ` set cs \<and> kept s s'"
proof (cases "cs = []")
  case True
  then show ?thesis using assms(2) by (auto simp: probe_refresh_candidates_def kept_def)
next
  case False
  obtain pe where p: "probe_candidates pe (si_scan (rf_scans env phase)) (si_available (rf_scans env phase))
      (si_order (rf_scans env phase)) (si_outcome (rf_scans env phase)) cs = Some ranked" "kept s s'"
    using assms(2) False by (auto simp: probe_refresh_candidates_def kept_def Let_def)
  have "scan_env_ok (si_scan (rf_scans env phase))" "mset (si_order (rf_scans env phase) n) = mset [0..<n]" for n
    using assms(1) by (simp_all add: scans_ok_def)
  from probe_candidates_keys[OF this p(1)] p(2) show ?thesis by blast
qed

text \<open>Every key with a result was loaded, and every loaded key was counted.\<close>

definition loaded_ok :: "refresh_locals \<Rightarrow> bool" where
  "loaded_ok l \<longleftrightarrow> finite (lc_seen_candidate_keys l)
     \<and> r_dedup_key ` set (lc_ranked l) \<subseteq> lc_seen_candidate_keys l
     \<and> min usize_max (card (lc_seen_candidate_keys l)) \<le> lc_fetched_count l"

lemma loaded_ok_extend:
  assumes "loaded_ok l" and "retain_new key (lc_seen_candidate_keys l) xs = (new, seen)"
  shows "loaded_ok (l\<lparr>lc_seen_candidate_keys := seen,
            lc_fetched_count := sat_add usize_max (lc_fetched_count l) (length new)\<rparr>)"
    and "key ` set new \<subseteq> seen"
proof -
  have seen: "seen = lc_seen_candidate_keys l \<union> key ` set xs"
    "key ` set new = key ` set xs - lc_seen_candidate_keys l"
    using retain_new_seen[of key "lc_seen_candidate_keys l" xs]
      retain_new_keys[of key "lc_seen_candidate_keys l" xs] assms(2) by simp_all
  then show "key ` set new \<subseteq> seen" by blast
  have "seen = lc_seen_candidate_keys l \<union> key ` set new" using seen by blast
  then have "card seen \<le> card (lc_seen_candidate_keys l) + length new"
    using card_Un_le[of "lc_seen_candidate_keys l" "key ` set new"] card_image_le[of "set new" key]
      card_length[of new] by simp
  then show "loaded_ok (l\<lparr>lc_seen_candidate_keys := seen,
            lc_fetched_count := sat_add usize_max (lc_fetched_count l) (length new)\<rparr>)"
    using assms(1) seen(1) by (auto simp: loaded_ok_def sat_add_def)
qed

lemma loaded_ok_results:
  assumes "loaded_ok l" and "r_dedup_key ` set ranked \<subseteq> lc_seen_candidate_keys l"
  shows "loaded_ok (l\<lparr>lc_ranked := lc_ranked l @ ranked\<rparr>)"
  using assms by (auto simp: loaded_ok_def)

lemma loaded_ok_other [simp]:
  "loaded_ok (l\<lparr>lc_fresh_success_count := n\<rparr>) = loaded_ok l"
  "loaded_ok (l\<lparr>lc_fetch_errors := es\<rparr>) = loaded_ok l"
  by (simp_all add: loaded_ok_def)

lemma probe_more_ok:
  assumes "scans_ok env" and "probe_more env config prev label phase cs l s = Some (l', s')"
    and "loaded_ok l" and "c_dedup_key ` set cs \<subseteq> lc_seen_candidate_keys l"
  shows "loaded_ok l' \<and> kept s s'"
proof (cases "cs = []")
  case True
  then show ?thesis using assms(2,3) by (simp add: probe_more_def kept_def)
next
  case False
  then obtain ranked where r: "probe_refresh_candidates env config prev label phase cs s = Some (ranked, s')"
    "l' = l\<lparr>lc_ranked := lc_ranked l @ ranked\<rparr>"
    using assms(2) by (auto simp: probe_more_def)
  note keys = probe_refresh_keys[OF assms(1) r(1)]
  have "loaded_ok l'"
    unfolding r(2) by (rule loaded_ok_results[OF assms(3) subset_trans[OF conjunct1[OF keys] assms(4)]])
  then show ?thesis using conjunct2[OF keys] by simp
qed

lemma take_retry_ok:
  assumes "loaded_ok l" and "take_retry failures retry l = (cs, l')"
  shows "loaded_ok l'" and "c_dedup_key ` set cs \<subseteq> lc_seen_candidate_keys l'"
proof -
  obtain seen where new: "retain_new c_dedup_key (lc_seen_candidate_keys l) (fo_candidates retry) = (cs, seen)"
    and l': "l' = l\<lparr>lc_seen_candidate_keys := seen,
            lc_fetched_count := sat_add usize_max (lc_fetched_count l) (length cs),
            lc_fresh_success_count := sat_add usize_max (lc_fresh_success_count l) (length (fo_successes retry)),
            lc_fetch_errors := merged_fetch_errors failures (Some retry)\<rparr>"
    using assms(2) by (auto simp only: take_retry_def Let_def prod.inject split: prod.splits)
  show "loaded_ok l'" unfolding l' loaded_ok_other by (rule loaded_ok_extend(1)[OF assms(1) new])
  show "c_dedup_key ` set cs \<subseteq> lc_seen_candidate_keys l'"
    using loaded_ok_extend(2)[OF assms(1) new] by (simp add: l')
qed

lemma retried_step_ok:
  assumes "scans_ok env" and "retried_step env config prev failures retry l s = Some (l', s')" and "loaded_ok l"
  shows "loaded_ok l' \<and> kept s s'"
proof -
  obtain cs l1 where t: "take_retry failures retry l = (cs, l1)" by fastforce
  note l1 = take_retry_ok[OF assms(3) t]
  obtain s1 where "probe_more env config prev ''Retry probe'' 1 cs l1 s1 = Some (l', s')" "kept s s1"
    using assms(2) by (auto simp: retried_step_def t kept_def Let_def)
  with probe_more_ok[OF assms(1) this(1) l1] show ?thesis by (simp add: kept_def)
qed

lemma retry_step_ok:
  assumes "scans_ok env" and "retry_step env config prev previous failures l s = Some (l', s')" and "loaded_ok l"
  shows "loaded_ok l' \<and> kept s s'"
proof (cases "ac_use_cache_only config \<or> failures = []")
  case True
  then show ?thesis using assms(2,3) by (auto simp: retry_step_def kept_def)
next
  case False
  show ?thesis
  proof (cases "subscription_retry_proxy_uri config (lc_ranked l) previous")
    case None
    then show ?thesis using False assms(2,3) by (auto simp: retry_step_def kept_def)
  next
    case (Some uri)
    show ?thesis
    proof (cases "retry_failed_sources_with_proxy (rf_encoders env) (rf_parsers env) (rf_retry env)
        (rf_retry_proxy env) config failures uri True")
      case (Inl e)
      then show ?thesis using False Some assms(2,3) by (auto simp: retry_step_def kept_def)
    next
      case (Inr r)
      obtain retry reported sent where r: "r = (retry, reported, sent)" using prod_cases3 by blast
      have "retried_step env config prev failures retry l (send sent (add_all_fetch_bytes reported s)) = Some (l', s')"
        using False Some Inr assms(2) by (simp add: retry_step_def r)
      from retried_step_ok[OF assms(1) this assms(3)] show ?thesis by (simp add: kept_def)
    qed
  qed
qed

lemma cache_step_ok:
  assumes "scans_ok env" and "cache_step env config prev l s = Some (l', s')" and "loaded_ok l"
  shows "loaded_ok l' \<and> kept s s'"
proof (cases "ac_use_cache_only config \<or> 0 < lc_fresh_success_count l
    \<or> load_ranked_configs (rf_visit env) (rt_db s) (ac_top_n config) = []")
  case True
  then show ?thesis using assms(2,3) by (auto simp: cache_step_def kept_def)
next
  case False
  obtain fresh seen where new: "retain_new r_dedup_key (lc_seen_candidate_keys l)
      (load_ranked_configs (rf_visit env) (rt_db s) (ac_top_n config)) = (fresh, seen)" by fastforce
  let ?l = "l\<lparr>lc_seen_candidate_keys := seen,
      lc_fetched_count := sat_add usize_max (lc_fetched_count l) (length fresh)\<rparr>"
  obtain s1 where p: "probe_more env config prev ''Cache probe'' 2 (candidates_from_ranked fresh) ?l s1 = Some (l', s')"
    "kept s s1"
    using False assms(2) by (auto simp: cache_step_def new kept_def Let_def)
  have "c_dedup_key ` set (candidates_from_ranked fresh) \<subseteq> lc_seen_candidate_keys ?l"
    using loaded_ok_extend(2)[OF assms(3) new] by (auto simp: candidates_from_ranked_def)
  from probe_more_ok[OF assms(1) p(1) loaded_ok_extend(1)[OF assms(3) new] this] p(2) show ?thesis
    by (simp add: kept_def)
qed

lemma load_fetched_kept: "load_fetched env config s = (r, s') \<Longrightarrow> kept s s'"
  by (auto simp: load_fetched_def kept_def Let_def split: if_splits sum.splits prod.splits)

lemma first_locals_ok:
  assumes "r_dedup_key ` set ranked \<subseteq> c_dedup_key ` set (fo_candidates fetched)"
  shows "loaded_ok ((first_locals fetched)\<lparr>lc_ranked := ranked\<rparr>)"
proof -
  have "card (c_dedup_key ` set (fo_candidates fetched)) \<le> length (fo_candidates fetched)"
    using card_image_le[of "set (fo_candidates fetched)" c_dedup_key] card_length[of "fo_candidates fetched"] by simp
  then show ?thesis using assms by (simp add: loaded_ok_def first_locals_def)
qed

text \<open>A refresh that loads candidates ends in its last step.\<close>

lemma refresh_once_cases:
  assumes "scans_ok env" and "refresh_once env config s = Some (r, s')"
  obtains (unread) e where "r = Inl e" "rt_db s' = rt_db s" "rt_runtime_config s' = runtime_config_of config" "rt_pending s' = []"
    | (finished) l s1 where "loaded_ok l" "rt_db s1 = rt_db s" "rt_runtime_config s1 = runtime_config_of config"
        "finish_refresh env config (previous_keys env config (rt_db s)) (rt_runtime s) l s1 = (r, s')"
proof -
  let ?prev = "previous_keys env config (rt_db s)"
  define s0 where "s0 = write_runtime env ?prev (start_refresh env config) (s\<lparr>rt_runtime_config := runtime_config_of config\<rparr>)"
  have s0: "rt_db s0 = rt_db s" "rt_runtime_config s0 = runtime_config_of config" by (simp_all add: s0_def)
  obtain fetched s1 where f: "load_fetched env config s0 = (fetched, s1)" by fastforce
  note k1 = load_fetched_kept[OF f]
  show thesis
  proof (cases fetched)
    case (Inl e)
    then show thesis using assms(2) f k1 s0 unread
      by (auto simp: refresh_once_def s0_def[symmetric] kept_def Let_def)
  next
    case (Inr outcome)
    define s2 where "s2 = write_runtime env ?prev (loaded_log (length (fo_candidates outcome)) (fo_errors outcome)
        (''Subscription loading finished: '' @ show_nat (length (fo_candidates outcome)) @ '' configs, ''
           @ show_nat (length (fo_errors outcome)) @ '' source errors in ''
           @ format_duration_short (rf_fetch_ms env))) s1"
    have "after_load env config ?prev (rt_runtime s) (Inr outcome, s1) = Some (r, s')"
      using assms(2) f Inr by (simp only: refresh_once_def s0_def[symmetric] Let_def)
    then obtain ranked s3 l4 s4 l5 s5 where
      p: "probe_refresh_candidates env config ?prev ''Probe'' 0 (fo_candidates outcome) s2 = Some (ranked, s3)"
      and q: "retry_step env config ?prev (rt_runtime s) (fo_failures outcome)
        ((first_locals outcome)\<lparr>lc_ranked := ranked\<rparr>) s3 = Some (l4, s4)"
      and c: "cache_step env config ?prev l4 s4 = Some (l5, s5)"
      and fin: "finish_refresh env config ?prev (rt_runtime s) l5 s5 = (r, s')"
      unfolding after_load.simps s2_def[symmetric] bind_eq_Some_conv
      by (force simp: bind_eq_Some_conv split: option.splits)
    note k3 = probe_refresh_keys[OF assms(1) p]
    note k4 = retry_step_ok[OF assms(1) q first_locals_ok[OF conjunct1[OF k3]]]
    note k5 = cache_step_ok[OF assms(1) c conjunct1[OF k4]]
    have "rt_db s5 = rt_db s" "rt_runtime_config s5 = runtime_config_of config"
      using s0 k1 k3 k4 k5 by (simp_all add: kept_def s2_def)
    from finished[OF conjunct1[OF k5] this fin] show thesis .
  qed
qed

subsection \<open>The published state\<close>

lemma next_count_cong:
  assumes "set (map (\<lambda>r. (r_dedup_key r, r_reachable r)) xs) = set (map (\<lambda>r. (r_dedup_key r, r_reachable r)) ys)"
  shows "next_count xs counts = next_count ys counts"
proof -
  let ?S = "\<lambda>zs. set (map (\<lambda>r. (r_dedup_key r, r_reachable r)) zs)"
  have a: "(\<exists>r\<in>set zs. r_reachable r \<and> r_dedup_key r = k) \<longleftrightarrow> (k, True) \<in> ?S zs" for zs k by force
  have b: "r_dedup_key ` set zs = fst ` ?S zs" for zs by (simp add: image_comp comp_def)
  show ?thesis unfolding next_count_def a b assms ..
qed

text \<open>The list a refresh publishes, given the results of its scans and the counts before it.\<close>

definition ranking_ok :: "ranked_config list \<Rightarrow> (string \<rightharpoonup> nat) \<Rightarrow> (string \<rightharpoonup> nat) \<Rightarrow> bool" where
  "ranking_ok ranked before counts \<longleftrightarrow> distinct (map r_dedup_key ranked)
     \<and> map r_rank ranked = [1..<length ranked + 1] \<and> counts = next_count ranked before
     \<and> (\<forall>r\<in>set ranked. r_stability_count r = unwrap_or (counts (r_dedup_key r)) 0)"

lemma published_ranking:
  assumes "apply_stability_ranking (deduplicate_ranked_configs found) before prev prio = (ranked, counts)"
  shows "ranking_ok ranked before counts" and "r_dedup_key ` set ranked = r_dedup_key ` set found"
proof -
  let ?d = "deduplicate_ranked_configs found"
  have d: "distinct (map r_dedup_key ?d)" by (rule deduplicate_distinct)
  have same: "mset (map g ranked) = mset (map g ?d)"
    if "\<And>n r. g (r\<lparr>r_stability_count := n\<rparr>) = g r" "\<And>n r. g (set_rank n r) = g r" for g :: "ranked_config \<Rightarrow> 'b"
    using apply_stability_ranking_mset[of g ?d before prev prio] that assms by simp
  have keys: "mset (map r_dedup_key ranked) = mset (map r_dedup_key ?d)" by (rule same) simp_all
  from mset_eq_setD[OF this] show "r_dedup_key ` set ranked = r_dedup_key ` set found"
    using deduplicate_keys[of found] by simp
  have "mset (map (\<lambda>r. (r_dedup_key r, r_reachable r)) ranked) = mset (map (\<lambda>r. (r_dedup_key r, r_reachable r)) ?d)"
    by (rule same) simp_all
  from next_count_cong[OF mset_eq_setD[OF this]] have "counts = next_count ranked before"
    using stability_counts_spec[OF d, of before prev prio] assms by (simp add: fun_eq_iff)
  moreover have "map r_rank ranked = [1..<length ranked + 1]"
  proof (cases prio)
    case True
    then show ?thesis using assms
      by (auto simp: apply_stability_ranking_def Let_def simp del: upt_Suc split: prod.splits)
  next
    case False
    then have "map r_rank ranked = map r_rank ?d" "length ranked = length ?d"
      using assms bump_stability_map[of r_rank ?d "before |` set (map r_dedup_key ?d)"]
        bump_stability_map[of id ?d] arg_cong[OF keys, of size]
      by (auto simp: apply_stability_ranking_def Let_def split: prod.splits)
    then show ?thesis by (simp add: deduplicate_ranked_configs_def del: upt_Suc)
  qed
  moreover have "\<forall>r\<in>set ranked. r_stability_count r = unwrap_or (counts (r_dedup_key r)) 0"
    using stability_counts_agree[OF d, of _ before prev prio] assms by simp
  moreover have "distinct (map r_dedup_key ranked)"
    using d keys by (metis mset_eq_imp_distinct_iff)
  ultimately show "ranking_ok ranked before counts" by (simp add: ranking_ok_def)
qed

text \<open>Storing the results leaves the rows of the reachable ones, unless they are older than the cutoff.\<close>

lemma upsert_row_keys:
  "d_dedup_key ` set (db_configs (upsert_row now c db)) = insert (r_dedup_key c) (d_dedup_key ` set (db_configs db))"
proof (cases "r_dedup_key c \<in> d_dedup_key ` set (db_configs db)")
  case True
  let ?f = "\<lambda>row. if d_dedup_key row = r_dedup_key c then update_row (row_of_config now (d_id row) c) row else row"
  have "d_dedup_key (?f row) = d_dedup_key row" for row by simp
  then have "d_dedup_key ` set (map ?f (db_configs db)) = d_dedup_key ` set (db_configs db)"
    by (simp only: set_map image_image)
  then show ?thesis using True by (simp add: upsert_row_def insert_absorb del: set_map)
next
  case False
  then show ?thesis by (simp add: upsert_row_def)
qed

lemma upsert_stable_top [simp]: "db_stable_top (upsert_row now c db) = db_stable_top db"
  by (simp add: upsert_row_def)

lemma upsert_configs_ok:
  assumes "upsert_configs executed now configs db = (r, db')" and "db_ok db"
  shows "db_ok db' \<and> db_stable_top db' = db_stable_top db
     \<and> (r = Inr () \<longrightarrow> d_dedup_key ` set (db_configs db') = d_dedup_key ` set (db_configs db) \<union> r_dedup_key ` set configs)"
  using assms
proof (induction configs arbitrary: db)
  case Nil
  then show ?case by auto
next
  case (Cons c configs)
  show ?case
  proof (cases "executed c")
    case (Inl e)
    then show ?thesis using Cons.prems by auto
  next
    case (Inr u)
    then have "upsert_configs executed now configs (upsert_row now c db) = (r, db')" using Cons.prems(1) by simp
    from Cons.IH[OF this upsert_row_ok[OF Cons.prems(2)]] show ?thesis by (auto simp: upsert_row_keys)
  qed
qed

text \<open>The key list that goes with a published list.\<close>

definition stable_top_of :: "refresh_env \<Rightarrow> app_config \<Rightarrow> ranked_config list \<Rightarrow> string option" where
  "stable_top_of env config ranked =
     (let keys = top_keys (ac_top_n config) ranked in if keys = [] then None else Some (rf_keys_to_string env keys))"

lemma persist_ok:
  assumes "persist env config ranked db = (r, db')" and "db_ok db"
  shows "db_ok db' \<and> (r = Inr () \<longrightarrow> db_stable_top db' = stable_top_of env config ranked)"
proof -
  obtain r1 db1 where u: "upsert_configs (rf_executed env) (rf_db_now env) ranked db = (r1, db1)" by fastforce
  note ok = upsert_configs_ok[OF u assms(2)]
  have clean: "db_ok (d\<lparr>db_configs := filter P (db_configs d)\<rparr>)" if "db_ok d" for d P
    using that by (auto simp: db_ok_def distinct_map_filter)
  have "db_ok (db1\<lparr>db_stable_top := t\<rparr>)" for t using ok by (simp add: db_ok_def)
  note kept = clean[OF this]
  show ?thesis
  proof (cases r1)
    case (Inl e)
    then show ?thesis using assms(1) u ok by (auto simp: persist_def)
  next
    case (Inr x)
    then show ?thesis using assms(1) u kept
      by (auto simp: persist_def stable_top_of_def clean_offline_configs_def delete_stable_top_keys_def
          save_stable_top_keys_def Let_def split: if_splits)
  qed
qed

text \<open>What every refresh leaves behind, whether it succeeds or not.\<close>

lemma refresh_once_ends:
  assumes "scans_ok env" and "refresh_once env config s = Some (r, s')"
  shows "rt_runtime_config s' = runtime_config_of config" and "rt_pending s' = []"
    and "db_ok (rt_db s) \<Longrightarrow> db_ok (rt_db s')" and "r = Inr u \<Longrightarrow> \<not> rs_refreshing (rt_runtime s')"
  using assms
proof (induction rule: refresh_once_cases)
  case (finished l s1)
  have db: "db_ok (rt_db s) \<Longrightarrow> persist env config ranked (rt_db s1) = (x, db) \<Longrightarrow> db_ok db" for ranked x db
    using persist_ok finished(2) by simp
  from finished(3,4)
  show "rt_runtime_config s' = runtime_config_of config" "rt_pending s' = []"
    "r = Inr u \<Longrightarrow> \<not> rs_refreshing (rt_runtime s')"
    by (auto simp: finish_refresh_def finished_runtime_def push_runtime_log_def Let_def
        split: if_splits prod.splits sum.splits)
  from finished(2,4) db show "db_ok (rt_db s) \<Longrightarrow> db_ok (rt_db s')"
    by (auto simp: finish_refresh_def Let_def split: if_splits prod.splits sum.splits)
qed simp_all

text \<open>
  C21: After a refresh that succeeds, what is published is consistent: it is no longer refreshing, has
  no error and is dated; the ranking has one entry per key, numbered from one, and no more entries
  than candidates were counted; the counters are those of the ranking; the stability counts are
  those before, one more for each working key, and every entry shows its count; the database holds
  the key list of the best working entries; and the configuration the server reads is that of the
  refresh.
\<close>

theorem refresh_publishes:
  assumes "scans_ok env" and "db_ok (rt_db s)" and "refresh_once env config s = Some (Inr (), s')"
  shows "let r = rt_runtime s' in
     \<not> rs_refreshing r \<and> rs_last_error r = None \<and> rs_last_refresh r = Some (rf_started_at env)
   \<and> ranking_ok (rs_ranked r) (rs_stable_working_counts (rt_runtime s)) (rs_stable_working_counts r)
   \<and> rs_tested_candidates r = length (rs_ranked r)
   \<and> rs_reachable_candidates r = length (filter r_reachable (rs_ranked r))
   \<and> min usize_max (rs_tested_candidates r) \<le> rs_total_candidates r
   \<and> db_ok (rt_db s') \<and> db_stable_top (rt_db s') = stable_top_of env config (rs_ranked r)
   \<and> rt_runtime_config s' = runtime_config_of config \<and> rt_pending s' = []"
  using assms(1,3)
proof (cases rule: refresh_once_cases)
  case (unread e)
  then show ?thesis by simp
next
  case (finished l s1)
  let ?prev = "previous_keys env config (rt_db s)"
  let ?f = "flush env ?prev s1"
  obtain ranked counts where a: "apply_stability_ranking (deduplicate_ranked_configs (lc_ranked l))
      (rs_stable_working_counts (rt_runtime s)) ?prev (ac_prioritize_stability config) = (ranked, counts)" by fastforce
  obtain stored_ok db where p: "persist env config ranked (rt_db s1) = (stored_ok, db)" by fastforce
  have "stored_ok = Inr ()" and s': "s' = ?f\<lparr>rt_db := db, rt_runtime := finished_runtime env (rt_runtime ?f) l ranked counts\<rparr>"
    using finished(4) a p by (auto simp: finish_refresh_def Let_def split: if_splits sum.splits)
  then have db: "db_ok db" "db_stable_top db = stable_top_of env config ranked"
    using persist_ok[OF p] assms(2) finished(2) by simp_all
  note ranking = published_ranking[OF a]
  have "length ranked = card (r_dedup_key ` set ranked)"
    using distinct_card[of "map r_dedup_key ranked"] ranking(1) by (simp add: ranking_ok_def del: upt_Suc)
  also have "\<dots> \<le> card (lc_seen_candidate_keys l)"
    using finished(1) unfolding ranking(2) loaded_ok_def by (intro card_mono) simp_all
  finally have "min usize_max (length ranked) \<le> lc_fetched_count l"
    using finished(1) unfolding loaded_ok_def by linarith
  then show ?thesis using ranking(1) db finished(3)
    by (simp add: s' finished_runtime_def push_runtime_log_def Let_def)
qed

definition sample_refresh :: refresh_env where
  "sample_refresh = \<lparr>
     rf_started_at = ''t0'', rf_started_clock = ''c0'', rf_finished_at = ''t1'', rf_finished_clock = ''c1'',
     rf_started_instant = 0, rf_marked_instant = 1, rf_finished_instant = 9, rf_duration_ms = 9000,
     rf_fetch_ms = 100, rf_stamp = (\<lambda>_ _. ''now''), rf_forwarded = (\<lambda>_. 1),
     rf_keys_from_str = (\<lambda>s. Inr [s]), rf_keys_to_string = concat, rf_visit = (\<lambda>rows. rows),
     rf_executed = (\<lambda>_. Inr ()), rf_db_now = ''t1'', rf_cutoff = (\<lambda>_. ''s''),
     rf_encoders = sample_encoders, rf_parsers = sample_parsers, rf_fetch = sample_fetch_env,
     rf_retry = sample_fetch_env,
     rf_retry_proxy = \<lparr>pr_port = Inr (Some 7), pr_write = Inr (), pr_spawn = Inr (), pr_ready = Inr (), pr_stderr = []\<rparr>,
     rf_scans = (\<lambda>_. \<lparr>si_probe = sample_probe_env, si_scan = sample_scan, si_available = False,
        si_order = (\<lambda>n. rev [0..<n]), si_outcome = (\<lambda>i. if i = 0 then Connected 20 None else TimedOut),
        si_sent = [ProbeDelta 2 1]\<rparr>) \<rparr>"

lemma sample_refresh_ok: "scans_ok sample_refresh"
  by (simp add: scans_ok_def sample_refresh_def sample_scan_ok)

definition sample_run :: refresh_run where
  "sample_run = \<lparr>rt_runtime = runtime_state_default, rt_runtime_config = runtime_config_of app_config_default,
     rt_db = upsert_row ''t0'' (sample_ranked ''b'' True 10) (upsert_row ''t0'' (sample_ranked ''a'' True 5) empty_database),
     rt_pending = [], rt_writes = 0\<rparr>"

definition sample_cache_config :: app_config where
  "sample_cache_config = app_config_default\<lparr>ac_use_cache_only := True,
     ac_probe := (ac_probe app_config_default)\<lparr>pc_mode := Tcp\<rparr>\<rparr>"

lemma sample_refresh_runs:
  "case refresh_once sample_refresh sample_cache_config sample_run of
     Some (Inr _, s') \<Rightarrow> map (\<lambda>r. (r_dedup_key r, r_reachable r)) (rs_ranked (rt_runtime s')) = [(''a'', True), (''b'', False)]
   | _ \<Rightarrow> False"
  by code_simp

theorem refresh_publishes_witness:
  "\<exists>s'. refresh_once sample_refresh sample_cache_config sample_run = Some (Inr (), s')
     \<and> map r_dedup_key (rs_ranked (rt_runtime s')) = [''a'', ''b'']
     \<and> rs_tested_candidates (rt_runtime s') = 2 \<and> \<not> rs_refreshing (rt_runtime s')"
proof -
  obtain s' where s': "refresh_once sample_refresh sample_cache_config sample_run = Some (Inr (), s')"
    and keys: "map (\<lambda>r. (r_dedup_key r, r_reachable r)) (rs_ranked (rt_runtime s')) = [(''a'', True), (''b'', False)]"
    using sample_refresh_runs by (auto split: option.splits prod.splits sum.splits)
  have "db_ok (rt_db sample_run)"
    unfolding sample_run_def refresh_run.simps
    by (intro upsert_row_ok) (simp add: db_ok_def empty_database_def)
  from refresh_publishes[OF sample_refresh_ok this s']
  have "rs_tested_candidates (rt_runtime s') = length (rs_ranked (rt_runtime s'))" "\<not> rs_refreshing (rt_runtime s')"
    by (simp_all add: Let_def)
  moreover have "map r_dedup_key (rs_ranked (rt_runtime s')) = [''a'', ''b'']" "length (rs_ranked (rt_runtime s')) = 2"
    using arg_cong[OF keys, of "map fst"] arg_cong[OF keys, of length] by (simp_all add: comp_def)
  ultimately show ?thesis using s' by auto
qed

subsection \<open>A refresh that finds nothing\<close>

text \<open>An event that does not touch the ranking.\<close>

fun quiet :: "progress_event \<Rightarrow> bool" where
  "quiet (LiveLog message) = True"
| "quiet (ProbeDelta tested working) = True"
| "quiet (RankedSnapshot ranked) = False"
| "quiet (WorkingConfigsFound configs top_n) = False"
| "quiet (FetchedDelta fetched) = True"

definition published :: "runtime_state \<Rightarrow> ranked_config list \<times> (string \<rightharpoonup> nat)" where
  "published r = (rs_ranked r, rs_stable_working_counts r)"

definition calm :: "refresh_run \<Rightarrow> bool" where
  "calm s \<longleftrightarrow> list_all quiet (rt_pending s)"

text \<open>A step that leaves the published results alone, and no event behind that would not.\<close>

definition same_results :: "refresh_run \<Rightarrow> refresh_run \<Rightarrow> bool" where
  "same_results s s' \<longleftrightarrow> rt_db s' = rt_db s \<and> (calm s \<longrightarrow> calm s' \<and> published (rt_runtime s') = published (rt_runtime s))"

lemma same_results_refl [simp]: "same_results s s"
  by (simp add: same_results_def)

lemma same_results_trans: "same_results s s' \<Longrightarrow> same_results s' s'' \<Longrightarrow> same_results s s''"
  by (simp add: same_results_def)

lemma push_quiet: "quiet e \<Longrightarrow> published (push_tui_progress now e prev r) = published r"
  by (cases e) (simp_all add: published_def push_live_log_def)

lemma forward_quiet: "list_all (quiet \<circ> snd) es \<Longrightarrow> published (forward_progress es prev r) = published r"
  by (induction es prev r rule: forward_progress.induct) (simp_all add: push_quiet)

lemma forward_pending_db [simp]: "rt_db (forward_pending env prev n s) = rt_db s"
  by (simp add: forward_pending_def Let_def)

lemma forward_pending_same: "same_results s (forward_pending env prev n s)"
proof -
  have "list_all (quiet \<circ> snd) (map (\<lambda>i. (g i, rt_pending s ! i)) [0..<min n (length (rt_pending s))])" if "calm s" for g
    using that by (auto simp: calm_def list_all_iff)
  then show ?thesis
    by (auto simp: same_results_def forward_pending_def Let_def forward_quiet calm_def list_all_iff dest: in_set_dropD)
qed

lemma flush_same: "same_results s (flush env prev s)"
  by (simp add: flush_def forward_pending_same)

lemma write_same:
  assumes "\<And>now r. published (f now r) = published r"
  shows "same_results s (write_runtime env prev f s)"
  using forward_pending_same[of s env prev "rf_forwarded env (rt_writes s)"]
  by (simp add: write_runtime_def Let_def same_results_def calm_def assms)

lemma send_same: "list_all quiet es \<Longrightarrow> same_results s (send es s)"
  by (simp add: same_results_def send_def calm_def)

lemma add_fetch_bytes_published: "published (fold add_fetch_bytes bs r) = published r"
  by (induction bs arbitrary: r) (simp_all add: add_fetch_bytes_def published_def)

lemma bytes_same: "same_results s (add_all_fetch_bytes bs s)"
  by (simp add: same_results_def add_all_fetch_bytes_def calm_def add_fetch_bytes_published)

lemma loaded_log_published [simp]: "published (loaded_log n es m now r) = published r"
  by (simp add: loaded_log_def published_def push_live_log_def)

text \<open>Fetching only sends log lines and counts.\<close>

lemma quiet_sends [simp]: "list_all quiet (send_progress p m)" "list_all quiet (send_fetched_delta p n)"
  by (simp_all add: send_progress_def send_if_def send_fetched_delta_def)

lemma collect_result_quiet:
  "list_all quiet (fl_sent s) \<Longrightarrow> list_all quiet (fl_sent (collect_result p i source r s))"
  by (cases r) (auto simp: collect_result_def report_subscription_bytes_def Let_def split: prod.splits)

lemma fetch_sources_quiet:
  assumes "fetch_sources_with_client E K fe max_bytes p sources = (outcome, s)"
  shows "list_all quiet (fl_sent s)"
proof -
  have "list_all quiet (fl_sent (fold (\<lambda>i. collect_result p i (sources ! i)
      (fetch_source E K fe max_bytes i (sources ! i))) order t))" if "list_all quiet (fl_sent t)" for order t
    using that by (induction order arbitrary: t) (simp_all add: collect_result_quiet)
  from this[of fetch_state_new "fe_order fe"] show ?thesis
    using assms by (auto simp: fetch_sources_with_client_def Let_def fetch_state_new_def)
qed

lemma load_result_quiet:
  "load_candidates_with_cache E K fe config p = Inr (outcome, reported, sent) \<Longrightarrow> list_all quiet sent"
  by (auto simp: load_candidates_with_cache_def and_then_def Let_def dest: fetch_sources_quiet
      split: if_splits sum.splits prod.splits)

lemma retry_result_quiet:
  assumes "retry_failed_sources_with_proxy E K fe pr config failures uri p = Inr (outcome, reported, sent)"
  shows "list_all quiet sent"
  using assms
  by (auto simp: retry_failed_sources_with_proxy_def run_with_sing_box_proxy_def
      run_with_sing_box_outbound_proxy_def and_then_def Let_def dest: fetch_sources_quiet
      split: if_splits sum.splits prod.splits)

lemma load_fetched_same:
  assumes "load_fetched env config s = (r, s')"
  shows "same_results s s'"
proof (cases "ac_use_cache_only config")
  case True
  then show ?thesis using assms
    by (auto simp: load_fetched_def Let_def intro!: send_same split: if_splits)
next
  case False
  show ?thesis
  proof (cases "load_candidates_with_cache (rf_encoders env) (rf_parsers env) (rf_fetch env) config True")
    case (Inl e)
    then show ?thesis using False assms by (simp add: load_fetched_def)
  next
    case (Inr x)
    obtain outcome reported sent where x: "x = (outcome, reported, sent)" using prod_cases3 by blast
    have "s' = send sent (add_all_fetch_bytes reported s)"
      using False assms Inr by (simp add: load_fetched_def x)
    then show ?thesis
      using same_results_trans[OF bytes_same send_same[OF load_result_quiet]] Inr x by blast
  qed
qed

text \<open>A step that leaves nothing counted has found nothing.\<close>

lemma sat_add_0: "sat_add usize_max a b = 0 \<longleftrightarrow> a = 0 \<and> b = 0"
  by (auto simp: sat_add_def usize_max_def)

lemma live_log_published [simp]: "published (push_live_log m r) = published r"
  by (simp add: published_def push_live_log_def)

lemma probe_nothing:
  assumes "probe_refresh_candidates env config prev label phase [] s = Some (ranked, s')"
  shows "ranked = [] \<and> same_results s s'"
  using assms by (auto simp: probe_refresh_candidates_def Let_def intro!: write_same)

lemma probe_more_nothing:
  assumes "probe_more env config prev label phase cs l s = Some (l', s')" and "length cs = 0"
  shows "l' = l \<and> s' = s"
  using assms by (simp add: probe_more_def)

lemma retry_step_nothing:
  assumes "retry_step env config prev previous failures l s = Some (l', s')" and "lc_fetched_count l' = 0"
  shows "lc_fetched_count l = 0 \<and> lc_ranked l' = lc_ranked l \<and> same_results s s'"
proof (cases "ac_use_cache_only config \<or> failures = []")
  case True
  then show ?thesis using assms by (auto simp: retry_step_def)
next
  case False
  show ?thesis
  proof (cases "subscription_retry_proxy_uri config (lc_ranked l) previous")
    case None
    then show ?thesis using False assms by (auto simp: retry_step_def intro!: write_same)
  next
    case (Some uri)
    show ?thesis
    proof (cases "retry_failed_sources_with_proxy (rf_encoders env) (rf_parsers env) (rf_retry env)
        (rf_retry_proxy env) config failures uri True")
      case (Inl e)
      then show ?thesis using False Some assms by (auto simp: retry_step_def intro!: write_same)
    next
      case (Inr r)
      obtain retry reported sent where r: "r = (retry, reported, sent)" using prod_cases3 by blast
      let ?s = "send sent (add_all_fetch_bytes reported s)"
      obtain cs l1 where t: "take_retry failures retry l = (cs, l1)" by fastforce
      obtain n es m where p: "probe_more env config prev ''Retry probe'' 1 cs l1
          (write_runtime env prev (loaded_log n es m) ?s) = Some (l', s')"
        using False Some Inr assms(1) by (auto simp: retry_step_def r retried_step_def t Let_def)
      have l1: "lc_fetched_count l1 = sat_add usize_max (lc_fetched_count l) (length cs)" "lc_ranked l1 = lc_ranked l"
        using t by (auto simp: take_retry_def Let_def simp del: merged_fetch_errors.simps split: prod.splits)
      have "lc_fetched_count l' = lc_fetched_count l1"
        using p by (auto simp: probe_more_def split: if_splits)
      then have none: "lc_fetched_count l = 0" "length cs = 0" using assms(2) l1(1) by (simp_all add: sat_add_0)
      have "same_results s ?s"
        by (rule same_results_trans[OF bytes_same send_same[OF retry_result_quiet]]) (use Inr r in blast)
      from same_results_trans[OF this write_same] probe_more_nothing[OF p none(2)] none l1(2)
      show ?thesis by simp
    qed
  qed
qed

lemma cache_step_nothing:
  assumes "cache_step env config prev l s = Some (l', s')" and "lc_fetched_count l' = 0"
  shows "lc_fetched_count l = 0 \<and> lc_ranked l' = lc_ranked l \<and> same_results s s'"
proof (cases "ac_use_cache_only config \<or> 0 < lc_fresh_success_count l
    \<or> load_ranked_configs (rf_visit env) (rt_db s) (ac_top_n config) = []")
  case True
  then show ?thesis using assms by (auto simp: cache_step_def)
next
  case False
  obtain fresh seen where new: "retain_new r_dedup_key (lc_seen_candidate_keys l)
      (load_ranked_configs (rf_visit env) (rt_db s) (ac_top_n config)) = (fresh, seen)" by fastforce
  let ?l = "l\<lparr>lc_seen_candidate_keys := seen,
      lc_fetched_count := sat_add usize_max (lc_fetched_count l) (length fresh)\<rparr>"
  obtain n es m where p: "probe_more env config prev ''Cache probe'' 2 (candidates_from_ranked fresh) ?l
      (write_runtime env prev (loaded_log n es m) s) = Some (l', s')"
    using False assms(1) by (auto simp: cache_step_def new Let_def)
  have "lc_fetched_count l' = lc_fetched_count ?l"
    using p by (auto simp: probe_more_def split: if_splits)
  then have none: "lc_fetched_count l = 0" "length (candidates_from_ranked fresh) = 0"
    using assms(2) by (simp_all add: sat_add_0)
  from probe_more_nothing[OF p none(2)] none(1) write_same[of "loaded_log n es m" s env prev] show ?thesis by simp
qed

lemma finish_failed:
  assumes "finish_refresh env config prev previous l s = (Inl e, s')" and "\<And>c. rf_executed env c = Inr ()"
  shows "lc_fetched_count l = 0 \<and> s' = flush env prev s"
proof -
  have ok: "fst (upsert_configs (rf_executed env) now cs db) = Inr ()" for now cs db
    by (induction cs arbitrary: db) (simp_all add: assms(2))
  have stored: "fst (persist env config ranked db) = Inr ()" for ranked db
    using ok[of "rf_db_now env" ranked db]
    by (cases "upsert_configs (rf_executed env) (rf_db_now env) ranked db") (simp add: persist_def Let_def)
  have "persist env config ranked db \<noteq> (Inl e, db')" for ranked db e db'
    using stored[of ranked db] by auto
  then show ?thesis
    using assms(1) by (auto simp: finish_refresh_def Let_def split: if_splits prod.splits sum.splits)
qed

text \<open>A refresh that fails after it loaded something has found nothing to write.\<close>

lemma failed_after_load:
  assumes "after_load env config previous_top_n previous (Inr outcome, s1) = Some (Inl e, s')" and "\<And>c. rf_executed env c = Inr ()"
  shows "same_results s1 s'"
proof -
  obtain n es m where a2: "Option.bind (probe_refresh_candidates env config previous_top_n ''Probe'' 0 (fo_candidates outcome)
      (write_runtime env previous_top_n (loaded_log n es m) s1))
      (after_probe env config previous_top_n previous (fo_failures outcome) (first_locals outcome)) = Some (Inl e, s')"
    using assms(1) by auto
  let ?s2 = "write_runtime env previous_top_n (loaded_log n es m) s1"
  from a2 obtain ranked s3 l4 s4 l5 s5 where
    p: "probe_refresh_candidates env config previous_top_n ''Probe'' 0 (fo_candidates outcome) ?s2 = Some (ranked, s3)"
    and q: "retry_step env config previous_top_n previous (fo_failures outcome)
      ((first_locals outcome)\<lparr>lc_ranked := ranked\<rparr>) s3 = Some (l4, s4)"
    and c: "cache_step env config previous_top_n l4 s4 = Some (l5, s5)"
    and fin: "finish_refresh env config previous_top_n previous l5 s5 = (Inl e, s')"
    unfolding bind_eq_Some_conv by (force simp: bind_eq_Some_conv split: option.splits)
  note failed = conjunct1[OF finish_failed[OF fin assms(2)]] conjunct2[OF finish_failed[OF fin assms(2)]]
  note c' = cache_step_nothing[OF c failed(1)]
  note q' = retry_step_nothing[OF q conjunct1[OF c']]
  have "fo_candidates outcome = []" using conjunct1[OF q'] by (simp add: first_locals_def)
  note p' = probe_nothing[OF p[unfolded this]]
  show ?thesis
    using write_same[of "loaded_log n es m" s1 env previous_top_n] p' q' c' flush_same[of s5 env previous_top_n]
    unfolding failed(2) by (meson loaded_log_published same_results_trans)
qed

text \<open>
  C24: A refresh that fails although results can be stored has found nothing: it leaves the database and
  the stability counts as they were, but under \<open>return_configs_asap\<close> the list that was being served
  is gone, since it is emptied before anything is fetched; otherwise the old list stays.
\<close>

theorem failed_refresh_empties_the_list:
  assumes "refresh_once env config s = Some (Inl e, s')" and "\<And>c. rf_executed env c = Inr ()" and "calm s"
  shows "rt_db s' = rt_db s
     \<and> rs_stable_working_counts (rt_runtime s') = rs_stable_working_counts (rt_runtime s)
     \<and> rs_ranked (rt_runtime s') = (if ac_return_configs_asap config then [] else rs_ranked (rt_runtime s))"
proof -
  let ?prev = "previous_keys env config (rt_db s)"
  let ?s = "s\<lparr>rt_runtime_config := runtime_config_of config\<rparr>"
  define s0 where "s0 = write_runtime env ?prev (start_refresh env config) ?s"
  let ?served = "if ac_return_configs_asap config then [] else rs_ranked (rt_runtime s)"
  have s0: "calm s0 \<and> published (rt_runtime s0) = (?served, rs_stable_working_counts (rt_runtime s))" "rt_db s0 = rt_db s"
    using forward_pending_same[of ?s env ?prev "rf_forwarded env (rt_writes s)"] assms(3)
    by (auto simp: s0_def write_runtime_def Let_def same_results_def calm_def published_def start_refresh_def push_live_log_def)
  obtain fetched s1 where f: "load_fetched env config s0 = (fetched, s1)" by fastforce
  have a: "after_load env config ?prev (rt_runtime s) (fetched, s1) = Some (Inl e, s')"
    using assms(1) f by (simp only: refresh_once_def s0_def[symmetric] Let_def)
  have "same_results s0 s'"
  proof (cases fetched)
    case (Inl e1)
    then have "s' = flush env ?prev s1" using a by simp
    then show ?thesis
      using same_results_trans[OF load_fetched_same[OF f] flush_same] by simp
  next
    case (Inr outcome)
    then show ?thesis
      using failed_after_load[OF a[unfolded Inr] assms(2)] load_fetched_same[OF f] same_results_trans by blast
  qed
  then show ?thesis using s0 by (simp add: same_results_def published_def)
qed

definition sample_empty_run :: refresh_run where
  "sample_empty_run = sample_run\<lparr>rt_db := empty_database,
     rt_runtime := runtime_state_default\<lparr>rs_ranked := [sample_ranked ''a'' True 5]\<rparr>\<rparr>"

definition sample_asap_config :: app_config where
  "sample_asap_config = sample_cache_config\<lparr>ac_return_configs_asap := True\<rparr>"

lemma sample_refresh_fails:
  "case refresh_once sample_refresh sample_asap_config sample_empty_run of Some (Inl e, s') \<Rightarrow> True | _ \<Rightarrow> False"
  by code_simp

theorem failed_refresh_empties_the_list_witness:
  "\<exists>e s'. refresh_once sample_refresh sample_asap_config sample_empty_run = Some (Inl e, s')
     \<and> rs_ranked (rt_runtime sample_empty_run) \<noteq> [] \<and> rs_ranked (rt_runtime s') = []"
proof -
  obtain e s' where f: "refresh_once sample_refresh sample_asap_config sample_empty_run = Some (Inl e, s')"
    using sample_refresh_fails by (auto split: option.splits prod.splits sum.splits)
  have "rf_executed sample_refresh c = Inr ()" for c by (simp add: sample_refresh_def)
  moreover have "calm sample_empty_run" by (simp add: calm_def sample_empty_run_def sample_run_def)
  ultimately show ?thesis using failed_refresh_empties_the_list[OF f] f
    by (simp add: sample_empty_run_def sample_asap_config_def)
qed

end
