(* ===== verification/RefreshLoop.thy ===== *)
theory RefreshLoop
  imports Refresh
begin

text \<open>
  The loop that decides when to refresh (\<open>spawn_refresh_loop\<close> of \<open>src/main.rs\<close>) as a step relation
  beside the tasks it shares state with: the sender of the configuration channel, the health loop of
  the proxy and the drain of the proxy's log.  A refresh is one step, since nothing else writes what
  it reads; \<open>update_proxy_and_ranked\<close> takes its locks one after the other and is four steps.
\<close>

subsection \<open>When a changed configuration needs a refresh\<close>

record refresh_fingerprint =
  fp_top_n :: nat
  fp_encoded_subscription :: bool
  fp_prioritize_stability :: bool
  fp_return_configs_asap :: bool
  fp_scan_all_configs :: bool
  fp_fetch_timeout_ms :: nat
  fp_fetch_concurrency :: nat
  fp_max_subscription_bytes :: nat
  fp_use_cache_only :: bool
  fp_probe :: probe_config
  fp_subscriptions :: "subscription_source list"

definition refresh_fingerprint_of :: "app_config \<Rightarrow> refresh_fingerprint" where
  "refresh_fingerprint_of config = \<lparr>
     fp_top_n = ac_top_n config, fp_encoded_subscription = ac_encoded_subscription config,
     fp_prioritize_stability = ac_prioritize_stability config,
     fp_return_configs_asap = ac_return_configs_asap config,
     fp_scan_all_configs = ac_scan_all_configs config, fp_fetch_timeout_ms = ac_fetch_timeout_ms config,
     fp_fetch_concurrency = ac_fetch_concurrency config,
     fp_max_subscription_bytes = ac_max_subscription_bytes config,
     fp_use_cache_only = ac_use_cache_only config, fp_probe = ac_probe config,
     fp_subscriptions = ac_subscriptions config \<rparr>"

subsection \<open>The loop\<close>

text \<open>
  Where the loop is: at its top; waiting, with the \<open>refresh_seconds\<close> it read there; in
  \<open>update_proxy_and_ranked\<close>, with what it read so far; or returned.
\<close>

datatype refresh_pc =
    Top
  | Sleeping nat
  | Sharing app_config
  | Updating app_config "ranked_config list"
  | Snapshotting
  | Mirroring proxy_snapshot
  | Returned

record loop_env =
  le_refresh :: "nat \<Rightarrow> refresh_env"
  le_proxy :: proxy_env
  le_text :: "nat \<Rightarrow> string"
  le_instant :: "nat \<Rightarrow> nat"

text \<open>
  The watch channel holds the last configuration sent, whether the loop has seen it, and whether the
  sender is alive.
\<close>

record refresh_loop =
  lp_run :: refresh_run
  lp_system :: proxy_system
  lp_config :: app_config
  lp_changed :: bool
  lp_sender :: bool
  lp_pc :: refresh_pc
  lp_refresh_now :: bool
  lp_last_refresh_fingerprint :: "refresh_fingerprint option"
  lp_clock :: nat

definition refresh_loop_new :: "app_config \<Rightarrow> string \<Rightarrow> database \<Rightarrow> refresh_loop" where
  "refresh_loop_new config sing_box_path db = \<lparr>
     lp_run = \<lparr>rt_runtime = runtime_state_default, rt_runtime_config = runtime_config_of config,
               rt_db = db, rt_pending = [], rt_writes = 0\<rparr>,
     lp_system = proxy_system_new (ac_proxy config) sing_box_path,
     lp_config = config, lp_changed = False, lp_sender = True, lp_pc = Top, lp_refresh_now = True,
     lp_last_refresh_fingerprint = None, lp_clock = 0 \<rparr>"

definition on_runtime :: "(runtime_state \<Rightarrow> runtime_state) \<Rightarrow> refresh_loop \<Rightarrow> refresh_loop" where
  "on_runtime f s = s\<lparr>lp_run := (lp_run s)\<lparr>rt_runtime := f (rt_runtime (lp_run s))\<rparr>\<rparr>"

text \<open>One refresh and, if it fails, its error mark; then the proxy is next.\<close>

definition refresh_turn :: "loop_env \<Rightarrow> app_config \<Rightarrow> refresh_loop \<Rightarrow> refresh_loop option" where
  "refresh_turn env config s =
     (case refresh_once (le_refresh env (lp_clock s)) config (lp_run s) of
        None \<Rightarrow> None
      | Some (r, run) \<Rightarrow>
          (let s = s\<lparr>lp_run := run, lp_refresh_now := False, lp_pc := Sharing config,
                     lp_last_refresh_fingerprint := Some (refresh_fingerprint_of config),
                     lp_clock := Suc (lp_clock s)\<rparr>
           in Some (case r of
                Inr _ \<Rightarrow> s
              | Inl err \<Rightarrow> on_runtime (record_refresh_error (le_text env (lp_clock s)) (le_instant env (lp_clock s)) err) s)))"

definition read_changed :: "loop_env \<Rightarrow> refresh_loop \<Rightarrow> refresh_loop option" where
  "read_changed env s =
     (let config = lp_config s;
          s = s\<lparr>lp_changed := False, lp_run := (lp_run s)\<lparr>rt_runtime_config := runtime_config_of config\<rparr>\<rparr>
      in if lp_last_refresh_fingerprint s \<noteq> Some (refresh_fingerprint_of config)
         then refresh_turn env config s else Some (s\<lparr>lp_pc := Sharing config\<rparr>))"

definition mark_pending :: "loop_env \<Rightarrow> refresh_loop \<Rightarrow> refresh_loop" where
  "mark_pending env s =
     on_runtime (mark_refresh_pending (le_text env (lp_clock s)) (le_instant env (lp_clock s))) s"

definition mirror_proxy :: "proxy_snapshot \<Rightarrow> runtime_state \<Rightarrow> runtime_state" where
  "mirror_proxy snapshot r = r\<lparr>
     rs_proxy_running := pn_running snapshot, rs_proxy_active_config := pn_active_config snapshot,
     rs_proxy_port := pn_port snapshot, rs_proxy_discoverable := pn_discoverable snapshot\<rparr>"

inductive refresh_step :: "loop_env \<Rightarrow> refresh_loop \<Rightarrow> refresh_loop \<Rightarrow> bool" for env where
  first: "lp_pc s = Top \<Longrightarrow> lp_refresh_now s \<Longrightarrow> refresh_turn env (lp_config s) s = Some s' \<Longrightarrow> refresh_step env s s'"
| wait: "lp_pc s = Top \<Longrightarrow> \<not> lp_refresh_now s \<Longrightarrow>
    refresh_step env s (s\<lparr>lp_pc := Sleeping (ac_refresh_seconds (lp_config s))\<rparr>)"
| timer: "lp_pc s = Sleeping seconds \<Longrightarrow> seconds \<noteq> 0 \<Longrightarrow>
    refresh_turn env (lp_config s) (mark_pending env s) = Some s' \<Longrightarrow> refresh_step env s s'"
| changed: "lp_pc s = Sleeping seconds \<Longrightarrow> lp_changed s \<Longrightarrow> read_changed env s = Some s' \<Longrightarrow> refresh_step env s s'"
| closed: "lp_pc s = Sleeping seconds \<Longrightarrow> \<not> lp_changed s \<Longrightarrow> \<not> lp_sender s \<Longrightarrow>
    refresh_step env s (s\<lparr>lp_pc := Returned\<rparr>)"
| share: "lp_pc s = Sharing config \<Longrightarrow> refresh_step env s
    (s\<lparr>lp_system := (lp_system s)\<lparr>sy_ranked := rs_ranked (rt_runtime (lp_run s))\<rparr>,
       lp_pc := Updating config (rs_ranked (rt_runtime (lp_run s)))\<rparr>)"
| proxy: "lp_pc s = Updating config ranked \<Longrightarrow> refresh_step env s
    (s\<lparr>lp_system := (lp_system s)\<lparr>sy_proxy := update (le_proxy env) (ac_proxy config) ranked (sy_proxy (lp_system s))\<rparr>,
       lp_pc := Snapshotting\<rparr>)"
| snapshot: "lp_pc s = Snapshotting \<Longrightarrow> refresh_step env s
    (s\<lparr>lp_pc := Mirroring (proxy_snapshot_of (sy_proxy (lp_system s)))\<rparr>)"
| mirror: "lp_pc s = Mirroring snap \<Longrightarrow> refresh_step env s ((on_runtime (mirror_proxy snap) s)\<lparr>lp_pc := Top\<rparr>)"
| send: "lp_sender s \<Longrightarrow> refresh_step env s (s\<lparr>lp_config := config, lp_changed := True\<rparr>)"
| drop: "refresh_step env s (s\<lparr>lp_sender := False\<rparr>)"
| health: "refresh_step env s (s\<lparr>lp_system := loop_turn (le_proxy env) (lp_system s)\<rparr>)"
| drain: "m \<in> set (px_logs (sy_proxy (lp_system s))) \<Longrightarrow>
    refresh_step env s (on_runtime (push_tui_progress now (LiveLog m) {}) s)"

inductive refresh_reachable :: "loop_env \<Rightarrow> refresh_loop \<Rightarrow> bool" for env where
  start: "db_ok db \<Longrightarrow> refresh_reachable env (refresh_loop_new config path db)"
| step: "refresh_reachable env s \<Longrightarrow> refresh_step env s s' \<Longrightarrow> refresh_reachable env s'"

inductive_cases refresh_stepE: "refresh_step env s s'"

subsection \<open>The invariant\<close>

text \<open>
  Between refreshes nothing is marked as refreshing.  Once every change has been read, the server's
  configuration is the current one and the last refresh ran with a configuration that does not
  differ from it in anything a refresh depends on.  Past the first half of
  \<open>update_proxy_and_ranked\<close> the failover list is the published list.
\<close>

definition loop_inv :: "loop_env \<Rightarrow> refresh_loop \<Rightarrow> bool" where
  "loop_inv env s \<longleftrightarrow>
     \<not> rs_refreshing (rt_runtime (lp_run s))
   \<and> db_ok (rt_db (lp_run s)) \<and> rt_pending (lp_run s) = []
   \<and> (lp_refresh_now s \<longrightarrow> lp_pc s = Top)
   \<and> (\<not> lp_changed s \<longrightarrow> rt_runtime_config (lp_run s) = runtime_config_of (lp_config s)
        \<and> (\<not> lp_refresh_now s \<longrightarrow> lp_last_refresh_fingerprint s = Some (refresh_fingerprint_of (lp_config s))))
   \<and> (\<not> lp_refresh_now s \<longrightarrow> (\<forall>config. lp_pc s \<noteq> Sharing config) \<longrightarrow>
        sy_ranked (lp_system s) = rs_ranked (rt_runtime (lp_run s)))
   \<and> proxy_base (le_proxy env) (sy_proxy (lp_system s)) \<and> proxy_synced (sy_proxy (lp_system s))"

definition loop_env_ok :: "loop_env \<Rightarrow> bool" where
  "loop_env_ok env \<longleftrightarrow> (\<forall>n. scans_ok (le_refresh env n))"

lemma on_runtime_simps [simp]:
  "lp_run (on_runtime f s) = (lp_run s)\<lparr>rt_runtime := f (rt_runtime (lp_run s))\<rparr>"
  "lp_system (on_runtime f s) = lp_system s" "lp_config (on_runtime f s) = lp_config s"
  "lp_changed (on_runtime f s) = lp_changed s" "lp_sender (on_runtime f s) = lp_sender s"
  "lp_pc (on_runtime f s) = lp_pc s" "lp_refresh_now (on_runtime f s) = lp_refresh_now s"
  "lp_last_refresh_fingerprint (on_runtime f s) = lp_last_refresh_fingerprint s"
  "lp_clock (on_runtime f s) = lp_clock s"
  by (simp_all add: on_runtime_def)

text \<open>A refresh and its error mark restore everything the invariant says of the run.\<close>

lemma refresh_turn_ends:
  assumes "loop_env_ok env" and "refresh_turn env config s = Some s'"
  shows "\<not> rs_refreshing (rt_runtime (lp_run s'))" "rt_pending (lp_run s') = []"
    "rt_runtime_config (lp_run s') = runtime_config_of config"
    "db_ok (rt_db (lp_run s)) \<Longrightarrow> db_ok (rt_db (lp_run s'))"
    "\<not> lp_refresh_now s'" "lp_pc s' = Sharing config"
    "lp_last_refresh_fingerprint s' = Some (refresh_fingerprint_of config)"
    "lp_config s' = lp_config s" "lp_changed s' = lp_changed s" "lp_system s' = lp_system s"
proof -
  obtain r run where r: "refresh_once (le_refresh env (lp_clock s)) config (lp_run s) = Some (r, run)"
    using assms(2) by (auto simp: refresh_turn_def split: option.splits)
  have "scans_ok (le_refresh env (lp_clock s))" using assms(1) by (simp add: loop_env_ok_def)
  note ends = refresh_once_ends[OF this r]
  from ends assms(2) r
  show "\<not> rs_refreshing (rt_runtime (lp_run s'))" "rt_pending (lp_run s') = []"
    "rt_runtime_config (lp_run s') = runtime_config_of config"
    "db_ok (rt_db (lp_run s)) \<Longrightarrow> db_ok (rt_db (lp_run s'))"
    "\<not> lp_refresh_now s'" "lp_pc s' = Sharing config"
    "lp_last_refresh_fingerprint s' = Some (refresh_fingerprint_of config)"
    "lp_config s' = lp_config s" "lp_changed s' = lp_changed s" "lp_system s' = lp_system s"
    by (cases r; auto simp: refresh_turn_def record_refresh_error_def push_runtime_log_def Let_def)+
qed

lemma refresh_turn_inv:
  assumes "loop_env_ok env" and "refresh_turn env (lp_config s) s = Some s'"
    and "db_ok (rt_db (lp_run s))"
    and "proxy_base (le_proxy env) (sy_proxy (lp_system s))" and "proxy_synced (sy_proxy (lp_system s))"
  shows "loop_inv env s'"
  using refresh_turn_ends[OF assms(1,2)] assms(3-5) by (simp add: loop_inv_def)

lemma drain_frame [simp]:
  "rs_refreshing (push_tui_progress now (LiveLog m) prev r) = rs_refreshing r"
  "rs_ranked (push_tui_progress now (LiveLog m) prev r) = rs_ranked r"
  "rs_refreshing (mirror_proxy snap r) = rs_refreshing r" "rs_ranked (mirror_proxy snap r) = rs_ranked r"
  by (simp_all add: push_live_log_def mirror_proxy_def)

lemma loop_turn_ranked [simp]: "sy_ranked (loop_turn env s) = sy_ranked s"
  by (auto simp: loop_turn_def Let_def split: loop_pc.splits prod.splits sum.splits)

lemma refresh_step_inv:
  assumes "refresh_step env s s'" and "loop_env_ok env" and "loop_inv env s"
  shows "loop_inv env s'"
proof -
  have base: "db_ok (rt_db (lp_run s))" "proxy_base (le_proxy env) (sy_proxy (lp_system s))"
    "proxy_synced (sy_proxy (lp_system s))"
    using assms(3) by (simp_all add: loop_inv_def)
  show ?thesis using assms(1)
  proof cases
    case first
    then show ?thesis using refresh_turn_inv[OF assms(2) _ base] by blast
  next
    case (timer seconds)
    then show ?thesis using refresh_turn_inv[OF assms(2), of "mark_pending env s" s'] base by (simp add: mark_pending_def)
  next
    case (changed seconds)
    let ?s = "s\<lparr>lp_changed := False, lp_run := (lp_run s)\<lparr>rt_runtime_config := runtime_config_of (lp_config s)\<rparr>\<rparr>"
    show ?thesis
    proof (cases "lp_last_refresh_fingerprint s = Some (refresh_fingerprint_of (lp_config s))")
      case True
      then show ?thesis using changed assms(3) by (auto simp: read_changed_def loop_inv_def Let_def)
    next
      case False
      then have "refresh_turn env (lp_config ?s) ?s = Some s'"
        using changed by (simp add: read_changed_def Let_def)
      from refresh_turn_inv[OF assms(2) this] base show ?thesis by simp
    qed
  next
    case health
    then show ?thesis using assms(3) loop_turn_kept[OF base(2,3)] by (simp add: loop_inv_def)
  next
    case (proxy config ranked)
    then show ?thesis using assms(3) update_kept[OF base(2,3)] by (simp add: loop_inv_def)
  qed (use assms(3) in \<open>auto simp: loop_inv_def simp del: push_tui_progress.simps\<close>)
qed

interpretation refresh_states: transition_system "\<lambda>s. \<exists>config path db. db_ok db \<and> s = refresh_loop_new config path db"
  "refresh_step env" "refresh_reachable env" for env
proof unfold_locales
  show "refresh_reachable env s \<Longrightarrow> (\<And>s. \<exists>config path db. db_ok db \<and> s = refresh_loop_new config path db \<Longrightarrow> P s)
      \<Longrightarrow> (\<And>s s'. refresh_reachable env s \<Longrightarrow> P s \<Longrightarrow> refresh_step env s s' \<Longrightarrow> P s') \<Longrightarrow> P s" for s P
    by (erule refresh_reachable.induct) blast+
qed (auto intro: refresh_reachable.intros)


definition sample_loop_env :: loop_env where
  "sample_loop_env = \<lparr>le_refresh = (\<lambda>_. sample_refresh), le_proxy = sample_proxy_env True,
     le_text = (\<lambda>_. ''t''), le_instant = (\<lambda>n. n)\<rparr>"


end
