(* ===== verification/Worker.thy ===== *)
theory Worker
  imports Refresh
begin

text \<open>
  The worker (\<open>src/worker.rs\<close>): one job read from standard input, a discovery or a health check,
  and one line of output.  The input is the JSON value \<open>serde_json\<close> reads into the structs, given
  as the parsed job or the error; the output is the record that is printed.
\<close>

subsection \<open>Jobs and probed\<close>

definition SCHEMA_VERSION :: nat where "SCHEMA_VERSION = 1"

record input_source =
  is_name :: string
  is_url :: string
  is_priority :: "nat option"

record input_config =
  ic_uri :: string
  ic_protocol :: "string option"

record worker_input =
  wi_schema_version :: nat
  wi_mode :: string
  wi_job_id :: string
  wi_sources :: "input_source list option"
  wi_configs :: "input_config list option"
  wi_scan_all :: "bool option"
  wi_target_count :: "nat option"
  wi_timeout_seconds :: "nat option"

record worker_result =
  wr_uri :: string
  wr_protocol :: string
  wr_reachable :: bool
  wr_latency_ms :: "nat option"
  wr_country_code :: "string option"
  wr_validation :: string
  wr_error :: "string option"
  wr_source :: string

record worker_output =
  wo_schema_version :: nat
  wo_success :: bool
  wo_worker_version :: string
  wo_job_id :: string
  wo_duration_ms :: nat
  wo_results :: "worker_result list"
  wo_error :: "string option"

datatype worker_mode = Discovery | Health

text \<open>
  What a job meets: the loads of the shared flag (set by Ctrl-C or the internal timeout), the fetches,
  the scan.
\<close>

record worker_env =
  we_stdin :: "unit result"
  we_input :: "worker_input result"
  we_version :: string
  we_duration_ms :: nat
  we_cancel_flag :: "nat \<Rightarrow> bool"
  we_encoders :: encoders
  we_parsers :: parsers
  we_fetch :: fetch_env
  we_scan :: scan_inputs

definition map_ranked_results :: "ranked_config list \<Rightarrow> worker_result list" where
  "map_ranked_results ranked = map (\<lambda>rc.
     \<lparr>wr_uri = r_uri rc, wr_protocol = r_protocol rc, wr_reachable = r_reachable rc,
      wr_latency_ms = r_latency_ms rc, wr_country_code = r_country_code rc,
      wr_validation = r_validation rc, wr_error = r_error rc, wr_source = r_source rc\<rparr>) ranked"

definition worker_policy :: "worker_env \<Rightarrow> bool \<Rightarrow> nat \<Rightarrow> probe_stop_policy" where
  "worker_policy env scan_all top_n =
     \<lparr> sp_scan_all_configs = scan_all, sp_top_n = top_n, sp_prioritize_stability = False,
       sp_return_configs_asap = False, sp_previous_working_keys = {},
       sp_cancel_flag = Some (we_cancel_flag env) \<rparr>"

text \<open>\<^term>\<open>None\<close>: the scan does not return.\<close>

definition worker_probe ::
  "worker_env \<Rightarrow> app_config \<Rightarrow> probe_stop_policy \<Rightarrow> candidate list \<Rightarrow> worker_result list result option" where
  "worker_probe env config policy candidates =
     (let inputs = we_scan env;
          pe = (si_probe inputs)\<lparr>pe_config := ac_probe config, pe_policy := policy, pe_progress := False\<rparr>
      in map_option (\<lambda>ranked. Inr (map_ranked_results ranked))
           (probe_candidates pe (si_scan inputs) (si_available inputs) (si_order inputs) (si_outcome inputs) candidates))"

subsection \<open>The two modes\<close>

definition discovery_sources :: "input_source list \<Rightarrow> subscription_source list" where
  "discovery_sources sources = map (\<lambda>s.
     \<lparr>ss_name = is_name s, ss_url = is_url s, ss_enabled = True, ss_priority = unwrap_or (is_priority s) 100\<rparr>) sources"

definition discovery_top_n :: "worker_input \<Rightarrow> nat \<Rightarrow> nat" where
  "discovery_top_n input many =
     (if unwrap_or (wi_scan_all input) False then many
      else case wi_target_count input of Some n \<Rightarrow> clamp 1 many n | None \<Rightarrow> many)"

definition run_discovery :: "worker_env \<Rightarrow> worker_input \<Rightarrow> app_config \<Rightarrow> worker_result list result option" where
  "run_discovery env input config =
     (case wi_sources input of
        None \<Rightarrow> Some (Inl (''Missing '' @ [CHR 39] @ ''sources'' @ [CHR 39] @ '' field for discovery mode''))
      | Some sources \<Rightarrow>
          let worker_config = config\<lparr>ac_subscriptions := discovery_sources sources\<rparr> in
          if fetch_never_ends (we_fetch env) worker_config then None
          else (case load_candidates_with_cache (we_encoders env) (we_parsers env) (we_fetch env) worker_config False of
             Inl e \<Rightarrow> Some (Inl e)
           | Inr (fetched, _, _) \<Rightarrow>
               if fo_candidates fetched = [] then Some (Inr [])
               else worker_probe env worker_config
                 (worker_policy env (unwrap_or (wi_scan_all input) False)
                   (discovery_top_n input (length (fo_candidates fetched)))) (fo_candidates fetched)))"

definition health_candidate :: "parsers \<Rightarrow> nat \<Rightarrow> input_config \<Rightarrow> candidate" where
  "health_candidate K index cfg =
     (case parse_share_link K ''health-check'' 100 (ic_uri cfg) of
        Inr candidate \<Rightarrow> candidate\<lparr>c_id := ''hc-'' @ show_nat index\<rparr>
      | Inl _ \<Rightarrow> \<lparr> c_id = ''hc-'' @ show_nat index, c_dedup_key = ''failed-parse-'' @ show_nat index,
          c_source = ''health-check'', c_priority = 100, c_protocol = unwrap_or (ic_protocol cfg) ''unknown'',
          c_name = ''Invalid URI #'' @ show_nat index, c_endpoint = \<lparr>ep_host = ''invalid'', ep_port = 0\<rparr>,
          c_uri = ic_uri cfg \<rparr>)"

definition health_candidates :: "parsers \<Rightarrow> input_config list \<Rightarrow> candidate list" where
  "health_candidates K configs = map (\<lambda>i. health_candidate K i (configs ! i)) [0..<length configs]"

definition run_health :: "worker_env \<Rightarrow> worker_input \<Rightarrow> app_config \<Rightarrow> worker_result list result option" where
  "run_health env input config =
     (case wi_configs input of
        None \<Rightarrow> Some (Inl (''Missing '' @ [CHR 39] @ ''configs'' @ [CHR 39] @ '' field for health_check mode''))
      | Some configs \<Rightarrow>
          let candidates = health_candidates (we_parsers env) configs in
          if candidates = [] then Some (Inr [])
          else worker_probe env config (worker_policy env True (length candidates)) candidates)"

subsection \<open>A run\<close>

definition worker_answer ::
  "worker_env \<Rightarrow> string \<Rightarrow> bool \<Rightarrow> worker_result list \<Rightarrow> string option \<Rightarrow> worker_output" where
  "worker_answer env job_id success probed error = \<lparr>
     wo_schema_version = SCHEMA_VERSION, wo_success = success, wo_worker_version = we_version env,
     wo_job_id = job_id, wo_duration_ms = we_duration_ms env, wo_results = probed, wo_error = error \<rparr>"

text \<open>The lines printed and what the run returns.\<close>

definition worker_run ::
  "worker_env \<Rightarrow> worker_mode \<Rightarrow> app_config \<Rightarrow> (worker_output list \<times> unit result) option" where
  "worker_run env mode config =
     (case we_stdin env of
        Inl e \<Rightarrow> Some ([], Inl ''Failed to read JSON input from stdin'')
      | Inr _ \<Rightarrow>
        (case we_input env of
           Inl err \<Rightarrow> Some ([worker_answer env ''unknown'' False [] (Some (''Invalid JSON payload: '' @ err))],
                           Inl (''Invalid input JSON: '' @ err))
         | Inr input \<Rightarrow>
             if wi_schema_version input \<noteq> SCHEMA_VERSION
             then Some ([worker_answer env (wi_job_id input) False [] (Some (''Unsupported schema version: expected ''
                     @ show_nat SCHEMA_VERSION @ '', got '' @ show_nat (wi_schema_version input)))],
                   Inl ''Unsupported schema version'')
             else map_option (\<lambda>r. case r of
                    Inr probed \<Rightarrow> ([worker_answer env (wi_job_id input) True probed None], Inr ())
                  | Inl err \<Rightarrow> ([worker_answer env (wi_job_id input) False [] (Some err)], Inl err))
                (case mode of Discovery \<Rightarrow> run_discovery env input config | Health \<Rightarrow> run_health env input config)))"

subsection \<open>Scans of a worker end\<close>

definition worker_scan_ok :: "worker_env \<Rightarrow> bool" where
  "worker_scan_ok env \<longleftrightarrow> scan_env_ok (si_scan (we_scan env))
     \<and> (\<forall>n. mset (si_order (we_scan env) n) = mset [0..<n])
     \<and> (\<forall>n. we_cancel_flag env n \<longrightarrow> we_cancel_flag env (Suc n))"

lemma batched_ends:
  assumes "scan_env_ok se"
    and "\<And>n. cancel_flag_set (pe_policy pe) n \<Longrightarrow> cancel_flag_set (pe_policy pe) (Suc n)"
  shows "\<exists>out. probe_active_batched pe se loads candidates = Some out"
  using scan_loop_ends[OF assms, where s = "scan_start pe se loads candidates"]
  by (auto simp: probe_active_batched_def)

lemma probe_candidates_ends:
  assumes "scan_env_ok se"
    and "\<And>n. cancel_flag_set (pe_policy pe) n \<Longrightarrow> cancel_flag_set (pe_policy pe) (Suc n)"
  shows "\<exists>out. probe_candidates pe se available order outcome candidates = Some out"
proof -
  have batched: "\<exists>out. probe_active_batched pe se loads cs = Some out" for loads cs
    by (rule batched_ends[OF assms])
  have "\<exists>out. probe_active_with_tcp_prefilter pe se order outcome candidates = Some out"
    using batched
    by (cases "sweep_loop (pe_policy pe) (min (pc_connect_timeout_ms (pe_config pe)) TCP_PREFILTER_CONNECT_TIMEOUT_MS)
          (filter (\<lambda>c. \<not> is_udp_protocol (c_protocol c)) candidates) outcome
          (order (length (filter (\<lambda>c. \<not> is_udp_protocol (c_protocol c)) candidates))) 0 [] []")
      (simp add: probe_active_with_tcp_prefilter_def Let_def)
  then show ?thesis
    using batched by (cases "pc_mode (pe_config pe)") (auto simp: probe_candidates_def Let_def)
qed

lemma worker_probe_ends:
  assumes "worker_scan_ok env"
  shows "\<exists>out. worker_probe env config (worker_policy env all n) candidates = Some (Inr (map_ranked_results out))
     \<and> about out \<subseteq># mset candidates"
proof -
  let ?pe = "(si_probe (we_scan env))\<lparr>pe_config := ac_probe config, pe_policy := worker_policy env all n, pe_progress := False\<rparr>"
  have ok: "scan_env_ok (si_scan (we_scan env))" "\<And>n. mset (si_order (we_scan env) n) = mset [0..<n]"
    using assms by (simp_all add: worker_scan_ok_def)
  have "cancel_flag_set (pe_policy ?pe) n \<Longrightarrow> cancel_flag_set (pe_policy ?pe) (Suc n)" for n
    using assms by (simp add: worker_scan_ok_def worker_policy_def cancel_flag_set_def)
  from probe_candidates_ends[OF ok(1) this] obtain out where
    out: "probe_candidates ?pe (si_scan (we_scan env)) (si_available (we_scan env)) (si_order (we_scan env))
       (si_outcome (we_scan env)) candidates = Some out" by blast
  then have "worker_probe env config (worker_policy env all n) candidates = Some (Inr (map_ranked_results out))"
    by (simp add: worker_probe_def Let_def)
  with probe_candidates_about[OF ok out] show ?thesis by blast
qed

lemma map_ranked_results_uris:
  assumes "about out \<subseteq># mset candidates"
  shows "mset (map wr_uri (map_ranked_results out)) \<subseteq># mset (map c_uri candidates)"
proof -
  have "map wr_uri (map_ranked_results out) = map c_uri (map candidate_of_ranked out)"
    by (simp add: map_ranked_results_def candidate_of_ranked_def)
  then have "mset (map wr_uri (map_ranked_results out)) = image_mset c_uri (about out)"
    unfolding about_def by (simp only: mset_map)
  then show ?thesis
    using image_mset_subseteq_mono[OF assms, of c_uri] by simp
qed

subsection \<open>What a health check reports\<close>

lemma health_candidate_uri [simp]: "c_uri (health_candidate K i cfg) = ic_uri cfg"
  using parse_share_link_uri
  by (auto simp: health_candidate_def split: sum.splits)

lemma health_candidates_uris: "map c_uri (health_candidates K configs) = map ic_uri configs"
  by (rule nth_equalityI) (simp_all add: health_candidates_def)

lemma health_candidate_id [simp]: "c_id (health_candidate K i cfg) = ''hc-'' @ show_nat i"
  by (simp add: health_candidate_def split: sum.splits)

lemma run_discovery_ends:
  "worker_scan_ok env \<Longrightarrow> 0 < ac_fetch_concurrency config \<Longrightarrow> \<exists>r. run_discovery env input config = Some r"
  using worker_probe_ends
  by (fastforce simp: run_discovery_def fetch_never_ends_def Let_def split: option.splits sum.splits prod.splits)

lemma run_health_ends:
  assumes "worker_scan_ok env"
  shows "\<exists>r. run_health env input config = Some r
     \<and> (\<forall>probed. r = Inr probed \<longrightarrow> (\<exists>configs. wi_configs input = Some configs
          \<and> mset (map wr_uri probed) \<subseteq># mset (map ic_uri configs)))"
proof (cases "wi_configs input")
  case None
  then show ?thesis by (simp add: run_health_def)
next
  case (Some configs)
  let ?cs = "health_candidates (we_parsers env) configs"
  show ?thesis
  proof (cases "?cs = []")
    case True
    then show ?thesis using Some by (simp add: run_health_def)
  next
    case False
    obtain out where out: "worker_probe env config (worker_policy env True (length ?cs)) ?cs
        = Some (Inr (map_ranked_results out))" "about out \<subseteq># mset ?cs"
      using worker_probe_ends[OF assms] by blast
    from map_ranked_results_uris[OF out(2)] out(1) Some False show ?thesis
      by (simp add: run_health_def health_candidates_uris del: mset_map)
  qed
qed


definition sample_worker :: worker_env where
  "sample_worker = \<lparr>
     we_stdin = Inr (),
     we_input = Inr \<lparr>wi_schema_version = 1, wi_mode = ''health_check'', wi_job_id = ''7'', wi_sources = None,
       wi_configs = Some [\<lparr>ic_uri = ''trojan://a@b:443'', ic_protocol = None\<rparr>,
                          \<lparr>ic_uri = ''trojan://a@b:443'', ic_protocol = None\<rparr>],
       wi_scan_all = None, wi_target_count = None, wi_timeout_seconds = None\<rparr>,
     we_version = ''0.5.0'', we_duration_ms = 10, we_cancel_flag = (\<lambda>_. False),
     we_encoders = sample_encoders, we_parsers = sample_parsers, we_fetch = sample_fetch_env,
     we_scan = \<lparr>si_probe = sample_probe_env, si_scan = sample_scan, si_available = True,
       si_order = (\<lambda>n. rev [0..<n]), si_outcome = (\<lambda>_. Connected 5 None), si_sent = []\<rparr> \<rparr>"

lemma sample_worker_ok: "worker_scan_ok sample_worker"
  using sample_scan_ok by (simp add: worker_scan_ok_def sample_worker_def)


text \<open>Without a slot for fetches a discovery never answers.\<close>

lemma discovery_without_fetch_slot:
  assumes "we_stdin env = Inr ()" and "we_input env = Inr input" and "wi_schema_version input = SCHEMA_VERSION"
    and "wi_sources input = Some sources" and "sources \<noteq> []" and "ac_fetch_concurrency config = 0" and "\<not> isl (fe_client (we_fetch env))"
  shows "worker_run env Discovery config = None"
proof -
  have "list_ex ss_enabled (discovery_sources sources)" using assms(5) by (cases sources) (simp_all add: discovery_sources_def)
  then show ?thesis using assms by (simp add: worker_run_def run_discovery_def fetch_never_ends_def)
qed

text \<open>
  A health check that names a link twice, or two links with the same outbound, reports one of them:
  the other is an alias, which gets no result of its own.
\<close>

lemma health_check_omits_aliases:
  "case worker_run sample_worker Health app_config_default of
     Some ([out], Inr _) \<Rightarrow> wo_success out \<and> length (wo_results out) = 1
   | _ \<Rightarrow> False"
  by code_simp

end
