(* ===== verification/Paths.thy ===== *)
theory Paths
  imports Links
begin

text \<open>
  Where the program keeps its files (\<open>src/paths.rs\<close>), on file-system paths as lists of components;
  an absolute path starts with the component \<open>/\<close>.  Environment variables and the executable's
  place are arguments.
\<close>

subsection \<open>Paths\<close>

type_synonym path = "string list"

text \<open>\<open>PathBuf::from\<close>: repeated separators and inner \<open>.\<close> components mean nothing.\<close>

definition path_of :: "string \<Rightarrow> path" where
  "path_of s =
     (let parts = filter (\<lambda>c. c \<noteq> []) (split_char s (\<lambda>c. c = CHR ''/''))
      in (if starts_with s ''/'' then [''/''] @ filter (\<lambda>c. c \<noteq> ''.'') parts
          else case parts of [] \<Rightarrow> [] | c # cs \<Rightarrow> c # filter (\<lambda>c. c \<noteq> ''.'') cs))"

definition path_display :: "path \<Rightarrow> string" where
  "path_display p =
     (case p of [] \<Rightarrow> []
      | c # cs \<Rightarrow> if c = ''/'' then ''/'' @ join_str ''/'' cs else join_str ''/'' p)"

definition path_file_name :: "path \<Rightarrow> string option" where
  "path_file_name p =
     (if p = [] \<or> last p \<in> {''/'', ''.'', ''..''} then None else Some (last p))"

definition path_parent :: "path \<Rightarrow> path option" where
  "path_parent p = (if p = [] \<or> p = [''/''] then None else Some (butlast p))"

definition path_join :: "path \<Rightarrow> path \<Rightarrow> path" where
  "path_join base p = (if starts_with (concat (take 1 p)) ''/'' then p else base @ p)"

text \<open>The path itself, its parent, and so on.\<close>

function path_ancestors :: "path \<Rightarrow> path list" where
  "path_ancestors p = p # (case path_parent p of None \<Rightarrow> [] | Some q \<Rightarrow> path_ancestors q)"
  by pat_completeness auto
termination
  by (relation "measure length") (auto simp: path_parent_def split: if_splits)

declare path_ancestors.simps [simp del]

text \<open>The part of the file name after its last dot, unless that dot is its first character.\<close>

definition path_extension :: "path \<Rightarrow> string option" where
  "path_extension p =
     (case path_file_name p of None \<Rightarrow> None
      | Some name \<Rightarrow> (case rsplit_once_char name (CHR ''.'') of
          Some (stem, ext) \<Rightarrow> if stem = [] then None else Some ext
        | None \<Rightarrow> None))"

subsection \<open>The program's own paths\<close>

datatype platform = Windows | MacOS | Android | Linux | OtherOs

record app_paths =
  ap_root_dir :: path
  ap_config_path :: path
  ap_cache_dir :: path
  ap_portable :: bool
  ap_generated_config :: bool

record path_env =
  pv_platform :: platform
  pv_var :: "string \<Rightarrow> string option"
  pv_current_exe :: "path result"

definition from_root_with_config :: "path \<Rightarrow> path \<Rightarrow> bool \<Rightarrow> bool \<Rightarrow> app_paths" where
  "from_root_with_config root_dir config_path portable generated_config =
     \<lparr> ap_root_dir = root_dir, ap_config_path = config_path,
       ap_cache_dir = path_join root_dir [CACHE_DIR_NAME], ap_portable = portable,
       ap_generated_config = generated_config \<rparr>"

definition from_root :: "path \<Rightarrow> bool \<Rightarrow> app_paths" where
  "from_root root_dir portable =
     from_root_with_config root_dir (path_join root_dir [CONFIG_FILE_NAME]) portable True"

definition installed_data_root :: "path \<Rightarrow> path" where
  "installed_data_root base_dir = path_join (path_join base_dir [APP_NAME]) [APP_DATA_DIR_NAME]"

definition home_dir :: "path_env \<Rightarrow> path result" where
  "home_dir env =
     ok_or (map_option path_of (case pv_var env ''HOME'' of Some h \<Rightarrow> Some h | None \<Rightarrow> pv_var env ''USERPROFILE''))
       ''unable to resolve user home directory''"

definition installed_root_dir :: "path_env \<Rightarrow> path result" where
  "installed_root_dir env =
     (if pv_platform env = Windows then
        (case pv_var env ''LOCALAPPDATA'' of
           Some d \<Rightarrow> Inr (installed_data_root (path_of d))
         | None \<Rightarrow> and_then (home_dir env) (\<lambda>home.
             Inr (installed_data_root (path_join (path_join home [''AppData'']) [''Local'']))))
      else if pv_platform env = MacOS then
        and_then (home_dir env) (\<lambda>home.
          Inr (installed_data_root (path_join (path_join home [''Library'']) [''Application Support''])))
      else
        (case pv_var env ''XDG_DATA_HOME'' of
           Some d \<Rightarrow> Inr (installed_data_root (path_of d))
         | None \<Rightarrow> and_then (home_dir env) (\<lambda>home.
             Inr (installed_data_root (path_join (path_join home [''.local'']) [''share''])))))"

definition installed :: "path_env \<Rightarrow> app_paths result" where
  "installed env = and_then (installed_root_dir env) (\<lambda>root. Inr (from_root root False))"

definition portable_paths :: "path_env \<Rightarrow> app_paths result" where
  "portable_paths env =
     and_then (pv_current_exe env) (\<lambda>executable.
     and_then (ok_or (path_parent executable) ''unable to resolve executable directory'') (\<lambda>dir.
     Inr (from_root (path_join dir [APP_DATA_DIR_NAME]) True)))"

definition from_config_override :: "path \<Rightarrow> app_paths" where
  "from_config_override config_path =
     (let config_parent = unwrap_or (path_parent config_path) [''.''];
          root_dir = (case find (\<lambda>p. path_file_name p = Some APP_DATA_DIR_NAME) (path_ancestors config_parent) of
            Some p \<Rightarrow> p | None \<Rightarrow> path_join config_parent [APP_DATA_DIR_NAME])
      in from_root_with_config root_dir config_path False False)"

text \<open>\<open>resolve_paths\<close> of \<open>main.rs\<close>: an explicit configuration wins over \<open>--portable\<close>.\<close>

definition resolve_paths :: "path_env \<Rightarrow> string option \<Rightarrow> bool \<Rightarrow> app_paths result" where
  "resolve_paths env config portable =
     (case config of
        Some c \<Rightarrow> Inr (from_config_override (path_of c))
      | None \<Rightarrow> if portable then portable_paths env else installed env)"

subsection \<open>The data folder\<close>

lemma path_join_name [simp]: "\<not> starts_with c ''/'' \<Longrightarrow> path_join base [c] = base @ [c]"
  by (simp add: path_join_def)

lemma app_names_relative [simp]:
  "\<not> starts_with APP_NAME ''/''" "\<not> starts_with APP_DATA_DIR_NAME ''/''" "\<not> starts_with DB_FILE_NAME ''/''"
  "\<not> starts_with CACHE_DIR_NAME ''/''" "\<not> starts_with CONFIG_FILE_NAME ''/''"
  "\<not> starts_with FIREWALL_STATE_FILE_NAME ''/''" "\<not> starts_with LEGACY_APP_MARKER_FILE_NAME ''/''"
  by code_simp+

lemma path_ancestors_prefix: "q \<in> set (path_ancestors p) \<Longrightarrow> \<exists>r. p = q @ r"
proof (induction p rule: path_ancestors.induct)
  case (1 p)
  show ?case
  proof (cases "q = p")
    case False
    have "q \<in> set (case path_parent p of None \<Rightarrow> [] | Some p' \<Rightarrow> path_ancestors p')"
      using "1.prems" False by (subst (asm) path_ancestors.simps) simp
    then obtain p' where p': "path_parent p = Some p'" "q \<in> set (path_ancestors p')"
      by (cases "path_parent p") auto
    then obtain r where "p' = q @ r" using "1.IH" by blast
    moreover have "p = p' @ [last p]" using p'(1) by (auto simp: path_parent_def split: if_splits)
    ultimately show ?thesis by (metis append_assoc)
  qed simp
qed

text \<open>
  Whichever way the program finds its place, its data folder is called \<open>v2raydar_data\<close>, the cache
  lies in it, and so does the configuration, unless the user named one.
\<close>

lemma resolve_paths_root:
  assumes "resolve_paths env config portable = Inr paths"
  shows "path_file_name (ap_root_dir paths) = Some APP_DATA_DIR_NAME
     \<and> ap_cache_dir paths = ap_root_dir paths @ [CACHE_DIR_NAME]
     \<and> (ap_generated_config paths \<longrightarrow> ap_config_path paths = ap_root_dir paths @ [CONFIG_FILE_NAME])
     \<and> (ap_generated_config paths \<longleftrightarrow> config = None)"
proof -
  have name: "path_file_name (p @ [APP_DATA_DIR_NAME]) = Some APP_DATA_DIR_NAME" for p
    by (simp add: path_file_name_def APP_DATA_DIR_NAME_def)
  have find: "find P xs = Some x \<Longrightarrow> P x" for P and xs :: "path list" and x
    by (induction xs) (auto split: if_splits)
  show ?thesis
  proof (cases config)
    case (Some c)
    then show ?thesis
      using assms name find[of "\<lambda>p. path_file_name p = Some APP_DATA_DIR_NAME"]
      by (auto simp: resolve_paths_def from_config_override_def from_root_with_config_def Let_def split: option.splits)
  next
    case None
    have "\<exists>root portable. paths = from_root (path_join root [APP_DATA_DIR_NAME]) portable"
      using assms None
      by (auto simp del: path_join_name simp: resolve_paths_def portable_paths_def installed_def
          installed_root_dir_def installed_data_root_def and_then_Inr_iff split: if_splits option.splits)
    then show ?thesis using name None by (auto simp: from_root_def from_root_with_config_def)
  qed
qed

end
