(* ===== verification/SingBox.thy ===== *)
theory SingBox
  imports Config Paths
begin

text \<open>
  Finding the \<open>sing-box\<close> executable (\<open>src/sing_box.rs\<close>): normalising and checking the
  configured path, the path found beside the program, and the guide shown for a platform.  Files
  and the outcome of running \<open>sing-box version\<close> are arguments.
\<close>

definition SING_BOX_VERSION :: string where "SING_BOX_VERSION = ''1.13.13''"

definition SING_BOX_RELEASE_URL_PREFIX :: string where
  "SING_BOX_RELEASE_URL_PREFIX = ''https://github.com/SagerNet/sing-box/releases/tag/v''"

definition sing_box_download_url :: string where
  "sing_box_download_url = SING_BOX_RELEASE_URL_PREFIX @ SING_BOX_VERSION"

definition TERMUX_SING_BOX_PATH :: string where
  "TERMUX_SING_BOX_PATH = ''/data/data/com.termux/files/usr/bin/sing-box''"

subsection \<open>Paths\<close>

definition quoted_by :: "char \<Rightarrow> string \<Rightarrow> bool" where
  "quoted_by q s \<longleftrightarrow> starts_with s [q] \<and> ends_with s [q]"

definition normalize_path :: "string \<Rightarrow> string" where
  "normalize_path value =
     (let trimmed = trim value in
      if 2 \<le> length trimmed \<and> (quoted_by (CHR 34) trimmed \<or> quoted_by (CHR 39) trimmed)
      then trim (take (length trimmed - 2) (drop 1 trimmed)) else trimmed)"

definition should_setup_path :: "string \<Rightarrow> bool" where
  "should_setup_path value \<longleftrightarrow> normalize_path value = []"

text \<open>The place of the executable and which paths are files.\<close>

record sing_box_env =
  sb_paths :: path_env
  sb_is_file :: "path \<Rightarrow> bool"
  sb_version :: "string \<Rightarrow> (bool \<times> string \<times> string) result"

definition bundled_sing_box_file_name :: "platform \<Rightarrow> string" where
  "bundled_sing_box_file_name platform = (if platform = Windows then ''sing-box.exe'' else ''sing-box'')"

definition bundled_sing_box_path :: "sing_box_env \<Rightarrow> path option" where
  "bundled_sing_box_path env =
     (case pv_current_exe (sb_paths env) of
        Inl _ \<Rightarrow> None
      | Inr executable \<Rightarrow> (case path_parent executable of
          None \<Rightarrow> None
        | Some executable_dir \<Rightarrow>
            let candidate = path_join executable_dir [bundled_sing_box_file_name (pv_platform (sb_paths env))]
            in if sb_is_file env candidate then Some candidate else None))"

definition platform_default_sing_box_path :: "sing_box_env \<Rightarrow> path option" where
  "platform_default_sing_box_path env =
     (if pv_platform (sb_paths env) = Android then
        find (sb_is_file env)
          ((case pv_var (sb_paths env) ''PREFIX'' of
              Some pre \<Rightarrow> [path_join (path_join (path_of pre) [''bin'']) [''sing-box'']] | None \<Rightarrow> [])
           @ [path_of TERMUX_SING_BOX_PATH])
      else None)"

definition apply_runtime_sing_box_path :: "sing_box_env \<Rightarrow> app_config \<Rightarrow> app_config" where
  "apply_runtime_sing_box_path env config =
     (let probe = ac_probe config in
      if \<not> should_setup_path (pc_sing_box_path probe) then
        config\<lparr>ac_probe := probe\<lparr>pc_sing_box_path := normalize_path (pc_sing_box_path probe),
                                pc_sing_box_path_auto := False\<rparr>\<rparr>
      else case (case bundled_sing_box_path env of Some p \<Rightarrow> Some p | None \<Rightarrow> platform_default_sing_box_path env) of
        Some p \<Rightarrow> config\<lparr>ac_probe := probe\<lparr>pc_sing_box_path := path_display p, pc_sing_box_path_auto := True\<rparr>\<rparr>
      | None \<Rightarrow> config)"

subsection \<open>The guide\<close>

record setup_guide =
  sg_platform :: string
  sg_release_asset :: string
  sg_executable_name :: string
  sg_example_paths :: "string list"
  sg_notes :: "string list"

definition COMMAND_NOTE :: string where
  "COMMAND_NOTE = ''A command name is accepted only when it works from your terminal PATH.''"

definition CHMOD_NOTE :: string where
  "CHMOD_NOTE = ''After extracting manually, run chmod +x sing-box if the file is not executable.''"

definition setup_guide_of :: "platform \<Rightarrow> setup_guide" where
  "setup_guide_of platform =
     (case platform of
        Windows \<Rightarrow> \<lparr> sg_platform = ''Windows'',
          sg_release_asset = ''sing-box-'' @ SING_BOX_VERSION @ ''-windows-amd64.zip'',
          sg_executable_name = ''sing-box.exe'',
          sg_example_paths = [''C:'' @ [CHR 92] @ ''Tools'' @ [CHR 92] @ ''sing-box'' @ [CHR 92] @ ''sing-box.exe'',
            ''C:'' @ [CHR 92] @ ''Program Files'' @ [CHR 92] @ ''v2rayN'' @ [CHR 92] @ ''sing-box.exe'', ''sing-box.exe''],
          sg_notes = [''Use the .exe file inside the Windows zip.'',
            ''If you already use v2rayN, its installation folder may already contain sing-box.exe.'', COMMAND_NOTE] \<rparr>
      | MacOS \<Rightarrow> \<lparr> sg_platform = ''macOS'',
          sg_release_asset = ''sing-box-'' @ SING_BOX_VERSION
            @ ''-darwin-arm64.tar.gz for Apple Silicon, or darwin-amd64 for Intel'',
          sg_executable_name = ''sing-box'',
          sg_example_paths = [''/opt/homebrew/bin/sing-box'', ''/usr/local/bin/sing-box'',
            ''/Users/you/Downloads/sing-box/sing-box'', ''sing-box''],
          sg_notes = [''Use the sing-box file inside the Darwin archive, not a Windows .exe.'', CHMOD_NOTE, COMMAND_NOTE] \<rparr>
      | Android \<Rightarrow> \<lparr> sg_platform = ''Termux / Android'',
          sg_release_asset = ''Termux package sing-box='' @ SING_BOX_VERSION,
          sg_executable_name = ''sing-box'',
          sg_example_paths = [''/data/data/com.termux/files/usr/bin/sing-box'', ''$HOME/bin/sing-box'', ''sing-box''],
          sg_notes = [''Install with: pkg install sing-box='' @ SING_BOX_VERSION,
            ''Use the Termux package path first; GitHub Android archives are only a fallback.'',
            ''A command name is accepted only when it works from your Termux PATH.''] \<rparr>
      | Linux \<Rightarrow> \<lparr> sg_platform = ''Linux'',
          sg_release_asset = ''sing-box-'' @ SING_BOX_VERSION
            @ ''-linux-amd64.tar.gz for x86_64, or linux-arm64 for ARM64'',
          sg_executable_name = ''sing-box'',
          sg_example_paths = [''/usr/local/bin/sing-box'', ''/usr/bin/sing-box'', ''/home/you/bin/sing-box'', ''sing-box''],
          sg_notes = [''Use the sing-box file inside the Linux archive, not the archive itself.'',
            ''WSL2 Ubuntu is Linux: extract the Linux archive and point to the extracted '' @ [CHR 39] @ ''sing-box''
              @ [CHR 39] @ '' binary.'', CHMOD_NOTE, COMMAND_NOTE] \<rparr>
      | OtherOs \<Rightarrow> \<lparr> sg_platform = ''this operating system'',
          sg_release_asset = ''the archive matching your operating system and CPU'',
          sg_executable_name = ''sing-box'',
          sg_example_paths = [''/full/path/to/sing-box'', ''sing-box''],
          sg_notes = [''Use the executable file for your operating system, not a Windows .exe unless you are on Windows.'',
            COMMAND_NOTE] \<rparr>)"

subsection \<open>Checking a path\<close>

definition is_archive_path :: "string \<Rightarrow> bool" where
  "is_archive_path p \<longleftrightarrow>
     (case path_extension (path_of p) of
        Some ext \<Rightarrow> eq_ignore_ascii_case ext ''tgz'' \<or> eq_ignore_ascii_case ext ''zip'' \<or> eq_ignore_ascii_case ext ''7z''
      | None \<Rightarrow> False)
     \<or> (case path_file_name (path_of p) of
          Some name \<Rightarrow> ends_with (to_ascii_lowercase name) ''.tar.gz'' \<or> ends_with (to_ascii_lowercase name) ''.tar.xz''
        | None \<Rightarrow> False)"

text \<open>\<open>sb_version\<close> runs the executable: its success, its exit status as text, and what it printed.\<close>

definition verify_path :: "sing_box_env \<Rightarrow> string \<Rightarrow> unit result" where
  "verify_path env raw =
     (let p = normalize_path raw; guide = setup_guide_of (pv_platform (sb_paths env));
          quote = (\<lambda>s. [CHR 39] @ s @ [CHR 39]) in
      if p = [] then Inl ''sing-box path cannot be empty''
      else if is_archive_path p then Inl (quote p
        @ '' is an archive, not a sing-box executable. Extract it and point to the file named '' @ quote ''sing-box''
        @ '' inside the archive.'')
      else case sb_version env p of
        Inl _ \<Rightarrow> Inl (''unable to run '' @ quote p @ ''. On '' @ sg_platform guide @ '', use '' @ quote (sg_executable_name guide)
          @ '' from '' @ sg_release_asset guide @ ''; enter its full path or a PATH command. Download: '' @ sing_box_download_url)
      | Inr (success, status, _) \<Rightarrow>
          if \<not> success then Inl (quote (p @ '' version'') @ '' exited with '' @ status
            @ ''; enter a valid sing-box executable path'')
          else Inr ())"

definition active_probe_needs_setup :: "sing_box_env \<Rightarrow> app_config \<Rightarrow> bool" where
  "active_probe_needs_setup env config \<longleftrightarrow>
     pc_mode (ac_probe config) = Active
     \<and> (should_setup_path (pc_sing_box_path (ac_probe config))
        \<or> isl (verify_path env (pc_sing_box_path (ac_probe config))))"

subsection \<open>Facts the editor of the configuration needs\<close>

lemma normalize_path_trim [simp]: "normalize_path (trim s) = normalize_path s"
  by (simp add: normalize_path_def)

lemma trim_normalize_path [simp]: "trim (normalize_path s) = normalize_path s"
  by (simp add: normalize_path_def Let_def)

text \<open>Once the program needs no setup, the path it uses is set and its executable ran.\<close>

lemma verified_path:
  assumes "\<not> active_probe_needs_setup env config" and "pc_mode (ac_probe config) = Active"
  shows "\<exists>status out. sb_version env (normalize_path (pc_sing_box_path (ac_probe config))) = Inr (True, status, out)
     \<and> \<not> is_archive_path (normalize_path (pc_sing_box_path (ac_probe config)))"
  using assms
  by (auto simp: active_probe_needs_setup_def should_setup_path_def verify_path_def Let_def
      split: if_splits sum.splits prod.splits)

end
