(* ===== verification/ConfigEditor.thy ===== *)
theory ConfigEditor
  imports SingBox Network
begin

text \<open>
  The settings the terminal interface edits (\<open>src/tui/config_editor.rs\<close>): their names, how a
  value is shown, and how a typed text is read back into the configuration.
\<close>

subsection \<open>Settings\<close>

datatype config_key =
    BindKey | TopNKey | RefreshSecondsKey | EncodedSubscriptionKey | PrioritizeStabilityKey
  | ReturnConfigsAsapKey | ScanAllConfigsKey | FetchTimeoutKey | FetchConcurrencyKey
  | MaxSubscriptionBytesKey | UseCacheOnlyKey | EmergencyConfigKey | ProbeModeKey
  | SingBoxPathKey | ConnectTimeoutKey | ActiveTimeoutKey | StartupTimeoutKey
  | ProbeConcurrencyKey | ProbeBatchSizeKey | ProbeProcessConcurrencyKey | TestUrlKey
  | AcceptedStatusesKey | DownloadUrlKey | DownloadLimitKey | CleanOfflineDaysKey
  | TokenRequiredKey | TokenKey | ProxyEnabledKey | ProxyPortKey | ProxyDiscoverableKey
  | ProxyHealthCheckUrlKey | ProxyHealthCheckIntervalKey | ResetDefaultsKey

definition CONFIG_KEYS :: "config_key list" where
  "CONFIG_KEYS = [BindKey, TopNKey, RefreshSecondsKey, EncodedSubscriptionKey, PrioritizeStabilityKey,
     ReturnConfigsAsapKey, ScanAllConfigsKey, FetchTimeoutKey, FetchConcurrencyKey,
     MaxSubscriptionBytesKey, UseCacheOnlyKey, EmergencyConfigKey, ProbeModeKey, SingBoxPathKey,
     ConnectTimeoutKey, ActiveTimeoutKey, StartupTimeoutKey, ProbeConcurrencyKey,
     ProbeBatchSizeKey, ProbeProcessConcurrencyKey, TestUrlKey, AcceptedStatusesKey,
     DownloadUrlKey, DownloadLimitKey, CleanOfflineDaysKey, TokenRequiredKey, TokenKey,
     ProxyEnabledKey, ProxyPortKey, ProxyDiscoverableKey, ProxyHealthCheckUrlKey,
     ProxyHealthCheckIntervalKey, ResetDefaultsKey]"

definition label :: "config_key \<Rightarrow> string" where
  "label key =
     (case key of
        BindKey \<Rightarrow> ''bind''
      | TopNKey \<Rightarrow> ''top_n''
      | RefreshSecondsKey \<Rightarrow> ''refresh_seconds''
      | EncodedSubscriptionKey \<Rightarrow> ''encoded_subscription''
      | PrioritizeStabilityKey \<Rightarrow> ''prioritize_stability''
      | ReturnConfigsAsapKey \<Rightarrow> ''return_configs_asap''
      | ScanAllConfigsKey \<Rightarrow> ''scan_all_configs''
      | FetchTimeoutKey \<Rightarrow> ''fetch_timeout_ms''
      | FetchConcurrencyKey \<Rightarrow> ''fetch_concurrency''
      | MaxSubscriptionBytesKey \<Rightarrow> ''max_subscription_bytes''
      | UseCacheOnlyKey \<Rightarrow> ''use_cache_only''
      | EmergencyConfigKey \<Rightarrow> ''emergency_config''
      | ProbeModeKey \<Rightarrow> ''probe.mode''
      | SingBoxPathKey \<Rightarrow> ''probe.sing_box_path''
      | ConnectTimeoutKey \<Rightarrow> ''probe.connect_timeout_ms''
      | ActiveTimeoutKey \<Rightarrow> ''probe.active_timeout_ms''
      | StartupTimeoutKey \<Rightarrow> ''probe.startup_timeout_ms''
      | ProbeConcurrencyKey \<Rightarrow> ''probe.concurrency''
      | ProbeBatchSizeKey \<Rightarrow> ''probe.batch_size''
      | ProbeProcessConcurrencyKey \<Rightarrow> ''probe.process_concurrency''
      | TestUrlKey \<Rightarrow> ''probe.test_url''
      | AcceptedStatusesKey \<Rightarrow> ''probe.accepted_statuses''
      | DownloadUrlKey \<Rightarrow> ''probe.download_url''
      | DownloadLimitKey \<Rightarrow> ''probe.download_bytes_limit''
      | CleanOfflineDaysKey \<Rightarrow> ''clean_offlines_after_days''
      | TokenRequiredKey \<Rightarrow> ''sharing.require_token''
      | TokenKey \<Rightarrow> ''sharing.token''
      | ProxyEnabledKey \<Rightarrow> ''proxy.enabled''
      | ProxyPortKey \<Rightarrow> ''proxy.port''
      | ProxyDiscoverableKey \<Rightarrow> ''proxy.discoverable''
      | ProxyHealthCheckUrlKey \<Rightarrow> ''proxy.health_check_url''
      | ProxyHealthCheckIntervalKey \<Rightarrow> ''proxy.health_check_interval_seconds''
      | ResetDefaultsKey \<Rightarrow> ''reset to defaults'')"

definition guide :: "config_key \<Rightarrow> string" where
  "guide key =
     (case key of
        BindKey \<Rightarrow> ''host:port, e.g. 0.0.0.0:27141''
      | TopNKey \<Rightarrow> ''positive number, e.g. 10''
      | RefreshSecondsKey \<Rightarrow> ''seconds between refreshes''
      | EncodedSubscriptionKey \<Rightarrow> ''true/false for base64 feed''
      | PrioritizeStabilityKey \<Rightarrow> ''true favors repeat working configs; false favors short wins''
      | ReturnConfigsAsapKey \<Rightarrow> ''true publishes working configs immediately''
      | ScanAllConfigsKey \<Rightarrow> ''true scans every config; false stops after enough working configs''
      | FetchTimeoutKey \<Rightarrow> ''fetch timeout in ms''
      | FetchConcurrencyKey \<Rightarrow> ''parallel fetch count''
      | MaxSubscriptionBytesKey \<Rightarrow> ''max bytes per subscription''
      | UseCacheOnlyKey \<Rightarrow> ''true uses cached subscriptions only''
      | EmergencyConfigKey \<Rightarrow> ''null or direct share link''
      | ProbeModeKey \<Rightarrow> ''active or tcp''
      | SingBoxPathKey \<Rightarrow> ''full path to sing-box executable''
      | ConnectTimeoutKey \<Rightarrow> ''connect timeout in ms''
      | ActiveTimeoutKey \<Rightarrow> ''active probe timeout in ms''
      | StartupTimeoutKey \<Rightarrow> ''sing-box startup timeout ms''
      | ProbeConcurrencyKey \<Rightarrow> ''parallel probe count''
      | ProbeBatchSizeKey \<Rightarrow> ''configs per sing-box process; auto/null''
      | ProbeProcessConcurrencyKey \<Rightarrow> ''parallel sing-box processes; auto/null''
      | TestUrlKey \<Rightarrow> ''URL used for active probe''
      | AcceptedStatusesKey \<Rightarrow> ''HTTP codes, e.g. 204,200''
      | DownloadUrlKey \<Rightarrow> ''speedtest URL or off/null''
      | DownloadLimitKey \<Rightarrow> ''speedtest byte limit''
      | CleanOfflineDaysKey \<Rightarrow> ''days before offline configs are removed''
      | TokenRequiredKey \<Rightarrow> ''true/false for URL token''
      | TokenKey \<Rightarrow> ''token text, empty allowed''
      | ProxyEnabledKey \<Rightarrow> ''true/false to enable persistent proxy''
      | ProxyPortKey \<Rightarrow> ''mixed SOCKS5/HTTP proxy port''
      | ProxyDiscoverableKey \<Rightarrow> ''true binds 0.0.0.0 + firewall for LAN''
      | ProxyHealthCheckUrlKey \<Rightarrow> ''URL tested through the proxy''
      | ProxyHealthCheckIntervalKey \<Rightarrow> ''seconds between health checks''
      | ResetDefaultsKey \<Rightarrow> ''type shown code to reset'')"

subsection \<open>Numbers and addresses of the standard library\<close>

text \<open>\<open>str::parse\<close> to an unsigned integer up to \<open>m\<close>, with the texts of its errors.\<close>

fun parse_digits :: "nat \<Rightarrow> nat \<Rightarrow> string \<Rightarrow> nat result" where
  "parse_digits m acc [] = Inr acc"
| "parse_digits m acc (c # cs) =
     (if \<not> is_ascii_digit c then Inl ''invalid digit found in string''
      else let v = 10 * acc + (byte_of c - 48) in
        if m < v then Inl ''number too large to fit in target type'' else parse_digits m v cs)"

definition parse_int :: "nat \<Rightarrow> string \<Rightarrow> nat result" where
  "parse_int m s =
     (case s of
        [] \<Rightarrow> Inl ''cannot parse integer from empty string''
      | c # cs \<Rightarrow>
          if cs = [] \<and> (c = CHR ''+'' \<or> c = CHR ''-'') then Inl ''invalid digit found in string''
          else parse_digits m 0 (if c = CHR ''+'' then cs else s))"

text \<open>
  \<open>SocketAddr\<close>'s \<open>parse\<close> and \<open>to_string\<close>.  The scope id a text may have after an IPv6 address is
  read and forgotten.
\<close>

definition read_port :: "string \<Rightarrow> (nat \<times> string) option" where
  "read_port s = Option.bind (read_given_char (CHR '':'') s) (\<lambda>s. read_number 10 (length s) True u16_max s)"

definition read_socket_v4 :: "string \<Rightarrow> (socket_addr \<times> string) option" where
  "read_socket_v4 s =
     (case read_ipv4_addr s of None \<Rightarrow> None
      | Some ((a, b, c, d), s) \<Rightarrow>
          map_option (\<lambda>(port, s). (\<lparr>sa_ip = IpV4 a b c d, sa_port = port\<rparr>, s)) (read_port s))"

definition read_scope :: "string \<Rightarrow> string" where
  "read_scope s =
     (case Option.bind (read_given_char (CHR ''%'') s) (\<lambda>s. read_number 10 (length s) True u32_max s) of
        Some (_, rest) \<Rightarrow> rest | None \<Rightarrow> s)"

definition read_socket_v6 :: "string \<Rightarrow> (socket_addr \<times> string) option" where
  "read_socket_v6 s =
     Option.bind (read_given_char (CHR ''['') s) (\<lambda>s.
     Option.bind (read_ipv6_addr s) (\<lambda>(ip, s).
     Option.bind (read_given_char (CHR '']'') (read_scope s)) (\<lambda>s.
     map_option (\<lambda>(port, s). (\<lparr>sa_ip = ip, sa_port = port\<rparr>, s)) (read_port s))))"

definition parse_socket_addr :: "string \<Rightarrow> socket_addr result" where
  "parse_socket_addr s =
     (case (case read_socket_v4 s of Some r \<Rightarrow> Some r | None \<Rightarrow> read_socket_v6 s) of
        Some (addr, []) \<Rightarrow> Inr addr
      | _ \<Rightarrow> Inl ''invalid socket address syntax'')"

definition show_socket_addr :: "socket_addr \<Rightarrow> string" where
  "show_socket_addr addr =
     (case sa_ip addr of
        IpV4 a b c d \<Rightarrow> show_ip (sa_ip addr)
      | _ \<Rightarrow> ''['' @ show_ip (sa_ip addr) @ '']'') @ '':'' @ show_nat (sa_port addr)"

subsection \<open>Showing a setting\<close>

definition bool_str :: "bool \<Rightarrow> string" where
  "bool_str b = (if b then ''true'' else ''false'')"

definition setting_value :: "app_config \<Rightarrow> config_key \<Rightarrow> string" where
  "setting_value config key =
     (let probe = ac_probe config; sharing = ac_sharing config; proxy_cfg = ac_proxy config in
      case key of
        BindKey \<Rightarrow> show_socket_addr (ac_bind config)
      | TopNKey \<Rightarrow> show_nat (ac_top_n config)
      | RefreshSecondsKey \<Rightarrow> show_nat (ac_refresh_seconds config)
      | EncodedSubscriptionKey \<Rightarrow> bool_str (ac_encoded_subscription config)
      | PrioritizeStabilityKey \<Rightarrow> bool_str (ac_prioritize_stability config)
      | ReturnConfigsAsapKey \<Rightarrow> bool_str (ac_return_configs_asap config)
      | ScanAllConfigsKey \<Rightarrow> bool_str (ac_scan_all_configs config)
      | FetchTimeoutKey \<Rightarrow> show_nat (ac_fetch_timeout_ms config)
      | FetchConcurrencyKey \<Rightarrow> show_nat (ac_fetch_concurrency config)
      | MaxSubscriptionBytesKey \<Rightarrow> show_nat (ac_max_subscription_bytes config)
      | UseCacheOnlyKey \<Rightarrow> bool_str (ac_use_cache_only config)
      | EmergencyConfigKey \<Rightarrow> unwrap_or (ac_emergency_config config) []
      | ProbeModeKey \<Rightarrow> (case pc_mode probe of Active \<Rightarrow> ''active'' | Tcp \<Rightarrow> ''tcp'')
      | SingBoxPathKey \<Rightarrow> pc_sing_box_path probe
      | ConnectTimeoutKey \<Rightarrow> show_nat (pc_connect_timeout_ms probe)
      | ActiveTimeoutKey \<Rightarrow> show_nat (pc_active_timeout_ms probe)
      | StartupTimeoutKey \<Rightarrow> show_nat (pc_startup_timeout_ms probe)
      | ProbeConcurrencyKey \<Rightarrow> show_nat (pc_concurrency probe)
      | ProbeBatchSizeKey \<Rightarrow> (case pc_batch_size probe of None \<Rightarrow> ''auto'' | Some n \<Rightarrow> show_nat n)
      | ProbeProcessConcurrencyKey \<Rightarrow> (case pc_process_concurrency probe of None \<Rightarrow> ''auto'' | Some n \<Rightarrow> show_nat n)
      | TestUrlKey \<Rightarrow> pc_test_url probe
      | AcceptedStatusesKey \<Rightarrow> join_str '','' (map show_nat (pc_accepted_statuses probe))
      | DownloadUrlKey \<Rightarrow> unwrap_or (pc_download_url probe) ''off''
      | DownloadLimitKey \<Rightarrow> show_nat (pc_download_bytes_limit probe)
      | CleanOfflineDaysKey \<Rightarrow> show_nat (ac_clean_offlines_after_days config)
      | TokenRequiredKey \<Rightarrow> bool_str (sc_require_token sharing)
      | TokenKey \<Rightarrow> sc_token sharing
      | ProxyEnabledKey \<Rightarrow> bool_str (xc_enabled proxy_cfg)
      | ProxyPortKey \<Rightarrow> show_nat (xc_port proxy_cfg)
      | ProxyDiscoverableKey \<Rightarrow> bool_str (xc_discoverable proxy_cfg)
      | ProxyHealthCheckUrlKey \<Rightarrow> xc_health_check_url proxy_cfg
      | ProxyHealthCheckIntervalKey \<Rightarrow> show_nat (xc_health_check_interval_seconds proxy_cfg)
      | ResetDefaultsKey \<Rightarrow> ''keeps subscriptions'')"

subsection \<open>Reading a setting\<close>

definition bool_value :: "string \<Rightarrow> bool result" where
  "bool_value value =
     (let v = to_ascii_lowercase value in
      if v \<in> {''true'', ''on'', ''yes'', ''1''} then Inr True
      else if v \<in> {''false'', ''off'', ''no'', ''0''} then Inr False
      else Inl ''expected true/false'')"

text \<open>\<open>m\<close> is the largest value of the number's type.\<close>

definition positive :: "nat \<Rightarrow> string \<Rightarrow> string \<Rightarrow> nat result" where
  "positive m value name =
     (case parse_int m value of
        Inl _ \<Rightarrow> Inl (name @ '' must be a number'')
      | Inr v \<Rightarrow> if 0 < v then Inr v else Inl (name @ '' must be greater than 0''))"

definition probe_mode_value :: "string \<Rightarrow> probe_mode result" where
  "probe_mode_value value =
     (let v = to_ascii_lowercase value in
      if v = ''active'' then Inr Active else if v = ''tcp'' then Inr Tcp
      else Inl ''probe.mode must be active or tcp'')"

definition required :: "string \<Rightarrow> string \<Rightarrow> string result" where
  "required value name = (if value = [] then Inl (name @ '' cannot be empty'') else Inr value)"

fun collect_results :: "'a result list \<Rightarrow> 'a list result" where
  "collect_results [] = Inr []"
| "collect_results (r # rs) = and_then r (\<lambda>v. and_then (collect_results rs) (\<lambda>vs. Inr (v # vs)))"

definition statuses :: "string \<Rightarrow> nat list result" where
  "statuses value =
     and_then (collect_results (map (\<lambda>part. parse_int u16_max (trim part)) (split_char value (\<lambda>c. c = CHR '',''))))
       (\<lambda>parsed. if list_all (\<lambda>status. 100 \<le> status \<and> status \<le> 599) parsed then Inr parsed
                  else Inl ''accepted_statuses must be HTTP codes 100..599'')"

definition optional_string :: "string \<Rightarrow> string" where
  "optional_string value =
     (let v = normalize_path value in if eq_ignore_ascii_case v ''null'' then [] else v)"

definition optional_value :: "string \<Rightarrow> string option" where
  "optional_value value =
     (let v = optional_string value in
      if to_ascii_lowercase v \<in> {[], ''off'', ''none''} then None else Some v)"

definition optional_positive :: "string \<Rightarrow> string \<Rightarrow> nat option result" where
  "optional_positive value name =
     (if to_ascii_lowercase value \<in> {[], ''auto'', ''off'', ''none'', ''null''} then Inr None
      else and_then (positive usize_max value name) (\<lambda>v. Inr (Some v)))"

definition on_probe :: "app_config \<Rightarrow> (probe_config \<Rightarrow> probe_config) \<Rightarrow> app_config" where
  "on_probe config f = config\<lparr>ac_probe := f (ac_probe config)\<rparr>"

definition on_sharing :: "app_config \<Rightarrow> (sharing_config \<Rightarrow> sharing_config) \<Rightarrow> app_config" where
  "on_sharing config f = config\<lparr>ac_sharing := f (ac_sharing config)\<rparr>"

definition on_proxy :: "app_config \<Rightarrow> (proxy_config \<Rightarrow> proxy_config) \<Rightarrow> app_config" where
  "on_proxy config f = config\<lparr>ac_proxy := f (ac_proxy config)\<rparr>"

definition with_value :: "'a result \<Rightarrow> ('a \<Rightarrow> app_config) \<Rightarrow> app_config result" where
  "with_value r f = and_then r (\<lambda>v. Inr (f v))"

text \<open>\<open>generated\<close> is the token made when the text asks for one.\<close>

definition apply_setting :: "string \<Rightarrow> app_config \<Rightarrow> config_key \<Rightarrow> string \<Rightarrow> app_config result" where
  "apply_setting generated config key raw =
     (let value = trim raw in
      case key of
        BindKey \<Rightarrow> with_value (parse_socket_addr value) (\<lambda>v. config\<lparr>ac_bind := v\<rparr>)
      | TopNKey \<Rightarrow> with_value (positive usize_max value ''top_n'') (\<lambda>v. config\<lparr>ac_top_n := v\<rparr>)
      | RefreshSecondsKey \<Rightarrow> with_value (parse_int u64_max value) (\<lambda>v. config\<lparr>ac_refresh_seconds := v\<rparr>)
      | EncodedSubscriptionKey \<Rightarrow> with_value (bool_value value) (\<lambda>v. config\<lparr>ac_encoded_subscription := v\<rparr>)
      | PrioritizeStabilityKey \<Rightarrow> with_value (bool_value value) (\<lambda>v. config\<lparr>ac_prioritize_stability := v\<rparr>)
      | ReturnConfigsAsapKey \<Rightarrow> with_value (bool_value value) (\<lambda>v. config\<lparr>ac_return_configs_asap := v\<rparr>)
      | ScanAllConfigsKey \<Rightarrow> with_value (bool_value value) (\<lambda>v. config\<lparr>ac_scan_all_configs := v\<rparr>)
      | FetchTimeoutKey \<Rightarrow> with_value (positive u64_max value (label key)) (\<lambda>v. config\<lparr>ac_fetch_timeout_ms := v\<rparr>)
      | FetchConcurrencyKey \<Rightarrow> with_value (positive usize_max value (label key)) (\<lambda>v. config\<lparr>ac_fetch_concurrency := v\<rparr>)
      | MaxSubscriptionBytesKey \<Rightarrow>
          with_value (positive usize_max value (label key)) (\<lambda>v. config\<lparr>ac_max_subscription_bytes := v\<rparr>)
      | UseCacheOnlyKey \<Rightarrow> with_value (bool_value value) (\<lambda>v. config\<lparr>ac_use_cache_only := v\<rparr>)
      | EmergencyConfigKey \<Rightarrow> Inr (config\<lparr>ac_emergency_config := optional_value value\<rparr>)
      | ProbeModeKey \<Rightarrow> with_value (probe_mode_value value) (\<lambda>v. on_probe config (pc_mode_update (\<lambda>_. v)))
      | SingBoxPathKey \<Rightarrow>
          Inr (on_probe config (\<lambda>p. p\<lparr>pc_sing_box_path := optional_string value, pc_sing_box_path_auto := False\<rparr>))
      | ConnectTimeoutKey \<Rightarrow>
          with_value (positive u64_max value (label key)) (\<lambda>v. on_probe config (pc_connect_timeout_ms_update (\<lambda>_. v)))
      | ActiveTimeoutKey \<Rightarrow>
          with_value (positive u64_max value (label key)) (\<lambda>v. on_probe config (pc_active_timeout_ms_update (\<lambda>_. v)))
      | StartupTimeoutKey \<Rightarrow>
          with_value (positive u64_max value (label key)) (\<lambda>v. on_probe config (pc_startup_timeout_ms_update (\<lambda>_. v)))
      | ProbeConcurrencyKey \<Rightarrow>
          with_value (positive usize_max value (label key)) (\<lambda>v. on_probe config (pc_concurrency_update (\<lambda>_. v)))
      | ProbeBatchSizeKey \<Rightarrow>
          with_value (optional_positive value (label key)) (\<lambda>v. on_probe config (pc_batch_size_update (\<lambda>_. v)))
      | ProbeProcessConcurrencyKey \<Rightarrow>
          with_value (optional_positive value (label key)) (\<lambda>v. on_probe config (pc_process_concurrency_update (\<lambda>_. v)))
      | TestUrlKey \<Rightarrow> with_value (required value (label key)) (\<lambda>v. on_probe config (pc_test_url_update (\<lambda>_. v)))
      | AcceptedStatusesKey \<Rightarrow> with_value (statuses value) (\<lambda>v. on_probe config (pc_accepted_statuses_update (\<lambda>_. v)))
      | DownloadUrlKey \<Rightarrow> Inr (on_probe config (pc_download_url_update (\<lambda>_. optional_value value)))
      | DownloadLimitKey \<Rightarrow>
          with_value (positive usize_max value (label key)) (\<lambda>v. on_probe config (pc_download_bytes_limit_update (\<lambda>_. v)))
      | CleanOfflineDaysKey \<Rightarrow>
          with_value (positive u32_max value (label key)) (\<lambda>v. config\<lparr>ac_clean_offlines_after_days := v\<rparr>)
      | TokenRequiredKey \<Rightarrow> with_value (bool_value value) (\<lambda>v. on_sharing config (sc_require_token_update (\<lambda>_. v)))
      | TokenKey \<Rightarrow> Inr (on_sharing config (sc_token_update (\<lambda>_. normalize_sharing_token generated value)))
      | ProxyEnabledKey \<Rightarrow> with_value (bool_value value) (\<lambda>v. on_proxy config (xc_enabled_update (\<lambda>_. v)))
      | ProxyPortKey \<Rightarrow> with_value (positive u16_max value (label key)) (\<lambda>v. on_proxy config (xc_port_update (\<lambda>_. v)))
      | ProxyDiscoverableKey \<Rightarrow> with_value (bool_value value) (\<lambda>v. on_proxy config (xc_discoverable_update (\<lambda>_. v)))
      | ProxyHealthCheckUrlKey \<Rightarrow>
          with_value (required value (label key)) (\<lambda>v. on_proxy config (xc_health_check_url_update (\<lambda>_. v)))
      | ProxyHealthCheckIntervalKey \<Rightarrow>
          with_value (positive u64_max value (label key))
            (\<lambda>v. on_proxy config (xc_health_check_interval_seconds_update (\<lambda>_. v)))
      | ResetDefaultsKey \<Rightarrow> Inr config)"

subsection \<open>What is shown can be read back\<close>

lemma parse_digits_show: "n \<le> m \<Longrightarrow> acc * 10 ^ length ds \<le> n \<Longrightarrow> \<forall>c\<in>set ds. is_ascii_digit c \<Longrightarrow>
    digits_value acc ds = Some n \<Longrightarrow> parse_digits m acc ds = Inr n"
proof (induction ds arbitrary: acc)
  case Nil
  then show ?case by simp
next
  case (Cons c ds)
  let ?v = "10 * acc + (byte_of c - 48)"
  have grows: "digits_value a xs = Some k \<Longrightarrow> a * 10 ^ length xs \<le> k" for a k and xs :: string
  proof (induction xs arbitrary: a)
    case (Cons x xs)
    then have "(10 * a + (byte_of x - 48)) * 10 ^ length xs \<le> k" by (auto split: if_splits)
    then show ?case by (simp add: algebra_simps)
  qed simp
  have v: "digits_value ?v ds = Some n" using Cons.prems by simp
  have "?v * 1 \<le> ?v * 10 ^ length ds" by (rule mult_le_mono2) simp
  also have "\<dots> \<le> m" using grows[OF v] Cons.prems(1) by (rule order_trans)
  finally have "?v \<le> m" by (simp only: mult_1_right)
  then show ?case
    using Cons.IH[OF Cons.prems(1) grows[OF v] _ v] Cons.prems(3) by (simp add: Let_def)
qed

lemma parse_int_show [simp]: "n \<le> m \<Longrightarrow> parse_int m (show_nat n) = Inr n"
proof -
  assume n: "n \<le> m"
  obtain c cs where s: "show_nat n = c # cs" by (cases "show_nat n") auto
  have "is_ascii_digit c" using show_nat_digits[of c n] s by simp
  then have "c \<noteq> CHR ''+''" "c \<noteq> CHR ''-''" by (auto simp: is_ascii_digit_def byte_of_def)
  then have "parse_int m (show_nat n) = parse_digits m 0 (show_nat n)" by (simp add: parse_int_def s)
  also have "\<dots> = Inr n" by (rule parse_digits_show[OF n]) (simp_all add: show_nat_digits)
  finally show ?thesis .
qed

lemma parse_digits_le: "parse_digits m acc s = Inr v \<Longrightarrow> acc \<le> m \<Longrightarrow> v \<le> m"
  by (induction s arbitrary: acc) (auto simp: Let_def split: if_splits)

lemma parse_int_le: "parse_int m s = Inr v \<Longrightarrow> v \<le> m"
  by (auto simp: parse_int_def parse_digits_le[OF _ le0] split: list.splits if_splits)

lemma digit_graphic: "is_ascii_digit c \<Longrightarrow> 33 \<le> byte_of c \<and> byte_of c < 128"
  by (simp add: is_ascii_digit_def)

lemma trim_show_nat [simp]: "trim (show_nat n) = show_nat n"
  by (rule trim_graphic) (use show_nat_digits digit_graphic in blast)

lemma positive_Inr: "positive m s name = Inr v \<longleftrightarrow> parse_int m s = Inr v \<and> 0 < v"
  by (auto simp: positive_def split: sum.splits if_splits)

lemma positive_show [simp]: "0 < n \<Longrightarrow> n \<le> m \<Longrightarrow> positive m (show_nat n) name = Inr n"
  by (simp add: positive_Inr)

lemma bool_value_str [simp]: "bool_value (trim (bool_str b)) = Inr b"
  by (cases b) (simp_all add: bool_str_def, code_simp+)

lemma optional_positive_auto [simp]: "optional_positive (trim ''auto'') name = Inr None"
  by (simp add: optional_positive_def, code_simp)

lemma show_nat_not_word: "is_ascii_alphabetic (hd w) \<Longrightarrow> w \<noteq> [] \<Longrightarrow> show_nat n \<noteq> w"
proof
  assume w: "is_ascii_alphabetic (hd w)" "w \<noteq> []" "show_nat n = w"
  then have "is_ascii_digit (hd w)" using show_nat_digits[of "hd w" n] by simp
  with w(1) show False by (auto simp: is_ascii_digit_def is_ascii_alphabetic_def)
qed

lemma optional_positive_show [simp]:
  assumes "0 < n" and "n \<le> usize_max"
  shows "optional_positive (show_nat n) name = Inr (Some n)"
proof -
  have "show_nat n \<notin> {[], ''auto'', ''off'', ''none'', ''null''}"
    using show_nat_not_word[of "''auto''" n] show_nat_not_word[of "''off''" n]
      show_nat_not_word[of "''none''" n] show_nat_not_word[of "''null''" n]
    by (auto simp: is_ascii_alphabetic_def byte_of_def)
  then show ?thesis using assms by (simp add: optional_positive_def and_then_def)
qed

lemma optional_positive_Some:
  "optional_positive s name = Inr (Some v) \<Longrightarrow> 0 < v \<and> v \<le> usize_max"
  unfolding optional_positive_def
  by (cases "to_ascii_lowercase s \<in> {[], ''auto'', ''off'', ''none'', ''null''}")
    (simp_all only: if_True if_False sum.inject option.distinct and_then_Inr_iff positive_Inr,
      auto dest: parse_int_le)

lemma collect_results_map: "\<forall>x\<in>set xs. f x = Inr (x' x) \<Longrightarrow> collect_results (map f xs) = Inr (map x' xs)"
  by (induction xs) (auto simp: and_then_def)

lemma collect_results_Inr: "collect_results rs = Inr vs \<Longrightarrow> length vs = length rs \<and> (\<forall>i<length vs. rs ! i = Inr (vs ! i))"
proof (induction rs arbitrary: vs)
  case (Cons r rs)
  then obtain v vs' where "r = Inr v" "collect_results rs = Inr vs'" "vs = v # vs'"
    by (auto simp: and_then_Inr_iff)
  with Cons.IH show ?case by (auto simp: nth_Cons split: nat.splits)
qed simp

lemma statuses_Inr:
  assumes "statuses s = Inr v"
  shows "v \<noteq> [] \<and> (\<forall>n\<in>set v. 100 \<le> n \<and> n \<le> 599)"
proof -
  have "collect_results (map (\<lambda>part. parse_int u16_max (trim part)) (split_char s (\<lambda>c. c = CHR '',''))) = Inr v"
    "list_all (\<lambda>n. 100 \<le> n \<and> n \<le> 599) v"
    using assms by (auto simp: statuses_def and_then_Inr_iff split: if_splits)
  with collect_results_Inr[OF this(1)] show ?thesis
    by (auto simp: list_all_iff simp flip: length_greater_0_conv)
qed

lemma statuses_shown:
  assumes "v \<noteq> []" and "\<forall>n\<in>set v. 100 \<le> n \<and> n \<le> 599"
  shows "statuses (trim (join_str '','' (map show_nat v))) = Inr v"
proof -
  have "set (join_str '','' ws) \<subseteq> {CHR '',''} \<union> \<Union> (set ` set ws)" for ws :: "string list"
    by (induction "'',''" ws rule: join_str.induct) auto
  then have "c \<in> set (join_str '','' (map show_nat v)) \<Longrightarrow> c = CHR '','' \<or> is_ascii_digit c" for c
    using show_nat_digits by fastforce
  then have t: "trim (join_str '','' (map show_nat v)) = join_str '','' (map show_nat v)"
    by (intro trim_graphic ballI) (use digit_graphic in \<open>fastforce simp: byte_of_def\<close>)
  have "CHR '','' \<notin> set (show_nat n)" for n
    using show_nat_digits[of "CHR '',''" n] by (auto simp: is_ascii_digit_def byte_of_def)
  then have s: "split_char (join_str '','' (map show_nat v)) (\<lambda>c. c = CHR '','') = map show_nat v"
    using split_char_join[of "map show_nat v" "CHR '',''"] assms(1) by simp
  have "collect_results (map (\<lambda>n. parse_int u16_max (trim (show_nat n))) v) = Inr (map (\<lambda>n. n) v)"
    by (rule collect_results_map) (use assms(2) in \<open>auto simp: u16_max_def\<close>)
  then show ?thesis
    using assms(2) by (simp add: statuses_def t s o_def and_then_def list_all_iff)
qed

lemma read_port_show: "port \<le> u16_max \<Longrightarrow> read_port ('':'' @ show_nat port) = Some (port, [])"
proof -
  assume p: "port \<le> u16_max"
  have t: "takeWhile (is_radix_digit 10) (show_nat port) = show_nat port"
    using show_nat_digits[of _ port] by (subst takeWhile_eq_all_conv) (simp add: is_radix_digit_def)
  show ?thesis
    using p by (simp add: read_port_def read_number_def Let_def t radix_value_show_nat)
qed

lemma trim_show_ipv4_port: "trim (show_ipv4 a b c d @ '':'' @ show_nat port) = show_ipv4 a b c d @ '':'' @ show_nat port"
  by (rule trim_graphic)
    (use show_ipv4_chars[of a b c d] show_nat_digits[of _ port] digit_graphic in
      \<open>fastforce simp: ipv4_char_def byte_of_def\<close>)

lemma parse_socket_show_v4:
  assumes "sa_ip addr = IpV4 a b c d" and "sa_port addr \<le> u16_max"
  shows "parse_socket_addr (trim (show_socket_addr addr)) = Inr addr"
proof -
  let ?rest = "'':'' @ show_nat (sa_port addr)"
  have "\<not> is_ascii_digit (hd ?rest)" by (simp add: is_ascii_digit_def byte_of_def)
  then have "read_ipv4_addr (show_ipv4 a b c d @ ?rest) = Some ((a, b, c, d), ?rest)"
    by (intro read_ipv4_show) simp
  then show ?thesis
    using assms(1) read_port_show[OF assms(2)]
    by (simp add: show_socket_addr_def trim_show_ipv4_port[simplified] parse_socket_addr_def read_socket_v4_def)
qed

lemma parse_socket_port: "parse_socket_addr s = Inr addr \<Longrightarrow> sa_port addr \<le> u16_max"
proof -
  have "read_port s = Some (p, r) \<Longrightarrow> p \<le> u16_max" for s p r
    by (auto simp: read_port_def read_number_def Let_def bind_eq_Some_conv split: if_splits)
  then show "parse_socket_addr s = Inr addr \<Longrightarrow> sa_port addr \<le> u16_max"
    by (fastforce simp: parse_socket_addr_def read_socket_v4_def read_socket_v6_def bind_eq_Some_conv
        split: option.splits list.splits prod.splits)
qed

text \<open>Texts the editor reads back as they are: without the quotes around a whole text it takes away.\<close>

definition unquoted :: "string \<Rightarrow> bool" where
  "unquoted s \<longleftrightarrow> normalize_path s = s"

lemma optional_string_kept:
  "v = optional_string s \<Longrightarrow> unquoted v \<Longrightarrow> optional_string (trim v) = v"
proof -
  assume v: "v = optional_string s" "unquoted v"
  have low: "to_ascii_lowercase ''null'' = ''null''" by code_simp
  have "v \<noteq> [] \<Longrightarrow> \<not> eq_ignore_ascii_case v ''null''"
    using v(1) by (auto simp: optional_string_def Let_def split: if_splits)
  then show ?thesis
    using v(2) by (cases v) (auto simp: optional_string_def unquoted_def)
qed

lemma optional_value_kept:
  assumes "optional_value s = Some v" and "unquoted v"
  shows "optional_value (trim v) = Some v"
proof -
  have v: "v = optional_string s" "to_ascii_lowercase v \<notin> {[], ''off'', ''none''}"
    using assms(1) by (auto simp: optional_value_def Let_def split: if_splits)
  from optional_string_kept[OF v(1) assms(2)] v(2) show ?thesis by (simp add: optional_value_def)
qed

lemma optional_value_none [simp]: "optional_value [] = None" "optional_value (trim ''off'') = None"
  by code_simp+

lemma trim_required: "required (trim raw) name = Inr v \<Longrightarrow> trim v = v \<and> v \<noteq> []"
  by (auto simp: required_def split: if_splits)

lemmas setting_read = with_value_def and_then_Inr_iff positive_Inr on_probe_def on_sharing_def on_proxy_def

text \<open>The settings with quotation marks around them, and those whose text is parsed into another type.\<close>

lemma quoted_setting_kept:
  assumes "apply_setting generated config key raw = Inr config'" and "key \<in> {EmergencyConfigKey, SingBoxPathKey, DownloadUrlKey}"
    and "unquoted (setting_value config' key)"
  shows "apply_setting generated' config' key (setting_value config' key) = Inr config'"
proof -
  note shown = apply_setting_def setting_value_def Let_def
  show ?thesis
  proof (cases key)
    case EmergencyConfigKey
    then have c: "config' = config\<lparr>ac_emergency_config := optional_value (trim raw)\<rparr>"
      using assms(1) by (simp add: shown)
    then show ?thesis
      using EmergencyConfigKey assms(3) optional_value_kept[of "trim raw"]
      by (cases "optional_value (trim raw)") (simp_all add: shown)
  next
    case SingBoxPathKey
    then have "config' = on_probe config
        (\<lambda>p. p\<lparr>pc_sing_box_path := optional_string (trim raw), pc_sing_box_path_auto := False\<rparr>)"
      using assms(1) by (simp add: shown)
    then show ?thesis
      using SingBoxPathKey assms(3) optional_string_kept[OF refl, of "trim raw"] by (simp add: shown on_probe_def)
  next
    case DownloadUrlKey
    then have c: "config' = on_probe config (pc_download_url_update (\<lambda>_. optional_value (trim raw)))"
      using assms(1) by (simp add: shown)
    then show ?thesis
      using DownloadUrlKey assms(3) optional_value_kept[of "trim raw"]
      by (cases "optional_value (trim raw)") (simp_all add: shown on_probe_def)
  qed (use assms(2) in simp_all)
qed

lemma parsed_setting_kept:
  assumes "apply_setting generated config key raw = Inr config'"
    and "key \<in> {ProbeModeKey, ProbeBatchSizeKey, ProbeProcessConcurrencyKey, TestUrlKey, ProxyHealthCheckUrlKey, AcceptedStatusesKey}"
  shows "apply_setting generated' config' key (setting_value config' key) = Inr config'"
proof -
  note shown = apply_setting_def setting_value_def Let_def
  show ?thesis
  proof (cases key)
    case ProbeModeKey
    then obtain m where "config' = on_probe config (pc_mode_update (\<lambda>_. m))"
      using assms(1) by (auto simp: shown setting_read)
    moreover have "probe_mode_value (trim ''active'') = Inr Active" "probe_mode_value (trim ''tcp'') = Inr Tcp"
      by code_simp+
    ultimately show ?thesis using ProbeModeKey by (cases m) (simp_all add: shown setting_read)
  next
    case ProbeBatchSizeKey
    then obtain v where "optional_positive (trim raw) (label key) = Inr v"
      "config' = on_probe config (pc_batch_size_update (\<lambda>_. v))"
      using assms(1) by (auto simp: shown setting_read)
    then show ?thesis
      using ProbeBatchSizeKey optional_positive_Some[of "trim raw" "label key"]
      by (cases v) (simp_all add: shown setting_read)
  next
    case ProbeProcessConcurrencyKey
    then obtain v where "optional_positive (trim raw) (label key) = Inr v"
      "config' = on_probe config (pc_process_concurrency_update (\<lambda>_. v))"
      using assms(1) by (auto simp: shown setting_read)
    then show ?thesis
      using ProbeProcessConcurrencyKey optional_positive_Some[of "trim raw" "label key"]
      by (cases v) (simp_all add: shown setting_read)
  next
    case TestUrlKey
    then obtain v where v: "required (trim raw) (label key) = Inr v" "config' = on_probe config (pc_test_url_update (\<lambda>_. v))"
      using assms(1) by (auto simp: shown setting_read)
    from trim_required[OF v(1)] v(2) TestUrlKey show ?thesis by (simp add: shown setting_read required_def)
  next
    case ProxyHealthCheckUrlKey
    then obtain v where v: "required (trim raw) (label key) = Inr v" "config' = on_proxy config (xc_health_check_url_update (\<lambda>_. v))"
      using assms(1) by (auto simp: shown setting_read)
    from trim_required[OF v(1)] v(2) ProxyHealthCheckUrlKey show ?thesis by (simp add: shown setting_read required_def)
  next
    case AcceptedStatusesKey
    then obtain v where "statuses (trim raw) = Inr v" "config' = on_probe config (pc_accepted_statuses_update (\<lambda>_. v))"
      using assms(1) by (auto simp: shown setting_read)
    with statuses_Inr statuses_shown[of v] AcceptedStatusesKey show ?thesis by (auto simp: shown setting_read)
  qed (use assms(2) in simp_all)
qed



subsection \<open>Edits and validation\<close>

text \<open>What one setting cannot know: settings that are only wrong together.\<close>

definition settings_clash :: "app_config \<Rightarrow> bool" where
  "settings_clash c \<longleftrightarrow>
     sc_require_token (ac_sharing c) \<and> sc_token (ac_sharing c) = []
     \<or> xc_enabled (ac_proxy c) \<and> (xc_port (ac_proxy c) = 0 \<or> xc_port (ac_proxy c) = sa_port (ac_bind c)
          \<or> xc_health_check_interval_seconds (ac_proxy c) = 0)
     \<or> pc_mode (ac_probe c) = Active \<and> (trim (pc_test_url (ac_probe c)) = [] \<or> pc_accepted_statuses (ac_probe c) = [])"

definition limits_ok :: "app_config \<Rightarrow> bool" where
  "limits_ok c \<longleftrightarrow> 0 < ac_top_n c \<and> 0 < ac_fetch_concurrency c \<and> 0 < ac_max_subscription_bytes c
     \<and> 0 < ac_clean_offlines_after_days c
     \<and> 0 < pc_concurrency (ac_probe c) \<and> pc_batch_size (ac_probe c) \<noteq> Some 0 \<and> pc_process_concurrency (ac_probe c) \<noteq> Some 0
     \<and> 0 < pc_connect_timeout_ms (ac_probe c) \<and> 0 < pc_active_timeout_ms (ac_probe c) \<and> 0 < pc_startup_timeout_ms (ac_probe c)
     \<and> (\<forall>s\<in>set (pc_accepted_statuses (ac_probe c)). 100 \<le> s \<and> s \<le> 599) \<and> 0 < pc_download_bytes_limit (ac_probe c)
     \<and> (\<forall>s\<in>set (ac_subscriptions c). trim (ss_name s) \<noteq> [] \<and> trim (ss_url s) \<noteq> [])"

lemma config_ok_settings: "config_ok c \<longleftrightarrow> \<not> settings_clash c \<and> limits_ok c"
  unfolding config_ok_def probe_limits_ok_def settings_clash_def limits_ok_def
  by (cases "pc_mode (ac_probe c)"; cases "xc_enabled (ac_proxy c)"; cases "sc_require_token (ac_sharing c)") auto

lemma edits_keep_limits:
  assumes "apply_setting generated config key raw = Inr config'" and "limits_ok config"
  shows "limits_ok config'"
proof (cases key)
  case ProbeBatchSizeKey
  then obtain v where "optional_positive (trim raw) (label key) = Inr v"
    "config' = on_probe config (pc_batch_size_update (\<lambda>_. v))"
    using assms(1) by (auto simp: apply_setting_def setting_read Let_def)
  then show ?thesis
    using assms(2) optional_positive_Some[of "trim raw" "label key"] by (auto simp: limits_ok_def on_probe_def)
next
  case ProbeProcessConcurrencyKey
  then obtain v where "optional_positive (trim raw) (label key) = Inr v"
    "config' = on_probe config (pc_process_concurrency_update (\<lambda>_. v))"
    using assms(1) by (auto simp: apply_setting_def setting_read Let_def)
  then show ?thesis
    using assms(2) optional_positive_Some[of "trim raw" "label key"] by (auto simp: limits_ok_def on_probe_def)
next
  case AcceptedStatusesKey
  then obtain v where "statuses (trim raw) = Inr v" "config' = on_probe config (pc_accepted_statuses_update (\<lambda>_. v))"
    using assms(1) by (auto simp: apply_setting_def setting_read Let_def)
  then show ?thesis using assms(2) statuses_Inr[of "trim raw" v] by (simp add: limits_ok_def on_probe_def)
qed (use assms in \<open>auto simp: apply_setting_def setting_read Let_def, simp_all add: limits_ok_def\<close>)

definition clash_fields ::
  "app_config \<Rightarrow> socket_addr \<times> sharing_config \<times> proxy_config \<times> probe_mode \<times> string \<times> nat list" where
  "clash_fields c = (ac_bind c, ac_sharing c, (ac_proxy c)\<lparr>xc_discoverable := False, xc_health_check_url := []\<rparr>,
     pc_mode (ac_probe c), pc_test_url (ac_probe c), pc_accepted_statuses (ac_probe c))"

lemma clash_fields_clash: "clash_fields c = clash_fields c' \<Longrightarrow> settings_clash c = settings_clash c'"
  unfolding clash_fields_def settings_clash_def
  by (cases "ac_proxy c"; cases "ac_proxy c'") simp

lemma clash_kept:
  assumes "key \<notin> {TokenRequiredKey, TokenKey, ProxyEnabledKey, ProxyPortKey, ProxyHealthCheckIntervalKey, BindKey,
               ProbeModeKey, TestUrlKey, AcceptedStatusesKey}"
    and "apply_setting generated config key raw = Inr config'"
  shows "settings_clash config' = settings_clash config"
proof (rule clash_fields_clash)
  show "clash_fields config' = clash_fields config"
    using assms by (cases key) (auto simp: clash_fields_def apply_setting_def setting_read Let_def)
qed



text \<open>Requiring a token while there is none is accepted, and the file that results is refused.\<close>

lemma editor_accepts_clash:
  "\<exists>c. apply_setting ''tok'' app_config_default TokenRequiredKey ''yes'' = Inr c \<and> isl (validate ''tok'' c)"
proof -
  let ?r = "apply_setting ''tok'' app_config_default TokenRequiredKey ''yes''"
  have "\<not> isl ?r" "isl (validate ''tok'' (projr ?r))" by code_simp+
  then show ?thesis using not_isl_Inr by fastforce
qed

end
