(* ===== verification/YamlEdit.thy ===== *)
theory YamlEdit
  imports ConfigEditor
begin

text \<open>
  Saving the configuration (\<open>src/tui/util.rs\<close>): a YAML file is not printed anew but edited line by
  line, so that comments and order survive; a JSON file is printed.  The serde readers and
  printers and the file are arguments.
\<close>

subsection \<open>Lines\<close>

record yaml_document =
  yd_lines :: "string list"
  yd_newline :: string
  yd_had_trailing_newline :: bool

definition yaml_document_new :: "string \<Rightarrow> yaml_document" where
  "yaml_document_new content = \<lparr>
     yd_lines = str_lines content,
     yd_newline = (if contains_str content [CHR 13, CHR 10] then [CHR 13, CHR 10] else [CHR 10]),
     yd_had_trailing_newline = ends_with content [CHR 10] \<rparr>"

definition yd_finish :: "yaml_document \<Rightarrow> string" where
  "yd_finish d =
     (let content = join_str (yd_newline d) (yd_lines d)
      in if yd_had_trailing_newline d \<and> content \<noteq> [] then content @ yd_newline d else content)"

definition key_text :: "string \<Rightarrow> bool" where
  "key_text key \<longleftrightarrow> key \<noteq> [] \<and> list_all (\<lambda>c. is_ascii_digit c \<or> is_ascii_alphabetic c \<or> c = CHR ''_'') key"

definition leading_whitespace_len :: "string \<Rightarrow> nat" where
  "leading_whitespace_len line = length line - length (trim_start line)"

definition leading_whitespace :: "string \<Rightarrow> string" where
  "leading_whitespace line = take (leading_whitespace_len line) line"

definition parse_yaml_key :: "string \<Rightarrow> (nat \<times> string) option" where
  "parse_yaml_key line =
     (let trimmed = trim_start line in
      if trimmed = [] \<or> starts_with trimmed ''#'' \<or> starts_with trimmed ''-'' then None
      else case split_once_char trimmed (CHR '':'') of
        None \<Rightarrow> None
      | Some (key, _) \<Rightarrow>
          if key_text (trim key) then Some (length line - length trimmed, trim key) else None)"

definition parse_sequence_item_key :: "string \<Rightarrow> (string \<times> string) option" where
  "parse_sequence_item_key line =
     (case strip_prefix (trim_start line) ''- '' of
        None \<Rightarrow> None
      | Some rest \<Rightarrow> (case split_once_char rest (CHR '':'') of
          None \<Rightarrow> None
        | Some (key, value) \<Rightarrow> if key_text (trim key) then Some (trim key, trim value) else None))"

definition inline_comment :: "string \<Rightarrow> string option" where
  "inline_comment line = map_option (\<lambda>i. drop i line) (find_str line '' #'')"

definition scalar_line_has_empty_value :: "string \<Rightarrow> bool" where
  "scalar_line_has_empty_value line \<longleftrightarrow>
     (case split_once_char line (CHR '':'') of
        None \<Rightarrow> False
      | Some (_, value) \<Rightarrow> trim (case find_str value '' #'' of Some i \<Rightarrow> take i value | None \<Rightarrow> value) = [])"

subsection \<open>Finding keys and sections\<close>

text \<open>
  The first line from \<open>start\<close> to before \<open>end\<close> with the key at the indentation.  The code panics when
  it looks past the last line; callers that may get there check for it.
\<close>

definition is_key_line :: "string list \<Rightarrow> string \<Rightarrow> nat \<Rightarrow> nat \<Rightarrow> bool" where
  "is_key_line ls key indent index \<longleftrightarrow> parse_yaml_key (ls ! index) = Some (indent, key)"

definition find_direct_key :: "string list \<Rightarrow> string \<Rightarrow> nat \<Rightarrow> nat \<Rightarrow> nat \<Rightarrow> nat option" where
  "find_direct_key ls key start stop expected_indent =
     find (is_key_line ls key expected_indent) [start..<min stop (length ls)]"

definition find_top_level_key :: "string list \<Rightarrow> string \<Rightarrow> nat option" where
  "find_top_level_key ls key = find_direct_key ls key 0 (length ls) 0"

definition section_end :: "string list \<Rightarrow> nat \<Rightarrow> nat \<Rightarrow> nat" where
  "section_end ls section_indent start =
     (case find (\<lambda>i. case parse_yaml_key (ls ! i) of Some (indent, _) \<Rightarrow> indent \<le> section_indent | None \<Rightarrow> False)
        [start + 1..<length ls] of Some e \<Rightarrow> e | None \<Rightarrow> length ls)"

definition section_range :: "string list \<Rightarrow> string \<Rightarrow> (nat \<times> nat \<times> nat) option" where
  "section_range ls section =
     (case find_top_level_key ls section of
        None \<Rightarrow> None
      | Some start \<Rightarrow> (case parse_yaml_key (ls ! start) of
          None \<Rightarrow> None
        | Some (section_indent, _) \<Rightarrow> Some (start, section_end ls section_indent start, section_indent)))"

definition is_block_child :: "nat \<Rightarrow> string \<Rightarrow> bool" where
  "is_block_child parent_indent line \<longleftrightarrow>
     (let trimmed = trim_start line; indent = leading_whitespace_len line in
      trimmed \<noteq> [] \<and> \<not> starts_with trimmed ''#''
      \<and> (parent_indent < indent \<or> indent = parent_indent \<and> starts_with trimmed ''- ''))"

definition remove_block_value_lines_after :: "string list \<Rightarrow> nat \<Rightarrow> nat \<Rightarrow> string list" where
  "remove_block_value_lines_after ls index parent_indent =
     take (index + 1) ls @ dropWhile (is_block_child parent_indent) (drop (index + 1) ls)"

definition replace_scalar_line :: "string list \<Rightarrow> nat \<Rightarrow> string \<Rightarrow> string \<Rightarrow> string list" where
  "replace_scalar_line ls index key value =
     (let old_line = ls ! index; indent = leading_whitespace old_line;
          comment = unwrap_or (inline_comment old_line) [];
          ls' = ls[index := indent @ key @ '': '' @ value @ comment]
      in if scalar_line_has_empty_value old_line then remove_block_value_lines_after ls' index (length indent) else ls')"

definition insert_lines :: "string list \<Rightarrow> nat \<Rightarrow> string list \<Rightarrow> string list" where
  "insert_lines ls index new = take index ls @ new @ drop index ls"

definition append_section :: "string list \<Rightarrow> string list \<Rightarrow> string list" where
  "append_section ls replacement =
     (if ls \<noteq> [] \<and> trim (last ls) \<noteq> [] then ls @ [[]] else ls) @ replacement"

definition spaces :: "nat \<Rightarrow> string" where
  "spaces n = replicate n (CHR '' '')"

definition set_top_level_scalar :: "string \<Rightarrow> string \<Rightarrow> string list \<Rightarrow> string list" where
  "set_top_level_scalar key value ls =
     (case find_direct_key ls key 0 (length ls) 0 of
        Some index \<Rightarrow> replace_scalar_line ls index key value
      | None \<Rightarrow>
          let insert_at = (case find_top_level_key ls ''sharing'' of Some i \<Rightarrow> i | None \<Rightarrow>
                (case find_top_level_key ls ''probe'' of Some i \<Rightarrow> i | None \<Rightarrow>
                (case find_top_level_key ls ''subscriptions'' of Some i \<Rightarrow> i | None \<Rightarrow> length ls)))
          in insert_lines ls insert_at [key @ '': '' @ value])"

definition set_nested_scalar :: "string \<Rightarrow> string \<Rightarrow> string \<Rightarrow> string list \<Rightarrow> string list" where
  "set_nested_scalar section key value ls =
     (case section_range ls section of
        Some (start, stop, indent) \<Rightarrow>
          (case find_direct_key ls key (start + 1) stop (indent + 2) of
             Some index \<Rightarrow> replace_scalar_line ls index key value
           | None \<Rightarrow> insert_lines ls stop [spaces (indent + 2) @ key @ '': '' @ value])
      | None \<Rightarrow> append_section ls [section @ '':'', ''  '' @ key @ '': '' @ value])"

definition replace_top_level_section :: "string \<Rightarrow> string list \<Rightarrow> string list \<Rightarrow> string list" where
  "replace_top_level_section section replacement ls =
     (case section_range ls section of
        Some (start, stop, _) \<Rightarrow> take start ls @ replacement @ drop stop ls
      | None \<Rightarrow> append_section ls replacement)"

subsection \<open>Scalars\<close>

text \<open>
  Texts \<open>f64\<close>'s \<open>parse\<close> accepts: a sign, then a word for an infinity or not-a-number, or digits with an
  optional point and exponent.
\<close>

definition strip_sign :: "string \<Rightarrow> string" where
  "strip_sign s = (case s of c # cs \<Rightarrow> if c = CHR ''+'' \<or> c = CHR ''-'' then cs else s | [] \<Rightarrow> [])"

definition decimal_digits :: "string \<Rightarrow> bool" where
  "decimal_digits s \<longleftrightarrow> s \<noteq> [] \<and> list_all is_ascii_digit s"

definition decimal_mantissa :: "string \<Rightarrow> bool" where
  "decimal_mantissa s \<longleftrightarrow>
     (case split_once_char s (CHR ''.'') of
        None \<Rightarrow> decimal_digits s
      | Some (whole, fraction) \<Rightarrow> list_all is_ascii_digit (whole @ fraction) \<and> whole @ fraction \<noteq> [])"

definition parses_as_f64 :: "string \<Rightarrow> bool" where
  "parses_as_f64 s \<longleftrightarrow>
     (let t = to_ascii_lowercase (strip_sign s) in
      t \<in> {''inf'', ''infinity'', ''nan''}
      \<or> (case split_once_char t (CHR ''e'') of
           None \<Rightarrow> decimal_mantissa t
         | Some (m, e) \<Rightarrow> decimal_mantissa m \<and> decimal_digits (strip_sign e)))"

definition YAML_INDICATORS :: string where
  "YAML_INDICATORS = ''-?:,[]{}#&*!|>@`'' @ [CHR 34, CHR 39]"

definition is_plain_yaml_scalar :: "string \<Rightarrow> bool" where
  "is_plain_yaml_scalar value \<longleftrightarrow>
     \<not> (value = [] \<or> value \<noteq> trim value \<or> CHR 10 \<in> set value \<or> contains_str value '' #'')
     \<and> to_ascii_lowercase value \<notin> {''null'', ''true'', ''false'', ''yes'', ''no'', ''on'', ''off''}
     \<and> \<not> parses_as_f64 value \<and> hd value \<notin> set YAML_INDICATORS"

definition double_quotes :: "string \<Rightarrow> string" where
  "double_quotes value = concat (map (\<lambda>c. if c = CHR 39 then [CHR 39, CHR 39] else [c]) value)"

definition yaml_scalar :: "string \<Rightarrow> string" where
  "yaml_scalar raw =
     (let value = trim raw in
      if is_plain_yaml_scalar value then value else [CHR 39] @ double_quotes value @ [CHR 39])"

definition nullable_string :: "string \<Rightarrow> string" where
  "nullable_string raw = (let value = trim raw in if value = [] then ''null'' else yaml_scalar value)"

definition nullable_option :: "string option \<Rightarrow> string" where
  "nullable_option value =
     (case value of Some v \<Rightarrow> if trim v \<noteq> [] then yaml_scalar v else ''null'' | None \<Rightarrow> ''null'')"

definition nullable_number :: "nat option \<Rightarrow> string" where
  "nullable_number value = (case value of Some n \<Rightarrow> show_nat n | None \<Rightarrow> ''null'')"

definition probe_mode_str :: "probe_mode \<Rightarrow> string" where
  "probe_mode_str mode = (case mode of Active \<Rightarrow> ''active'' | Tcp \<Rightarrow> ''tcp'')"

definition format_inline_u16_list :: "nat list \<Rightarrow> string" where
  "format_inline_u16_list values = ''['' @ join_str '', '' (map show_nat values) @ '']''"

subsection \<open>Subscriptions\<close>

definition format_subscription_item :: "subscription_source \<Rightarrow> nat \<Rightarrow> string list" where
  "format_subscription_item source indent =
     [spaces indent @ ''- name: '' @ yaml_scalar (ss_name source),
      spaces (indent + 2) @ ''url: '' @ yaml_scalar (ss_url source),
      spaces (indent + 2) @ ''enabled: '' @ bool_str (ss_enabled source),
      spaces (indent + 2) @ ''priority: '' @ show_nat (ss_priority source)]"

definition format_subscriptions_section :: "subscription_source list \<Rightarrow> string list" where
  "format_subscriptions_section sources =
     (if sources = [] then [''subscriptions: []'']
      else ''subscriptions:'' # concat (map (\<lambda>s. format_subscription_item s 2) sources))"

definition without :: "nat \<Rightarrow> 'a list \<Rightarrow> 'a list" where
  "without index xs = take index xs @ drop (index + 1) xs"

definition removed_subscription_index :: "subscription_source list \<Rightarrow> subscription_source list \<Rightarrow> nat option" where
  "removed_subscription_index previous current =
     (if length previous \<noteq> sat_add usize_max (length current) 1 then None
      else find (\<lambda>index. without index previous = current) [0..<length previous])"

definition inserted_subscription_index :: "subscription_source list \<Rightarrow> subscription_source list \<Rightarrow> nat option" where
  "inserted_subscription_index previous current =
     (if length current \<noteq> sat_add usize_max (length previous) 1 then None
      else find (\<lambda>index. without index current = previous) [0..<length current])"

definition is_item_start :: "string list \<Rightarrow> nat \<Rightarrow> nat \<Rightarrow> bool" where
  "is_item_start ls item_indent index \<longleftrightarrow>
     item_indent \<le> length (ls ! index) \<and> leading_whitespace_len (ls ! index) = item_indent
     \<and> starts_with (drop item_indent (ls ! index)) ''- ''"

text \<open>Each item reaches up to the start of the next, the last one to the end of the section.\<close>

fun item_ranges :: "nat \<Rightarrow> nat \<Rightarrow> nat list \<Rightarrow> (nat \<times> nat \<times> nat) list" where
  "item_ranges stop item_indent [] = []"
| "item_ranges stop item_indent [s] = [(s, stop, item_indent)]"
| "item_ranges stop item_indent (s # s' # ss) = (s, s', item_indent) # item_ranges stop item_indent (s' # ss)"

definition sequence_item_ranges :: "string list \<Rightarrow> string \<Rightarrow> (nat \<times> nat \<times> nat) list option" where
  "sequence_item_ranges ls section =
     (case section_range ls section of
        None \<Rightarrow> None
      | Some (start, stop, section_indent) \<Rightarrow>
          Some (item_ranges stop (section_indent + 2)
                  (filter (is_item_start ls (section_indent + 2)) [start + 1..<stop])))"

text \<open>Whether the value could be set, and the lines; \<^term>\<open>None\<close> is a panic on a line that is not there.\<close>

definition set_sequence_item_scalar ::
  "string list \<Rightarrow> nat \<Rightarrow> nat \<Rightarrow> nat \<Rightarrow> string \<Rightarrow> string \<Rightarrow> (bool \<times> string list) option" where
  "set_sequence_item_scalar ls item_start item_end item_indent key value =
     (if length ls \<le> item_start then None
      else if map_option fst (parse_sequence_item_key (ls ! item_start)) = Some key then
        Some (True, ls[item_start := leading_whitespace (ls ! item_start) @ ''- '' @ key @ '': '' @ value
                                     @ unwrap_or (inline_comment (ls ! item_start)) []])
      else case find_direct_key ls key (item_start + 1) item_end (item_indent + 2) of
        Some index \<Rightarrow> Some (True, replace_scalar_line ls index key value)
      | None \<Rightarrow> if length ls < item_end then None else Some (False, ls))"

text \<open>One field, when it changed; a failure ends the update.\<close>

definition update_item_field ::
  "(nat \<times> nat \<times> nat) \<Rightarrow> bool \<Rightarrow> string \<Rightarrow> string \<Rightarrow> (bool \<times> string list) option \<Rightarrow> (bool \<times> string list) option" where
  "update_item_field place changed key value state =
     (case state of
        None \<Rightarrow> None
      | Some (ok, ls) \<Rightarrow>
          if \<not> ok \<or> \<not> changed then Some (ok, ls)
          else (case place of (item_start, item_end, item_indent) \<Rightarrow>
            set_sequence_item_scalar ls item_start item_end item_indent key value))"

definition update_item ::
  "(nat \<times> nat \<times> nat) \<Rightarrow> subscription_source \<Rightarrow> subscription_source \<Rightarrow> (bool \<times> string list) option
     \<Rightarrow> (bool \<times> string list) option" where
  "update_item place before after state =
     update_item_field place (ss_priority before \<noteq> ss_priority after) ''priority'' (show_nat (ss_priority after))
    (update_item_field place (ss_enabled before \<noteq> ss_enabled after) ''enabled'' (bool_str (ss_enabled after))
    (update_item_field place (ss_url before \<noteq> ss_url after) ''url'' (yaml_scalar (ss_url after))
    (update_item_field place (ss_name before \<noteq> ss_name after) ''name'' (yaml_scalar (ss_name after)) state)))"

definition update_subscription_items_in_place ::
  "(nat \<times> nat \<times> nat) list \<Rightarrow> subscription_source list \<Rightarrow> subscription_source list \<Rightarrow> string list
     \<Rightarrow> (bool \<times> string list) option" where
  "update_subscription_items_in_place ranges previous current ls =
     fold (\<lambda>(place, before, after) state. update_item place before after state)
       (zip ranges (zip previous current)) (Some (True, ls))"

definition update_subscriptions ::
  "subscription_source list \<Rightarrow> subscription_source list \<Rightarrow> string list \<Rightarrow> (bool \<times> string list) option" where
  "update_subscriptions previous current ls =
     (case sequence_item_ranges ls ''subscriptions'' of
        None \<Rightarrow> Some (current = [], ls)
      | Some ranges \<Rightarrow>
          if length ranges \<noteq> length previous then Some (False, ls)
          else if length previous = length current then update_subscription_items_in_place ranges previous current ls
          else case removed_subscription_index previous current of
            Some index \<Rightarrow> (case ranges ! index of (start, stop, _) \<Rightarrow> Some (True, take start ls @ drop stop ls))
          | None \<Rightarrow> (case inserted_subscription_index previous current of
              Some index \<Rightarrow>
                let section = section_range ls ''subscriptions'';
                    insert_at = (if index < length ranges then fst (ranges ! index)
                                 else if ranges \<noteq> [] then fst (snd (last ranges))
                                 else case section of Some (_, e, _) \<Rightarrow> e | None \<Rightarrow> length ls);
                    indent = (case ranges of (_, _, i) # _ \<Rightarrow> i
                              | [] \<Rightarrow> (case section of Some (_, _, i) \<Rightarrow> i + 2 | None \<Rightarrow> 2))
                in Some (True, insert_lines ls insert_at (format_subscription_item (current ! index) indent))
            | None \<Rightarrow> Some (False, ls)))"

subsection \<open>Saving\<close>

definition persistable_config :: "app_config \<Rightarrow> app_config" where
  "persistable_config config =
     (if pc_sing_box_path_auto (ac_probe config)
      then on_probe config (\<lambda>p. p\<lparr>pc_sing_box_path := [], pc_sing_box_path_auto := False\<rparr>) else config)"

definition set_if :: "bool \<Rightarrow> (string list \<Rightarrow> string list) \<Rightarrow> string list \<Rightarrow> string list" where
  "set_if changed f ls = (if changed then f ls else ls)"

definition update_top_level_scalars :: "app_config \<Rightarrow> app_config \<Rightarrow> string list \<Rightarrow> string list" where
  "update_top_level_scalars previous config =
     set_if (ac_emergency_config previous \<noteq> ac_emergency_config config)
       (set_top_level_scalar ''emergency_config'' (nullable_option (ac_emergency_config config)))
   \<circ> set_if (ac_use_cache_only previous \<noteq> ac_use_cache_only config)
       (set_top_level_scalar ''use_cache_only'' (bool_str (ac_use_cache_only config)))
   \<circ> set_if (ac_max_subscription_bytes previous \<noteq> ac_max_subscription_bytes config)
       (set_top_level_scalar ''max_subscription_bytes'' (show_nat (ac_max_subscription_bytes config)))
   \<circ> set_if (ac_fetch_concurrency previous \<noteq> ac_fetch_concurrency config)
       (set_top_level_scalar ''fetch_concurrency'' (show_nat (ac_fetch_concurrency config)))
   \<circ> set_if (ac_fetch_timeout_ms previous \<noteq> ac_fetch_timeout_ms config)
       (set_top_level_scalar ''fetch_timeout_ms'' (show_nat (ac_fetch_timeout_ms config)))
   \<circ> set_if (ac_scan_all_configs previous \<noteq> ac_scan_all_configs config)
       (set_top_level_scalar ''scan_all_configs'' (bool_str (ac_scan_all_configs config)))
   \<circ> set_if (ac_return_configs_asap previous \<noteq> ac_return_configs_asap config)
       (set_top_level_scalar ''return_configs_asap'' (bool_str (ac_return_configs_asap config)))
   \<circ> set_if (ac_prioritize_stability previous \<noteq> ac_prioritize_stability config)
       (set_top_level_scalar ''prioritize_stability'' (bool_str (ac_prioritize_stability config)))
   \<circ> set_if (ac_encoded_subscription previous \<noteq> ac_encoded_subscription config)
       (set_top_level_scalar ''encoded_subscription'' (bool_str (ac_encoded_subscription config)))
   \<circ> set_if (ac_refresh_seconds previous \<noteq> ac_refresh_seconds config)
       (set_top_level_scalar ''refresh_seconds'' (show_nat (ac_refresh_seconds config)))
   \<circ> set_if (ac_top_n previous \<noteq> ac_top_n config) (set_top_level_scalar ''top_n'' (show_nat (ac_top_n config)))
   \<circ> set_if (ac_bind previous \<noteq> ac_bind config) (set_top_level_scalar ''bind'' (show_socket_addr (ac_bind config)))"

definition update_sharing_section :: "app_config \<Rightarrow> app_config \<Rightarrow> string list \<Rightarrow> string list" where
  "update_sharing_section previous config =
     (let p = ac_sharing previous; c = ac_sharing config in
      set_if (sc_token p \<noteq> sc_token c) (set_nested_scalar ''sharing'' ''token'' (nullable_string (sc_token c)))
    \<circ> set_if (sc_require_token p \<noteq> sc_require_token c)
        (set_nested_scalar ''sharing'' ''require_token'' (bool_str (sc_require_token c)))
    \<circ> set_if (sc_enabled p \<noteq> sc_enabled c) (set_nested_scalar ''sharing'' ''enabled'' (bool_str (sc_enabled c))))"

definition update_proxy_section :: "app_config \<Rightarrow> app_config \<Rightarrow> string list \<Rightarrow> string list" where
  "update_proxy_section previous config =
     (let p = ac_proxy previous; c = ac_proxy config in
      set_if (xc_health_check_interval_seconds p \<noteq> xc_health_check_interval_seconds c)
        (set_nested_scalar ''proxy'' ''health_check_interval_seconds'' (show_nat (xc_health_check_interval_seconds c)))
    \<circ> set_if (xc_health_check_url p \<noteq> xc_health_check_url c)
        (set_nested_scalar ''proxy'' ''health_check_url'' (xc_health_check_url c))
    \<circ> set_if (xc_discoverable p \<noteq> xc_discoverable c)
        (set_nested_scalar ''proxy'' ''discoverable'' (bool_str (xc_discoverable c)))
    \<circ> set_if (xc_port p \<noteq> xc_port c) (set_nested_scalar ''proxy'' ''port'' (show_nat (xc_port c)))
    \<circ> set_if (xc_enabled p \<noteq> xc_enabled c) (set_nested_scalar ''proxy'' ''enabled'' (bool_str (xc_enabled c))))"

definition update_probe_section :: "app_config \<Rightarrow> app_config \<Rightarrow> string list \<Rightarrow> string list" where
  "update_probe_section previous config =
     (let p = ac_probe previous; c = ac_probe config; set_probe = set_nested_scalar ''probe'' in
      set_if (pc_download_bytes_limit p \<noteq> pc_download_bytes_limit c)
        (set_probe ''download_bytes_limit'' (show_nat (pc_download_bytes_limit c)))
    \<circ> set_if (pc_download_url p \<noteq> pc_download_url c) (set_probe ''download_url'' (nullable_option (pc_download_url c)))
    \<circ> set_if (pc_accepted_statuses p \<noteq> pc_accepted_statuses c)
        (set_probe ''accepted_statuses'' (format_inline_u16_list (pc_accepted_statuses c)))
    \<circ> set_if (pc_test_url p \<noteq> pc_test_url c) (set_probe ''test_url'' (yaml_scalar (pc_test_url c)))
    \<circ> set_if (pc_process_concurrency p \<noteq> pc_process_concurrency c)
        (set_probe ''process_concurrency'' (nullable_number (pc_process_concurrency c)))
    \<circ> set_if (pc_batch_size p \<noteq> pc_batch_size c) (set_probe ''batch_size'' (nullable_number (pc_batch_size c)))
    \<circ> set_if (pc_concurrency p \<noteq> pc_concurrency c) (set_probe ''concurrency'' (show_nat (pc_concurrency c)))
    \<circ> set_if (pc_startup_timeout_ms p \<noteq> pc_startup_timeout_ms c)
        (set_probe ''startup_timeout_ms'' (show_nat (pc_startup_timeout_ms c)))
    \<circ> set_if (pc_active_timeout_ms p \<noteq> pc_active_timeout_ms c)
        (set_probe ''active_timeout_ms'' (show_nat (pc_active_timeout_ms c)))
    \<circ> set_if (pc_connect_timeout_ms p \<noteq> pc_connect_timeout_ms c)
        (set_probe ''connect_timeout_ms'' (show_nat (pc_connect_timeout_ms c)))
    \<circ> set_if (pc_sing_box_path p \<noteq> pc_sing_box_path c)
        (set_probe ''sing_box_path'' (nullable_string (pc_sing_box_path c)))
    \<circ> set_if (pc_mode p \<noteq> pc_mode c) (set_probe ''mode'' (probe_mode_str (pc_mode c))))"

definition update_scalars :: "app_config \<Rightarrow> app_config \<Rightarrow> string list \<Rightarrow> string list" where
  "update_scalars previous config =
     update_probe_section previous config \<circ> update_proxy_section previous config
     \<circ> update_sharing_section previous config \<circ> update_top_level_scalars previous config"

definition update_lines :: "app_config \<Rightarrow> app_config \<Rightarrow> string list \<Rightarrow> string list option" where
  "update_lines previous config ls0 =
     (let ls = update_scalars previous config ls0 in
      if ac_subscriptions previous = ac_subscriptions config then Some ls
      else case update_subscriptions (ac_subscriptions previous) (ac_subscriptions config) ls of
        None \<Rightarrow> None
      | Some (True, ls') \<Rightarrow> Some ls'
      | Some (False, ls') \<Rightarrow>
          Some (replace_top_level_section ''subscriptions'' (format_subscriptions_section (ac_subscriptions config)) ls'))"

text \<open>
  What a save meets: the file's text, what \<open>AppConfig::load\<close> makes of it, the JSON printer, and whether
  the file can be written.  The result is the text written, \<^term>\<open>None\<close> a panic.
\<close>

record save_env =
  sv_path :: path
  sv_read :: "string result"
  sv_load :: "string \<Rightarrow> app_config result"
  sv_json :: "app_config \<Rightarrow> string result"
  sv_write :: "unit result"

definition write_text :: "save_env \<Rightarrow> string \<Rightarrow> string result" where
  "write_text env content =
     and_then (map_err (\<lambda>_. ''unable to write config to '' @ path_display (sv_path env)) (sv_write env)) (\<lambda>_. Inr content)"

definition save_json_config :: "save_env \<Rightarrow> app_config \<Rightarrow> string result" where
  "save_json_config env config =
     and_then (map_err (\<lambda>_. ''unable to serialize config'') (sv_json env (persistable_config config)))
       (\<lambda>content. write_text env (content @ [CHR 10]))"

definition save_yaml_config :: "save_env \<Rightarrow> app_config \<Rightarrow> string result option" where
  "save_yaml_config env config0 =
     (let config = persistable_config config0 in
      case sv_read env of
        Inl _ \<Rightarrow> Some (Inl (''unable to read existing config '' @ path_display (sv_path env)))
      | Inr original \<Rightarrow> (case sv_load env original of
          Inl _ \<Rightarrow> Some (Inl (''unable to parse existing config '' @ path_display (sv_path env)))
        | Inr previous \<Rightarrow>
            let document = yaml_document_new original in
            map_option (\<lambda>ls. write_text env (yd_finish (document\<lparr>yd_lines := ls\<rparr>)))
              (update_lines previous config (yd_lines document))))"

definition save_config :: "save_env \<Rightarrow> app_config \<Rightarrow> string result option" where
  "save_config env config =
     (if to_ascii_lowercase (unwrap_or (path_extension (sv_path env)) []) = ''json''
      then Some (save_json_config env config) else save_yaml_config env config)"

subsection \<open>A file that is not changed\<close>

lemma split_join_newline: "join_str [CHR 10] (split_char s (\<lambda>c. c = CHR 10)) = s"
proof (induction s)
  case (Cons c s)
  obtain w ws where w: "split_char s (\<lambda>c. c = CHR 10) = w # ws" by (cases "split_char s (\<lambda>c. c = CHR 10)") auto
  have push: "join_str sep ((x # w) # ws) = x # join_str sep (w # ws)" for sep x and w :: string and ws
    by (cases ws) auto
  show ?case using Cons w push by simp
qed simp

lemma strip_cr_no_cr: "CHR 13 \<notin> set s \<Longrightarrow> strip_cr s = s"
  using last_in_set by (fastforce simp: strip_cr_def)

lemma split_char_set: "w \<in> set (split_char s d) \<Longrightarrow> set w \<subseteq> set s"
proof (induction s arbitrary: w)
  case (Cons c s)
  obtain u us where "split_char s d = u # us" by (cases "split_char s d") auto
  then have "set u \<subseteq> set s" "\<And>w. w \<in> set us \<Longrightarrow> set w \<subseteq> set s" using Cons.IH by auto
  with Cons.prems \<open>split_char s d = u # us\<close> show ?case by (cases "d c") auto
qed simp

lemma str_lines_no_cr:
  assumes "CHR 13 \<notin> set s"
  shows "str_lines s = (let parts = split_char s (\<lambda>c. c = CHR 10)
     in if last parts = [] then butlast parts else parts)"
proof -
  have "strip_cr w = w" if "w \<in> set (split_char s (\<lambda>c. c = CHR 10))" for w
    using split_char_set[OF that] assms by (blast intro: strip_cr_no_cr)
  then have "map strip_cr (butlast (split_char s (\<lambda>c. c = CHR 10))) = butlast (split_char s (\<lambda>c. c = CHR 10))"
    by (intro map_idI) (blast dest: in_set_butlastD)
  then show ?thesis by (simp add: str_lines_def Let_def)
qed

lemma last_split_newline: "last (split_char s (\<lambda>c. c = CHR 10)) = [] \<longleftrightarrow> s = [] \<or> last s = CHR 10"
proof (induction s)
  case (Cons c s)
  obtain w ws where w: "split_char s (\<lambda>c. c = CHR 10) = w # ws" by (cases "split_char s (\<lambda>c. c = CHR 10)") auto
  have "ws = [] \<Longrightarrow> w = s" using split_join_newline[of s] w by simp
  then show ?case using Cons w by (cases "c = CHR 10"; cases "s = []"; cases "ws = []") auto
qed simp

lemma ends_with_char: "ends_with s [c] \<longleftrightarrow> s \<noteq> [] \<and> last s = c"
  by (cases s rule: rev_cases) (auto simp: ends_with_def starts_with_def)

lemma contains_needs_char: "contains_str s p \<Longrightarrow> set p \<subseteq> set s"
proof (induction s)
  case (Cons c s)
  show ?case
  proof (cases "starts_with (c # s) p")
    case True
    then show ?thesis by (metis starts_with_iff set_append Un_upper1)
  next
    case False
    then have "contains_str s p" using Cons.prems by (simp add: contains_str_def)
    with Cons.IH show ?thesis by auto
  qed
qed (auto simp: contains_str_def split: if_splits)

lemma join_snoc_empty: "xs \<noteq> [] \<Longrightarrow> join_str sep (xs @ [[]]) = join_str sep xs @ sep"
  by (induction sep xs rule: join_str.induct) auto

lemma finish_new:
  assumes "CHR 13 \<notin> set s" and "s \<noteq> [CHR 10]"
  shows "yd_finish (yaml_document_new s) = s"
proof -
  let ?parts = "split_char s (\<lambda>c. c = CHR 10)"
  have nl: "yd_newline (yaml_document_new s) = [CHR 10]"
    using assms(1) contains_needs_char[of s "[CHR 13, CHR 10]"] by (auto simp: yaml_document_new_def)
  have joined: "join_str [CHR 10] ?parts = s" by (rule split_join_newline)
  show ?thesis
  proof (cases "s \<noteq> [] \<and> last s = CHR 10")
    case True
    then have l: "last ?parts = []" using last_split_newline by blast
    have "s = join_str [CHR 10] (butlast ?parts @ [[]])"
      using joined l append_butlast_last_id[of ?parts] by simp
    also have "\<dots> = (if butlast ?parts = [] then [] else join_str [CHR 10] (butlast ?parts) @ [CHR 10])"
      by (simp add: join_snoc_empty)
    finally have s: "s = join_str [CHR 10] (butlast ?parts) @ [CHR 10]" using True by (simp split: if_splits)
    moreover from s assms(2) have "join_str [CHR 10] (butlast ?parts) \<noteq> []" by auto
    ultimately show ?thesis
      using l True nl by (simp add: yd_finish_def yaml_document_new_def str_lines_no_cr[OF assms(1)] ends_with_char Let_def)
  next
    case False
    then have "last ?parts \<noteq> [] \<or> s = []" using last_split_newline by blast
    then show ?thesis
      using joined False nl
      by (auto simp: yd_finish_def yaml_document_new_def str_lines_no_cr[OF assms(1)] ends_with_char Let_def)
  qed
qed

subsection \<open>Reading a setting's line\<close>

text \<open>White space that \<open>trim_start\<close> takes away whatever follows.\<close>

definition blank :: "string \<Rightarrow> bool" where
  "blank p \<longleftrightarrow> (\<forall>r. trim_start (p @ r) = trim_start r)"

lemma ws_prefix_front:
  assumes "ws_prefix s = n" and "n \<noteq> 0"
  shows "ws_prefix (take n s @ r) = n"
proof -
  obtain a s' where s: "s = a # s'" using assms by (cases s) auto
  show ?thesis
  proof (cases "ws1 (byte_of a)")
    case True
    then have "n = 1" using assms(1) s by (cases s rule: ws_prefix.cases) auto
    then show ?thesis using True s by (cases r; cases "tl r") auto
  next
    case one: False
    then obtain b s'' where s': "s' = b # s''" using assms s by (cases s') auto
    show ?thesis
    proof (cases "ws2 (byte_of a) (byte_of b)")
      case True
      then have "n = 2" using assms(1) s s' one by (cases s'') auto
      then show ?thesis using True one s s' by (cases r) auto
    next
      case False
      then obtain c t where "s'' = c # t" using assms s s' one by (cases s'') auto
      then show ?thesis using assms s s' one False by (auto split: if_splits)
    qed
  qed
qed

lemma leading_blank: "blank (take (length s - length (trim_start s)) s)"
proof (induction "length s" arbitrary: s rule: less_induct)
  case less
  show ?case
  proof (cases "ws_prefix s = 0 \<or> s = []")
    case True
    then have "trim_start s = s" by (auto simp: trim_start_def drop_ws_fixed)
    then show ?thesis by (simp add: blank_def)
  next
    case False
    let ?n = "ws_prefix s" and ?s = "drop (ws_prefix s) s"
    have step: "trim_start t = trim_start (drop (ws_prefix t) t)" if "ws_prefix t \<noteq> 0" for t
      using that by (simp add: trim_start_def drop_ws.simps[of ws_prefix t])
    have le: "length (trim_start t) \<le> length t" for t
      using drop_ws_suffix[of t ws_prefix] by (metis le_add2 length_append trim_start_def)
    have n: "?n \<le> length s" using False by (cases s rule: ws_prefix.cases) (auto split: if_splits)
    have "take (length s - length (trim_start s)) s
        = take ?n s @ take (length ?s - length (trim_start ?s)) ?s"
      using n step[of s] False le[of ?s] take_add[of ?n "length ?s - length (trim_start ?s)" s] by simp
    moreover have "blank (take (length ?s - length (trim_start ?s)) ?s)"
      using False n by (intro less) auto
    moreover have "trim_start (take ?n s @ r) = trim_start r" for r
      using step[of "take ?n s @ r"] ws_prefix_front[of s ?n r] False n by simp
    ultimately show ?thesis by (simp add: blank_def)
  qed
qed

lemma blank_leading [simp]: "blank (leading_whitespace line)"
  using leading_blank by (simp add: leading_whitespace_def leading_whitespace_len_def)

lemma blank_spaces [simp]: "blank (spaces n)"
proof (induction n)
  case (Suc n)
  have "ws_prefix (CHR '' '' # s) = 1" for s by (cases s; cases "tl s") (auto simp: ws1_def byte_of_def)
  then have "trim_start (CHR '' '' # s) = trim_start s" for s
    by (simp add: trim_start_def drop_ws.simps[of ws_prefix "CHR '' '' # s"])
  with Suc show ?case by (simp add: blank_def spaces_def)
qed (simp add: blank_def spaces_def)

lemma length_leading [simp]: "length (leading_whitespace line) = leading_whitespace_len line"
  by (simp add: leading_whitespace_def leading_whitespace_len_def)

lemma key_char_facts:
  assumes "is_ascii_digit c \<or> is_ascii_alphabetic c \<or> c = CHR ''_''"
  shows "33 \<le> byte_of c \<and> byte_of c < 128" "c \<noteq> CHR '':''" "c \<noteq> CHR ''#''" "c \<noteq> CHR ''-''"
  using assms by (auto simp: is_ascii_digit_def is_ascii_alphabetic_def byte_of_def)

lemma parse_key_line:
  assumes "blank p" and "key_text key"
  shows "parse_yaml_key (p @ key @ '':'' @ rest) = Some (length p, key)"
proof -
  have key: "key \<noteq> []" "\<forall>c\<in>set key. is_ascii_digit c \<or> is_ascii_alphabetic c \<or> c = CHR ''_''"
    using assms(2) by (auto simp: key_text_def list_all_iff)
  then have chars: "\<forall>c\<in>set key. 33 \<le> byte_of c \<and> byte_of c < 128" "CHR '':'' \<notin> set key"
    "hd key \<noteq> CHR ''#''" "hd key \<noteq> CHR ''-''"
    using key_char_facts by (auto dest: list.set_sel(1))
  obtain k ks where k: "key = k # ks" using key(1) by (cases key) auto
  have "ws_prefix (k # t) = 0" for t
    using chars(1) k by (cases t; cases "tl t") (auto simp: ws1_def ws2_def ws3_def)
  then have t: "trim_start (p @ key @ '':'' @ rest) = key @ '':'' @ rest"
    using assms(1) k by (simp add: blank_def trim_start_def drop_ws_fixed)
  have "\<not> starts_with (key @ '':'' @ rest) ''#''" "\<not> starts_with (key @ '':'' @ rest) ''-''"
    using chars(3,4) k by (simp_all add: starts_with_def)
  then show ?thesis
    using t key(1) assms(2) chars(2) trim_graphic[OF chars(1)] by (simp add: parse_yaml_key_def Let_def)
qed

lemma parse_yaml_key_Some:
  "parse_yaml_key line = Some (n, key) \<Longrightarrow> n = leading_whitespace_len line \<and> key_text key"
  by (auto simp: parse_yaml_key_def leading_whitespace_len_def Let_def split: if_splits option.splits)

lemma block_child_indent: "is_block_child n line \<Longrightarrow> parse_yaml_key line = Some (m, key) \<Longrightarrow> n < m"
proof -
  assume child: "is_block_child n line" and key: "parse_yaml_key line = Some (m, key)"
  have "\<not> starts_with (trim_start line) ''-''"
    using key by (auto simp: parse_yaml_key_def Let_def split: if_splits)
  then have "\<not> starts_with (trim_start line) ''- ''" by (cases "trim_start line") (auto simp: starts_with_def)
  then show ?thesis using child parse_yaml_key_Some[OF key] by (auto simp: is_block_child_def Let_def)
qed

lemma find_dropWhile: "(\<And>x. Q x \<Longrightarrow> \<not> P x) \<Longrightarrow> find P (dropWhile Q xs) = find P xs"
  by (induction xs) auto

text \<open>The first line with a key of an indentation.\<close>

definition key_line :: "nat \<Rightarrow> string \<Rightarrow> string list \<Rightarrow> string option" where
  "key_line indent key ls = find (\<lambda>l. parse_yaml_key l = Some (indent, key)) ls"

lemma key_line_simps [simp]:
  "key_line n k [] = None"
  "key_line n k (l # ls) = (if parse_yaml_key l = Some (n, k) then Some l else key_line n k ls)"
  "key_line n k (xs @ ys) = (case key_line n k xs of Some l \<Rightarrow> Some l | None \<Rightarrow> key_line n k ys)"
  by (simp_all add: key_line_def find_append split: option.splits)

lemma key_line_dropWhile: "m \<le> n \<Longrightarrow> key_line m k (dropWhile (is_block_child n) ls) = key_line m k ls"
  unfolding key_line_def by (rule find_dropWhile) (auto dest: block_child_indent)

lemma find_direct_key_Some:
  assumes "find_direct_key ls key start stop n = Some i" and "stop \<le> length ls"
  shows "start \<le> i" "i < stop" "parse_yaml_key (ls ! i) = Some (n, key)"
    and "\<And>j. start \<le> j \<Longrightarrow> j < i \<Longrightarrow> parse_yaml_key (ls ! j) \<noteq> Some (n, key)"
proof -
  obtain j where j: "j < length [start..<stop]" "is_key_line ls key n ([start..<stop] ! j)" "i = [start..<stop] ! j"
    "\<forall>j'<j. \<not> is_key_line ls key n ([start..<stop] ! j')"
    using assms by (auto simp: find_direct_key_def find_Some_iff min_absorb1)
  then show "start \<le> i" "i < stop" "parse_yaml_key (ls ! i) = Some (n, key)" by (auto simp: is_key_line_def)
  fix j' assume "start \<le> j'" "j' < i"
  then have "\<not> is_key_line ls key n ([start..<stop] ! (j' - start))" using j by (intro j(4)[rule_format]) auto
  then show "parse_yaml_key (ls ! j') \<noteq> Some (n, key)" using \<open>start \<le> j'\<close> \<open>j' < i\<close> j by (simp add: is_key_line_def)
qed

lemma find_direct_key_None:
  assumes "find_direct_key ls key start stop n = None" and "start \<le> j" and "j < stop" and "stop \<le> length ls"
  shows "parse_yaml_key (ls ! j) \<noteq> Some (n, key)"
  using assms by (auto simp: find_direct_key_def find_None_iff is_key_line_def min_absorb1)

text \<open>What a line says of a key: the value, and after it nothing or a comment.\<close>

definition line_reads :: "string \<Rightarrow> string \<Rightarrow> string \<Rightarrow> bool" where
  "line_reads line key value \<longleftrightarrow>
     (\<exists>p comment. line = p @ key @ '': '' @ value @ comment \<and> blank p \<and> (comment = [] \<or> starts_with comment '' #''))"

lemma inline_comment_start: "starts_with (unwrap_or (inline_comment l) []) '' #'' \<or> inline_comment l = None"
proof -
  have "find_str s p = Some i \<Longrightarrow> starts_with (drop i s) p" for s p i
    by (induction s arbitrary: i) (auto simp: starts_with_def split: if_splits)
  then show ?thesis by (auto simp: inline_comment_def)
qed

text \<open>A replaced line, and what is left of the lines after it.\<close>

lemma replace_scalar_line_parts:
  assumes "i < length ls" and "parse_yaml_key (ls ! i) = Some (n, key)"
  shows "\<exists>new tail. replace_scalar_line ls i key value = take i ls @ new # tail
     \<and> parse_yaml_key new = Some (n, key) \<and> line_reads new key value
     \<and> (tail = drop (i + 1) ls \<or> tail = dropWhile (is_block_child n) (drop (i + 1) ls))"
proof -
  let ?new = "leading_whitespace (ls ! i) @ key @ '': '' @ value @ unwrap_or (inline_comment (ls ! i)) []"
  have shape: "n = leading_whitespace_len (ls ! i)" "key_text key" using parse_yaml_key_Some[OF assms(2)] by auto
  have "parse_yaml_key ?new = Some (n, key)"
    using parse_key_line[OF blank_leading shape(2), of "ls ! i" "'' '' @ value @ unwrap_or (inline_comment (ls ! i)) []"]
      shape(1) by simp
  moreover have "line_reads ?new key value"
    unfolding line_reads_def using inline_comment_start[of "ls ! i"]
    by (intro exI[of _ "leading_whitespace (ls ! i)"] exI[of _ "unwrap_or (inline_comment (ls ! i)) []"]) auto
  moreover have "ls[i := ?new] = take i ls @ ?new # drop (i + 1) ls" using assms(1) by (simp add: upd_conv_take_nth_drop)
  ultimately show ?thesis
    using assms(1) shape(1)
    by (auto simp: replace_scalar_line_def remove_block_value_lines_after_def Let_def)
qed

subsection \<open>Reading a section\<close>

definition top_key :: "string \<Rightarrow> bool" where
  "top_key l \<longleftrightarrow> (\<exists>k. parse_yaml_key l = Some (0, k))"

lemma top_key_code [code]: "top_key l \<longleftrightarrow> (case parse_yaml_key l of Some (n, _) \<Rightarrow> n = 0 | None \<Rightarrow> False)"
  by (auto simp: top_key_def split: option.splits)

text \<open>The lines under the first top-level key of a name, up to the next top-level key.\<close>

fun section_lines :: "string \<Rightarrow> string list \<Rightarrow> string list option" where
  "section_lines s [] = None"
| "section_lines s (l # ls) =
     (if parse_yaml_key l = Some (0, s) then Some (takeWhile (\<lambda>l. \<not> top_key l) ls) else section_lines s ls)"

definition nested_line :: "string \<Rightarrow> string \<Rightarrow> string list \<Rightarrow> string option" where
  "nested_line section key ls = Option.bind (section_lines section ls) (key_line 2 key)"

lemma section_append:
  assumes "post = [] \<or> top_key (hd post)"
  shows "section_lines s (pre @ post) = (case section_lines s pre of Some b \<Rightarrow> Some b | None \<Rightarrow> section_lines s post)"
proof (induction pre)
  case (Cons l pre)
  have "takeWhile (\<lambda>l. \<not> top_key l) (pre @ post) = takeWhile (\<lambda>l. \<not> top_key l) pre"
    using assms by (cases post; cases "\<forall>l\<in>set pre. \<not> top_key l") (auto simp: takeWhile_append takeWhile_eq_all_conv[THEN iffD2])
  with Cons show ?case by simp
qed simp

lemma section_skip: "\<forall>l\<in>set xs. \<not> top_key l \<Longrightarrow> section_lines s (xs @ ys) = section_lines s ys"
  by (induction xs) (auto simp: top_key_def)

lemma section_dropWhile: "section_lines s (dropWhile (is_block_child n) ls) = section_lines s ls"
  by (induction ls) (auto dest: block_child_indent)

lemma key_line_no_top: "\<forall>l\<in>set xs. \<not> top_key l \<Longrightarrow> key_line 0 k xs = None"
  by (auto simp: key_line_def find_None_iff top_key_def)

lemma key_line_None: "key_line n k xs = None \<longleftrightarrow> (\<forall>l\<in>set xs. parse_yaml_key l \<noteq> Some (n, k))"
  by (auto simp: key_line_def find_None_iff)

lemma take_no_key:
  assumes "\<And>j. j < i \<Longrightarrow> parse_yaml_key (ls ! j) \<noteq> Some (n, key)"
  shows "key_line n key (take i ls) = None"
  using assms by (auto simp: key_line_None in_set_conv_nth)

lemma section_parts:
  assumes "section_range ls sec = Some (start, stop, ind)"
  shows "\<exists>pre hdr body rest. ls = pre @ hdr # body @ rest \<and> start = length pre \<and> stop = length pre + 1 + length body
     \<and> ind = 0 \<and> parse_yaml_key hdr = Some (0, sec) \<and> key_line 0 sec pre = None
     \<and> (\<forall>l\<in>set body. \<not> top_key l) \<and> (rest = [] \<or> top_key (hd rest))"
proof -
  have found: "find_direct_key ls sec 0 (length ls) 0 = Some start" and ind: "ind = 0" "stop = section_end ls 0 start"
    using assms find_direct_key_Some(3)[of ls sec 0 "length ls" 0]
    by (auto simp: section_range_def find_top_level_key_def split: option.splits)
  note start = find_direct_key_Some[OF found order_refl]
  let ?at = "\<lambda>i. case parse_yaml_key (ls ! i) of Some (indent, _) \<Rightarrow> indent \<le> 0 | None \<Rightarrow> False"
  have at: "?at i \<longleftrightarrow> top_key (ls ! i)" for i by (auto simp: top_key_def split: option.splits)
  have stop: "start + 1 \<le> stop \<and> stop \<le> length ls \<and> (\<forall>j>start. j < stop \<longrightarrow> \<not> top_key (ls ! j))
      \<and> (stop < length ls \<longrightarrow> top_key (ls ! stop))"
  proof (cases "find ?at [start + 1..<length ls]")
    case None
    then have "stop = length ls" by (simp add: ind(2) section_end_def)
    then show ?thesis using None start(2) at by (auto simp: find_None_iff)
  next
    case (Some e)
    then have "stop = e" by (simp add: ind(2) section_end_def)
    moreover obtain j where j: "j < length [start + 1..<length ls]" "?at ([start + 1..<length ls] ! j)"
      "e = [start + 1..<length ls] ! j" "\<forall>j'<j. \<not> ?at ([start + 1..<length ls] ! j')"
      using Some by (auto simp only: find_Some_iff)
    moreover have "\<not> top_key (ls ! j')" if "start < j'" "j' < e" for j'
    proof -
      have "\<not> ?at ([start + 1..<length ls] ! (j' - (start + 1)))" using j that by (intro j(4)[rule_format]) auto
      then show ?thesis using at j that by (simp del: upt_Suc)
    qed
    ultimately show ?thesis using at by (auto simp del: upt_Suc)
  qed
  let ?body = "take (stop - (start + 1)) (drop (start + 1) ls)"
  have "?body @ drop stop ls = drop (start + 1) ls"
    using stop append_take_drop_id[of "stop - (start + 1)" "drop (start + 1) ls"] by (simp add: add.commute)
  then have "ls = take start ls @ ls ! start # ?body @ drop stop ls"
    using start(2) by (simp add: id_take_nth_drop)
  moreover have "\<forall>l\<in>set ?body. \<not> top_key l" using stop by (auto simp: in_set_conv_nth)
  moreover have "drop stop ls = [] \<or> top_key (hd (drop stop ls))"
    using stop by (cases "stop = length ls") (auto simp: hd_drop_conv_nth)
  moreover have "key_line 0 sec (take start ls) = None" using start by (intro take_no_key) auto
  moreover have "length (take start ls) = start" "stop = start + 1 + length ?body" using start(2) stop by auto
  ultimately show ?thesis using start(3) ind(1) by metis
qed

subsection \<open>What setting one scalar does\<close>

lemma set_top_level_scalar_lines:
  assumes "key_text key"
  shows "\<exists>new. key_line 0 key (set_top_level_scalar key value ls) = Some new \<and> line_reads new key value"
    and "k \<noteq> key \<Longrightarrow> key_line 0 k (set_top_level_scalar key value ls) = key_line 0 k ls"
    and "s \<noteq> key \<Longrightarrow> section_lines s (set_top_level_scalar key value ls) = section_lines s ls"
proof -
  consider (found) i where "find_direct_key ls key 0 (length ls) 0 = Some i"
    | (missing) "find_direct_key ls key 0 (length ls) 0 = None" by fastforce
  then have "(\<exists>new. key_line 0 key (set_top_level_scalar key value ls) = Some new \<and> line_reads new key value)
    \<and> (k \<noteq> key \<longrightarrow> key_line 0 k (set_top_level_scalar key value ls) = key_line 0 k ls)
    \<and> (s \<noteq> key \<longrightarrow> section_lines s (set_top_level_scalar key value ls) = section_lines s ls)"
  proof cases
    case found
    note i = find_direct_key_Some[OF found order_refl]
    obtain new tail where new: "set_top_level_scalar key value ls = take i ls @ new # tail"
      "parse_yaml_key new = Some (0, key)" "line_reads new key value"
      "tail = drop (i + 1) ls \<or> tail = dropWhile (is_block_child 0) (drop (i + 1) ls)"
      using replace_scalar_line_parts[OF i(2,3), of "value"] found unfolding set_top_level_scalar_def by auto
    have ls: "ls = take i ls @ ls ! i # drop (i + 1) ls" using i(2) by (simp add: id_take_nth_drop)
    have tops: "top_key new" "top_key (ls ! i)" using new(2) i(3) by (auto simp: top_key_def)
    have "key_line 0 key (take i ls) = None" using i by (intro take_no_key) auto
    moreover have "key_line 0 k tail = key_line 0 k (drop (i + 1) ls)" "section_lines s tail = section_lines s (drop (i + 1) ls)"
      using new(4) key_line_dropWhile[of 0 0] section_dropWhile by auto
    moreover have "section_lines s (take i ls @ l # xs)
        = (case section_lines s (take i ls) of Some b \<Rightarrow> Some b | None \<Rightarrow> section_lines s (l # xs))"
      if "top_key l" for l xs using that by (intro section_append) simp
    ultimately show ?thesis
      using new(1-3) i(3) tops by (subst (2 4) ls) (auto split: option.splits)
  next
    case missing
    define at where "at = (case find_top_level_key ls ''sharing'' of Some i \<Rightarrow> i | None \<Rightarrow>
                (case find_top_level_key ls ''probe'' of Some i \<Rightarrow> i | None \<Rightarrow>
                (case find_top_level_key ls ''subscriptions'' of Some i \<Rightarrow> i | None \<Rightarrow> length ls)))"
    let ?new = "key @ '': '' @ value"
    have set: "set_top_level_scalar key value ls = take at ls @ ?new # drop at ls"
      using missing by (simp add: set_top_level_scalar_def insert_lines_def at_def Let_def)
    have "at = length ls \<or> (\<exists>s. find_direct_key ls s 0 (length ls) 0 = Some at)"
      by (auto simp: at_def find_top_level_key_def split: option.splits)
    then have rest: "drop at ls = [] \<or> top_key (hd (drop at ls))"
      using find_direct_key_Some[OF _ order_refl] by (fastforce simp: top_key_def hd_drop_conv_nth)
    have new: "parse_yaml_key ?new = Some (0, key)"
      using parse_key_line[OF _ assms, of "[]" "'' '' @ value"] by (simp add: blank_def)
    then have "top_key ?new" by (auto simp: top_key_def)
    have "line_reads ?new key value" unfolding line_reads_def by (intro exI[of _ "[]"]) (simp add: blank_def)
    moreover have none: "key_line 0 key ls = None"
      using find_direct_key_None[OF missing] by (auto simp: key_line_None in_set_conv_nth)
    then have "key_line 0 key (take at ls) = None" by (auto simp: key_line_None dest: in_set_takeD)
    moreover have "key_line 0 k ls
        = (case key_line 0 k (take at ls) of Some l \<Rightarrow> Some l | None \<Rightarrow> key_line 0 k (drop at ls))"
      using key_line_simps(3)[of 0 k "take at ls" "drop at ls"] by simp
    moreover have "section_lines s (take at ls @ ?new # drop at ls)
        = (case section_lines s (take at ls) of Some b \<Rightarrow> Some b | None \<Rightarrow> section_lines s (?new # drop at ls))"
      using \<open>top_key ?new\<close> by (intro section_append) simp
    moreover note section_append[OF rest, of s "take at ls"]
    ultimately show ?thesis using set new by (auto split: option.splits)
  qed
  then show "\<exists>new. key_line 0 key (set_top_level_scalar key value ls) = Some new \<and> line_reads new key value"
    "k \<noteq> key \<Longrightarrow> key_line 0 k (set_top_level_scalar key value ls) = key_line 0 k ls"
    "s \<noteq> key \<Longrightarrow> section_lines s (set_top_level_scalar key value ls) = section_lines s ls" by blast+
qed

lemma length_spaces [simp]: "length (spaces n) = n"
  by (simp add: spaces_def)

lemma spaces_line:
  assumes "key_text key"
  shows "parse_yaml_key (spaces n @ key @ '': '' @ value) = Some (n, key)"
    and "line_reads (spaces n @ key @ '': '' @ value) key value"
proof -
  show "parse_yaml_key (spaces n @ key @ '': '' @ value) = Some (n, key)"
    using parse_key_line[OF blank_spaces[of n] assms, of "'' '' @ value"] by simp
  show "line_reads (spaces n @ key @ '': '' @ value) key value"
    unfolding line_reads_def by (rule exI[of _ "spaces n"], rule exI[of _ "[]"]) simp
qed

lemma dropWhile_stop: "ys = [] \<or> \<not> P (hd ys) \<Longrightarrow> dropWhile P (xs @ ys) = dropWhile P xs @ ys"
  by (induction xs; cases ys) auto

lemma top_key_no_child: "top_key l \<Longrightarrow> \<not> is_block_child n l"
  by (auto simp: top_key_def dest: block_child_indent)

text \<open>The body of a section after one of its scalars was set.\<close>

lemma set_nested_scalar_body:
  assumes "key_text key" and "section_range ls sec = Some (start, stop, ind)"
  shows "\<exists>pre hdr body rest body'. ls = pre @ hdr # body @ rest
     \<and> set_nested_scalar sec key value ls = pre @ hdr # body' @ rest
     \<and> parse_yaml_key hdr = Some (0, sec) \<and> key_line 0 sec pre = None \<and> (rest = [] \<or> top_key (hd rest))
     \<and> (\<forall>l\<in>set (body @ body'). \<not> top_key l)
     \<and> (\<exists>new. key_line 2 key body' = Some new \<and> line_reads new key value)
     \<and> (\<forall>k. k \<noteq> key \<longrightarrow> key_line 2 k body' = key_line 2 k body)"
proof -
  obtain pre hdr body rest where parts: "ls = pre @ hdr # body @ rest" "start = length pre"
    "stop = length pre + 1 + length body" "ind = 0" "parse_yaml_key hdr = Some (0, sec)" "key_line 0 sec pre = None"
    "\<forall>l\<in>set body. \<not> top_key l" "rest = [] \<or> top_key (hd rest)"
    using section_parts[OF assms(2)] by blast
  have le: "stop \<le> length ls" and nth: "\<And>j. j < length body \<Longrightarrow> ls ! (start + 1 + j) = body ! j"
    using parts(1-3) by (auto simp: nth_append)
  have "\<exists>body'. set_nested_scalar sec key value ls = pre @ hdr # body' @ rest \<and> (\<forall>l\<in>set body'. \<not> top_key l)
     \<and> (\<exists>new. key_line 2 key body' = Some new \<and> line_reads new key value)
     \<and> (\<forall>k. k \<noteq> key \<longrightarrow> key_line 2 k body' = key_line 2 k body)"
  proof (cases "find_direct_key ls key (start + 1) stop (ind + 2)")
    case None
    let ?new = "spaces 2 @ key @ '': '' @ value"
    have new: "parse_yaml_key ?new = Some (2, key)" "line_reads ?new key value" using spaces_line[OF assms(1)] by blast+
    have "parse_yaml_key (body ! j) \<noteq> Some (2, key)" if "j < length body" for j
      using find_direct_key_None[OF None, of "start + 1 + j"] le nth[OF that] that parts(2-4)
      by (simp add: numeral_2_eq_2)
    then have "key_line 2 key body = None" by (auto simp: key_line_None in_set_conv_nth)
    moreover have "set_nested_scalar sec key value ls = pre @ hdr # (body @ [?new]) @ rest"
      using None assms(2) parts(1-4) by (simp add: set_nested_scalar_def insert_lines_def numeral_2_eq_2)
    moreover have "\<not> top_key ?new" using new(1) by (auto simp: top_key_def)
    ultimately show ?thesis
      using new parts(7) by (intro exI[of _ "body @ [?new]"]) (auto split: option.splits)
  next
    case (Some i)
    note i = find_direct_key_Some[OF Some le]
    define j where "j = i - (start + 1)"
    have j: "i = start + 1 + j" "j < length body" using i(1,2) parts(2,3) by (auto simp: j_def)
    have key: "parse_yaml_key (ls ! i) = Some (2, key)" using i(3) parts(4) by simp
    have "i < length ls" using i(2) le by simp
    from replace_scalar_line_parts[OF this key, of "value"] obtain new tail where
      new: "replace_scalar_line ls i key value = take i ls @ new # tail" "parse_yaml_key new = Some (2, key)"
      "line_reads new key value" "tail = drop (i + 1) ls \<or> tail = dropWhile (is_block_child 2) (drop (i + 1) ls)" by blast
    have take: "take i ls = pre @ hdr # take j body" and drop: "drop (i + 1) ls = drop (j + 1) body @ rest"
      using j parts(1,2) by simp_all
    have "rest = [] \<or> \<not> is_block_child 2 (hd rest)" using parts(8) top_key_no_child by blast
    then obtain b where b: "tail = b @ rest" "b = drop (j + 1) body \<or> b = dropWhile (is_block_child 2) (drop (j + 1) body)"
      using new(4) dropWhile_stop[of rest "is_block_child 2" "drop (j + 1) body"] unfolding drop by auto
    let ?body' = "take j body @ new # b"
    have same: "key_line 2 k b = key_line 2 k (drop (j + 1) body)" for k
      using b(2) key_line_dropWhile[of 2 2] by auto
    have before: "key_line 2 key (take j body) = None"
    proof (rule take_no_key)
      fix j' assume "j' < j"
      then show "parse_yaml_key (body ! j') \<noteq> Some (2, key)"
        using i(4)[of "start + 1 + j'"] j nth[of j'] parts(4) by (simp add: numeral_2_eq_2)
    qed
    have old: "parse_yaml_key (body ! j) = Some (2, key)" using j key nth[of j] by simp
    have body: "body = take j body @ body ! j # drop (j + 1) body" using j(2) by (simp add: id_take_nth_drop)
    have "set_nested_scalar sec key value ls = replace_scalar_line ls i key value"
      using Some by (simp add: set_nested_scalar_def assms(2))
    then have "set_nested_scalar sec key value ls = pre @ hdr # ?body' @ rest"
      unfolding new(1) take b(1) by simp
    moreover have "set b \<subseteq> set body" using b(2) by (auto dest: in_set_dropD set_dropWhileD)
    then have "\<forall>l\<in>set ?body'. \<not> top_key l"
      using parts(7) new(2) by (auto simp: top_key_def dest: in_set_takeD)
    moreover have "key_line 2 key ?body' = Some new" using before new(2) by simp
    moreover have "key_line 2 k ?body' = key_line 2 k body" if "k \<noteq> key" for k
      using that same[of k] old new(2) key_line_simps(3)[of 2 k "take j body" "body ! j # drop (j + 1) body"]
      unfolding body[symmetric] by (simp split: option.split)
    ultimately show ?thesis using new(3) by blast
  qed
  then obtain body' where "set_nested_scalar sec key value ls = pre @ hdr # body' @ rest \<and> (\<forall>l\<in>set body'. \<not> top_key l)
     \<and> (\<exists>new. key_line 2 key body' = Some new \<and> line_reads new key value)
     \<and> (\<forall>k. k \<noteq> key \<longrightarrow> key_line 2 k body' = key_line 2 k body)" by blast
  moreover from this parts(7) have "\<forall>l\<in>set (body @ body'). \<not> top_key l" by auto
  ultimately show ?thesis using parts(1,5,6,8) by blast
qed

lemma append_section_lines:
  "\<exists>ls0. append_section ls new = ls0 @ new \<and> (ls0 = ls \<or> ls0 = ls @ [[]])"
  by (simp add: append_section_def)

lemma parse_empty_line [simp]: "parse_yaml_key [] = None" "\<not> top_key []"
  by (simp_all add: parse_yaml_key_def top_key_def trim_start_def)

lemma blank_line_sections:
  "section_lines s (ls @ [[]]) = (case section_lines s ls of Some b \<Rightarrow> Some b | None \<Rightarrow> None) \<or>
   (\<exists>b. section_lines s ls = Some b \<and> section_lines s (ls @ [[]]) = Some (b @ [[]]))"
proof (induction ls)
  case (Cons l ls)
  show ?case
  proof (cases "parse_yaml_key l = Some (0, s)")
    case True
    have "takeWhile (\<lambda>l. \<not> top_key l) (ls @ [[]]) = takeWhile (\<lambda>l. \<not> top_key l) ls
      \<or> takeWhile (\<lambda>l. \<not> top_key l) (ls @ [[]]) = takeWhile (\<lambda>l. \<not> top_key l) ls @ [[]]"
      by (induction ls) auto
    with True show ?thesis by auto
  qed (use Cons in simp)
qed simp

lemma nested_line_blank: "nested_line s k (ls @ [[]]) = nested_line s k ls"
  using blank_line_sections[of s ls] by (auto simp: nested_line_def split: option.splits)

lemma set_nested_scalar_lines:
  assumes "key_text key" and "key_text sec"
  shows "\<exists>new. nested_line sec key (set_nested_scalar sec key value ls) = Some new \<and> line_reads new key value"
    and "(s, k) \<noteq> (sec, key) \<Longrightarrow> nested_line s k (set_nested_scalar sec key value ls) = nested_line s k ls"
    and "k \<noteq> sec \<or> key_line 0 k ls \<noteq> None \<Longrightarrow>
      key_line 0 k (set_nested_scalar sec key value ls) = key_line 0 k ls"
proof -
  let ?ls = "set_nested_scalar sec key value ls"
  have "(\<exists>new. nested_line sec key ?ls = Some new \<and> line_reads new key value)
    \<and> ((s, k) \<noteq> (sec, key) \<longrightarrow> nested_line s k ?ls = nested_line s k ls)
    \<and> (k \<noteq> sec \<or> key_line 0 k ls \<noteq> None \<longrightarrow> key_line 0 k ?ls = key_line 0 k ls)"
  proof (cases "section_range ls sec")
    case (Some r)
    then obtain start stop ind where r: "section_range ls sec = Some (start, stop, ind)" by (cases r) auto
    from set_nested_scalar_body[OF assms(1) r, of "value"] obtain pre hdr body rest body' where
      parts: "ls = pre @ hdr # body @ rest" "?ls = pre @ hdr # body' @ rest" "parse_yaml_key hdr = Some (0, sec)"
        "key_line 0 sec pre = None" "rest = [] \<or> top_key (hd rest)" "\<forall>l\<in>set (body @ body'). \<not> top_key l"
        "\<exists>new. key_line 2 key body' = Some new \<and> line_reads new key value"
        "\<forall>k. k \<noteq> key \<longrightarrow> key_line 2 k body' = key_line 2 k body" by blast
    have top: "top_key hdr" using parts(3) by (auto simp: top_key_def)
    have none: "section_lines sec pre = None"
      using parts(4) by (induction pre) (auto split: if_splits)
    have cut: "section_lines s (pre @ hdr # b @ rest)
        = (case section_lines s pre of Some x \<Rightarrow> Some x
           | None \<Rightarrow> if s = sec then Some b else section_lines s rest)" if "\<forall>l\<in>set b. \<not> top_key l" for s b
    proof -
      have "takeWhile (\<lambda>l. \<not> top_key l) (b @ rest) = b"
        using that parts(5) by (cases rest) (auto simp: takeWhile_append takeWhile_eq_all_conv[THEN iffD2])
      then show ?thesis
        using section_append[of "hdr # b @ rest" s pre] top parts(3) section_skip[OF that, of s rest]
        by (simp split: option.split)
    qed
    have b: "\<forall>l\<in>set body. \<not> top_key l" "\<forall>l\<in>set body'. \<not> top_key l" using parts(6) by auto
    have "key_line 0 k body = None" "key_line 0 k body' = None" using key_line_no_top b by blast+
    then have "key_line 0 k ?ls = key_line 0 k ls" using parts(1,2) by (simp split: option.split)
    moreover have "section_lines s ls = (case section_lines s pre of Some x \<Rightarrow> Some x
        | None \<Rightarrow> if s = sec then Some body else section_lines s rest)" for s
      using cut[OF b(1)] parts(1) by simp
    moreover have lines': "section_lines s ?ls = (case section_lines s pre of Some x \<Rightarrow> Some x
        | None \<Rightarrow> if s = sec then Some body' else section_lines s rest)" for s
      using cut[OF b(2)] parts(2) by simp
    ultimately have "nested_line s k ?ls = nested_line s k ls" if "(s, k) \<noteq> (sec, key)"
      using that parts(8) none by (cases "section_lines s pre") (auto simp: nested_line_def)
    moreover have "nested_line sec key ?ls = key_line 2 key body'"
      using lines' none by (simp add: nested_line_def)
    moreover note \<open>key_line 0 k ?ls = key_line 0 k ls\<close>
    ultimately show ?thesis using parts(7) by simp
  next
    case None
    let ?hdr = "sec @ '':''" and ?new = "''  '' @ key @ '': '' @ value"
    have hdr: "parse_yaml_key ?hdr = Some (0, sec)"
      using parse_key_line[OF _ assms(2), of "[]" "[]"] by (simp add: blank_def)
    have new: "parse_yaml_key ?new = Some (2, key)" "line_reads ?new key value"
      using spaces_line[OF assms(1), of 2 "value"] by (simp_all add: spaces_def numeral_2_eq_2)
    have missing: "key_line 0 sec ls = None"
    proof -
      have "find_direct_key ls sec 0 (length ls) 0 = None"
        using None find_direct_key_Some(3)[OF _ order_refl, of ls sec 0 0]
        by (auto simp: section_range_def find_top_level_key_def split: option.splits prod.splits)
      then show ?thesis using find_direct_key_None by (auto simp: key_line_None in_set_conv_nth)
    qed
    obtain ls0 where ls0: "?ls = ls0 @ [?hdr, ?new]" "ls0 = ls \<or> ls0 = ls @ [[]]"
      using append_section_lines None by (fastforce simp: set_nested_scalar_def)
    have tops: "top_key ?hdr" "\<not> top_key ?new" using hdr new(1) by (auto simp: top_key_def)
    have same: "nested_line s k ls0 = nested_line s k ls" "key_line 0 k ls0 = key_line 0 k ls" for s k
      using ls0(2) nested_line_blank by (auto split: option.splits)
    have "section_lines sec ls0 = None"
      using same(2)[of sec] missing by (induction ls0) (auto split: if_splits)
    moreover have "section_lines s ?ls = (case section_lines s ls0 of Some x \<Rightarrow> Some x
        | None \<Rightarrow> if s = sec then Some [?new] else None)" for s
      unfolding ls0(1) using section_append[of "[?hdr, ?new]" s ls0] tops hdr new(1) by (simp split: option.split)
    moreover have "key_line 0 k ?ls = (case key_line 0 k ls of Some l \<Rightarrow> Some l | None \<Rightarrow> if k = sec then Some ?hdr else None)"
      unfolding ls0(1) using same(2) hdr new(1) by (simp split: option.split)
    ultimately show ?thesis
      using new same(1)[of s k] missing
      by (cases "section_lines s ls0"; cases "key_line 0 k ls") (auto simp: nested_line_def)
  qed
  then show "\<exists>new. nested_line sec key ?ls = Some new \<and> line_reads new key value"
    "(s, k) \<noteq> (sec, key) \<Longrightarrow> nested_line s k ?ls = nested_line s k ls"
    "k \<noteq> sec \<or> key_line 0 k ls \<noteq> None \<Longrightarrow> key_line 0 k ?ls = key_line 0 k ls" by blast+
qed

subsection \<open>All scalars of a save\<close>

text \<open>
  Where a setting's line is looked for, \<^term>\<open>None\<close> for the top level, and what a save changes:
  each setting that differs, with the text of its new value.
\<close>

type_synonym place = "string option \<times> string"

definition setting_line :: "place \<Rightarrow> string list \<Rightarrow> string option" where
  "setting_line p ls = (case p of (None, k) \<Rightarrow> key_line 0 k ls | (Some s, k) \<Rightarrow> nested_line s k ls)"

fun apply_edit :: "place \<times> string \<Rightarrow> string list \<Rightarrow> string list" where
  "apply_edit ((None, k), v) = set_top_level_scalar k v"
| "apply_edit ((Some s, k), v) = set_nested_scalar s k v"

definition changed_to :: "bool \<Rightarrow> place \<Rightarrow> string \<Rightarrow> (place \<times> string) list" where
  "changed_to differs p v = (if differs then [(p, v)] else [])"

definition changed_settings :: "app_config \<Rightarrow> app_config \<Rightarrow> (place \<times> string) list" where
  "changed_settings p c = concat [
     changed_to (ac_bind p \<noteq> ac_bind c) (None, ''bind'') (show_socket_addr (ac_bind c)),
     changed_to (ac_top_n p \<noteq> ac_top_n c) (None, ''top_n'') (show_nat (ac_top_n c)),
     changed_to (ac_refresh_seconds p \<noteq> ac_refresh_seconds c) (None, ''refresh_seconds'') (show_nat (ac_refresh_seconds c)),
     changed_to (ac_encoded_subscription p \<noteq> ac_encoded_subscription c) (None, ''encoded_subscription'')
       (bool_str (ac_encoded_subscription c)),
     changed_to (ac_prioritize_stability p \<noteq> ac_prioritize_stability c) (None, ''prioritize_stability'')
       (bool_str (ac_prioritize_stability c)),
     changed_to (ac_return_configs_asap p \<noteq> ac_return_configs_asap c) (None, ''return_configs_asap'')
       (bool_str (ac_return_configs_asap c)),
     changed_to (ac_scan_all_configs p \<noteq> ac_scan_all_configs c) (None, ''scan_all_configs'')
       (bool_str (ac_scan_all_configs c)),
     changed_to (ac_fetch_timeout_ms p \<noteq> ac_fetch_timeout_ms c) (None, ''fetch_timeout_ms'')
       (show_nat (ac_fetch_timeout_ms c)),
     changed_to (ac_fetch_concurrency p \<noteq> ac_fetch_concurrency c) (None, ''fetch_concurrency'')
       (show_nat (ac_fetch_concurrency c)),
     changed_to (ac_max_subscription_bytes p \<noteq> ac_max_subscription_bytes c) (None, ''max_subscription_bytes'')
       (show_nat (ac_max_subscription_bytes c)),
     changed_to (ac_use_cache_only p \<noteq> ac_use_cache_only c) (None, ''use_cache_only'') (bool_str (ac_use_cache_only c)),
     changed_to (ac_emergency_config p \<noteq> ac_emergency_config c) (None, ''emergency_config'')
       (nullable_option (ac_emergency_config c)),
     changed_to (sc_enabled (ac_sharing p) \<noteq> sc_enabled (ac_sharing c)) (Some ''sharing'', ''enabled'')
       (bool_str (sc_enabled (ac_sharing c))),
     changed_to (sc_require_token (ac_sharing p) \<noteq> sc_require_token (ac_sharing c)) (Some ''sharing'', ''require_token'')
       (bool_str (sc_require_token (ac_sharing c))),
     changed_to (sc_token (ac_sharing p) \<noteq> sc_token (ac_sharing c)) (Some ''sharing'', ''token'')
       (nullable_string (sc_token (ac_sharing c))),
     changed_to (xc_enabled (ac_proxy p) \<noteq> xc_enabled (ac_proxy c)) (Some ''proxy'', ''enabled'')
       (bool_str (xc_enabled (ac_proxy c))),
     changed_to (xc_port (ac_proxy p) \<noteq> xc_port (ac_proxy c)) (Some ''proxy'', ''port'') (show_nat (xc_port (ac_proxy c))),
     changed_to (xc_discoverable (ac_proxy p) \<noteq> xc_discoverable (ac_proxy c)) (Some ''proxy'', ''discoverable'')
       (bool_str (xc_discoverable (ac_proxy c))),
     changed_to (xc_health_check_url (ac_proxy p) \<noteq> xc_health_check_url (ac_proxy c)) (Some ''proxy'', ''health_check_url'')
       (xc_health_check_url (ac_proxy c)),
     changed_to (xc_health_check_interval_seconds (ac_proxy p) \<noteq> xc_health_check_interval_seconds (ac_proxy c))
       (Some ''proxy'', ''health_check_interval_seconds'') (show_nat (xc_health_check_interval_seconds (ac_proxy c))),
     changed_to (pc_mode (ac_probe p) \<noteq> pc_mode (ac_probe c)) (Some ''probe'', ''mode'') (probe_mode_str (pc_mode (ac_probe c))),
     changed_to (pc_sing_box_path (ac_probe p) \<noteq> pc_sing_box_path (ac_probe c)) (Some ''probe'', ''sing_box_path'')
       (nullable_string (pc_sing_box_path (ac_probe c))),
     changed_to (pc_connect_timeout_ms (ac_probe p) \<noteq> pc_connect_timeout_ms (ac_probe c)) (Some ''probe'', ''connect_timeout_ms'')
       (show_nat (pc_connect_timeout_ms (ac_probe c))),
     changed_to (pc_active_timeout_ms (ac_probe p) \<noteq> pc_active_timeout_ms (ac_probe c)) (Some ''probe'', ''active_timeout_ms'')
       (show_nat (pc_active_timeout_ms (ac_probe c))),
     changed_to (pc_startup_timeout_ms (ac_probe p) \<noteq> pc_startup_timeout_ms (ac_probe c)) (Some ''probe'', ''startup_timeout_ms'')
       (show_nat (pc_startup_timeout_ms (ac_probe c))),
     changed_to (pc_concurrency (ac_probe p) \<noteq> pc_concurrency (ac_probe c)) (Some ''probe'', ''concurrency'')
       (show_nat (pc_concurrency (ac_probe c))),
     changed_to (pc_batch_size (ac_probe p) \<noteq> pc_batch_size (ac_probe c)) (Some ''probe'', ''batch_size'')
       (nullable_number (pc_batch_size (ac_probe c))),
     changed_to (pc_process_concurrency (ac_probe p) \<noteq> pc_process_concurrency (ac_probe c)) (Some ''probe'', ''process_concurrency'')
       (nullable_number (pc_process_concurrency (ac_probe c))),
     changed_to (pc_test_url (ac_probe p) \<noteq> pc_test_url (ac_probe c)) (Some ''probe'', ''test_url'')
       (yaml_scalar (pc_test_url (ac_probe c))),
     changed_to (pc_accepted_statuses (ac_probe p) \<noteq> pc_accepted_statuses (ac_probe c)) (Some ''probe'', ''accepted_statuses'')
       (format_inline_u16_list (pc_accepted_statuses (ac_probe c))),
     changed_to (pc_download_url (ac_probe p) \<noteq> pc_download_url (ac_probe c)) (Some ''probe'', ''download_url'')
       (nullable_option (pc_download_url (ac_probe c))),
     changed_to (pc_download_bytes_limit (ac_probe p) \<noteq> pc_download_bytes_limit (ac_probe c)) (Some ''probe'', ''download_bytes_limit'')
       (show_nat (pc_download_bytes_limit (ac_probe c)))]"

definition all_places :: "place list" where
  "all_places =
     map (Pair None) [''bind'', ''top_n'', ''refresh_seconds'', ''encoded_subscription'', ''prioritize_stability'',
       ''return_configs_asap'', ''scan_all_configs'', ''fetch_timeout_ms'', ''fetch_concurrency'', ''max_subscription_bytes'',
       ''use_cache_only'', ''emergency_config'']
   @ map (Pair (Some ''sharing'')) [''enabled'', ''require_token'', ''token'']
   @ map (Pair (Some ''proxy'')) [''enabled'', ''port'', ''discoverable'', ''health_check_url'', ''health_check_interval_seconds'']
   @ map (Pair (Some ''probe'')) [''mode'', ''sing_box_path'', ''connect_timeout_ms'', ''active_timeout_ms'',
       ''startup_timeout_ms'', ''concurrency'', ''batch_size'', ''process_concurrency'', ''test_url'', ''accepted_statuses'',
       ''download_url'', ''download_bytes_limit'']"

lemma apply_changed_to: "fold apply_edit (changed_to differs p v) = set_if differs (apply_edit (p, v))"
  by (rule ext) (simp add: changed_to_def set_if_def)

lemma update_scalars_edits: "update_scalars p c ls = fold apply_edit (changed_settings p c) ls"
  unfolding changed_settings_def
  by (simp only: concat.simps append_Nil2 fold_append o_apply apply_changed_to apply_edit.simps update_scalars_def
      update_top_level_scalars_def update_sharing_section_def update_proxy_section_def update_probe_section_def Let_def)

lemma fst_changed_to: "map fst (changed_to differs p v) = (if differs then [p] else [])"
  by (simp add: changed_to_def)

lemma subseq_choice: "subseq xs ys \<Longrightarrow> subseq ((if b then [x] else []) @ xs) (x # ys)"
  by (cases b) (auto intro: list_emb_Cons)

lemma changed_settings_places: "subseq (map fst (changed_settings p c)) all_places"
  unfolding changed_settings_def all_places_def list.map concat.simps map_append fst_changed_to append_Nil2 append.simps
  by (intro subseq_choice) (simp split: if_split)

definition place_ok :: "place \<Rightarrow> bool" where
  "place_ok p \<longleftrightarrow> key_text (snd p) \<and> (case fst p of None \<Rightarrow> True | Some s \<Rightarrow> key_text s)"

lemma all_places_ok: "list_all place_ok all_places" "distinct all_places"
  by code_simp+

definition apart :: "place \<Rightarrow> place \<Rightarrow> bool" where
  "apart p q \<longleftrightarrow> p \<noteq> q \<and> (fst p = None \<longrightarrow> fst q \<noteq> Some (snd p))"

lemma apply_edit_lines:
  assumes "place_ok p"
  shows "\<exists>l. setting_line p (apply_edit (p, v) ls) = Some l \<and> line_reads l (snd p) v"
    and "apart p q \<Longrightarrow> setting_line q ls \<noteq> None \<Longrightarrow> setting_line q (apply_edit (p, v) ls) = setting_line q ls"
proof -
  obtain sec key where p: "p = (sec, key)" by (cases p) auto
  have key: "key_text key" using assms p by (simp add: place_ok_def)
  show "\<exists>l. setting_line p (apply_edit (p, v) ls) = Some l \<and> line_reads l (snd p) v"
    using p key assms set_top_level_scalar_lines(1)[OF key, of v ls] set_nested_scalar_lines(1)[OF key]
    by (cases sec) (auto simp: setting_line_def place_ok_def)
  assume q: "apart p q" "setting_line q ls \<noteq> None"
  show "setting_line q (apply_edit (p, v) ls) = setting_line q ls"
  proof (cases sec)
    case None
    with q p show ?thesis
      using set_top_level_scalar_lines(2,3)[OF key]
      by (cases "fst q"; cases q) (auto simp: setting_line_def nested_line_def apart_def)
  next
    case (Some s)
    then have "key_text s" using assms p by (simp add: place_ok_def)
    obtain o' k where q': "q = (o', k)" by (cases q)
    show ?thesis
    proof (cases o')
      case None
      then show ?thesis
        using q(2) p Some q' set_nested_scalar_lines(3)[OF key \<open>key_text s\<close>, of k ls v] by (simp add: setting_line_def)
    next
      case (Some s')
      then have "(s', k) \<noteq> (s, key)" using q(1) p \<open>sec = Some s\<close> q' by (auto simp: apart_def)
      then show ?thesis
        using p \<open>sec = Some s\<close> Some q' set_nested_scalar_lines(2)[OF key \<open>key_text s\<close>, of s' k v ls]
        by (simp add: setting_line_def)
    qed
  qed
qed

lemma fold_edits:
  assumes "distinct (map fst es)" and "\<forall>p\<in>fst ` set es. place_ok p"
    and "\<forall>p\<in>fst ` set es. \<forall>q\<in>fst ` set es. p \<noteq> q \<longrightarrow> apart p q"
  shows "(\<forall>(p, v)\<in>set es. \<exists>l. setting_line p (fold apply_edit es ls) = Some l \<and> line_reads l (snd p) v)
     \<and> (\<forall>q. (\<forall>p\<in>fst ` set es. apart p q) \<and> setting_line q ls \<noteq> None
          \<longrightarrow> setting_line q (fold apply_edit es ls) = setting_line q ls)"
  using assms
proof (induction es arbitrary: ls)
  case (Cons e es)
  obtain p v where e: "e = (p, v)" by (cases e)
  have p: "place_ok p" using Cons.prems(2) e by simp
  have IH: "(\<forall>(p, v)\<in>set es. \<exists>l. setting_line p (fold apply_edit es ls) = Some l \<and> line_reads l (snd p) v)
     \<and> (\<forall>q. (\<forall>p\<in>fst ` set es. apart p q) \<and> setting_line q ls \<noteq> None
          \<longrightarrow> setting_line q (fold apply_edit es ls) = setting_line q ls)" for ls
    using Cons.prems by (intro Cons.IH) auto
  note one = apply_edit_lines[OF p, where v = v and ls = ls]
  have apart: "apart p' p" if "p' \<in> fst ` set es" for p'
  proof -
    have "p' \<noteq> p" using Cons.prems(1) e that by auto
    moreover have "p \<in> fst ` set (e # es)" "p' \<in> fst ` set (e # es)" using e that by auto
    ultimately show ?thesis using Cons.prems(3) by blast
  qed
  obtain l where l: "setting_line p (apply_edit (p, v) ls) = Some l" "line_reads l (snd p) v" using one(1) by blast
  have "setting_line p (fold apply_edit es (apply_edit (p, v) ls)) = setting_line p (apply_edit (p, v) ls)"
    by (rule conjunct2[OF IH, rule_format]) (use apart l(1) in blast)
  then have "setting_line p (fold apply_edit es (apply_edit (p, v) ls)) = Some l" using l(1) by simp
  with l(2) have "\<forall>(p, v)\<in>set (e # es). \<exists>l. setting_line p (fold apply_edit (e # es) ls) = Some l \<and> line_reads l (snd p) v"
    using IH[of "apply_edit e ls"] by (auto simp: e)
  moreover have "setting_line q (fold apply_edit (e # es) ls) = setting_line q ls"
    if "\<forall>p\<in>fst ` set (e # es). apart p q" "setting_line q ls \<noteq> None" for q
  proof -
    have "setting_line q (apply_edit (p, v) ls) = setting_line q ls" using one(2) that e by simp
    moreover have "setting_line q (fold apply_edit es (apply_edit (p, v) ls)) = setting_line q (apply_edit (p, v) ls)"
      by (rule conjunct2[OF IH, rule_format]) (use that calculation in simp)
    ultimately show ?thesis by (simp add: e)
  qed
  ultimately show ?case by blast
qed simp

lemma distinct_places_subseq: "subseq xs ys \<Longrightarrow> distinct ys \<Longrightarrow> distinct (xs :: 'a list)"
proof (induction rule: list_emb.induct)
  case (list_emb_Cons2 x y xs ys)
  then show ?case using list_emb_set[of "(=)" xs ys x] by auto
qed auto

lemma places_apart:
  assumes "p \<in> set all_places" and "q \<in> set all_places" and "p \<noteq> q"
  shows "apart p q"
proof -
  have "list_all (\<lambda>q. fst q \<in> {None, Some ''sharing'', Some ''proxy'', Some ''probe''}) all_places"
    by (simp add: all_places_def)
  moreover have "list_all (\<lambda>p. fst p = None \<longrightarrow> snd p \<notin> {''sharing'', ''proxy'', ''probe''}) all_places"
    by (simp add: all_places_def)
  ultimately have "fst q \<in> {None, Some ''sharing'', Some ''proxy'', Some ''probe''}"
    "fst p = None \<longrightarrow> snd p \<notin> {''sharing'', ''proxy'', ''probe''}"
    using assms(1,2) unfolding list_all_iff by blast+
  then show ?thesis using assms(3) unfolding apart_def by (cases "fst p") auto
qed


lemma set_if_False [simp]: "set_if False f = id"
  by (rule ext) (simp add: set_if_def)

lemma update_lines_same: "update_lines p (p\<lparr>ac_clean_offlines_after_days := days\<rparr>) ls = Some ls"
  by (simp add: update_lines_def update_scalars_def update_top_level_scalars_def update_sharing_section_def
      update_proxy_section_def update_probe_section_def Let_def)


definition sample_content :: string where
  "sample_content = ''top_n: 10  # best'' @ [CHR 10, CHR 10] @ ''proxy:'' @ [CHR 10] @ ''  enabled: false'' @ [CHR 10]"

definition sample_save_env :: save_env where
  "sample_save_env = \<lparr>sv_path = [''/'', ''home'', ''configs.yaml''], sv_read = Inr sample_content,
     sv_load = (\<lambda>_. Inr app_config_default), sv_json = (\<lambda>_. Inl ''not JSON''), sv_write = Inr ()\<rparr>"


text \<open>The sample, with one setting changed: the comment stays, and so does the rest of the file.\<close>

lemma save_keeps_comments:
  "save_config sample_save_env (app_config_default\<lparr>ac_top_n := 25\<rparr>)
   = Some (Inr (''top_n: 25 # best'' @ [CHR 10, CHR 10] @ ''proxy:'' @ [CHR 10] @ ''  enabled: false'' @ [CHR 10]))"
  by code_simp

text \<open>
  Keys of a section are only looked for at an indentation of two: in a section written with four, the
  new line is added at the end of the section with two, a line YAML cannot place.
\<close>

lemma four_space_section_broken:
  "set_nested_scalar ''proxy'' ''enabled'' ''true'' [''proxy:'', ''    enabled: false'']
   = [''proxy:'', ''    enabled: false'', ''  enabled: true'']"
  by code_simp

text \<open>
  The ranges of the subscriptions are taken once, but a value that stood on lines of its own takes
  them with it when it is replaced: an edit of a later subscription in the same save then looks past
  the end of the file and panics.
\<close>

definition block_url_lines :: "string list" where
  "block_url_lines = [''subscriptions:'', ''  - name: a'', ''    url:'', ''      http://a'', ''  - name: b'', ''    url: http://b'']"

lemma stale_ranges_panic:
  "update_subscriptions
     [\<lparr>ss_name = ''a'', ss_url = ''http://a'', ss_enabled = True, ss_priority = 100\<rparr>,
      \<lparr>ss_name = ''b'', ss_url = ''http://b'', ss_enabled = True, ss_priority = 100\<rparr>]
     [\<lparr>ss_name = ''a'', ss_url = ''http://c'', ss_enabled = True, ss_priority = 100\<rparr>,
      \<lparr>ss_name = ''b'', ss_url = ''http://d'', ss_enabled = True, ss_priority = 100\<rparr>]
     block_url_lines = None"
  by code_simp


end
