(* ===== verification/Firewall.thy ===== *)
theory Firewall
  imports Paths Network
begin

text \<open>
  Firewall rules (\<open>src/tui/firewall.rs\<close>): opening and closing a port with the system's tool, and the
  file that records which rules are the program's own.  The outcome of each command and of each
  write is an argument, given by its place in the sequence of commands; the JSON of the file is
  read and written by serde, so that a file is what serde reads from it.
\<close>

definition FIREWALL_RULE_NAME :: string where "FIREWALL_RULE_NAME = ''V2RayDAR Subscription Sharing''"
definition FIREWALL_PROXY_RULE_NAME :: string where "FIREWALL_PROXY_RULE_NAME = ''V2RayDAR Proxy''"

subsection \<open>State\<close>

datatype firewall_backend = WindowsNetsh | LinuxUfw | LinuxFirewalld

record owned_rule =
  ow_backend :: firewall_backend
  ow_port :: nat
  ow_rule_name :: string

record firewall_state =
  fs_app :: string
  fs_rules :: "owned_rule list"

datatype state_file = NoFile | Unreadable string | Unparsable | Stored firewall_state

type_synonym command = "string \<times> string list"

record command_output =
  co_success :: bool
  co_code :: "nat option"
  co_stdout :: string
  co_stderr :: string

text \<open>The file, and every command run so far with its outcome.\<close>

record fw_host =
  fh_file :: state_file
  fh_log :: "(command \<times> command_output result) list"

record fw_env =
  fv_platform :: platform
  fv_run :: "nat \<Rightarrow> command \<Rightarrow> command_output result"
  fv_make_dir :: "nat \<Rightarrow> unit result"
  fv_write :: "nat \<Rightarrow> unit result"
  fv_remove :: "nat \<Rightarrow> bool"
  fv_path :: path

definition execute :: "fw_env \<Rightarrow> command \<Rightarrow> fw_host \<Rightarrow> command_output result \<times> fw_host" where
  "execute env c h =
     (let out = fv_run env (length (fh_log h)) c in (out, h\<lparr>fh_log := fh_log h @ [(c, out)]\<rparr>))"

definition command_failed :: string where
  "command_failed = ''firewall command failed; run as admin/root if needed''"

definition run_command :: "fw_env \<Rightarrow> command \<Rightarrow> fw_host \<Rightarrow> unit result \<times> fw_host" where
  "run_command env c h =
     (case execute env c h of
        (Inl e, h) \<Rightarrow> (Inl e, h)
      | (Inr out, h) \<Rightarrow> (if co_success out then Inr () else Inl command_failed, h))"

definition command_exists :: "fw_env \<Rightarrow> string \<Rightarrow> fw_host \<Rightarrow> bool \<times> fw_host" where
  "command_exists env c h =
     (case execute env (c, [''--version'']) h of
        (Inl _, h) \<Rightarrow> (False, h) | (Inr out, h) \<Rightarrow> (co_success out, h))"

subsection \<open>The file\<close>

definition empty_state :: firewall_state where
  "empty_state = \<lparr>fs_app = APP_NAME, fs_rules = []\<rparr>"

definition read_state :: "fw_env \<Rightarrow> fw_host \<Rightarrow> firewall_state result" where
  "read_state env h =
     (case fh_file h of
        NoFile \<Rightarrow> Inr empty_state
      | Unreadable e \<Rightarrow> Inl e
      | Unparsable \<Rightarrow> Inl (''unable to parse '' @ path_display (fv_path env))
      | Stored state \<Rightarrow>
          if fs_app state \<noteq> APP_NAME
          then Inl (''refusing to use '' @ path_display (fv_path env) @ ''; it is not marked as V2RayDAR-owned'')
          else Inr state)"

text \<open>A write that fails leaves the file as it was.\<close>

definition write_state :: "fw_env \<Rightarrow> firewall_state \<Rightarrow> fw_host \<Rightarrow> unit result \<times> fw_host" where
  "write_state env state h =
     (let n = length (fh_log h) in
      if fs_rules state = [] then (Inr (), if fv_remove env n then h\<lparr>fh_file := NoFile\<rparr> else h)
      else case fv_make_dir env n of
        Inl _ \<Rightarrow> (Inl (''unable to create '' @ path_display (unwrap_or (path_parent (fv_path env)) [])), h)
      | Inr _ \<Rightarrow> (case fv_write env n of
          Inl e \<Rightarrow> (Inl e, h)
        | Inr _ \<Rightarrow> (Inr (), h\<lparr>fh_file := Stored state\<rparr>)))"

definition same_rule :: "firewall_backend \<Rightarrow> nat \<Rightarrow> owned_rule \<Rightarrow> bool" where
  "same_rule backend port rule \<longleftrightarrow> ow_backend rule = backend \<and> ow_port rule = port"

definition record_rule ::
  "fw_env \<Rightarrow> firewall_backend \<Rightarrow> nat \<Rightarrow> string \<Rightarrow> fw_host \<Rightarrow> unit result \<times> fw_host" where
  "record_rule env backend port rule_name h =
     (case read_state env h of
        Inl e \<Rightarrow> (Inl e, h)
      | Inr state \<Rightarrow>
          write_state env
            (if list_ex (same_rule backend port) (fs_rules state) then state
             else state\<lparr>fs_rules := fs_rules state @ [\<lparr>ow_backend = backend, ow_port = port, ow_rule_name = rule_name\<rparr>]\<rparr>) h)"

subsection \<open>Commands\<close>

definition tcp_port :: "nat \<Rightarrow> string" where
  "tcp_port port = show_nat port @ ''/tcp''"

definition ufw_status :: command where "ufw_status = (''ufw'', [''status''])"
definition ufw_allow :: "nat \<Rightarrow> command" where "ufw_allow port = (''ufw'', [''allow'', tcp_port port])"
definition ufw_delete :: "nat \<Rightarrow> command" where "ufw_delete port = (''ufw'', [''delete'', ''allow'', tcp_port port])"

definition firewalld_query :: "nat \<Rightarrow> command" where
  "firewalld_query port = (''firewall-cmd'', [''--permanent'', ''--query-port='' @ tcp_port port])"

definition firewalld_change :: "string \<Rightarrow> nat \<Rightarrow> command" where
  "firewalld_change action port = (''firewall-cmd'', [action, tcp_port port, ''--permanent''])"

definition netsh_add :: "string \<Rightarrow> nat \<Rightarrow> command" where
  "netsh_add rule_name port = (''netsh'', [''advfirewall'', ''firewall'', ''add'', ''rule'', ''name='' @ rule_name,
     ''dir=in'', ''action=allow'', ''protocol=TCP'', ''localport='' @ show_nat port])"

definition netsh_delete :: "string \<Rightarrow> command" where
  "netsh_delete rule_name = (''netsh'', [''advfirewall'', ''firewall'', ''delete'', ''rule'', ''name='' @ rule_name])"

definition remove_windows_rule :: "fw_env \<Rightarrow> string \<Rightarrow> fw_host \<Rightarrow> unit result \<times> fw_host" where
  "remove_windows_rule env rule_name h =
     (case execute env (netsh_delete rule_name) h of
        (Inl e, h) \<Rightarrow> (Inl e, h)
      | (Inr out, h) \<Rightarrow>
          let combined = co_stdout out @ co_stderr out in
          (if co_success out \<or> contains_str combined ''No rules'' \<or> contains_str combined ''does not exist''
           then Inr () else Inl command_failed, h))"

definition windows :: "fw_env \<Rightarrow> bool \<Rightarrow> nat \<Rightarrow> string \<Rightarrow> fw_host \<Rightarrow> unit result \<times> fw_host" where
  "windows env enabled port rule_name h =
     (if enabled then run_command env (netsh_add rule_name port) h else remove_windows_rule env rule_name h)"

text \<open>The result of the reload is ignored.\<close>

definition firewalld_port :: "fw_env \<Rightarrow> string \<Rightarrow> nat \<Rightarrow> fw_host \<Rightarrow> unit result \<times> fw_host" where
  "firewalld_port env action port h =
     (case run_command env (firewalld_change action port) h of
        (Inl e, h) \<Rightarrow> (Inl e, h)
      | (Inr _, h) \<Rightarrow> (Inr (), snd (run_command env (''firewall-cmd'', [''--reload'']) h)))"

definition ufw_line_allows :: "nat \<Rightarrow> string \<Rightarrow> bool" where
  "ufw_line_allows port line \<longleftrightarrow>
     (case split_whitespace line of
        [] \<Rightarrow> False
      | column # columns \<Rightarrow> column = tcp_port port \<and> list_ex (\<lambda>c. eq_ignore_ascii_case c ''allow'') columns)"

definition ufw_output_allows :: "nat \<Rightarrow> command_output \<Rightarrow> bool" where
  "ufw_output_allows port out \<longleftrightarrow> list_ex (ufw_line_allows port) (str_lines (co_stdout out))"

definition ufw_allows_port :: "fw_env \<Rightarrow> nat \<Rightarrow> fw_host \<Rightarrow> bool result \<times> fw_host" where
  "ufw_allows_port env port h =
     (case execute env ufw_status h of
        (Inl e, h) \<Rightarrow> (Inl e, h)
      | (Inr out, h) \<Rightarrow>
          (if \<not> co_success out then Inl ''unable to inspect ufw status before changing it''
           else Inr (ufw_output_allows port out), h))"

definition firewalld_allows_port :: "fw_env \<Rightarrow> nat \<Rightarrow> fw_host \<Rightarrow> bool result \<times> fw_host" where
  "firewalld_allows_port env port h =
     (case execute env (firewalld_query port) h of
        (Inl e, h) \<Rightarrow> (Inl e, h)
      | (Inr out, h) \<Rightarrow>
          (if co_code out = Some 0 then Inr True else if co_code out = Some 1 then Inr False
           else Inl ''unable to inspect firewalld status before changing it'', h))"

definition remove_owned_rule :: "fw_env \<Rightarrow> owned_rule \<Rightarrow> fw_host \<Rightarrow> string result \<times> fw_host" where
  "remove_owned_rule env rule h =
     (case ow_backend rule of
        WindowsNetsh \<Rightarrow> (case remove_windows_rule env (ow_rule_name rule) h of
          (r, h) \<Rightarrow> (and_then r (\<lambda>_. Inr (''removed Windows firewall rule '' @ [CHR 39] @ ow_rule_name rule @ [CHR 39]
             @ '' for TCP '' @ show_nat (ow_port rule))), h))
      | LinuxUfw \<Rightarrow> (case run_command env (ufw_delete (ow_port rule)) h of
          (r, h) \<Rightarrow> (and_then r (\<lambda>_. Inr (''removed ufw TCP '' @ show_nat (ow_port rule) @ '' rule'')), h))
      | LinuxFirewalld \<Rightarrow> (case firewalld_port env ''--remove-port'' (ow_port rule) h of
          (r, h) \<Rightarrow> (and_then r (\<lambda>_. Inr (''removed firewalld TCP '' @ show_nat (ow_port rule) @ '' rule'')), h)))"

definition remove_recorded_rule_by_port ::
  "fw_env \<Rightarrow> firewall_backend \<Rightarrow> nat \<Rightarrow> fw_host \<Rightarrow> bool result \<times> fw_host" where
  "remove_recorded_rule_by_port env backend port h =
     (case read_state env h of
        Inl e \<Rightarrow> (Inl e, h)
      | Inr state \<Rightarrow>
        (case find (same_rule backend port) (fs_rules state) of
           None \<Rightarrow> (Inr False, h)
         | Some rule \<Rightarrow> (case remove_owned_rule env rule h of
             (Inl e, h) \<Rightarrow> (Inl e, h)
           | (Inr _, h) \<Rightarrow> (case write_state env (state\<lparr>fs_rules := filter (\<lambda>r. \<not> same_rule backend port r) (fs_rules state)\<rparr>) h of
               (r, h) \<Rightarrow> (and_then r (\<lambda>_. Inr True), h)))))"

subsection \<open>Opening and closing a port\<close>

definition open_linux ::
  "fw_env \<Rightarrow> firewall_backend \<Rightarrow> string \<Rightarrow> nat \<Rightarrow> string \<Rightarrow> bool result \<times> fw_host
     \<Rightarrow> (fw_host \<Rightarrow> unit result \<times> fw_host) \<Rightarrow> string result \<times> fw_host" where
  "open_linux env backend tool port rule_name checked allow =
     (case checked of
        (Inl e, h) \<Rightarrow> (Inl e, h)
      | (Inr existed, h) \<Rightarrow> (case allow h of
          (Inl e, h) \<Rightarrow> (Inl e, h)
        | (Inr _, h) \<Rightarrow>
            (case (if existed then (Inr (), h) else record_rule env backend port rule_name h) of
               (Inl e, h) \<Rightarrow> (Inl e, h)
             | (Inr _, h) \<Rightarrow> (Inr (rule_name @ '': '' @ tool @ '' allows TCP '' @ show_nat port @ ''; ''
                 @ (if existed then ''pre-existing rule left user-owned'' else ''owned rule recorded'')), h))))"

definition close_linux ::
  "fw_env \<Rightarrow> firewall_backend \<Rightarrow> string \<Rightarrow> nat \<Rightarrow> string \<Rightarrow> fw_host \<Rightarrow> string result \<times> fw_host" where
  "close_linux env backend tool port rule_name h =
     (case remove_recorded_rule_by_port env backend port h of
        (Inl e, h) \<Rightarrow> (Inl e, h)
      | (Inr True, h) \<Rightarrow> (Inr (rule_name @ '': removed owned '' @ tool @ '' TCP '' @ show_nat port @ '' rule''), h)
      | (Inr False, h) \<Rightarrow> (Inr (rule_name @ '': no owned '' @ tool @ '' TCP '' @ show_nat port @ '' rule was recorded''), h))"

definition linux :: "fw_env \<Rightarrow> bool \<Rightarrow> nat \<Rightarrow> string \<Rightarrow> fw_host \<Rightarrow> string result \<times> fw_host" where
  "linux env enabled port rule_name h =
     (case read_state env h of
        Inl e \<Rightarrow> (Inl e, h)
      | Inr _ \<Rightarrow>
        (case command_exists env ''ufw'' h of
           (True, h) \<Rightarrow>
             if enabled then open_linux env LinuxUfw ''ufw'' port rule_name (ufw_allows_port env port h)
               (run_command env (ufw_allow port))
             else close_linux env LinuxUfw ''ufw'' port rule_name h
         | (False, h) \<Rightarrow>
           (case command_exists env ''firewall-cmd'' h of
              (True, h) \<Rightarrow>
                if enabled then open_linux env LinuxFirewalld ''firewalld'' port rule_name (firewalld_allows_port env port h)
                  (firewalld_port env ''--add-port'' port)
                else close_linux env LinuxFirewalld ''firewalld'' port rule_name h
            | (False, h) \<Rightarrow> (Inr ''Firewall changed; no supported Linux firewall tool found'', h))))"

definition apply_windows :: "fw_env \<Rightarrow> bool \<Rightarrow> nat \<Rightarrow> string \<Rightarrow> fw_host \<Rightarrow> string result \<times> fw_host" where
  "apply_windows env enabled port rule_name h =
     (case read_state env h of
        Inl e \<Rightarrow> (Inl e, h)
      | Inr _ \<Rightarrow> (case windows env enabled port rule_name h of
          (Inl e, h) \<Rightarrow> (Inl e, h)
        | (Inr _, h) \<Rightarrow>
            if enabled then
              (case record_rule env WindowsNetsh port rule_name h of
                 (r, h) \<Rightarrow> (and_then r (\<lambda>_. Inr (''Windows firewall allows TCP '' @ show_nat port @ '' ('' @ rule_name @ '')'')), h))
            else
              (case remove_recorded_rule_by_port env WindowsNetsh port h of
                 (r, h) \<Rightarrow> (and_then r (\<lambda>_. Inr (''Windows firewall rule removed for TCP '' @ show_nat port)), h))))"

definition apply_firewall :: "fw_env \<Rightarrow> bool \<Rightarrow> nat \<Rightarrow> string \<Rightarrow> fw_host \<Rightarrow> string result \<times> fw_host" where
  "apply_firewall env enabled port rule_name h =
     (case fv_platform env of
        Windows \<Rightarrow> apply_windows env enabled port rule_name h
      | Linux \<Rightarrow> linux env enabled port rule_name h
      | _ \<Rightarrow> (Inr ''Firewall auto-change is unsupported on this OS'', h))"

subsection \<open>Removing everything\<close>

text \<open>The messages, the failures, the rules that remain, and the host.\<close>

fun remove_rules ::
  "fw_env \<Rightarrow> owned_rule list \<Rightarrow> fw_host \<Rightarrow> string list \<times> string list \<times> owned_rule list \<times> fw_host" where
  "remove_rules env [] h = ([], [], [], h)"
| "remove_rules env (rule # rules) h =
     (case remove_owned_rule env rule h of (r, h1) \<Rightarrow>
      (case remove_rules env rules h1 of (messages, failures, remaining, h2) \<Rightarrow>
        (case r of
           Inr message \<Rightarrow> (message # messages, failures, remaining, h2)
         | Inl e \<Rightarrow> (messages, (''firewall rule was not removed: '' @ e) # failures, rule # remaining, h2))))"

definition remove_owned_rules :: "fw_env \<Rightarrow> fw_host \<Rightarrow> string list result \<times> fw_host" where
  "remove_owned_rules env h =
     (case read_state env h of
        Inl e \<Rightarrow> (Inl e, h)
      | Inr state \<Rightarrow>
        (case remove_rules env (fs_rules state) h of (messages, failures, remaining, h) \<Rightarrow>
        (case write_state env (state\<lparr>fs_rules := remaining\<rparr>) h of
           (Inl e, h) \<Rightarrow> (Inl e, h)
         | (Inr _, h) \<Rightarrow>
             (if failures \<noteq> [] then Inl (''unable to remove all V2RayDAR-owned firewall rules: '' @ join_str ''; '' failures)
              else Inr messages, h))))"

subsection \<open>Only the program's own rules are removed\<close>

datatype firewall_call = ApplyCall bool nat string | RemoveAll

fun run_call :: "fw_env \<Rightarrow> firewall_call \<Rightarrow> fw_host \<Rightarrow> fw_host" where
  "run_call env (ApplyCall enabled port rule_name) h = snd (apply_firewall env enabled port rule_name h)"
| "run_call env RemoveAll h = snd (remove_owned_rules env h)"

text \<open>A command that closes a port, and a check that found it closed right before the port was opened.\<close>

fun closes :: "firewall_backend \<Rightarrow> nat \<Rightarrow> command \<Rightarrow> bool" where
  "closes LinuxUfw port c \<longleftrightarrow> c = ufw_delete port"
| "closes LinuxFirewalld port c \<longleftrightarrow> c = firewalld_change ''--remove-port'' port"
| "closes WindowsNetsh port c \<longleftrightarrow> False"

fun opens_by :: "firewall_backend \<Rightarrow> nat \<Rightarrow> (command \<times> command_output result) list \<Rightarrow> bool" where
  "opens_by LinuxUfw port [(c1, Inr out1), (c2, Inr out2)] \<longleftrightarrow>
     c1 = ufw_status \<and> co_success out1 \<and> \<not> ufw_output_allows port out1 \<and> c2 = ufw_allow port \<and> co_success out2"
| "opens_by LinuxFirewalld port [(c1, Inr out1), (c2, Inr out2)] \<longleftrightarrow>
     c1 = firewalld_query port \<and> co_code out1 = Some 1 \<and> c2 = firewalld_change ''--add-port'' port \<and> co_success out2"
| "opens_by _ port _ \<longleftrightarrow> False"

definition opened :: "firewall_backend \<Rightarrow> nat \<Rightarrow> (command \<times> command_output result) list \<Rightarrow> bool" where
  "opened backend port log \<longleftrightarrow> (\<exists>pre entries post. log = pre @ entries @ post \<and> opens_by backend port entries)"

definition closes_own :: "(command \<times> command_output result) list \<Rightarrow> bool" where
  "closes_own log \<longleftrightarrow> (\<forall>i<length log. \<forall>backend port. closes backend port (fst (log ! i)) \<longrightarrow> opened backend port (take i log))"

definition file_rules :: "fw_host \<Rightarrow> owned_rule list" where
  "file_rules h = (case fh_file h of Stored state \<Rightarrow> fs_rules state | _ \<Rightarrow> [])"

definition rules_opened :: "fw_host \<Rightarrow> owned_rule list \<Rightarrow> bool" where
  "rules_opened h rules \<longleftrightarrow> (\<forall>r\<in>set rules. opened (ow_backend r) (ow_port r) (fh_log h))"

definition host_ok :: "fw_host \<Rightarrow> bool" where
  "host_ok h \<longleftrightarrow> rules_opened h (file_rules h) \<and> closes_own (fh_log h)"

lemma opened_append: "opened b p log \<Longrightarrow> opened b p (log @ further)"
  unfolding opened_def by (metis append_assoc)

lemma rules_opened_simps [simp]:
  "rules_opened h []" "rules_opened h (r # rs) \<longleftrightarrow> opened (ow_backend r) (ow_port r) (fh_log h) \<and> rules_opened h rs"
  "rules_opened h (rs @ rs') \<longleftrightarrow> rules_opened h rs \<and> rules_opened h rs'"
  by (auto simp: rules_opened_def)

text \<open>What running one command does.\<close>

lemma executed:
  assumes "execute env c h = (out, h')"
  shows "fh_log h' = fh_log h @ [(c, out)] \<and> fh_file h' = fh_file h"
  using assms by (auto simp: execute_def Let_def)

definition continues :: "fw_host \<Rightarrow> fw_host \<Rightarrow> bool" where
  "continues h h' \<longleftrightarrow> fh_file h' = fh_file h \<and> (\<exists>new. fh_log h' = fh_log h @ new)"

lemma continues_refl [simp]: "continues h h"
  by (simp add: continues_def)

lemma continues_trans: "continues h h1 \<Longrightarrow> continues h1 h2 \<Longrightarrow> continues h h2"
  by (fastforce simp: continues_def)

lemma continues_rules: "continues h h' \<Longrightarrow> rules_opened h rs \<Longrightarrow> rules_opened h' rs"
  by (auto simp: continues_def rules_opened_def opened_append)

lemma closes_own_snoc:
  assumes "closes_own log" and "\<And>b p. closes b p c \<Longrightarrow> opened b p log"
  shows "closes_own (log @ [(c, out)])"
  using assms by (auto simp: closes_own_def nth_append less_Suc_eq)

lemma execute_ok:
  assumes "execute env c h = (out, h')" and "host_ok h" and "\<And>b p. closes b p c \<Longrightarrow> opened b p (fh_log h)"
  shows "host_ok h' \<and> continues h h'"
proof -
  note e = executed[OF assms(1)]
  then have "continues h h'" by (simp add: continues_def)
  moreover have "closes_own (fh_log h')" using e assms(2,3) by (simp add: host_ok_def closes_own_snoc)
  moreover have "file_rules h' = file_rules h" using e by (simp add: file_rules_def)
  ultimately show ?thesis using assms(2) continues_rules by (simp add: host_ok_def)
qed

lemma run_command_ok:
  assumes "run_command env c h = (r, h')" and "host_ok h" and "\<And>b p. closes b p c \<Longrightarrow> opened b p (fh_log h)"
  shows "host_ok h' \<and> continues h h'
     \<and> (r = Inr () \<longrightarrow> (\<exists>out. co_success out \<and> fh_log h' = fh_log h @ [(c, Inr out)]))"
proof -
  obtain out where e: "execute env c h = (out, h')"
    using assms(1) by (auto simp: run_command_def split: prod.splits sum.splits)
  moreover have "r = Inr () \<Longrightarrow> \<exists>o1. out = Inr o1 \<and> co_success o1"
    using assms(1) e by (auto simp: run_command_def split: sum.splits if_splits)
  ultimately show ?thesis using execute_ok[OF e assms(2,3)] executed[OF e] by auto
qed

lemma tcp_port_inj [simp]: "tcp_port p = tcp_port q \<longleftrightarrow> p = q"
  using show_nat_inj by (auto simp: tcp_port_def)

lemmas command_defs = ufw_status_def ufw_allow_def ufw_delete_def firewalld_query_def firewalld_change_def

lemma harmless [simp]:
  "\<not> closes b p (c, [''--version''])" "\<not> closes b p ufw_status" "\<not> closes b p (ufw_allow port)"
  "\<not> closes b p (firewalld_query port)" "\<not> closes b p (firewalld_change ''--add-port'' port)"
  "\<not> closes b p (''firewall-cmd'', [''--reload''])"
  by (cases b; simp add: command_defs)+

lemma harmful:
  "closes b p (ufw_delete port) \<Longrightarrow> b = LinuxUfw \<and> p = port"
  "closes b p (firewalld_change ''--remove-port'' port) \<Longrightarrow> b = LinuxFirewalld \<and> p = port"
  by (cases b; simp add: command_defs)+

lemma command_exists_ok:
  "command_exists env c h = (b, h') \<Longrightarrow> host_ok h \<Longrightarrow> host_ok h' \<and> continues h h'"
  using execute_ok[of env "(c, [''--version''])" h]
  by (auto simp: command_exists_def split: prod.splits sum.splits)

lemma write_state_ok:
  assumes "write_state env state h = (r, h')" and "host_ok h" and "rules_opened h (fs_rules state)"
  shows "host_ok h' \<and> fh_log h' = fh_log h"
  using assms
  by (auto simp: write_state_def Let_def host_ok_def file_rules_def rules_opened_def split: if_splits sum.splits)

lemma read_state_rules: "read_state env h = Inr state \<Longrightarrow> host_ok h \<Longrightarrow> rules_opened h (fs_rules state)"
  by (auto simp: read_state_def host_ok_def file_rules_def empty_state_def split: state_file.splits if_splits)

lemma record_rule_ok:
  assumes "record_rule env backend port rule_name h = (r, h')" and "host_ok h" and "opened backend port (fh_log h)"
  shows "host_ok h'"
proof (cases "read_state env h")
  case (Inl e)
  then show ?thesis using assms(1,2) by (auto simp: record_rule_def)
next
  case (Inr state)
  let ?s = "if list_ex (same_rule backend port) (fs_rules state) then state
    else state\<lparr>fs_rules := fs_rules state @ [\<lparr>ow_backend = backend, ow_port = port, ow_rule_name = rule_name\<rparr>]\<rparr>"
  have "rules_opened h (fs_rules ?s)" using read_state_rules[OF Inr assms(2)] assms(3) by simp
  moreover have "write_state env ?s h = (r, h')" using assms(1) Inr by (simp only: record_rule_def sum.case)
  ultimately show ?thesis using write_state_ok assms(2) by blast
qed

lemma firewalld_port_ok:
  assumes "firewalld_port env action port h = (r, h')" and "host_ok h"
    and "\<And>b p. closes b p (firewalld_change action port) \<Longrightarrow> opened b p (fh_log h)"
  shows "host_ok h' \<and> continues h h'
     \<and> (r = Inr () \<longrightarrow> (\<exists>out post. co_success out \<and> fh_log h' = fh_log h @ (firewalld_change action port, Inr out) # post))"
proof -
  obtain r1 h1 where c: "run_command env (firewalld_change action port) h = (r1, h1)" by fastforce
  note c' = run_command_ok[OF c assms(2,3)]
  obtain r2 h2 where l: "run_command env (''firewall-cmd'', [''--reload'']) h1 = (r2, h2)" by fastforce
  have l': "host_ok h2 \<and> continues h1 h2" using run_command_ok[OF l] c' by simp
  show ?thesis
  proof (cases r1)
    case (Inl e)
    then show ?thesis using assms(1) c c' Inl by (auto simp: firewalld_port_def)
  next
    case (Inr u)
    then have "h' = h2" "r = Inr ()" using assms(1) c l by (auto simp: firewalld_port_def)
    then show ?thesis using c' l' Inr continues_trans[of h h1 h2] by (auto simp: continues_def)
  qed
qed

lemma remove_owned_rule_ok:
  assumes "remove_owned_rule env rule h = (r, h')" and "host_ok h" and "opened (ow_backend rule) (ow_port rule) (fh_log h)"
  shows "host_ok h' \<and> continues h h'"
proof (cases "ow_backend rule")
  case WindowsNetsh
  then show ?thesis using assms(3) by (auto simp: opened_def)
next
  case LinuxUfw
  obtain r1 h1 where c: "run_command env (ufw_delete (ow_port rule)) h = (r1, h1)" by fastforce
  have "opened b p (fh_log h)" if "closes b p (ufw_delete (ow_port rule))" for b p
    using harmful(1)[OF that] assms(3) LinuxUfw by simp
  from run_command_ok[OF c assms(2) this] show ?thesis
    using assms(1) c LinuxUfw by (auto simp: remove_owned_rule_def)
next
  case LinuxFirewalld
  obtain r1 h1 where c: "firewalld_port env ''--remove-port'' (ow_port rule) h = (r1, h1)" by fastforce
  have "opened b p (fh_log h)" if "closes b p (firewalld_change ''--remove-port'' (ow_port rule))" for b p
    using harmful(2)[OF that] assms(3) LinuxFirewalld by simp
  from firewalld_port_ok[OF c assms(2) this] show ?thesis
    using assms(1) c LinuxFirewalld by (auto simp: remove_owned_rule_def)
qed

lemma remove_recorded_rule_ok:
  assumes "remove_recorded_rule_by_port env backend port h = (r, h')" and "host_ok h"
  shows "host_ok h'"
proof (cases "read_state env h")
  case (Inl e)
  then show ?thesis using assms by (auto simp: remove_recorded_rule_by_port_def)
next
  case (Inr state)
  note rules = read_state_rules[OF Inr assms(2)]
  show ?thesis
  proof (cases "find (same_rule backend port) (fs_rules state)")
    case None
    then show ?thesis using assms Inr by (auto simp: remove_recorded_rule_by_port_def)
  next
    case (Some rule)
    then have "rule \<in> set (fs_rules state)" by (metis find_Some_iff nth_mem)
    then have "opened (ow_backend rule) (ow_port rule) (fh_log h)" using rules by (simp add: rules_opened_def)
    moreover obtain r1 h1 where o: "remove_owned_rule env rule h = (r1, h1)" by fastforce
    ultimately have h1: "host_ok h1" "continues h h1" using remove_owned_rule_ok assms(2) by blast+
    let ?s = "state\<lparr>fs_rules := filter (\<lambda>r. \<not> same_rule backend port r) (fs_rules state)\<rparr>"
    have "rules_opened h1 (fs_rules ?s)" using continues_rules[OF h1(2) rules] by (simp add: rules_opened_def)
    then have "host_ok (snd (write_state env ?s h1))" using write_state_ok h1(1) by (metis prod.collapse)
    then show ?thesis
      using assms(1) Inr Some o h1(1)
      by (cases r1) (auto simp: remove_recorded_rule_by_port_def split: prod.splits)
  qed
qed

lemma remove_rules_ok:
  assumes "remove_rules env rules h = (messages, failures, remaining, h')" and "host_ok h" and "rules_opened h rules"
  shows "host_ok h' \<and> continues h h' \<and> set remaining \<subseteq> set rules"
  using assms
proof (induction rules arbitrary: h h' messages failures remaining)
  case (Cons rule rules)
  obtain r h1 where o: "remove_owned_rule env rule h = (r, h1)" by fastforce
  then have h1: "host_ok h1" "continues h h1" using remove_owned_rule_ok Cons.prems(2,3) by auto
  obtain ms fs rm h2 where rest: "remove_rules env rules h1 = (ms, fs, rm, h2)" using prod_cases4 by blast
  from Cons.IH[OF rest h1(1)] continues_rules[OF h1(2)] Cons.prems(3)
  have "host_ok h2" "continues h1 h2" "set rm \<subseteq> set rules" by auto
  then show ?case
    using Cons.prems(1) o rest continues_trans[OF h1(2)] by (cases r) auto
qed auto

lemma remove_owned_rules_ok:
  assumes "host_ok h"
  shows "host_ok (snd (remove_owned_rules env h))"
proof (cases "read_state env h")
  case (Inl e)
  then show ?thesis using assms by (simp add: remove_owned_rules_def)
next
  case (Inr state)
  note rules = read_state_rules[OF Inr assms]
  obtain ms fs rm h1 where r: "remove_rules env (fs_rules state) h = (ms, fs, rm, h1)" using prod_cases4 by blast
  from remove_rules_ok[OF r assms rules] have h1: "host_ok h1" "continues h h1" "set rm \<subseteq> set (fs_rules state)" by auto
  have "rules_opened h1 rm" using continues_rules[OF h1(2) rules] h1(3) by (auto simp: rules_opened_def)
  then have "host_ok (snd (write_state env (state\<lparr>fs_rules := rm\<rparr>) h1))"
    using write_state_ok[of env "state\<lparr>fs_rules := rm\<rparr>" h1] h1(1) by (cases "write_state env (state\<lparr>fs_rules := rm\<rparr>) h1") auto
  then show ?thesis
    using Inr r by (auto simp: remove_owned_rules_def split: prod.splits sum.splits)
qed

lemma open_linux_ok:
  assumes "checked = (r, h1)" and "host_ok h1"
    and "\<And>r2 h2. allow h1 = (r2, h2) \<Longrightarrow> host_ok h2 \<and> (r = Inr False \<and> r2 = Inr () \<longrightarrow> opened backend port (fh_log h2))"
  shows "host_ok (snd (open_linux env backend tool port rule_name checked allow))"
proof (cases r)
  case (Inl e)
  then show ?thesis using assms(1,2) by (simp add: open_linux_def)
next
  case (Inr existed)
  obtain r2 h2 where a: "allow h1 = (r2, h2)" by fastforce
  note h2 = assms(3)[OF a]
  show ?thesis
  proof (cases r2)
    case (Inl e)
    then show ?thesis using assms(1) Inr a h2 by (simp add: open_linux_def)
  next
    case (Inr u)
    obtain r3 h3 where rec: "record_rule env backend port rule_name h2 = (r3, h3)" by fastforce
    have "\<not> existed \<Longrightarrow> host_ok h3" using record_rule_ok[OF rec] h2 \<open>r = Inr existed\<close> Inr by simp
    then show ?thesis
      using assms(1) \<open>r = Inr existed\<close> a Inr h2 rec by (cases existed; cases r3) (simp_all add: open_linux_def)
  qed
qed

lemma linux_ok:
  assumes "host_ok h"
  shows "host_ok (snd (linux env enabled port rule_name h))"
proof -
  obtain b1 h1 where u: "command_exists env ''ufw'' h = (b1, h1)" by fastforce
  have h1: "host_ok h1" using command_exists_ok[OF u assms] by simp
  obtain b2 h2 where f: "command_exists env ''firewall-cmd'' h1 = (b2, h2)" by fastforce
  have h2: "host_ok h2" using command_exists_ok[OF f h1] by simp
  have closed: "host_ok (snd (close_linux env backend tool port rule_name g))" if "host_ok g" for backend tool g
    using remove_recorded_rule_ok[of env backend port g] that
    by (auto simp: close_linux_def split: prod.splits sum.splits bool.splits)
  have ufw: "host_ok (snd (open_linux env LinuxUfw ''ufw'' port rule_name (ufw_allows_port env port h1) (run_command env (ufw_allow port))))"
  proof -
    obtain out g where s: "execute env ufw_status h1 = (out, g)" by fastforce
    have g: "host_ok g" using execute_ok[OF s h1] by simp
    have "ufw_allows_port env port h1 = (case out of Inl e \<Rightarrow> Inl e | Inr o' \<Rightarrow>
        if \<not> co_success o' then Inl ''unable to inspect ufw status before changing it'' else Inr (ufw_output_allows port o'), g)"
      using s by (cases out) (simp_all add: ufw_allows_port_def)
    then show ?thesis
    proof (rule open_linux_ok[OF _ g])
      fix r2 g2 assume a: "run_command env (ufw_allow port) g = (r2, g2)"
      note ran = run_command_ok[OF a g]
      have "opened LinuxUfw port (fh_log g2)"
        if o1: "out = Inr o1" "co_success o1" "\<not> ufw_output_allows port o1" "r2 = Inr ()" for o1
      proof -
        obtain o2 where "co_success o2" "fh_log g2 = fh_log h1 @ [(ufw_status, Inr o1), (ufw_allow port, Inr o2)] @ []"
          using ran o1 executed[OF s] by auto
        then show ?thesis unfolding opened_def using o1 by (metis opens_by.simps(1))
      qed
      then show "host_ok g2 \<and> ((case out of Inl e \<Rightarrow> Inl e | Inr o' \<Rightarrow>
        if \<not> co_success o' then Inl ''unable to inspect ufw status before changing it'' else Inr (ufw_output_allows port o')) = Inr False
        \<and> r2 = Inr () \<longrightarrow> opened LinuxUfw port (fh_log g2))"
        using ran by (cases out) (auto split: if_splits)
    qed
  qed
  have firewalld: "host_ok (snd (open_linux env LinuxFirewalld ''firewalld'' port rule_name
      (firewalld_allows_port env port h2) (firewalld_port env ''--add-port'' port)))"
  proof -
    obtain out g where s: "execute env (firewalld_query port) h2 = (out, g)" by fastforce
    have g: "host_ok g" using execute_ok[OF s h2] by simp
    have "firewalld_allows_port env port h2 = (case out of Inl e \<Rightarrow> Inl e | Inr o' \<Rightarrow>
        if co_code o' = Some 0 then Inr True else if co_code o' = Some 1 then Inr False
        else Inl ''unable to inspect firewalld status before changing it'', g)"
      using s by (cases out) (simp_all add: firewalld_allows_port_def)
    then show ?thesis
    proof (rule open_linux_ok[OF _ g])
      fix r2 g2 assume a: "firewalld_port env ''--add-port'' port g = (r2, g2)"
      note ran = firewalld_port_ok[OF a g]
      have "opened LinuxFirewalld port (fh_log g2)" if o1: "out = Inr o1" "co_code o1 = Some 1" "r2 = Inr ()" for o1
      proof -
        obtain o2 post where "co_success o2" "fh_log g2 = fh_log h2 @ [(firewalld_query port, Inr o1),
            (firewalld_change ''--add-port'' port, Inr o2)] @ post"
          using ran o1 executed[OF s] by auto
        then show ?thesis unfolding opened_def using o1 by (metis opens_by.simps(2))
      qed
      then show "host_ok g2 \<and> ((case out of Inl e \<Rightarrow> Inl e | Inr o' \<Rightarrow>
        if co_code o' = Some 0 then Inr True else if co_code o' = Some 1 then Inr False
        else Inl ''unable to inspect firewalld status before changing it'') = Inr False
        \<and> r2 = Inr () \<longrightarrow> opened LinuxFirewalld port (fh_log g2))"
        using ran by (cases out) (auto split: if_splits)
    qed
  qed
  show ?thesis
    using assms u f ufw firewalld closed[OF h1] closed[OF h2] h2
    by (cases "read_state env h"; cases b1; cases b2; cases enabled) (simp_all add: linux_def)
qed

text \<open>
  C31: On Linux the program only ever closes ports it has opened.  After any calls, whatever the
  commands answer and whether the file can be written, each command that closed a port came after a
  check that found the port closed and a command that then opened it; a rule that was there before
  is never recorded and never removed.
\<close>

theorem only_own_rules_removed:
  assumes "fv_platform env = Linux"
    and "h = fold (run_call env) calls \<lparr>fh_file = NoFile, fh_log = []\<rparr>"
    and "i < length (fh_log h)" and "closes backend port (fst (fh_log h ! i))"
  shows "opened backend port (take i (fh_log h))"
proof -
  have "host_ok (run_call env call g)" if "host_ok g" for call g
    using that linux_ok[OF that] remove_owned_rules_ok[OF that] assms(1)
    by (cases call) (simp_all add: apply_firewall_def)
  then have "host_ok (fold (run_call env) calls g)" if "host_ok g" for g
    using that by (induction calls arbitrary: g) auto
  moreover have "host_ok \<lparr>fh_file = NoFile, fh_log = []\<rparr>" by (simp add: host_ok_def file_rules_def closes_own_def)
  ultimately have "closes_own (fh_log h)" using assms(2) by (simp add: host_ok_def)
  then show ?thesis using assms(3,4) by (simp add: closes_own_def)
qed

text \<open>Sharing the port is switched on and off again; ufw answers that the port is closed.\<close>

definition sample_fw_env :: fw_env where
  "sample_fw_env = \<lparr>fv_platform = Linux,
     fv_run = (\<lambda>_ c. Inr \<lparr>co_success = True, co_code = Some 0, co_stdout = ''Status: active'', co_stderr = []\<rparr>),
     fv_make_dir = (\<lambda>_. Inr ()), fv_write = (\<lambda>_. Inr ()), fv_remove = (\<lambda>_. True), fv_path = path_of ''rules.json''\<rparr>"

definition sample_fw_calls :: "firewall_call list" where
  "sample_fw_calls = [ApplyCall True 27141 ''Sub'', ApplyCall False 27141 ''Sub'']"

definition sample_fw_host :: fw_host where
  "sample_fw_host = fold (run_call sample_fw_env) sample_fw_calls \<lparr>fh_file = NoFile, fh_log = []\<rparr>"

lemma sample_fw_log: "map fst (fh_log sample_fw_host) = [(''ufw'', [''--version'']), ufw_status, ufw_allow 27141,
    (''ufw'', [''--version'']), ufw_delete 27141]"
  by code_simp

theorem only_own_rules_removed_witness:
  "closes LinuxUfw 27141 (fst (fh_log sample_fw_host ! 4)) \<and> opened LinuxUfw 27141 (take 4 (fh_log sample_fw_host))"
proof -
  have len: "length (fh_log sample_fw_host) = 5" using arg_cong[OF sample_fw_log, of length] by simp
  have c: "closes LinuxUfw 27141 (fst (fh_log sample_fw_host ! 4))"
    using arg_cong[OF sample_fw_log, of "\<lambda>xs. xs ! 4"] len by (simp add: nth_map)
  then show ?thesis
    using only_own_rules_removed[OF _ sample_fw_host_def _ c] len by (simp add: sample_fw_env_def)
qed

end
