(* ===== verification/Uninstall.thy ===== *)
theory Uninstall
  imports Firewall "HOL-Library.Sublist"
begin

text \<open>
  \<open>uninstall\<close> and the functions it scans with (\<open>src/main.rs\<close>): what is removed from the disk when
  the program uninstalls itself.  The file system is a list of entries by their absolute paths, in
  the order directories are read; symbolic links are followed as the kernel does.  What cannot be
  read or removed, and the answer typed, are arguments.
\<close>

subsection \<open>The file system\<close>

datatype fs_entry = FileEntry | DirEntry | LinkEntry path

type_synonym file_system = "(path \<times> fs_entry) list"

definition fs_get :: "file_system \<Rightarrow> path \<Rightarrow> fs_entry option" where
  "fs_get fs p = (if p = [''/''] then Some DirEntry else map_of fs p)"

text \<open>The names in a directory, in the order they are read.\<close>

definition fs_names :: "file_system \<Rightarrow> path \<Rightarrow> string list" where
  "fs_names fs p = map (\<lambda>e. last (fst e)) (filter (\<lambda>e. fst e \<noteq> [] \<and> fst e \<noteq> [''/''] \<and> butlast (fst e) = p) fs)"

text \<open>
  Following a path from a directory: the first argument bounds the symbolic links, 40 on Linux.  The
  result has the links still allowed, and the entry's own path.
\<close>

function resolve :: "nat \<Rightarrow> file_system \<Rightarrow> path \<Rightarrow> path \<Rightarrow> (nat \<times> path) option" where
  "resolve n fs dir [] = Some (n, dir)"
| "resolve n fs dir (c # cs) =
     (if fs_get fs dir \<noteq> Some DirEntry then None
      else if c = ''.'' then resolve n fs dir cs
      else if c = ''..'' then resolve n fs (if dir = [''/''] then dir else butlast dir) cs
      else case fs_get fs (dir @ [c]) of
        None \<Rightarrow> None
      | Some (LinkEntry target) \<Rightarrow>
          (if n = 0 then None
           else if take 1 target = [''/''] then resolve (n - 1) fs [''/''] (drop 1 target @ cs)
           else resolve (n - 1) fs dir (target @ cs))
      | Some _ \<Rightarrow> resolve n fs (dir @ [c]) cs)"
  by pat_completeness auto
termination
  by (relation "measures [\<lambda>(n, _, _, _). n, \<lambda>(_, _, _, cs). length cs]") auto

definition MAX_LINKS :: nat where "MAX_LINKS = 40"

text \<open>The platform's answers while the program runs, and the directory relative paths start at.\<close>

record uninstall_env =
  ue_cwd :: path
  ue_list :: "path \<Rightarrow> nat option"
  ue_type :: "path \<Rightarrow> bool"
  ue_remove :: "path \<Rightarrow> path list option"
  ue_answer :: "string result"
  ue_firewall :: fw_env

definition resolve_path :: "uninstall_env \<Rightarrow> file_system \<Rightarrow> path \<Rightarrow> (nat \<times> path) option" where
  "resolve_path env fs p =
     (if take 1 p = [''/''] then resolve MAX_LINKS fs [''/''] (drop 1 p) else resolve MAX_LINKS fs (ue_cwd env) p)"

text \<open>\<open>fs::metadata\<close>, which follows links, and the questions of \<open>Path\<close> that rest on it.\<close>

definition metadata :: "uninstall_env \<Rightarrow> file_system \<Rightarrow> path \<Rightarrow> fs_entry option" where
  "metadata env fs p =
     (if p = [] then None else case resolve_path env fs p of None \<Rightarrow> None | Some (_, q) \<Rightarrow> fs_get fs q)"

definition path_exists :: "uninstall_env \<Rightarrow> file_system \<Rightarrow> path \<Rightarrow> bool" where
  "path_exists env fs p \<longleftrightarrow> metadata env fs p \<noteq> None"

definition path_is_dir :: "uninstall_env \<Rightarrow> file_system \<Rightarrow> path \<Rightarrow> bool" where
  "path_is_dir env fs p \<longleftrightarrow> metadata env fs p = Some DirEntry"

text \<open>The entry a path names itself, a link not followed: what removing the path removes.\<close>

definition entry_at :: "uninstall_env \<Rightarrow> file_system \<Rightarrow> path \<Rightarrow> path option" where
  "entry_at env fs p =
     (case path_file_name p of
        None \<Rightarrow> None
      | Some name \<Rightarrow> (case resolve_path env fs (butlast p) of
          None \<Rightarrow> None
        | Some (_, dir) \<Rightarrow>
            if fs_get fs dir = Some DirEntry \<and> fs_get fs (dir @ [name]) \<noteq> None then Some (dir @ [name]) else None))"

text \<open>
  \<open>fs::read_dir\<close>: the names, and whether reading reaches the end; \<open>ue_list\<close> has the number of
  entries read before it fails.
\<close>

definition read_dir :: "uninstall_env \<Rightarrow> file_system \<Rightarrow> path \<Rightarrow> string list \<times> bool" where
  "read_dir env fs p =
     (case resolve_path env fs p of
        None \<Rightarrow> ([], False)
      | Some (_, q) \<Rightarrow>
          if p = [] \<or> fs_get fs q \<noteq> Some DirEntry then ([], False)
          else case ue_list env p of None \<Rightarrow> (fs_names fs q, True) | Some k \<Rightarrow> (take k (fs_names fs q), False))"

definition unable_to :: "string \<Rightarrow> path \<Rightarrow> string" where
  "unable_to verb p = ''unable to '' @ verb @ '' '' @ path_display p"

definition read_end :: "path \<Rightarrow> bool \<Rightarrow> unit result" where
  "read_end p complete = (if complete then Inr () else Inl (unable_to ''inspect'' p))"

text \<open>\<open>DirEntry::file_type\<close> does not follow links.\<close>

definition entry_type :: "uninstall_env \<Rightarrow> file_system \<Rightarrow> path \<Rightarrow> string \<Rightarrow> fs_entry result" where
  "entry_type env fs p name =
     (case resolve_path env fs p of
        Some (_, q) \<Rightarrow> if ue_type env (p @ [name])
          then ok_or (fs_get fs (q @ [name])) (unable_to ''inspect'' (p @ [name]))
          else Inl (unable_to ''inspect'' (p @ [name]))
      | None \<Rightarrow> Inl (unable_to ''inspect'' (p @ [name])))"

text \<open>
  Removing: a link goes itself, a directory with everything below it.  A removal that fails may
  have removed some of that.
\<close>

definition remove_path :: "uninstall_env \<Rightarrow> path \<Rightarrow> file_system \<Rightarrow> unit result \<times> file_system" where
  "remove_path env p fs =
     (case entry_at env fs p of
        None \<Rightarrow> (Inl (unable_to ''remove'' p), fs)
      | Some q \<Rightarrow> (case ue_remove env p of
          None \<Rightarrow> (Inr (), filter (\<lambda>e. \<not> prefix q (fst e)) fs)
        | Some gone \<Rightarrow> (Inl (unable_to ''remove'' p), filter (\<lambda>e. \<not> (prefix q (fst e) \<and> fst e \<in> set gone)) fs)))"

subsection \<open>What belongs to the program\<close>

fun all_known :: "(string \<Rightarrow> bool result) \<Rightarrow> string list \<Rightarrow> unit result \<Rightarrow> bool result" where
  "all_known known [] ended = and_then ended (\<lambda>_. Inr True)"
| "all_known known (name # names) ended =
     and_then (known name) (\<lambda>k. if k then all_known known names ended else Inr False)"

definition is_known_cache_entry :: "uninstall_env \<Rightarrow> file_system \<Rightarrow> path \<Rightarrow> string \<Rightarrow> bool result" where
  "is_known_cache_entry env fs p name =
     and_then (entry_type env fs p name) (\<lambda>t.
       Inr (t = FileEntry \<and> (name = LEGACY_CACHE_MARKER_FILE_NAME \<or> name = DB_FILE_NAME)))"

definition is_known_cache_dir :: "uninstall_env \<Rightarrow> file_system \<Rightarrow> path \<Rightarrow> bool result" where
  "is_known_cache_dir env fs p =
     (if \<not> path_is_dir env fs p then Inr False
      else case read_dir env fs p of (names, complete) \<Rightarrow>
        all_known (is_known_cache_entry env fs p) names (read_end p complete))"

fun known_names :: "(string \<Rightarrow> bool result) \<Rightarrow> string list \<Rightarrow> unit result \<Rightarrow> string list result" where
  "known_names known [] ended = and_then ended (\<lambda>_. Inr [])"
| "known_names known (name # names) ended =
     and_then (known name) (\<lambda>k. and_then (known_names known names ended) (\<lambda>rest. Inr (if k then name # rest else rest)))"

definition known_cache_file_targets :: "uninstall_env \<Rightarrow> file_system \<Rightarrow> path \<Rightarrow> path list result" where
  "known_cache_file_targets env fs p =
     (if \<not> path_is_dir env fs p then Inr []
      else case read_dir env fs p of (names, complete) \<Rightarrow>
        and_then (known_names (is_known_cache_entry env fs p) names (read_end p complete)) (\<lambda>known.
          Inr (sort_by cmp (map (\<lambda>name. p @ [name]) known))))"

definition APP_FILE_NAMES :: "string list" where
  "APP_FILE_NAMES = [CONFIG_FILE_NAME, FIREWALL_STATE_FILE_NAME, LEGACY_APP_MARKER_FILE_NAME, DB_FILE_NAME]"

definition is_known_app_root_entry :: "uninstall_env \<Rightarrow> file_system \<Rightarrow> path \<Rightarrow> string \<Rightarrow> bool result" where
  "is_known_app_root_entry env fs p name =
     and_then (entry_type env fs p name) (\<lambda>t.
       if name \<in> set APP_FILE_NAMES then Inr (t = FileEntry)
       else if name = CACHE_DIR_NAME then
         (if t = DirEntry then is_known_cache_dir env fs (p @ [name]) else Inr False)
       else Inr False)"

definition contains_only_known_app_artifacts :: "uninstall_env \<Rightarrow> file_system \<Rightarrow> path \<Rightarrow> bool result" where
  "contains_only_known_app_artifacts env fs p =
     (case read_dir env fs p of (names, complete) \<Rightarrow>
       all_known (is_known_app_root_entry env fs p) names (read_end p complete))"

definition is_data_root_entry :: "uninstall_env \<Rightarrow> file_system \<Rightarrow> path \<Rightarrow> string \<Rightarrow> bool result" where
  "is_data_root_entry env fs p name =
     (if name \<noteq> APP_DATA_DIR_NAME then Inr False
      else and_then (entry_type env fs p name) (\<lambda>t. Inr (t = DirEntry)))"

text \<open>The folder must not be empty.\<close>

definition app_dir_contains_only_data_root :: "uninstall_env \<Rightarrow> file_system \<Rightarrow> path \<Rightarrow> bool result" where
  "app_dir_contains_only_data_root env fs p =
     (case read_dir env fs p of (names, complete) \<Rightarrow>
       and_then (all_known (is_data_root_entry env fs p) names (read_end p complete)) (\<lambda>only.
         Inr (only \<and> names \<noteq> [])))"

definition installed_app_dir_uninstall_target :: "uninstall_env \<Rightarrow> app_paths \<Rightarrow> file_system \<Rightarrow> path option result" where
  "installed_app_dir_uninstall_target env paths fs =
     (let root = ap_root_dir paths in
      if ap_portable paths \<or> \<not> ap_generated_config paths \<or> path_file_name root \<noteq> Some APP_DATA_DIR_NAME then Inr None
      else and_then (contains_only_known_app_artifacts env fs root) (\<lambda>known.
        if \<not> known then Inr None
        else case path_parent root of
          None \<Rightarrow> Inr None
        | Some app_dir \<Rightarrow>
            if path_file_name app_dir \<noteq> Some APP_NAME then Inr None
            else and_then (app_dir_contains_only_data_root env fs app_dir) (\<lambda>only.
              Inr (if only then Some app_dir else None))))"

definition push_existing :: "uninstall_env \<Rightarrow> file_system \<Rightarrow> path list \<Rightarrow> path \<Rightarrow> path list" where
  "push_existing env fs targets p = (if path_exists env fs p then targets @ [p] else targets)"

definition known_app_root_targets :: "uninstall_env \<Rightarrow> app_paths \<Rightarrow> file_system \<Rightarrow> path list result" where
  "known_app_root_targets env paths fs =
     (let root = ap_root_dir paths;
          targets = push_existing env fs [] (root @ [CONFIG_FILE_NAME]);
          targets = push_existing env fs targets (root @ [LEGACY_APP_MARKER_FILE_NAME]);
          targets = push_existing env fs targets (root @ [DB_FILE_NAME])
      in and_then (is_known_cache_dir env fs (ap_cache_dir paths)) (\<lambda>known.
         and_then (if known then Inr [ap_cache_dir paths] else known_cache_file_targets env fs (ap_cache_dir paths)) (\<lambda>cache.
         Inr (push_existing env fs (targets @ cache) (root @ [FIREWALL_STATE_FILE_NAME])))))"

definition uninstall_targets :: "uninstall_env \<Rightarrow> app_paths \<Rightarrow> file_system \<Rightarrow> path list result" where
  "uninstall_targets env paths fs =
     (if \<not> path_exists env fs (ap_root_dir paths) then Inr []
      else and_then (installed_app_dir_uninstall_target env paths fs) (\<lambda>app_dir.
        case app_dir of
          Some app_dir \<Rightarrow> Inr [app_dir]
        | None \<Rightarrow> and_then (contains_only_known_app_artifacts env fs (ap_root_dir paths)) (\<lambda>known.
            if known then Inr [ap_root_dir paths] else known_app_root_targets env paths fs)))"

subsection \<open>Uninstalling\<close>

definition has_firewall_cleanup :: "uninstall_env \<Rightarrow> app_paths \<Rightarrow> file_system \<Rightarrow> bool" where
  "has_firewall_cleanup env paths fs \<longleftrightarrow>
     fv_platform (ue_firewall env) = Windows \<or> path_exists env fs (ap_root_dir paths @ [FIREWALL_STATE_FILE_NAME])"

definition remove_uninstall_target :: "uninstall_env \<Rightarrow> path \<Rightarrow> file_system \<Rightarrow> unit result \<times> file_system" where
  "remove_uninstall_target env p fs =
     (case metadata env fs p of
        None \<Rightarrow> (Inl (unable_to ''inspect'' p), fs)
      | Some _ \<Rightarrow> remove_path env p fs)"

fun remove_targets :: "uninstall_env \<Rightarrow> path list \<Rightarrow> file_system \<Rightarrow> unit result \<times> file_system" where
  "remove_targets env [] fs = (Inr (), fs)"
| "remove_targets env (p # ps) fs =
     (case remove_uninstall_target env p fs of
        (Inl e, fs) \<Rightarrow> (Inl e, fs)
      | (Inr _, fs) \<Rightarrow> remove_targets env ps fs)"

text \<open>
  The firewall's own file: when \<open>remove_owned_rules\<close> ends without one, it is gone from the disk.
\<close>

definition remove_firewall_rules ::
  "uninstall_env \<Rightarrow> app_paths \<Rightarrow> file_system \<Rightarrow> fw_host \<Rightarrow> string list result \<times> file_system \<times> fw_host" where
  "remove_firewall_rules env paths fs h =
     (case remove_owned_rules (ue_firewall env) h of (r, h') \<Rightarrow>
       (r, (if fh_file h' = NoFile
            then case entry_at env fs (ap_root_dir paths @ [FIREWALL_STATE_FILE_NAME]) of
              None \<Rightarrow> fs
            | Some q \<Rightarrow> filter (\<lambda>e. fst e \<noteq> q) fs
            else fs), h'))"

datatype uninstall_end = NothingToRemove | Cancelled | Finished "string list" "path list"

definition uninstall ::
  "uninstall_env \<Rightarrow> app_paths \<Rightarrow> bool \<Rightarrow> file_system \<Rightarrow> fw_host
   \<Rightarrow> uninstall_end result \<times> file_system \<times> fw_host" where
  "uninstall env paths assume_yes fs h =
     (case uninstall_targets env paths fs of
        Inl e \<Rightarrow> (Inl e, fs, h)
      | Inr targets \<Rightarrow>
          let cleanup = has_firewall_cleanup env paths fs in
          if targets = [] \<and> \<not> cleanup then (Inr NothingToRemove, fs, h)
          else case (if assume_yes then Inr True else and_then (ue_answer env) (\<lambda>answer. Inr (trim answer = ''DELETE''))) of
            Inl e \<Rightarrow> (Inl e, fs, h)
          | Inr False \<Rightarrow> (Inr Cancelled, fs, h)
          | Inr True \<Rightarrow>
              (case (if cleanup then remove_firewall_rules env paths fs h else (Inr [], fs, h)) of
                 (Inl e, fs, h) \<Rightarrow> (Inl e, fs, h)
               | (Inr messages, fs, h) \<Rightarrow>
                   (case remove_targets env targets fs of
                      (Inl e, fs) \<Rightarrow> (Inl e, fs, h)
                    | (Inr _, fs) \<Rightarrow> (Inr (Finished messages targets), fs, h))))"

subsection \<open>Smaller file systems\<close>

declare resolve.simps(2) [simp del]

definition sub_fs :: "file_system \<Rightarrow> file_system \<Rightarrow> bool" where
  "sub_fs fs' fs \<longleftrightarrow> (\<forall>p e. fs_get fs' p = Some e \<longrightarrow> fs_get fs p = Some e)"

lemma sub_fs_refl [simp]: "sub_fs fs fs"
  by (simp add: sub_fs_def)

lemma sub_fs_trans: "sub_fs a b \<Longrightarrow> sub_fs b c \<Longrightarrow> sub_fs a c"
  by (simp add: sub_fs_def)

lemma fs_get_filter:
  "fs_get (filter (\<lambda>e. P (fst e)) fs) p = (if p \<noteq> [''/''] \<and> \<not> P p then None else fs_get fs p)"
proof -
  have "map_of (filter (\<lambda>e. P (fst e)) fs) p = (if P p then map_of fs p else None)"
    by (induction fs) auto
  then show ?thesis by (simp add: fs_get_def)
qed

lemma sub_fs_filter [simp]: "sub_fs (filter (\<lambda>e. P (fst e)) fs) fs"
  by (simp add: sub_fs_def fs_get_filter)

lemma resolve_mono:
  "sub_fs fs' fs \<Longrightarrow> resolve n fs' dir p = Some r \<Longrightarrow> resolve n fs dir p = Some r"
proof (induction n fs' dir p rule: resolve.induct)
  case (2 n fs' dir c cs)
  have get: "fs_get fs' p = Some e \<Longrightarrow> fs_get fs p = Some e" for p e using "2.prems"(1) by (simp add: sub_fs_def)
  have step: "resolve n fs' dir (c # cs) = Some r" and dir: "fs_get fs dir = Some DirEntry" "fs_get fs' dir = Some DirEntry"
    using "2.prems" get[of dir] by (auto simp: resolve.simps(2)[of n fs'] split: if_splits)
  show ?case
  proof (cases "c = ''.'' \<or> c = ''..''")
    case True
    then show ?thesis
      using step dir "2.IH"(1,2) "2.prems"(1) by (auto simp: resolve.simps(2)[of n])
  next
    case False
    with step dir obtain e where e: "fs_get fs' (dir @ [c]) = Some e"
      by (cases "fs_get fs' (dir @ [c])") (simp_all add: resolve.simps(2)[of n])
    show ?thesis
      using step dir False e get[OF e] "2.IH"(3-) "2.prems"(1)
      by (cases e) (simp_all add: resolve.simps(2)[of n] split: if_splits)
  qed
qed simp

lemma resolve_append:
  "resolve n fs dir (p @ q) = (case resolve n fs dir p of None \<Rightarrow> None | Some (m, d) \<Rightarrow> resolve m fs d q)"
proof (induction n fs dir p rule: resolve.induct)
  case (2 n fs dir c cs)
  show ?case
  proof (cases "fs_get fs (dir @ [c])")
    case None
    then show ?thesis using "2.IH"(1,2) by (simp add: resolve.simps(2))
  next
    case (Some e)
    then show ?thesis using "2.IH" by (cases e) (simp_all add: resolve.simps(2))
  qed
qed simp

lemma resolve_path_mono: "sub_fs fs' fs \<Longrightarrow> resolve_path env fs' p = Some r \<Longrightarrow> resolve_path env fs p = Some r"
  by (auto simp: resolve_path_def resolve_mono split: if_splits)

lemma entry_at_mono:
  assumes "sub_fs fs' fs" and "entry_at env fs' p = Some q"
  shows "entry_at env fs p = Some q"
proof -
  obtain name k dir where p: "path_file_name p = Some name" "resolve_path env fs' (butlast p) = Some (k, dir)"
    "fs_get fs' dir = Some DirEntry" "fs_get fs' (dir @ [name]) \<noteq> None" "q = dir @ [name]"
    using assms(2) by (auto simp: entry_at_def split: option.splits prod.splits if_splits)
  then have "fs_get fs dir = Some DirEntry" "fs_get fs (dir @ [name]) \<noteq> None"
    using assms(1) by (auto simp: sub_fs_def)
  then show ?thesis using p resolve_path_mono[OF assms(1) p(2)] by (simp add: entry_at_def)
qed

subsection \<open>Removing a target\<close>

lemma removed_below:
  assumes "remove_uninstall_target env p fs = (r, fs')"
  shows "sub_fs fs' fs \<and> (fs_get fs q \<noteq> None \<and> fs_get fs' q = None \<longrightarrow> (\<exists>e. entry_at env fs p = Some e \<and> prefix e q))"
proof (cases "metadata env fs p = None \<or> entry_at env fs p = None")
  case True
  then show ?thesis using assms by (auto simp: remove_uninstall_target_def remove_path_def split: option.splits)
next
  case False
  then obtain e where e: "entry_at env fs p = Some e" by auto
  have "\<exists>P. fs' = filter (\<lambda>x. P (fst x)) fs \<and> (\<forall>x. \<not> P x \<longrightarrow> prefix e x)"
  proof (cases "ue_remove env p")
    case None
    then show ?thesis
      using assms False e
      by (auto simp: remove_uninstall_target_def remove_path_def intro!: exI[of _ "\<lambda>x. \<not> prefix e x"])
  next
    case (Some gone)
    then show ?thesis
      using assms False e
      by (auto simp: remove_uninstall_target_def remove_path_def intro!: exI[of _ "\<lambda>x. \<not> (prefix e x \<and> x \<in> set gone)"])
  qed
  then show ?thesis using e by (auto simp: fs_get_filter split: if_splits)
qed

lemma removed_targets_sub: "remove_targets env ps fs = (r, fs') \<Longrightarrow> sub_fs fs' fs"
proof (induction ps arbitrary: fs)
  case (Cons p ps)
  obtain r1 fs1 where one: "remove_uninstall_target env p fs = (r1, fs1)" by fastforce
  then have "sub_fs fs1 fs" using removed_below by blast
  then show ?case using Cons one by (cases r1) (auto intro: sub_fs_trans)
qed simp

lemma all_removed_below:
  assumes "remove_targets env ps fs = (r, fs')" and "fs_get fs q \<noteq> None" and "fs_get fs' q = None"
  shows "\<exists>p\<in>set ps. \<exists>e. entry_at env fs p = Some e \<and> prefix e q"
  using assms
proof (induction ps arbitrary: fs)
  case (Cons p ps)
  obtain r1 fs1 where one: "remove_uninstall_target env p fs = (r1, fs1)" by fastforce
  note below = removed_below[OF one, of q]
  show ?case
  proof (cases "fs_get fs1 q = None")
    case True
    then show ?thesis using below Cons.prems(2) by auto
  next
    case False
    then have "remove_targets env ps fs1 = (r, fs')" using Cons.prems(1,3) one by (cases r1) auto
    from Cons.IH[OF this False Cons.prems(3)] obtain p' e where "p' \<in> set ps" "entry_at env fs1 p' = Some e" "prefix e q"
      by auto
    moreover have "sub_fs fs1 fs" using below by simp
    ultimately show ?thesis using entry_at_mono by auto
  qed
qed simp

subsection \<open>What a folder holds\<close>

text \<open>Every entry has an absolute path with a proper name, and lies in a directory.\<close>

definition wf_entry :: "file_system \<Rightarrow> path \<Rightarrow> bool" where
  "wf_entry fs p \<longleftrightarrow> 2 \<le> length p \<and> last p \<notin> {''/'', ''.'', ''..''} \<and> fs_get fs (butlast p) = Some DirEntry"

definition wf_fs :: "file_system \<Rightarrow> bool" where
  "wf_fs fs \<longleftrightarrow> (\<forall>e\<in>set fs. wf_entry fs (fst e))"

lemma wf_entryD:
  assumes "wf_fs fs" and "fs_get fs p = Some e" and "p \<noteq> [''/'']"
  shows "wf_entry fs p \<and> (p, e) \<in> set fs"
  using assms by (auto simp: wf_fs_def fs_get_def dest!: map_of_SomeD)

lemma wf_path: "wf_fs fs \<Longrightarrow> fs_get fs p = Some e \<Longrightarrow> p \<noteq> []"
  using wf_entryD[of fs p e] by (auto simp: wf_entry_def)

lemma wf_child:
  assumes "wf_fs fs" and "fs_get fs (p @ [c]) = Some e" and "p \<noteq> []"
  shows "c \<notin> {''/'', ''.'', ''..''} \<and> fs_get fs p = Some DirEntry \<and> c \<in> set (fs_names fs p)"
proof -
  have "p @ [c] \<noteq> [''/'']" using assms(3) by simp
  from wf_entryD[OF assms(1,2) this] have "wf_entry fs (p @ [c])" "(p @ [c], e) \<in> set fs" by auto
  then show ?thesis using assms(3) by (force simp: wf_entry_def fs_names_def)
qed

lemma wf_above:
  assumes "wf_fs fs" and "fs_get fs (p @ r) \<noteq> None" and "r \<noteq> []" and "p \<noteq> []"
  shows "fs_get fs p = Some DirEntry"
  using assms(2,3)
proof (induction r rule: rev_induct)
  case (snoc c r)
  have "fs_get fs ((p @ r) @ [c]) \<noteq> None" using snoc.prems(1) by simp
  then have "fs_get fs (p @ r) = Some DirEntry"
    using wf_child[OF assms(1), of "p @ r" c] assms(4) by auto
  then show ?case using snoc.IH by (cases r) auto
qed simp

lemma all_known_True:
  "all_known known names ended = Inr True \<longleftrightarrow> (\<forall>name\<in>set names. known name = Inr True) \<and> ended = Inr ()"
proof (induction names)
  case Nil
  then show ?case by (cases ended) simp_all
next
  case (Cons name names)
  then show ?case by (cases "known name") auto
qed

lemma read_dir_complete:
  assumes "read_dir env fs p = (names, True)"
  shows "\<exists>k d. resolve_path env fs p = Some (k, d) \<and> fs_get fs d = Some DirEntry \<and> names = fs_names fs d"
  using assms by (auto simp: read_dir_def split: option.splits prod.splits if_splits)

lemma read_end_iff [simp]: "read_end p complete = Inr () \<longleftrightarrow> complete"
  by (simp add: read_end_def)

text \<open>A folder of which every entry is known.\<close>

lemma scanned:
  assumes "wf_fs fs" and "read_dir env fs p = (names, complete)" and "all_known known names (read_end p complete) = Inr True"
  obtains k d where "resolve_path env fs p = Some (k, d)" "fs_get fs d = Some DirEntry"
    "\<And>c t. fs_get fs (d @ [c]) = Some t \<Longrightarrow> known c = Inr True \<and> c \<notin> {''/'', ''.'', ''..''}"
proof -
  have all: "complete" "\<forall>c\<in>set names. known c = Inr True" using assms(3) by (simp_all add: all_known_True)
  with read_dir_complete[of env fs p names] assms(2) obtain k d
    where d: "resolve_path env fs p = Some (k, d)" "fs_get fs d = Some DirEntry" "names = fs_names fs d" by auto
  then show ?thesis using that[OF d(1,2)] all(2) wf_child[OF assms(1)] wf_path[OF assms(1) d(2)] by metis
qed

text \<open>The entry of such a folder that a regular file in it is, or lies below.\<close>

lemma scanned_file:
  assumes "wf_fs fs" and "read_dir env fs p = (names, complete)" and "all_known known names (read_end p complete) = Inr True"
    and "resolve_path env fs p = Some (k, d)" and "fs_get fs (d @ c # r) = Some FileEntry"
  obtains t where "known c = Inr True" "c \<notin> {''/'', ''.'', ''..''}" "fs_get fs d = Some DirEntry" "fs_get fs (d @ [c]) = Some t"
    "r = [] \<and> t = FileEntry \<or> (\<exists>c' r'. r = c' # r') \<and> t = DirEntry"
proof -
  obtain dir: "fs_get fs d = Some DirEntry"
    and all: "\<And>c t. fs_get fs (d @ [c]) = Some t \<Longrightarrow> known c = Inr True \<and> c \<notin> {''/'', ''.'', ''..''}"
    using scanned[OF assms(1-3)] assms(4) by (metis Pair_inject option.inject)
  show thesis
  proof (cases r)
    case Nil
    then show thesis using that[of FileEntry] all[of c FileEntry] dir assms(5) by simp
  next
    case (Cons c' r')
    then have "fs_get fs (d @ [c]) = Some DirEntry" using wf_above[OF assms(1), of "d @ [c]" r] assms(5) by simp
    then show thesis using that[of DirEntry] all[of c DirEntry] dir Cons by simp
  qed
qed

lemma entry_type_resolved:
  assumes "entry_type env fs p c = Inr t" and "resolve_path env fs p = Some (k, d)"
  shows "fs_get fs (d @ [c]) = Some t"
  using assms by (auto simp: entry_type_def ok_or_def split: if_splits option.splits)

subsection \<open>Where a path leads\<close>

lemma entry_atD:
  assumes "entry_at env fs p = Some e"
  obtains k d name where "p = butlast p @ [name]" "name \<notin> {''/'', ''.'', ''..''}" "resolve_path env fs (butlast p) = Some (k, d)"
    "fs_get fs d = Some DirEntry" "e = d @ [name]" "fs_get fs e \<noteq> None"
proof -
  obtain name k d where *: "path_file_name p = Some name" "resolve_path env fs (butlast p) = Some (k, d)"
    "fs_get fs d = Some DirEntry" "fs_get fs (d @ [name]) \<noteq> None" "e = d @ [name]"
    using assms by (auto simp: entry_at_def split: option.splits prod.splits if_splits)
  then have "p = butlast p @ [name]" "name \<notin> {''/'', ''.'', ''..''}"
    by (auto simp: path_file_name_def split: if_splits)
  with * show thesis using that by simp
qed

lemma resolve_child:
  assumes "resolve_path env fs p = Some (k, d)" and "fs_get fs d = Some DirEntry"
    and "c \<notin> {''/'', ''.'', ''..''}" and "fs_get fs (d @ [c]) = Some t" and "t = FileEntry \<or> t = DirEntry"
  shows "resolve_path env fs (p @ [c]) = Some (k, d @ [c])"
proof -
  have "take 1 (p @ [c]) = [''/''] \<longleftrightarrow> take 1 p = [''/'']" "take 1 p = [''/''] \<Longrightarrow> drop 1 (p @ [c]) = drop 1 p @ [c]"
    using assms(3) by (cases p; simp)+
  then show ?thesis
    using assms by (auto simp: resolve_path_def resolve_append resolve.simps(2)[of _ fs d] split: if_splits)
qed

lemma entry_at_child:
  assumes "resolve_path env fs p = Some (k, d)" and "fs_get fs d = Some DirEntry"
    and "c \<notin> {''/'', ''.'', ''..''}" and "fs_get fs (d @ [c]) \<noteq> None"
  shows "entry_at env fs (p @ [c]) = Some (d @ [c])"
  using assms by (simp add: entry_at_def path_file_name_def)

text \<open>A regular file at or below the entry of a path: links only lead to the path's folder.\<close>

lemma file_below:
  assumes "wf_fs fs" and "entry_at env fs p = Some e" and "prefix e q" and "fs_get fs q = Some FileEntry"
  obtains "q = e" | k c r where "resolve_path env fs p = Some (k, e)" "fs_get fs e = Some DirEntry" "q = e @ c # r" "e \<noteq> []"
proof (cases "q = e")
  case False
  with assms(3) obtain c r where q: "q = e @ c # r" by (metis append_Nil2 neq_Nil_conv prefix_def)
  obtain k d name where e: "p = butlast p @ [name]" "name \<notin> {''/'', ''.'', ''..''}" "resolve_path env fs (butlast p) = Some (k, d)"
    "fs_get fs d = Some DirEntry" "e = d @ [name]" "fs_get fs e \<noteq> None"
    by (rule entry_atD[OF assms(2)])
  have dir: "fs_get fs e = Some DirEntry" using wf_above[OF assms(1), of e "c # r"] assms(4) q e(5) by simp
  have "resolve_path env fs p = Some (k, e)" using resolve_child[OF e(3,4,2), of DirEntry] e(1,5) dir by metis
  then show thesis using that(2) dir q e(5) by simp
qed (use that(1) in simp)

subsection \<open>The program's own files\<close>

definition CACHE_FILE_NAMES :: "string list" where
  "CACHE_FILE_NAMES = [LEGACY_CACHE_MARKER_FILE_NAME, DB_FILE_NAME]"

definition own_file :: "uninstall_env \<Rightarrow> app_paths \<Rightarrow> file_system \<Rightarrow> path \<Rightarrow> bool" where
  "own_file env paths fs q \<longleftrightarrow>
     (\<exists>name\<in>set APP_FILE_NAMES. entry_at env fs (ap_root_dir paths @ [name]) = Some q)
     \<or> (\<exists>name\<in>set CACHE_FILE_NAMES. entry_at env fs (ap_cache_dir paths @ [name]) = Some q)"

lemma known_cache_entryD:
  "is_known_cache_entry env fs p c = Inr True \<Longrightarrow> entry_type env fs p c = Inr FileEntry \<and> c \<in> set CACHE_FILE_NAMES"
  by (auto simp: is_known_cache_entry_def and_then_Inr_iff CACHE_FILE_NAMES_def)

lemma cache_contents:
  assumes "wf_fs fs" and "is_known_cache_dir env fs (ap_cache_dir paths) = Inr True"
    and "resolve_path env fs (ap_cache_dir paths) = Some (k, d)" and "fs_get fs (d @ c # r) = Some FileEntry"
  shows "own_file env paths fs (d @ c # r)"
proof -
  let ?p = "ap_cache_dir paths"
  obtain names complete where "read_dir env fs ?p = (names, complete)"
    "all_known (is_known_cache_entry env fs ?p) names (read_end ?p complete) = Inr True"
    using assms(2) by (auto simp: is_known_cache_dir_def split: if_splits prod.splits)
  then obtain t where t: "is_known_cache_entry env fs ?p c = Inr True" "c \<notin> {''/'', ''.'', ''..''}" "fs_get fs d = Some DirEntry"
    "fs_get fs (d @ [c]) = Some t" "r = [] \<and> t = FileEntry \<or> (\<exists>c' r'. r = c' # r') \<and> t = DirEntry"
    by (rule scanned_file[OF assms(1) _ _ assms(3,4)])
  have "t = FileEntry" "c \<in> set CACHE_FILE_NAMES"
    using known_cache_entryD[OF t(1)] entry_type_resolved[OF _ assms(3), of c] t(4) by auto
  then show ?thesis using entry_at_child[OF assms(3) t(3,2)] t(4,5) by (auto simp: own_file_def)
qed

lemma root_contents:
  assumes "wf_fs fs" and "contains_only_known_app_artifacts env fs (ap_root_dir paths) = Inr True"
    and cache: "ap_cache_dir paths = ap_root_dir paths @ [CACHE_DIR_NAME]"
    and "resolve_path env fs (ap_root_dir paths) = Some (k, d)" and "fs_get fs (d @ c # r) = Some FileEntry"
  shows "own_file env paths fs (d @ c # r)"
proof -
  let ?p = "ap_root_dir paths"
  obtain names complete where "read_dir env fs ?p = (names, complete)"
    "all_known (is_known_app_root_entry env fs ?p) names (read_end ?p complete) = Inr True"
    using assms(2) by (auto simp: contains_only_known_app_artifacts_def split: prod.splits)
  then obtain t where t: "is_known_app_root_entry env fs ?p c = Inr True" "c \<notin> {''/'', ''.'', ''..''}" "fs_get fs d = Some DirEntry"
    "fs_get fs (d @ [c]) = Some t" "r = [] \<and> t = FileEntry \<or> (\<exists>c' r'. r = c' # r') \<and> t = DirEntry"
    by (rule scanned_file[OF assms(1) _ _ assms(4,5)])
  have ty: "if c \<in> set APP_FILE_NAMES then t = FileEntry
     else c = CACHE_DIR_NAME \<and> t = DirEntry \<and> is_known_cache_dir env fs (?p @ [c]) = Inr True"
    using t(1,4) entry_type_resolved[OF _ assms(4), of c]
    by (auto simp: is_known_app_root_entry_def and_then_Inr_iff split: if_splits)
  show ?thesis
  proof (cases "c \<in> set APP_FILE_NAMES")
    case True
    then show ?thesis using entry_at_child[OF assms(4) t(3,2)] ty t(4,5) by (auto simp: own_file_def)
  next
    case False
    then have c: "c = CACHE_DIR_NAME" "fs_get fs (d @ [c]) = Some DirEntry" "is_known_cache_dir env fs (?p @ [c]) = Inr True"
      using ty t(4) by auto
    have "resolve_path env fs (ap_cache_dir paths) = Some (k, d @ [c])"
      using resolve_child[OF assms(4) t(3,2) c(2)] c(1) cache by simp
    moreover obtain c' r' where "r = c' # r'" using False ty t(5) by auto
    ultimately show ?thesis
      using cache_contents[OF assms(1), of env paths k "d @ [c]" c' r'] c(1,3) cache assms(5) by simp
  qed
qed

lemma app_dir_contents:
  assumes "wf_fs fs" and "installed_app_dir_uninstall_target env paths fs = Inr (Some p)"
    and cache: "ap_cache_dir paths = ap_root_dir paths @ [CACHE_DIR_NAME]"
    and "resolve_path env fs p = Some (k, d)" and "fs_get fs (d @ c # r) = Some FileEntry"
  shows "own_file env paths fs (d @ c # r)"
proof -
  have found: "contains_only_known_app_artifacts env fs (ap_root_dir paths) = Inr True" "path_parent (ap_root_dir paths) = Some p"
    "path_file_name (ap_root_dir paths) = Some APP_DATA_DIR_NAME" "app_dir_contains_only_data_root env fs p = Inr True"
    using assms(2)
    by (auto simp: installed_app_dir_uninstall_target_def Let_def and_then_Inr_iff split: if_splits option.splits)
  have "ap_root_dir paths \<noteq> []" "last (ap_root_dir paths) = APP_DATA_DIR_NAME" "p = butlast (ap_root_dir paths)"
    using found(2,3) by (auto simp: path_parent_def path_file_name_def split: if_splits)
  then have root: "ap_root_dir paths = p @ [APP_DATA_DIR_NAME]" by (metis append_butlast_last_id)
  obtain names complete where "read_dir env fs p = (names, complete)"
    "all_known (is_data_root_entry env fs p) names (read_end p complete) = Inr True"
    using found(4) by (auto simp: app_dir_contains_only_data_root_def and_then_Inr_iff split: prod.splits)
  then obtain t where t: "is_data_root_entry env fs p c = Inr True" "c \<notin> {''/'', ''.'', ''..''}" "fs_get fs d = Some DirEntry"
    "fs_get fs (d @ [c]) = Some t" "r = [] \<and> t = FileEntry \<or> (\<exists>c' r'. r = c' # r') \<and> t = DirEntry"
    by (rule scanned_file[OF assms(1) _ _ assms(4,5)])
  have c: "c = APP_DATA_DIR_NAME" "t = DirEntry"
    using t(1,4) entry_type_resolved[OF _ assms(4), of c] by (auto simp: is_data_root_entry_def and_then_Inr_iff split: if_splits)
  then have "resolve_path env fs (ap_root_dir paths) = Some (k, d @ [c])"
    using resolve_child[OF assms(4) t(3,2,4)] root by simp
  moreover obtain c' r' where "r = c' # r'" using c(2) t(5) by auto
  ultimately show ?thesis
    using root_contents[OF assms(1) found(1) cache, of k "d @ [c]" c' r'] assms(5) by simp
qed

text \<open>What the files among the targets of a folder with unknown files are.\<close>

definition app_names_are_files :: "uninstall_env \<Rightarrow> app_paths \<Rightarrow> file_system \<Rightarrow> bool" where
  "app_names_are_files env paths fs \<longleftrightarrow>
     list_all (\<lambda>name. case entry_at env fs (ap_root_dir paths @ [name]) of None \<Rightarrow> True
       | Some q \<Rightarrow> fs_get fs q \<noteq> Some DirEntry) APP_FILE_NAMES"

lemma known_names_known: "known_names known names ended = Inr found \<Longrightarrow> c \<in> set found \<Longrightarrow> known c = Inr True"
  by (induction names arbitrary: found) (auto simp: and_then_Inr_iff split: if_splits)

lemma app_file_below:
  assumes "wf_fs fs" and "app_names_are_files env paths fs" and "name \<in> set APP_FILE_NAMES"
    and "entry_at env fs (ap_root_dir paths @ [name]) = Some e" and "prefix e q" and "fs_get fs q = Some FileEntry"
  shows "own_file env paths fs q"
proof -
  have "fs_get fs e \<noteq> Some DirEntry" using assms(2-4) by (auto simp: app_names_are_files_def list_all_iff)
  then have "q = e" using file_below[OF assms(1,4-6)] by metis
  then show ?thesis using assms(3,4) by (auto simp: own_file_def)
qed

lemma cache_file_below:
  assumes "wf_fs fs" and "known_cache_file_targets env fs (ap_cache_dir paths) = Inr targets" and "p \<in> set targets"
    and "entry_at env fs p = Some e" and "prefix e q" and "fs_get fs q = Some FileEntry"
  shows "own_file env paths fs q"
proof -
  let ?p = "ap_cache_dir paths"
  obtain c where c: "p = ?p @ [c]" "is_known_cache_entry env fs ?p c = Inr True"
    using assms(2,3) known_names_known
    by (fastforce simp: known_cache_file_targets_def and_then_Inr_iff split: if_splits prod.splits)
  obtain k d where d: "resolve_path env fs ?p = Some (k, d)" "e = d @ [c]"
    by (rule entry_atD[OF assms(4)]) (use c(1) in auto)
  have "fs_get fs e = Some FileEntry" "c \<in> set CACHE_FILE_NAMES"
    using known_cache_entryD[OF c(2)] entry_type_resolved[OF _ d(1), of c] d(2) by auto
  then have "q = e" by (auto intro: file_below[OF assms(1,4-6)])
  then show ?thesis using assms(4) c(1) \<open>c \<in> set CACHE_FILE_NAMES\<close> by (auto simp: own_file_def)
qed

lemma set_push_existing: "p \<in> set (push_existing env fs targets x) \<longleftrightarrow> p \<in> set targets \<or> p = x \<and> path_exists env fs x"
  by (auto simp: push_existing_def)

lemma known_target_cases:
  assumes "known_app_root_targets env paths fs = Inr targets" and "p \<in> set targets"
  obtains name where "name \<in> set APP_FILE_NAMES" "p = ap_root_dir paths @ [name]"
  | "p = ap_cache_dir paths" "is_known_cache_dir env fs (ap_cache_dir paths) = Inr True"
  | cs where "known_cache_file_targets env fs (ap_cache_dir paths) = Inr cs" "p \<in> set cs"
proof -
  obtain known cs where known: "is_known_cache_dir env fs (ap_cache_dir paths) = Inr known"
    "(if known then Inr [ap_cache_dir paths] else known_cache_file_targets env fs (ap_cache_dir paths)) = Inr cs"
    "p \<in> set cs \<or> (\<exists>name\<in>set APP_FILE_NAMES. p = ap_root_dir paths @ [name])"
    using assms
    by (auto simp: known_app_root_targets_def Let_def and_then_Inr_iff set_push_existing APP_FILE_NAMES_def)
  show thesis
  proof (cases "p \<in> set cs")
    case True
    then show thesis using that(2,3) known(1,2) by (cases known) auto
  qed (use known(3) that(1) in auto)
qed

lemma targets_own:
  assumes wf: "wf_fs fs" and cache: "ap_cache_dir paths = ap_root_dir paths @ [CACHE_DIR_NAME]"
    and names: "app_names_are_files env paths fs" and targets: "uninstall_targets env paths fs = Inr targets" "p \<in> set targets"
    and below: "entry_at env fs p = Some e" "prefix e q" "fs_get fs q = Some FileEntry"
  shows "own_file env paths fs q"
proof -
  let ?root = "ap_root_dir paths"
  have folder: "own_file env paths fs q"
    if "\<exists>k d. resolve_path env fs p = Some (k, d) \<and> fs_get fs d = Some DirEntry"
      and "\<And>k d c r. resolve_path env fs p = Some (k, d) \<Longrightarrow> fs_get fs (d @ c # r) = Some FileEntry \<Longrightarrow> own_file env paths fs (d @ c # r)"
  proof (rule file_below[OF wf below])
    assume "q = e"
    obtain k d name where e: "p = butlast p @ [name]" "name \<notin> {''/'', ''.'', ''..''}" "resolve_path env fs (butlast p) = Some (k, d)"
      "fs_get fs d = Some DirEntry" "e = d @ [name]" by (rule entry_atD[OF below(1)])
    have "fs_get fs (d @ [name]) = Some FileEntry" using \<open>q = e\<close> below(3) e(5) by simp
    from resolve_child[OF e(3,4,2) this] e(1,5) have "resolve_path env fs p = Some (k, e)" by metis
    then show ?thesis using that(1) \<open>q = e\<close> below(3) by simp
  qed (use that(2) below(3) in simp)
  have dir: "\<exists>k d. resolve_path env fs p = Some (k, d) \<and> fs_get fs d = Some DirEntry"
    if "read_dir env fs p = (ns, c)" and "all_known f ns (read_end p c) = Inr True" for ns c f
    by (rule scanned[OF wf that]) blast
  consider (app) "installed_app_dir_uninstall_target env paths fs = Inr (Some p)"
    | (root) "p = ?root" "contains_only_known_app_artifacts env fs ?root = Inr True"
    | (known) "known_app_root_targets env paths fs = Inr targets"
    using targets by (auto simp: uninstall_targets_def and_then_Inr_iff split: if_splits option.splits)
  then show ?thesis
  proof cases
    case app
    then have "app_dir_contains_only_data_root env fs p = Inr True"
      by (auto simp: installed_app_dir_uninstall_target_def Let_def and_then_Inr_iff split: if_splits option.splits)
    then show ?thesis
      using folder[OF _ app_dir_contents[OF wf app cache]] dir
      by (auto simp: app_dir_contains_only_data_root_def and_then_Inr_iff split: prod.splits)
  next
    case root
    then show ?thesis
      using folder[unfolded root(1), OF _ root_contents[OF wf root(2) cache]] dir
      by (auto simp: contains_only_known_app_artifacts_def split: prod.splits)
  next
    case known
    then consider (name) name where "name \<in> set APP_FILE_NAMES" "p = ?root @ [name]"
      | (cache_dir) "p = ap_cache_dir paths" "is_known_cache_dir env fs (ap_cache_dir paths) = Inr True"
      | (cache_file) cs where "known_cache_file_targets env fs (ap_cache_dir paths) = Inr cs" "p \<in> set cs"
      by (rule known_target_cases[OF _ targets(2)])
    then show ?thesis
    proof cases
      case name
      then show ?thesis using app_file_below[OF wf names] below by simp
    next
      case cache_dir
      then show ?thesis
        using folder[unfolded cache_dir(1), OF _ cache_contents[OF wf cache_dir(2)]] dir
        by (auto simp: is_known_cache_dir_def split: prod.splits if_splits)
    next
      case cache_file
      then show ?thesis using cache_file_below[OF wf _ _ below] by blast
    qed
  qed
qed

text \<open>What a run that changes the disk has done.\<close>

lemma uninstall_steps:
  assumes "uninstall env paths assume_yes fs h = (r, fs', h')" and "fs' \<noteq> fs"
  obtains targets r1 fs1 h1 r2 fs2 where "uninstall_targets env paths fs = Inr targets"
    "assume_yes \<or> (\<exists>answer. ue_answer env = Inr answer \<and> trim answer = ''DELETE'')"
    "(r1, fs1, h1) = remove_firewall_rules env paths fs h \<or> fs1 = fs"
    "remove_targets env targets fs1 = (r2, fs2)" "fs' = fs1 \<or> fs' = fs2"
proof -
  obtain targets where targets: "uninstall_targets env paths fs = Inr targets"
    using assms by (cases "uninstall_targets env paths fs") (simp_all add: uninstall_def)
  let ?cleanup = "has_firewall_cleanup env paths fs"
  let ?asked = "if assume_yes then Inr True else and_then (ue_answer env) (\<lambda>answer. Inr (trim answer = ''DELETE''))"
  have some: "\<not> (targets = [] \<and> \<not> ?cleanup)"
  proof
    assume "targets = [] \<and> \<not> ?cleanup"
    then show False using assms targets by (simp add: uninstall_def Let_def)
  qed
  have yes: "?asked = Inr True"
  proof (cases ?asked)
    case (Inr b)
    then show ?thesis using assms targets some by (cases b) (simp_all add: uninstall_def Let_def)
  qed (use assms targets some in \<open>simp add: uninstall_def Let_def\<close>)
  obtain r1 fs1 h1 where one: "(if ?cleanup then remove_firewall_rules env paths fs h else (Inr [], fs, h)) = (r1, fs1, h1)"
    by (metis prod_cases3)
  obtain r2 fs2 where two: "remove_targets env targets fs1 = (r2, fs2)" by fastforce
  have "fs' = fs1 \<or> fs' = fs2"
    using assms(1) targets some yes one two unfolding uninstall_def Let_def
    by (cases r1; cases r2) simp_all
  moreover have "assume_yes \<or> (\<exists>answer. ue_answer env = Inr answer \<and> trim answer = ''DELETE'')"
    using yes by (simp add: and_then_Inr_iff split: if_splits)
  moreover have "(r1, fs1, h1) = remove_firewall_rules env paths fs h \<or> fs1 = fs" using one by (auto split: if_splits)
  ultimately show thesis using that targets two by blast
qed

lemma firewall_file_removed:
  assumes "remove_firewall_rules env paths fs h = (r, fs', h')"
  shows "sub_fs fs' fs \<and> (fs_get fs q \<noteq> None \<and> fs_get fs' q = None \<longrightarrow>
     entry_at env fs (ap_root_dir paths @ [FIREWALL_STATE_FILE_NAME]) = Some q)"
proof -
  have "fs' = fs \<or> (\<exists>e. entry_at env fs (ap_root_dir paths @ [FIREWALL_STATE_FILE_NAME]) = Some e
      \<and> fs' = filter (\<lambda>x. fst x \<noteq> e) fs)"
    using assms by (auto simp: remove_firewall_rules_def split: prod.splits if_splits option.splits)
  then show ?thesis by (auto simp: fs_get_filter[of "\<lambda>x. x \<noteq> _"] sub_fs_filter[of "\<lambda>x. x \<noteq> _"] split: if_splits)
qed

text \<open>
  C39: Uninstalling removes no file but the program's own: the configuration, the database, the
  firewall's file and the marker of an older version in the data folder, and the database and the
  marker in its cache folder; and nothing at all before it is confirmed.  This holds whatever else
  the folders contain, whichever links lead to them, and wherever reading or removing fails, as long
  as none of the four names is a folder.
\<close>

theorem uninstall_removes_only_its_own:
  assumes "wf_fs fs" and "ap_cache_dir paths = ap_root_dir paths @ [CACHE_DIR_NAME]" and "app_names_are_files env paths fs"
    and "uninstall env paths assume_yes fs h = (r, fs', h')" and "fs_get fs q = Some FileEntry" and "fs_get fs' q \<noteq> Some FileEntry"
  shows "own_file env paths fs q \<and> (assume_yes \<or> (\<exists>answer. ue_answer env = Inr answer \<and> trim answer = ''DELETE''))"
proof -
  have "fs' \<noteq> fs" using assms(5,6) by auto
  then obtain targets r1 fs1 h1 r2 fs2 where run: "uninstall_targets env paths fs = Inr targets"
    "assume_yes \<or> (\<exists>answer. ue_answer env = Inr answer \<and> trim answer = ''DELETE'')"
    "(r1, fs1, h1) = remove_firewall_rules env paths fs h \<or> fs1 = fs"
    "remove_targets env targets fs1 = (r2, fs2)" "fs' = fs1 \<or> fs' = fs2"
    by (rule uninstall_steps[OF assms(4)])
  have fw: "sub_fs fs1 fs \<and> (fs_get fs q \<noteq> None \<and> fs_get fs1 q = None \<longrightarrow>
     entry_at env fs (ap_root_dir paths @ [FIREWALL_STATE_FILE_NAME]) = Some q)"
    using run(3) firewall_file_removed[of env paths fs h r1 fs1 h1 q] by auto
  show ?thesis
  proof (cases "fs_get fs1 q = None")
    case True
    then show ?thesis using fw run(2) assms(5) by (auto simp: own_file_def APP_FILE_NAMES_def)
  next
    case False
    then have at: "fs_get fs1 q = Some FileEntry" using fw assms(5) by (auto simp: sub_fs_def)
    then have "fs_get fs2 q \<noteq> Some FileEntry" using run(5) assms(6) by auto
    then have "fs_get fs2 q = None"
      using removed_targets_sub[OF run(4)] at by (cases "fs_get fs2 q") (fastforce simp: sub_fs_def)+
    then obtain p e where "p \<in> set targets" "entry_at env fs1 p = Some e" "prefix e q"
      using all_removed_below[OF run(4), of q] at \<open>fs_get fs2 q = None\<close> by auto
    then show ?thesis
      using targets_own[OF assms(1-3) run(1) _ _ _ assms(5)] entry_at_mono[of fs1 fs] fw run(2) by blast
  qed
qed

definition sample_root :: path where
  "sample_root = [''/'', ''home'', APP_DATA_DIR_NAME]"

text \<open>A data folder with a file of the user's, whose cache folder is a link to a shared one.\<close>

definition sample_disk :: file_system where
  "sample_disk =
    [([''/'', ''home''], DirEntry), (sample_root, DirEntry), (sample_root @ [CONFIG_FILE_NAME], FileEntry),
     (sample_root @ [DB_FILE_NAME], FileEntry), (sample_root @ [''notes.txt''], FileEntry),
     (sample_root @ [CACHE_DIR_NAME], LinkEntry [''/'', ''shared'']), ([''/'', ''shared''], DirEntry),
     ([''/'', ''shared'', DB_FILE_NAME], FileEntry), ([''/'', ''shared'', ''film''], FileEntry)]"

definition sample_uninstall_env :: uninstall_env where
  "sample_uninstall_env =
     \<lparr> ue_cwd = [''/''], ue_list = \<lambda>_. None, ue_type = \<lambda>_. True, ue_remove = \<lambda>_. None, ue_answer = Inr ''DELETE'',
       ue_firewall = sample_fw_env \<rparr>"

definition no_firewall_file :: fw_host where
  "no_firewall_file = \<lparr>fh_file = NoFile, fh_log = []\<rparr>"

theorem uninstall_removes_only_its_own_witness:
  "(case uninstall sample_uninstall_env (from_root sample_root False) False sample_disk no_firewall_file of (r, fs', _) \<Rightarrow>
     (\<exists>messages targets. r = Inr (Finished messages targets))
     \<and> fs_get fs' [''/'', ''shared'', DB_FILE_NAME] = None \<and> fs_get fs' [''/'', ''shared'', ''film''] = Some FileEntry)
   \<and> own_file sample_uninstall_env (from_root sample_root False) sample_disk [''/'', ''shared'', DB_FILE_NAME]"
proof -
  let ?env = sample_uninstall_env and ?paths = "from_root sample_root False"
  obtain r fs' h' where run: "uninstall ?env ?paths False sample_disk no_firewall_file = (r, fs', h')" using prod_cases3 by blast
  have ends: "case uninstall ?env ?paths False sample_disk no_firewall_file of (r, fs', _) \<Rightarrow>
      (case r of Inr (Finished messages targets) \<Rightarrow> True | _ \<Rightarrow> False)
      \<and> fs_get fs' [''/'', ''shared'', DB_FILE_NAME] = None \<and> fs_get fs' [''/'', ''shared'', ''film''] = Some FileEntry"
    by code_simp
  have wf: "wf_fs sample_disk" by code_simp
  have paths: "ap_cache_dir ?paths = ap_root_dir ?paths @ [CACHE_DIR_NAME]" by code_simp
  have names: "app_names_are_files ?env ?paths sample_disk" by code_simp
  have there: "fs_get sample_disk [''/'', ''shared'', DB_FILE_NAME] = Some FileEntry" by code_simp
  have gone: "fs_get fs' [''/'', ''shared'', DB_FILE_NAME] \<noteq> Some FileEntry" using ends run by simp
  show ?thesis
    using uninstall_removes_only_its_own[OF wf paths names run there gone] ends run
    by (auto split: sum.splits uninstall_end.splits)
qed

text \<open>
  With a file of the user's in the data folder the firewall's file is a target of its own.  Removing
  the rules has deleted it by then, and the run ends with an error although everything is done.
\<close>

lemma firewall_file_inspected_too_late:
  "fst (uninstall sample_uninstall_env (from_root sample_root False) True
      ((sample_root @ [FIREWALL_STATE_FILE_NAME], FileEntry) # sample_disk) \<lparr>fh_file = Stored empty_state, fh_log = []\<rparr>)
   = Inl (unable_to ''inspect'' (sample_root @ [FIREWALL_STATE_FILE_NAME]))"
  by code_simp

text \<open>A folder of the user's that is called like the configuration is removed with all it holds.\<close>

lemma folder_named_like_the_config:
  "fs_get (fst (snd (uninstall sample_uninstall_env (from_root sample_root False) True
      [([''/'', ''home''], DirEntry), (sample_root, DirEntry), (sample_root @ [CONFIG_FILE_NAME], DirEntry),
       (sample_root @ [CONFIG_FILE_NAME, ''letter''], FileEntry)] no_firewall_file)))
     (sample_root @ [CONFIG_FILE_NAME, ''letter'']) = None"
  by code_simp

text \<open>A data folder with nothing else in it goes as a whole.\<close>

lemma clean_folder_removed:
  assumes "path_exists env fs (ap_root_dir paths)"
    and "contains_only_known_app_artifacts env fs (ap_root_dir paths) = Inr True" and "ap_portable paths"
    and "\<not> has_firewall_cleanup env paths fs" and "entry_at env fs (ap_root_dir paths) = Some e"
    and "ue_remove env (ap_root_dir paths) = None" and "prefix e q" and "q \<noteq> [''/'']"
  shows "\<exists>fs'. uninstall env paths True fs h = (Inr (Finished [] [ap_root_dir paths]), fs', h) \<and> fs_get fs' q = None"
proof -
  have "uninstall_targets env paths fs = Inr [ap_root_dir paths]"
    using assms(1-3) by (simp add: uninstall_targets_def installed_app_dir_uninstall_target_def Let_def and_then_def)
  then show ?thesis
    using assms(1,4-8)
    by (auto simp: uninstall_def Let_def remove_uninstall_target_def remove_path_def path_exists_def
        fs_get_filter[of "\<lambda>x. \<not> prefix e x"])
qed

end
