(* ===== verification/Tui.thy ===== *)
theory Tui
  imports YamlEdit Firewall Db Server
begin

text \<open>
  The state of the terminal interface and its event handlers (\<open>src/tui/state.rs\<close>,
  \<open>events.rs\<close>, \<open>input_handlers.rs\<close>, \<open>action_handlers.rs\<close> and the event loop of \<open>src/tui.rs\<close>).  A
  handler returns the new state and what it did outside: the configuration file, the firewall, the
  served configuration and the database.  \<open>None\<close> is a panic; drawing is in \<open>Panels\<close>.
\<close>

subsection \<open>The state\<close>

datatype menu_view =
  MainView | SubscriptionsView | NewSubscriptionView | SubscriptionActionsView | ConfigurationsView | LogsView

datatype main_item =
  OpenConfigItem | SharingItem | ProxyItem | SubscriptionsItem | CleanCacheItem | ConfigurationsItem | LogsItem

datatype subscription_action = EditNameRow | EditUrlRow | EditPriorityRow | ToggleRow | DeleteRow | BackRow

datatype action = Add | Toggle | DeleteAction | EditName | EditUrl | EditPriority | Save

datatype new_subscription_step = UrlStep | NameStep | PriorityStep | EnabledStep

datatype input_mode =
  NoInput | CommandInput | NewSubscriptionInput new_subscription_step | NameInput | UrlInput | PriorityInput
| ConfigValueInput config_key | ResetConfirm | CleanCacheConfirm

record subscription_draft =
  dr_name :: string
  dr_url :: string
  dr_priority :: nat
  dr_enabled :: bool

text \<open>A rectangle of the terminal; ratatui keeps its right and bottom edge within 16 bits.\<close>

record rect =
  rt_x :: nat
  rt_y :: nat
  rt_width :: nat
  rt_height :: nat

record hit_map =
  hm_main_rows :: "(nat \<times> rect) list"
  hm_subscription_rows :: "(nat \<times> rect) list"
  hm_config_rows :: "(nat \<times> rect) list"
  hm_logs_area :: "rect option"
  hm_found_area :: "rect option"
  hm_live_logs_area :: "rect option"

definition no_hits :: hit_map where
  "no_hits = \<lparr>hm_main_rows = [], hm_subscription_rows = [], hm_config_rows = [],
     hm_logs_area = None, hm_found_area = None, hm_live_logs_area = None\<rparr>"

record tui_state =
  ts_editable :: app_config
  ts_active_bind :: socket_addr
  ts_view :: menu_view
  ts_selected_main :: nat
  ts_selected_subscription :: nat
  ts_selected_action :: nat
  ts_selected_config :: nat
  ts_selected_log :: nat
  ts_input_mode :: input_mode
  ts_input :: string
  ts_new_subscription :: "subscription_draft option"
  ts_reset_code :: "string option"
  ts_status :: string
  ts_dirty :: bool
  ts_hits :: hit_map
  ts_logs_scroll :: nat
  ts_found_scroll :: nat

definition tui_state_new :: "app_config \<Rightarrow> tui_state" where
  "tui_state_new config = \<lparr>ts_editable = config, ts_active_bind = ac_bind config, ts_view = MainView,
     ts_selected_main = 0, ts_selected_subscription = 0, ts_selected_action = 0, ts_selected_config = 0,
     ts_selected_log = 0, ts_input_mode = NoInput, ts_input = [], ts_new_subscription = None,
     ts_reset_code = None, ts_status = ''Ready'', ts_dirty = False, ts_hits = no_hits,
     ts_logs_scroll = 0, ts_found_scroll = 0\<rparr>"

definition MAIN_ITEMS :: "main_item list" where
  "MAIN_ITEMS = [OpenConfigItem, SharingItem, ProxyItem, SubscriptionsItem, CleanCacheItem, ConfigurationsItem, LogsItem]"

definition SUBSCRIPTION_ACTIONS :: "subscription_action list" where
  "SUBSCRIPTION_ACTIONS = [EditNameRow, EditUrlRow, EditPriorityRow, ToggleRow, DeleteRow, BackRow]"

definition TUI_MAX_EVENTS_PER_FRAME :: nat where "TUI_MAX_EVENTS_PER_FRAME = 64"

text \<open>The subscription a row stands for; row 0 is the row that adds one.\<close>

definition subscriptions_of :: "tui_state \<Rightarrow> subscription_source list" where
  "subscriptions_of s = ac_subscriptions (ts_editable s)"

definition selected_subscription_index :: "tui_state \<Rightarrow> nat option" where
  "selected_subscription_index s =
     (let row = ts_selected_subscription s in
      if row = 0 \<or> length (subscriptions_of s) \<le> row - 1 then None else Some (row - 1))"

definition selected_subscription_ref :: "tui_state \<Rightarrow> subscription_source option" where
  "selected_subscription_ref s = map_option (\<lambda>i. subscriptions_of s ! i) (selected_subscription_index s)"

definition set_subscriptions :: "subscription_source list \<Rightarrow> tui_state \<Rightarrow> tui_state" where
  "set_subscriptions subs s = s\<lparr>ts_editable := (ts_editable s)\<lparr>ac_subscriptions := subs\<rparr>\<rparr>"

definition update_selected :: "(subscription_source \<Rightarrow> subscription_source) \<Rightarrow> tui_state \<Rightarrow> tui_state option" where
  "update_selected f s =
     map_option (\<lambda>i. set_subscriptions ((subscriptions_of s)[i := f (subscriptions_of s ! i)]) s) (selected_subscription_index s)"

definition clamp_selection :: "tui_state \<Rightarrow> tui_state" where
  "clamp_selection s =
     (if subscriptions_of s = [] then s\<lparr>ts_selected_subscription := 0\<rparr>
      else s\<lparr>ts_selected_subscription := min (ts_selected_subscription s) (length (subscriptions_of s))\<rparr>)"

definition next_subscription_priority :: "tui_state \<Rightarrow> nat" where
  "next_subscription_priority s = sat_add u32_max (fold max (map ss_priority (subscriptions_of s)) 0) 1"

subsection \<open>Input\<close>

text \<open>\<open>String::pop\<close> takes the last scalar value: its continuation bytes and its first byte.\<close>

definition pop_char :: "string \<Rightarrow> string" where
  "pop_char s = rev (drop 1 (dropWhile (\<lambda>c. is_cont (byte_of c)) (rev s)))"

fun new_subscription_guide :: "new_subscription_step \<Rightarrow> string" where
  "new_subscription_guide UrlStep = ''Step 1/4: enter the subscription URL''"
| "new_subscription_guide NameStep = ''Step 2/4: enter a display name''"
| "new_subscription_guide PriorityStep = ''Step 3/4: enter priority as a number''"
| "new_subscription_guide EnabledStep = ''Step 4/4: enable now? yes/no''"

definition input_status :: "input_mode \<Rightarrow> string option \<Rightarrow> string" where
  "input_status mode code =
     (case mode of
        CommandInput \<Rightarrow> ''Command mode; type add/name/url/priority/toggle/delete/save/q''
      | NewSubscriptionInput step \<Rightarrow> new_subscription_guide step
      | ConfigValueInput key \<Rightarrow> guide key @ ''; Enter applies, Esc cancels''
      | ResetConfirm \<Rightarrow> ''Type '' @ unwrap_or code ''code'' @ '' to reset non-subscription settings''
      | CleanCacheConfirm \<Rightarrow> ''Type DELETE to clean cached subscription snapshots''
      | _ \<Rightarrow> ''Edit mode; Enter applies, Esc cancels'')"

definition start_input :: "input_mode \<Rightarrow> string \<Rightarrow> tui_state \<Rightarrow> tui_state" where
  "start_input mode value s =
     s\<lparr>ts_input_mode := mode, ts_input := value, ts_status := input_status mode (ts_reset_code s)\<rparr>"

definition start_new_subscription :: "tui_state \<Rightarrow> tui_state" where
  "start_new_subscription s =
     start_input (NewSubscriptionInput UrlStep) []
       (s\<lparr>ts_view := NewSubscriptionView,
          ts_new_subscription := Some \<lparr>dr_name = [], dr_url = [], dr_priority = next_subscription_priority s, dr_enabled = True\<rparr>\<rparr>)"

definition finish_edit :: "string \<Rightarrow> tui_state \<Rightarrow> tui_state" where
  "finish_edit message s = s\<lparr>ts_input_mode := NoInput, ts_input := [], ts_status := message\<rparr>"

definition say :: "string \<Rightarrow> tui_state \<Rightarrow> tui_state" where
  "say message s = s\<lparr>ts_status := message\<rparr>"

definition commit_selected :: "(subscription_source \<Rightarrow> subscription_source) \<Rightarrow> string \<Rightarrow> tui_state \<Rightarrow> tui_state" where
  "commit_selected f message s =
     (case update_selected f s of None \<Rightarrow> s | Some s' \<Rightarrow> finish_edit message (s'\<lparr>ts_dirty := True\<rparr>))"

definition commit_name :: "tui_state \<Rightarrow> tui_state" where
  "commit_name s =
     (let value = trim (ts_input s) in
      if value = [] then say ''Name cannot be empty'' s
      else commit_selected (ss_name_update (\<lambda>_. value)) ''Name updated'' s)"

definition commit_url :: "tui_state \<Rightarrow> tui_state" where
  "commit_url s =
     (let value = trim (ts_input s) in
      if value = [] then say ''URL cannot be empty'' s
      else commit_selected (ss_url_update (\<lambda>_. value)) ''URL updated'' s)"

definition commit_priority :: "tui_state \<Rightarrow> tui_state" where
  "commit_priority s =
     (case parse_int u32_max (trim (ts_input s)) of
        Inl _ \<Rightarrow> say ''Priority must be a number'' s
      | Inr value \<Rightarrow> commit_selected (ss_priority_update (\<lambda>_. value)) ''Priority updated'' s)"

definition commit_new_url :: "tui_state \<Rightarrow> tui_state" where
  "commit_new_url s =
     (let value = trim (ts_input s) in
      if value = [] then say ''URL cannot be empty'' s
      else case ts_new_subscription s of
        None \<Rightarrow> s
      | Some draft \<Rightarrow>
          start_input (NewSubscriptionInput NameStep) [] (s\<lparr>ts_new_subscription := Some (draft\<lparr>dr_url := value\<rparr>)\<rparr>))"

definition commit_new_name :: "tui_state \<Rightarrow> tui_state" where
  "commit_new_name s =
     (let value = trim (ts_input s) in
      if value = [] then say ''Name cannot be empty'' s
      else case ts_new_subscription s of
        None \<Rightarrow> s
      | Some draft \<Rightarrow>
          start_input (NewSubscriptionInput PriorityStep) (show_nat (dr_priority draft))
            (s\<lparr>ts_new_subscription := Some (draft\<lparr>dr_name := value\<rparr>)\<rparr>))"

definition commit_new_priority :: "tui_state \<Rightarrow> tui_state" where
  "commit_new_priority s =
     (case parse_int u32_max (trim (ts_input s)) of
        Inl _ \<Rightarrow> say ''Priority must be a number'' s
      | Inr value \<Rightarrow> (case ts_new_subscription s of
          None \<Rightarrow> s
        | Some draft \<Rightarrow>
            start_input (NewSubscriptionInput EnabledStep) (if dr_enabled draft then ''yes'' else ''no'')
              (s\<lparr>ts_new_subscription := Some (draft\<lparr>dr_priority := value\<rparr>)\<rparr>)))"

definition parse_bool :: "string \<Rightarrow> bool option" where
  "parse_bool raw =
     (let v = to_ascii_lowercase (trim raw) in
      if v \<in> {''1'', ''true'', ''yes'', ''y'', ''on'', ''enabled''} then Some True
      else if v \<in> {''0'', ''false'', ''no'', ''n'', ''off'', ''disabled''} then Some False
      else None)"

definition commit_new_enabled :: "tui_state \<Rightarrow> tui_state" where
  "commit_new_enabled s =
     (case parse_bool (trim (ts_input s)) of
        None \<Rightarrow> say ''Enabled must be yes/no, true/false, on/off, or 1/0'' s
      | Some enabled \<Rightarrow> (case ts_new_subscription s of
          None \<Rightarrow> say ''New subscription draft is missing'' s
        | Some draft \<Rightarrow>
            let subs = subscriptions_of s @ [\<lparr>ss_name = dr_name draft, ss_url = dr_url draft,
                  ss_enabled = enabled, ss_priority = dr_priority draft\<rparr>]
            in finish_edit ''Subscription added''
                 (set_subscriptions subs s\<lparr>ts_new_subscription := None, ts_selected_subscription := length subs,
                    ts_view := SubscriptionsView, ts_dirty := True\<rparr>)))"

fun commit_new_subscription_step :: "new_subscription_step \<Rightarrow> tui_state \<Rightarrow> tui_state" where
  "commit_new_subscription_step UrlStep s = commit_new_url s"
| "commit_new_subscription_step NameStep s = commit_new_name s"
| "commit_new_subscription_step PriorityStep s = commit_new_priority s"
| "commit_new_subscription_step EnabledStep s = commit_new_enabled s"

definition commit_config :: "string \<Rightarrow> tui_state \<Rightarrow> config_key \<Rightarrow> tui_state" where
  "commit_config generated s key =
     (case apply_setting generated (ts_editable s) key (ts_input s) of
        Inl e \<Rightarrow> say e s
      | Inr config \<Rightarrow> finish_edit ''Configuration updated'' (s\<lparr>ts_editable := config, ts_dirty := True\<rparr>))"

definition commit_reset :: "app_config \<Rightarrow> tui_state \<Rightarrow> tui_state" where
  "commit_reset first_run s =
     (if trim (ts_input s) \<noteq> unwrap_or (ts_reset_code s) [] then say ''Reset code did not match'' s
      else finish_edit ''Defaults restored; subscriptions kept''
             (s\<lparr>ts_editable := first_run\<lparr>ac_subscriptions := subscriptions_of s\<rparr>, ts_reset_code := None, ts_dirty := True\<rparr>))"

subsection \<open>The outside\<close>

text \<open>
  What the handlers change: the text of the configuration file, the firewall and its file of rules,
  the configuration the server answers from, and the database.  One event meets one \<open>tui_env\<close>: the
  answers of the file system, the lock on the served configuration, the opened editor, the commands,
  the clock, the random token, the default configuration and the thread that clears the database
  (whose \<open>None\<close> is a panic of that thread).
\<close>

record outside =
  ow_config :: "string result"
  ow_firewall :: fw_host
  ow_runtime :: runtime_config
  ow_database :: database

record tui_env =
  te_paths :: app_paths
  te_load :: "string \<Rightarrow> app_config result"
  te_json :: "app_config \<Rightarrow> string result"
  te_write :: "unit result"
  te_firewall :: fw_env
  te_lock_free :: bool
  te_open :: string
  te_millis :: nat
  te_generated :: string
  te_first_run :: app_config
  te_delete :: "unit result option"

datatype event_result = Continue | Quit

type_synonym 'r tui_step = "('r result \<times> tui_state \<times> outside) option"

definition save_env_of :: "tui_env \<Rightarrow> outside \<Rightarrow> save_env" where
  "save_env_of env w = \<lparr>sv_path = ap_config_path (te_paths env), sv_read = ow_config w, sv_load = te_load env,
     sv_json = te_json env, sv_write = te_write env\<rparr>"

definition fw_env_of :: "tui_env \<Rightarrow> fw_env" where
  "fw_env_of env = (te_firewall env)\<lparr>fv_path := path_join (ap_root_dir (te_paths env)) [FIREWALL_STATE_FILE_NAME]\<rparr>"

text \<open>\<open>save_config\<close> and the \<open>?\<close> after it: \<open>rest\<close> only runs when the file was written.\<close>

definition saved :: "tui_env \<Rightarrow> tui_state \<Rightarrow> outside \<Rightarrow> (tui_state \<Rightarrow> outside \<Rightarrow> unit tui_step) \<Rightarrow> unit tui_step" where
  "saved env s w rest =
     (case save_config (save_env_of env w) (ts_editable s) of
        None \<Rightarrow> None
      | Some (Inl e) \<Rightarrow> Some (Inl e, s, w)
      | Some (Inr content) \<Rightarrow> rest s (w\<lparr>ow_config := Inr content\<rparr>))"

definition go_on :: "tui_state \<Rightarrow> outside \<Rightarrow> unit tui_step" where
  "go_on s w = Some (Inr (), s, w)"

text \<open>The handler's own result after a step that only returns success.\<close>

definition then_result :: "unit tui_step \<Rightarrow> event_result tui_step" where
  "then_result st = map_option (map_prod (map_sum id (\<lambda>_. Continue)) id) st"

definition continue_with :: "tui_state \<Rightarrow> outside \<Rightarrow> event_result tui_step" where
  "continue_with s w = Some (Inr Continue, s, w)"

subsection \<open>Actions\<close>

definition selected_value :: "tui_state \<Rightarrow> (subscription_source \<Rightarrow> string) \<Rightarrow> string" where
  "selected_value s f = unwrap_or (map_option f (selected_subscription_ref s)) []"

definition toggle_subscription :: "tui_state \<Rightarrow> tui_state" where
  "toggle_subscription s =
     (case (selected_subscription_ref s, update_selected (\<lambda>x. x\<lparr>ss_enabled := \<not> ss_enabled x\<rparr>) s) of
        (Some x, Some s') \<Rightarrow> s'\<lparr>ts_dirty := True,
          ts_status := ss_name x @ '' is now '' @ (if \<not> ss_enabled x then ''enabled'' else ''disabled'')\<rparr>
      | _ \<Rightarrow> s)"

definition delete_subscription :: "tui_state \<Rightarrow> tui_state" where
  "delete_subscription s =
     (if subscriptions_of s = [] then say ''No subscription to delete'' s
      else case selected_subscription_index s of
        None \<Rightarrow> say ''No subscription selected'' s
      | Some i \<Rightarrow>
          (clamp_selection (set_subscriptions (without i (subscriptions_of s)) s))
            \<lparr>ts_dirty := True, ts_status := ''Deleted '' @ ss_name (subscriptions_of s ! i)\<rparr>)"

definition save_now :: "tui_env \<Rightarrow> tui_state \<Rightarrow> outside \<Rightarrow> unit tui_step" where
  "save_now env s w =
     saved env s w (\<lambda>s. go_on (s\<lparr>ts_dirty := False, ts_status := ''Saved '' @ path_display (ap_config_path (te_paths env))\<rparr>))"

fun run_action :: "tui_env \<Rightarrow> action \<Rightarrow> tui_state \<Rightarrow> outside \<Rightarrow> unit tui_step" where
  "run_action env Add s w = go_on (start_new_subscription s) w"
| "run_action env EditName s w = go_on (start_input NameInput (selected_value s ss_name) s) w"
| "run_action env EditUrl s w = go_on (start_input UrlInput (selected_value s ss_url) s) w"
| "run_action env EditPriority s w = go_on (start_input PriorityInput (selected_value s (\<lambda>x. show_nat (ss_priority x))) s) w"
| "run_action env Toggle s w = go_on (toggle_subscription s) w"
| "run_action env DeleteAction s w = go_on (delete_subscription s) w"
| "run_action env Save s w = save_now env s w"

subsection \<open>Keys\<close>

datatype key_code =
  CharKey string | EnterKey | EscKey | BackspaceKey | DeleteKey | UpKey | DownKey | OtherKey

record key_event =
  ke_code :: key_code
  ke_control :: bool
  ke_press :: bool

text \<open>Typing: the characters a key adds to or takes from the input.\<close>

definition type_key :: "key_code \<Rightarrow> tui_state \<Rightarrow> tui_state" where
  "type_key code s =
     (case code of
        BackspaceKey \<Rightarrow> s\<lparr>ts_input := pop_char (ts_input s)\<rparr>
      | CharKey c \<Rightarrow> s\<lparr>ts_input := ts_input s @ c\<rparr>
      | _ \<Rightarrow> s)"

definition commit_input :: "tui_env \<Rightarrow> tui_state \<Rightarrow> tui_state" where
  "commit_input env s =
     (case ts_input_mode s of
        NoInput \<Rightarrow> s | CommandInput \<Rightarrow> s | CleanCacheConfirm \<Rightarrow> s
      | NewSubscriptionInput step \<Rightarrow> commit_new_subscription_step step s
      | NameInput \<Rightarrow> commit_name s
      | UrlInput \<Rightarrow> commit_url s
      | PriorityInput \<Rightarrow> commit_priority s
      | ConfigValueInput key \<Rightarrow> commit_config (te_generated env) s key
      | ResetConfirm \<Rightarrow> commit_reset (te_first_run env) s)"

definition handle_input_key :: "tui_env \<Rightarrow> key_code \<Rightarrow> tui_state \<Rightarrow> tui_state" where
  "handle_input_key env code s =
     (case code of
        EscKey \<Rightarrow>
          let s1 = s\<lparr>ts_input_mode := NoInput\<rparr>;
              s2 = (if ts_view s1 = NewSubscriptionView then s1\<lparr>ts_view := SubscriptionsView, ts_new_subscription := None\<rparr> else s1)
          in s2\<lparr>ts_reset_code := None, ts_input := [], ts_status := ''Edit cancelled''\<rparr>
      | EnterKey \<Rightarrow> commit_input env s
      | _ \<Rightarrow> type_key code s)"

definition cancel_command :: "tui_state \<Rightarrow> tui_state" where
  "cancel_command s = s\<lparr>ts_input := [], ts_input_mode := NoInput, ts_status := ''Command cancelled''\<rparr>"

definition command_action :: "string \<Rightarrow> action option" where
  "command_action command =
     (if command \<in> {''a'', ''add''} then Some Add
      else if command \<in> {''n'', ''name''} then Some EditName
      else if command \<in> {''u'', ''url''} then Some EditUrl
      else if command \<in> {''p'', ''priority''} then Some EditPriority
      else if command \<in> {''t'', ''toggle''} then Some Toggle
      else if command \<in> {''d'', ''delete''} then Some DeleteAction
      else if command \<in> {''w'', ''save''} then Some Save
      else None)"

definition run_tui_command :: "tui_env \<Rightarrow> tui_state \<Rightarrow> outside \<Rightarrow> event_result tui_step" where
  "run_tui_command env s w =
     (let command = to_ascii_lowercase (trim (ts_input s));
          s = s\<lparr>ts_input := [], ts_input_mode := NoInput\<rparr> in
      if command \<in> {''q'', ''quit''} then Some (Inr Quit, s, w)
      else case command_action command of
        Some action \<Rightarrow> then_result (run_action env action s w)
      | None \<Rightarrow>
          if command = [] then continue_with (say ''Command cancelled'' s) w
          else continue_with (say (''Unknown command: :'' @ command) s) w)"

definition handle_command_key :: "tui_env \<Rightarrow> key_code \<Rightarrow> tui_state \<Rightarrow> outside \<Rightarrow> event_result tui_step" where
  "handle_command_key env code s w =
     (case code of
        EscKey \<Rightarrow> continue_with (cancel_command s) w
      | EnterKey \<Rightarrow> run_tui_command env s w
      | _ \<Rightarrow> continue_with (type_key code s) w)"

definition handle_clean_cache_key :: "tui_env \<Rightarrow> key_code \<Rightarrow> tui_state \<Rightarrow> outside \<Rightarrow> event_result tui_step" where
  "handle_clean_cache_key env code s w =
     (case code of
        EscKey \<Rightarrow> continue_with (s\<lparr>ts_input := [], ts_input_mode := NoInput, ts_status := ''Clean cache cancelled''\<rparr>) w
      | EnterKey \<Rightarrow>
          if trim (ts_input s) \<noteq> ''DELETE'' then continue_with (say ''Type DELETE to clean cache'' s) w
          else (case te_delete env of
            None \<Rightarrow> Some (Inl ''database thread panicked'', s, w)
          | Some (Inl e) \<Rightarrow>
              continue_with (s\<lparr>ts_input := [], ts_input_mode := NoInput, ts_status := ''Clean cache failed: '' @ e\<rparr>) w
          | Some (Inr _) \<Rightarrow>
              continue_with (s\<lparr>ts_input := [], ts_input_mode := NoInput, ts_status := ''Clean cache finished: database cleared''\<rparr>)
                (w\<lparr>ow_database := delete_all (ow_database w)\<rparr>))
      | _ \<Rightarrow> continue_with (type_key code s) w)"

subsection \<open>Views\<close>

definition move_up :: "tui_state \<Rightarrow> tui_state" where
  "move_up s =
     (case ts_view s of
        MainView \<Rightarrow> s\<lparr>ts_selected_main := ts_selected_main s - 1\<rparr>
      | SubscriptionsView \<Rightarrow> s\<lparr>ts_selected_subscription := ts_selected_subscription s - 1\<rparr>
      | NewSubscriptionView \<Rightarrow> s
      | SubscriptionActionsView \<Rightarrow> s\<lparr>ts_selected_action := ts_selected_action s - 1\<rparr>
      | ConfigurationsView \<Rightarrow> s\<lparr>ts_selected_config := ts_selected_config s - 1\<rparr>
      | LogsView \<Rightarrow> s\<lparr>ts_selected_log := sat_add usize_max (ts_selected_log s) 1\<rparr>)"

definition move_down :: "tui_state \<Rightarrow> tui_state" where
  "move_down s =
     (case ts_view s of
        MainView \<Rightarrow> s\<lparr>ts_selected_main := min (ts_selected_main s + 1) (length MAIN_ITEMS - 1)\<rparr>
      | SubscriptionsView \<Rightarrow>
          s\<lparr>ts_selected_subscription := min (ts_selected_subscription s + 1) (length (subscriptions_of s))\<rparr>
      | NewSubscriptionView \<Rightarrow> s
      | SubscriptionActionsView \<Rightarrow> s\<lparr>ts_selected_action := min (ts_selected_action s + 1) (length SUBSCRIPTION_ACTIONS - 1)\<rparr>
      | ConfigurationsView \<Rightarrow> s\<lparr>ts_selected_config := min (ts_selected_config s + 1) (length CONFIG_KEYS - 1)\<rparr>
      | LogsView \<Rightarrow> s\<lparr>ts_selected_log := ts_selected_log s - 1\<rparr>)"

definition go_back :: "tui_state \<Rightarrow> tui_state" where
  "go_back s =
     (case ts_view s of
        NewSubscriptionView \<Rightarrow>
          s\<lparr>ts_input_mode := NoInput, ts_input := [], ts_new_subscription := None, ts_view := SubscriptionsView\<rparr>
      | SubscriptionActionsView \<Rightarrow> s\<lparr>ts_view := SubscriptionsView\<rparr>
      | _ \<Rightarrow> s\<lparr>ts_view := MainView\<rparr>)"

definition edit_selected_subscription :: "tui_state \<Rightarrow> tui_state" where
  "edit_selected_subscription s =
     (if ts_view s \<noteq> SubscriptionsView then s
      else if ts_selected_subscription s = 0 then say ''Press Enter to add a new subscription'' s
      else s\<lparr>ts_view := SubscriptionActionsView\<rparr>)"

definition reset_code :: "tui_env \<Rightarrow> string" where
  "reset_code env = show_nat (te_millis env mod 9000 + 1000)"

definition update_live_runtime_config :: "tui_env \<Rightarrow> tui_state \<Rightarrow> outside \<Rightarrow> tui_state \<times> outside" where
  "update_live_runtime_config env s w =
     (if te_lock_free env then (s, w\<lparr>ow_runtime := runtime_config_of (ts_editable s)\<rparr>)
      else (say ''Config saved; live server update is waiting for config reload'' s, w))"

text \<open>Saving, serving, and the firewall: what both switches of the main menu end with.\<close>

definition switched ::
  "tui_env \<Rightarrow> string \<Rightarrow> string \<Rightarrow> (app_config \<Rightarrow> bool) \<Rightarrow> (app_config \<Rightarrow> nat) \<Rightarrow> tui_state \<Rightarrow> outside \<Rightarrow> unit tui_step" where
  "switched env what rule_name enabled port s w =
     saved env s w (\<lambda>s w.
       case update_live_runtime_config env s w of (s, w) \<Rightarrow>
       (let config = ts_editable s in
        case apply_firewall (fw_env_of env) (enabled config) (port config) rule_name (ow_firewall w) of (r, h) \<Rightarrow>
        go_on (s\<lparr>ts_dirty := False,
                 ts_status := (case r of Inr message \<Rightarrow> message
                   | Inl e \<Rightarrow> what @ '' '' @ (if enabled config then ''enabled'' else ''disabled'')
                       @ ''; firewall not changed: '' @ e)\<rparr>)
              (w\<lparr>ow_firewall := h\<rparr>)))"

definition toggle_sharing :: "app_config \<Rightarrow> app_config" where
  "toggle_sharing config = on_sharing config (sc_enabled_update Not)"

definition cycle_proxy :: "app_config \<Rightarrow> app_config" where
  "cycle_proxy config =
     on_proxy config (\<lambda>p.
       if \<not> xc_enabled p then p\<lparr>xc_enabled := True, xc_discoverable := False\<rparr>
       else if \<not> xc_discoverable p then p\<lparr>xc_discoverable := True\<rparr>
       else p\<lparr>xc_enabled := False, xc_discoverable := False\<rparr>)"

definition activate_main :: "tui_env \<Rightarrow> tui_state \<Rightarrow> outside \<Rightarrow> unit tui_step" where
  "activate_main env s w =
     (if length MAIN_ITEMS \<le> ts_selected_main s then None
      else case MAIN_ITEMS ! ts_selected_main s of
        OpenConfigItem \<Rightarrow>
          go_on (if starts_with (te_open env) ''Edit config manually:'' then say (te_open env) s else say [] s) w
      | SharingItem \<Rightarrow>
          switched env ''Sharing'' FIREWALL_RULE_NAME (\<lambda>c. sc_enabled (ac_sharing c)) (\<lambda>c. sa_port (ac_bind c))
            (s\<lparr>ts_editable := toggle_sharing (ts_editable s), ts_dirty := True\<rparr>) w
      | ProxyItem \<Rightarrow>
          switched env ''Proxy discoverable'' FIREWALL_PROXY_RULE_NAME
            (\<lambda>c. xc_discoverable (ac_proxy c)) (\<lambda>c. xc_port (ac_proxy c))
            (s\<lparr>ts_editable := cycle_proxy (ts_editable s), ts_dirty := True\<rparr>) w
      | SubscriptionsItem \<Rightarrow> go_on (s\<lparr>ts_view := SubscriptionsView\<rparr>) w
      | CleanCacheItem \<Rightarrow> go_on (start_input CleanCacheConfirm [] s) w
      | ConfigurationsItem \<Rightarrow> go_on (s\<lparr>ts_view := ConfigurationsView\<rparr>) w
      | LogsItem \<Rightarrow> go_on (s\<lparr>ts_view := LogsView, ts_selected_log := 0\<rparr>) w)"

definition activate_subscription_action :: "tui_env \<Rightarrow> tui_state \<Rightarrow> outside \<Rightarrow> unit tui_step" where
  "activate_subscription_action env s w =
     (if length SUBSCRIPTION_ACTIONS \<le> ts_selected_action s then None
      else case SUBSCRIPTION_ACTIONS ! ts_selected_action s of
        EditNameRow \<Rightarrow> run_action env EditName s w
      | EditUrlRow \<Rightarrow> run_action env EditUrl s w
      | EditPriorityRow \<Rightarrow> run_action env EditPriority s w
      | ToggleRow \<Rightarrow> run_action env Toggle s w
      | DeleteRow \<Rightarrow> go_on (delete_subscription s\<lparr>ts_view := SubscriptionsView\<rparr>) w
      | BackRow \<Rightarrow> go_on (s\<lparr>ts_view := SubscriptionsView\<rparr>) w)"

definition activate_configuration :: "tui_env \<Rightarrow> tui_state \<Rightarrow> outside \<Rightarrow> unit tui_step" where
  "activate_configuration env s w =
     (if length CONFIG_KEYS \<le> ts_selected_config s then None
      else let key = CONFIG_KEYS ! ts_selected_config s in
        if key = ResetDefaultsKey
        then go_on (start_input ResetConfirm [] (s\<lparr>ts_reset_code := Some (reset_code env)\<rparr>)) w
        else go_on (start_input (ConfigValueInput key) (setting_value (ts_editable s) key) s) w)"

definition activate :: "tui_env \<Rightarrow> tui_state \<Rightarrow> outside \<Rightarrow> unit tui_step" where
  "activate env s w =
     (case ts_view s of
        MainView \<Rightarrow> activate_main env s w
      | SubscriptionsView \<Rightarrow> run_action env (if ts_selected_subscription s = 0 then Add else Toggle) s w
      | NewSubscriptionView \<Rightarrow> go_on s w
      | LogsView \<Rightarrow> go_on s w
      | SubscriptionActionsView \<Rightarrow> activate_subscription_action env s w
      | ConfigurationsView \<Rightarrow> activate_configuration env s w)"

definition handle_normal_key :: "tui_env \<Rightarrow> key_code \<Rightarrow> tui_state \<Rightarrow> outside \<Rightarrow> event_result tui_step" where
  "handle_normal_key env code s w =
     (if code = CharKey ''q'' then Some (Inr Quit, s, w)
      else if code = EscKey then continue_with (go_back s) w
      else if code = EnterKey then then_result (activate env s w)
      else if code = UpKey \<or> code = CharKey ''k'' then continue_with (move_up s) w
      else if code = DownKey \<or> code = CharKey ''j'' then continue_with (move_down s) w
      else if code = CharKey ''e'' \<or> code = CharKey ''E'' then continue_with (edit_selected_subscription s) w
      else if code = CharKey '':'' then continue_with (start_input CommandInput [] s) w
      else if code = CharKey '' '' then then_result (run_action env Toggle s w)
      else if code = CharKey ''s'' then then_result (run_action env Save s w)
      else continue_with s w)"

definition is_back_shortcut :: "key_event \<Rightarrow> bool" where
  "is_back_shortcut key \<longleftrightarrow>
     ke_control key \<and> ke_code key \<in> {BackspaceKey, DeleteKey, CharKey ''h'', CharKey ''H''}"

definition handle_key :: "tui_env \<Rightarrow> key_event \<Rightarrow> tui_state \<Rightarrow> outside \<Rightarrow> event_result tui_step" where
  "handle_key env key s w =
     (if \<not> ke_press key then continue_with s w
      else if ke_control key \<and> ke_code key = CharKey ''c'' then Some (Inr Quit, s, w)
      else if is_back_shortcut key then continue_with (go_back s) w
      else case ts_input_mode s of
        CommandInput \<Rightarrow> handle_command_key env (ke_code key) s w
      | CleanCacheConfirm \<Rightarrow> handle_clean_cache_key env (ke_code key) s w
      | NoInput \<Rightarrow> handle_normal_key env (ke_code key) s w
      | _ \<Rightarrow> continue_with (handle_input_key env (ke_code key) s) w)"

subsection \<open>The mouse\<close>

datatype mouse_kind = LeftDown | ScrollUp | ScrollDown | OtherMouse

record mouse_event =
  me_kind :: mouse_kind
  me_column :: nat
  me_row :: nat

definition contains_point :: "nat \<Rightarrow> nat \<Rightarrow> rect \<Rightarrow> bool" where
  "contains_point x y area \<longleftrightarrow>
     rt_x area \<le> x \<and> x < rt_x area + rt_width area \<and> rt_y area \<le> y \<and> y < rt_y area + rt_height area"

definition hit_row :: "nat \<Rightarrow> nat \<Rightarrow> (nat \<times> rect) list \<Rightarrow> nat option" where
  "hit_row x y rows = map_option fst (find (\<lambda>(_, area). contains_point x y area) rows)"

definition hit_area :: "nat \<Rightarrow> nat \<Rightarrow> rect option \<Rightarrow> bool" where
  "hit_area x y area = is_some_and area (contains_point x y)"

definition click :: "nat \<Rightarrow> nat \<Rightarrow> tui_state \<Rightarrow> tui_state" where
  "click x y s =
     (case hit_row x y (hm_main_rows (ts_hits s)) of
        Some i \<Rightarrow> s\<lparr>ts_selected_main := i, ts_status := ''Selected menu row '' @ show_nat (i + 1)\<rparr>
      | None \<Rightarrow> (case hit_row x y (hm_subscription_rows (ts_hits s)) of
          Some i \<Rightarrow> s\<lparr>ts_selected_subscription := i, ts_status := ''Selected row '' @ show_nat (i + 1)\<rparr>
        | None \<Rightarrow> (case hit_row x y (hm_config_rows (ts_hits s)) of
            Some i \<Rightarrow> s\<lparr>ts_selected_config := i, ts_status := ''Selected config row '' @ show_nat (i + 1)\<rparr>
          | None \<Rightarrow> s)))"

definition scroll_up :: "nat \<Rightarrow> nat \<Rightarrow> tui_state \<Rightarrow> tui_state" where
  "scroll_up x y s =
     (let hits = ts_hits s in
      if hit_area x y (hm_logs_area hits) then s\<lparr>ts_logs_scroll := sat_add usize_max (ts_logs_scroll s) 1\<rparr>
      else if hit_area x y (hm_found_area hits) then s\<lparr>ts_found_scroll := ts_found_scroll s - 1\<rparr>
      else if hit_area x y (hm_live_logs_area hits) \<and> ts_view s = LogsView
      then s\<lparr>ts_selected_log := sat_add usize_max (ts_selected_log s) 1\<rparr>
      else if ts_view s = SubscriptionsView \<and> hit_row x y (hm_subscription_rows hits) \<noteq> None
      then s\<lparr>ts_selected_subscription := ts_selected_subscription s - 1\<rparr>
      else if ts_view s = ConfigurationsView \<and> hit_row x y (hm_config_rows hits) \<noteq> None
      then s\<lparr>ts_selected_config := ts_selected_config s - 1\<rparr>
      else s)"

definition scroll_down :: "nat \<Rightarrow> nat \<Rightarrow> tui_state \<Rightarrow> tui_state" where
  "scroll_down x y s =
     (let hits = ts_hits s in
      if hit_area x y (hm_logs_area hits) then s\<lparr>ts_logs_scroll := ts_logs_scroll s - 1\<rparr>
      else if hit_area x y (hm_found_area hits) then s\<lparr>ts_found_scroll := sat_add usize_max (ts_found_scroll s) 1\<rparr>
      else if hit_area x y (hm_live_logs_area hits) \<and> ts_view s = LogsView
      then s\<lparr>ts_selected_log := ts_selected_log s - 1\<rparr>
      else if ts_view s = SubscriptionsView \<and> hit_row x y (hm_subscription_rows hits) \<noteq> None
      then s\<lparr>ts_selected_subscription := min (ts_selected_subscription s + 1) (length (subscriptions_of s))\<rparr>
      else if ts_view s = ConfigurationsView \<and> hit_row x y (hm_config_rows hits) \<noteq> None
      then s\<lparr>ts_selected_config := min (ts_selected_config s + 1) (length CONFIG_KEYS - 1)\<rparr>
      else s)"

definition handle_mouse :: "mouse_event \<Rightarrow> tui_state \<Rightarrow> tui_state" where
  "handle_mouse m s =
     (case me_kind m of
        LeftDown \<Rightarrow> click (me_column m) (me_row m) s
      | ScrollUp \<Rightarrow> scroll_up (me_column m) (me_row m) s
      | ScrollDown \<Rightarrow> scroll_down (me_column m) (me_row m) s
      | OtherMouse \<Rightarrow> s)"

subsection \<open>Events of a frame\<close>

datatype tui_event = KeyEvent key_event | MouseEvent mouse_event | OtherEvent | ReadFailure string

text \<open>
  The events that are waiting, each with what it meets; with none left the frame goes on.  At most
  \<open>n\<close> are taken.
\<close>

fun drain_events ::
  "nat \<Rightarrow> (tui_env \<times> tui_event) list \<Rightarrow> tui_state \<Rightarrow> outside \<Rightarrow> event_result tui_step" where
  "drain_events 0 events s w = continue_with s w"
| "drain_events (Suc n) [] s w = continue_with s w"
| "drain_events (Suc n) ((env, event) # events) s w =
     (case event of
        KeyEvent key \<Rightarrow>
          (case handle_key env key s w of
             Some (Inr Continue, s, w) \<Rightarrow> drain_events n events s w
           | stopped \<Rightarrow> stopped)
      | MouseEvent m \<Rightarrow> drain_events n events (handle_mouse m s) w
      | OtherEvent \<Rightarrow> drain_events n events s w
      | ReadFailure e \<Rightarrow> Some (Inl e, s, w))"

end
