(* ===== verification/Geoip.thy ===== *)
theory Geoip
  imports Network
begin

text \<open>
  Country flags and display names (\<open>src/geoip.rs\<close>).  The country database is a parameter: a function
  from addresses to codes once it is loaded.
\<close>

text \<open>\<open>str::chars\<close> of UTF-8 bytes: a scalar value is its first byte and the continuation bytes after it.\<close>

function str_chars :: "string \<Rightarrow> string list" where
  "str_chars [] = []"
| "str_chars (c # cs) =
     (c # takeWhile (\<lambda>b. is_cont (byte_of b)) cs) # str_chars (dropWhile (\<lambda>b. is_cont (byte_of b)) cs)"
  by pat_completeness auto
termination by (relation "Wellfounded.measure length") (simp_all add: length_dropWhile_le le_imp_less_Suc)

lemma concat_str_chars [simp]: "concat (str_chars s) = s"
  by (induction s rule: str_chars.induct) auto

text \<open>Regional indicators, U+1F1E6 to U+1F1FF, in their UTF-8 encoding.\<close>

definition regional_indicator :: "nat \<Rightarrow> string" where
  "regional_indicator i = [CHR 0xF0, CHR 0x9F, CHR 0x87, char_of (0xA6 + i)]"

definition is_regional :: "string \<Rightarrow> bool" where
  "is_regional c \<longleftrightarrow>
     (case map byte_of c of [a, b, c, d] \<Rightarrow> a = 0xF0 \<and> b = 0x9F \<and> c = 0x87 \<and> 0xA6 \<le> d \<and> d \<le> 0xBF | _ \<Rightarrow> False)"

definition letter_index :: "char \<Rightarrow> nat" where
  "letter_index c = byte_of (ascii_lower_char c) - 97"

definition country_flag :: "string \<Rightarrow> string" where
  "country_flag code =
     (case code of
        [a, b] \<Rightarrow> if is_ascii_alphabetic a \<and> is_ascii_alphabetic b
                   then regional_indicator (letter_index a) @ regional_indicator (letter_index b) else []
      | _ \<Rightarrow> [])"

definition strip_leading_flag :: "string \<Rightarrow> string" where
  "strip_leading_flag remark =
     (case str_chars remark of
        a # b # chars \<Rightarrow>
          if is_regional a \<and> is_regional b then
            (let text' = trim_start (concat chars) in
             case strip_prefix text' ''|'' of Some stripped \<Rightarrow> trim stripped | None \<Rightarrow> text')
          else remark
      | _ \<Rightarrow> remark)"

text \<open>What is left of the remark: joined, trimmed, without leading bars, its white space collapsed.\<close>

definition without_flag :: "string list \<Rightarrow> string" where
  "without_flag chars =
     join_str '' '' (split_whitespace (trim (dropWhile (\<lambda>c. c = CHR ''|'' \<or> c = CHR '' '') (trim (concat chars)))))"

fun find_flag :: "string list \<Rightarrow> string list \<Rightarrow> (string \<times> string) option" where
  "find_flag before (a # b # after) =
     (if is_regional a \<and> is_regional b then Some (a @ b, without_flag (rev before @ after))
      else find_flag (a # before) (b # after))"
| "find_flag before _ = None"

definition extract_any_flag :: "string \<Rightarrow> (string \<times> string) option" where
  "extract_any_flag remark = find_flag [] (str_chars remark)"

definition after_flag :: "string \<Rightarrow> string \<Rightarrow> string" where
  "after_flag flag rest = (if rest = [] then flag else flag @ '' '' @ rest)"

definition format_display_name :: "string option \<Rightarrow> string \<Rightarrow> string" where
  "format_display_name country_code remark =
     (case filter_opt (\<lambda>f. f \<noteq> []) (map_option country_flag country_code) of
        Some flag \<Rightarrow> after_flag flag (strip_leading_flag remark)
      | None \<Rightarrow> (case extract_any_flag remark of
          Some (flag, rest) \<Rightarrow> after_flag flag (trim rest)
        | None \<Rightarrow> remark))"

subsection \<open>The database\<close>

text \<open>
  \<open>GEOIP_READER\<close>: not set, set to no database, or to a reader.  A reader answers with a code, or with
  nothing.  Setting it twice changes nothing.  \<open>embedded\<close> and \<open>custom\<close> are what parsing the embedded
  database and the file gave; without a readable file there is no \<open>custom\<close>.
\<close>

type_synonym 'addr geoip_reader = "('addr \<Rightarrow> string option) option option"

definition set_once :: "'a option \<Rightarrow> 'a \<Rightarrow> 'a option" where
  "set_once cell v = (case cell of None \<Rightarrow> Some v | Some _ \<Rightarrow> cell)"

definition geoip_init ::
  "('addr \<Rightarrow> string option) result \<Rightarrow> ('addr \<Rightarrow> string option) result option \<Rightarrow> 'addr geoip_reader \<Rightarrow> 'addr geoip_reader" where
  "geoip_init embedded custom cell =
     (case embedded of
        Inr reader \<Rightarrow> set_once cell (Some reader)
      | Inl _ \<Rightarrow> (case custom of
          Some (Inr reader) \<Rightarrow> set_once cell (Some reader)
        | _ \<Rightarrow> set_once cell None))"

definition lookup_country :: "'addr geoip_reader \<Rightarrow> 'addr \<Rightarrow> string option" where
  "lookup_country cell ip = (case cell of Some (Some reader) \<Rightarrow> reader ip | _ \<Rightarrow> None)"

subsection \<open>Display names\<close>

definition starts_with_flag :: "string \<Rightarrow> bool" where
  "starts_with_flag s \<longleftrightarrow> (case str_chars s of a # b # _ \<Rightarrow> is_regional a \<and> is_regional b | _ \<Rightarrow> False)"

lemma byte_of_ascii_lower: "is_ascii_alphabetic c \<Longrightarrow> 97 \<le> byte_of (ascii_lower_char c) \<and> byte_of (ascii_lower_char c) \<le> 122"
  by (auto simp: ascii_lower_char_def is_ascii_alphabetic_def byte_of_char_of)

lemma byte_of_literal: "byte_of (CHR 0xF0) = 240" "byte_of (CHR 0x9F) = 159" "byte_of (CHR 0x87) = 135" "byte_of (CHR '' '') = 32"
  by (simp_all add: byte_of_def)

lemma regional_indicator_char:
  assumes "i < 26"
  shows "is_regional (regional_indicator i)"
    and "str_chars (regional_indicator i @ regional_indicator j @ s) = regional_indicator i # str_chars (regional_indicator j @ s)"
  using assms by (simp_all add: regional_indicator_def is_regional_def is_cont_def byte_of_char_of byte_of_literal)

lemma regional_indicator_first:
  assumes "i < 26"
  shows "\<exists>c cs. str_chars (regional_indicator i @ s) = c # cs \<and> (s = [] \<or> \<not> is_cont (byte_of (hd s)) \<longrightarrow> c = regional_indicator i)"
  using assms by (cases s) (auto simp: regional_indicator_def is_cont_def byte_of_char_of byte_of_literal)

text \<open>Whatever the remark, a known country puts its flag first.\<close>

lemma geoip_flag_first:
  assumes "country_flag code \<noteq> []"
  shows "starts_with_flag (format_display_name (Some code) remark)"
proof -
  obtain a b where ab: "code = [a, b]" "is_ascii_alphabetic a" "is_ascii_alphabetic b"
    using assms by (auto simp: country_flag_def split: list.splits if_splits)
  let ?i = "letter_index a" and ?j = "letter_index b"
  have le: "?i < 26" "?j < 26"
    using byte_of_ascii_lower[OF ab(2)] byte_of_ascii_lower[OF ab(3)] by (auto simp: letter_index_def)
  define rest where "rest = (if strip_leading_flag remark = [] then [] else '' '' @ strip_leading_flag remark)"
  then have r: "format_display_name (Some code) remark = regional_indicator ?i @ regional_indicator ?j @ rest"
    "rest = [] \<or> hd rest = CHR '' ''"
    using ab assms by (auto simp: format_display_name_def country_flag_def after_flag_def filter_opt_def)
  obtain c cs where "str_chars (regional_indicator ?j @ rest) = c # cs" "c = regional_indicator ?j"
    using regional_indicator_first[OF le(2), of rest] r(2) by (auto simp: is_cont_def byte_of_literal)
  then show ?thesis
    using r(1) regional_indicator_char[OF le(1)] regional_indicator_char(1)[OF le(2)] by (simp add: starts_with_flag_def)
qed

text \<open>
  The comment promises that a flag the remark already has is removed; only one at its start is, a
  later one stays beside the new flag.
\<close>

lemma later_flag_stays:
  "format_display_name (Some ''US'') (''name '' @ country_flag ''IT'') = country_flag ''US'' @ '' name '' @ country_flag ''IT''"
  "format_display_name (Some ''US'') (country_flag ''IT'' @ '' | name'') = country_flag ''US'' @ '' name''"
  "format_display_name None (''name '' @ country_flag ''IT'') = country_flag ''IT'' @ '' name''"
  by code_simp+

end
