(* ===== verification/Panels.thy ===== *)
theory Panels
  imports Tui Geoip Runtime
begin

text \<open>
  What the terminal interface shows (\<open>src/tui/view.rs\<close>, \<open>layout.rs\<close>, \<open>draw.rs\<close> and the panels): the text
  of every panel, and what drawing changes in the state (the areas the mouse can hit, and offsets cut
  to what there is to scroll).  ratatui's layout solver is a parameter; colours other than those of
  the rows, and widths of columns, are left out.
\<close>

subsection \<open>The view of the runtime state\<close>

definition TUI_MAX_VISIBLE_RANKED :: nat where "TUI_MAX_VISIBLE_RANKED = 64"

record ranked_view =
  rv_rank :: nat
  rv_stability_count :: nat
  rv_source :: string
  rv_protocol :: string
  rv_display_name :: string
  rv_endpoint :: string
  rv_latency_ms :: "nat option"

record runtime_view =
  vw_refresh_duration_ms :: "nat option"
  vw_refreshing :: bool
  vw_refresh_started_instant :: "nat option"
  vw_refresh_finished_instant :: "nat option"
  vw_total_candidates :: nat
  vw_tested_candidates :: nat
  vw_reachable_candidates :: nat
  vw_fetch_bytes :: nat
  vw_speedtest_bytes :: nat
  vw_logs :: "string list"
  vw_live_logs :: "string list"
  vw_ranked :: "ranked_view list"

definition ranked_view_of :: "ranked_config \<Rightarrow> ranked_view" where
  "ranked_view_of item = \<lparr>rv_rank = r_rank item, rv_stability_count = r_stability_count item,
     rv_source = r_source item, rv_protocol = r_protocol item,
     rv_display_name = format_display_name (r_country_code item) (r_name item),
     rv_endpoint = ep_host (r_endpoint item) @ '':'' @ show_nat (ep_port (r_endpoint item)),
     rv_latency_ms = r_latency_ms item\<rparr>"

definition runtime_view_of :: "runtime_state \<Rightarrow> runtime_config \<Rightarrow> runtime_view" where
  "runtime_view_of runtime config = \<lparr>
     vw_refresh_duration_ms = rs_refresh_duration_ms runtime, vw_refreshing = rs_refreshing runtime,
     vw_refresh_started_instant = rs_refresh_started_instant runtime,
     vw_refresh_finished_instant = rs_refresh_finished_instant runtime,
     vw_total_candidates = rs_total_candidates runtime, vw_tested_candidates = rs_tested_candidates runtime,
     vw_reachable_candidates = rs_reachable_candidates runtime, vw_fetch_bytes = rs_fetch_bytes runtime,
     vw_speedtest_bytes = rs_speedtest_bytes runtime, vw_logs = rs_logs runtime, vw_live_logs = rs_live_logs runtime,
     vw_ranked = map ranked_view_of
       (take (min (rtc_top_n config) TUI_MAX_VISIBLE_RANKED) (filter r_reachable (rs_ranked runtime)))\<rparr>"

subsection \<open>Rows of a table\<close>

datatype colour = Black | Gray | DarkGray | Cyan | Green | Red | Yellow | White

type_synonym row_colours = "colour option \<times> colour option"
type_synonym table_row = "string list \<times> row_colours"

record table =
  tb_title :: string
  tb_header :: "string list"
  tb_rows :: "table_row list"

definition selected_colours :: row_colours where "selected_colours = (Some Black, Some Cyan)"

definition row_style :: "bool \<Rightarrow> string \<Rightarrow> row_colours" where
  "row_style selected value =
     (if selected then selected_colours
      else if value = ''enabled'' then (Some Green, None)
      else if value = ''disabled'' then (Some Red, None)
      else (None, None))"

definition usize_to_u16_saturating :: "nat \<Rightarrow> nat" where
  "usize_to_u16_saturating value = min value u16_max"

definition visible_row_count :: "rect \<Rightarrow> nat" where
  "visible_row_count area = rt_height area - 3"

definition scroll_offset :: "nat \<Rightarrow> nat \<Rightarrow> nat \<Rightarrow> nat" where
  "scroll_offset selected items visible =
     (if visible = 0 \<or> items \<le> visible then 0 else sat_add usize_max selected 1 - visible)"

text \<open>The rows from \<open>index\<close> on, until one is on the lower border.\<close>

fun hit_rows :: "rect \<Rightarrow> nat \<Rightarrow> nat list \<Rightarrow> (nat \<times> rect) list" where
  "hit_rows area offset [] = []"
| "hit_rows area offset (index # indices) =
     (let first_y = sat_add u16_max (rt_y area) 2;
          last_y = sat_add u16_max (rt_y area) (rt_height area - 1);
          y = sat_add u16_max first_y (usize_to_u16_saturating (index - offset)) in
      if last_y \<le> y then []
      else (index, \<lparr>rt_x = rt_x area + 1, rt_y = y, rt_width = rt_width area - 2, rt_height = 1\<rparr>)
             # hit_rows area offset indices)"

definition row_hits_with_offset :: "rect \<Rightarrow> nat \<Rightarrow> nat \<Rightarrow> (nat \<times> rect) list" where
  "row_hits_with_offset area rows offset = hit_rows area offset [offset..<rows]"

text \<open>\<open>enumerate().skip(offset).take(visible)\<close>\<close>

definition shown :: "nat \<Rightarrow> nat \<Rightarrow> 'a list \<Rightarrow> (nat \<times> 'a) list" where
  "shown offset visible xs = take visible (drop offset (enumerate 0 xs))"

subsection \<open>The main menu\<close>

definition main_row :: "tui_state \<Rightarrow> main_item \<Rightarrow> string \<times> string" where
  "main_row s item =
     (case item of
        OpenConfigItem \<Rightarrow> (''Open Configs File'', CONFIG_FILE_NAME)
      | SharingItem \<Rightarrow> (''Share subscription URL on LAN'',
          if sc_enabled (ac_sharing (ts_editable s)) then ''enabled'' else ''disabled'')
      | ProxyItem \<Rightarrow> (''Persistent proxy for app traffic'',
          if xc_enabled (ac_proxy (ts_editable s))
          then (if xc_discoverable (ac_proxy (ts_editable s)) then ''enabled (LAN)'' else ''enabled'') else ''disabled'')
      | SubscriptionsItem \<Rightarrow> (''Subscriptions'', ''enter to manage sources'')
      | CleanCacheItem \<Rightarrow> (''Clean Cache'', ''delete cached subscription snapshots'')
      | ConfigurationsItem \<Rightarrow> (''Configurations'', ''enter to edit config values'')
      | LogsItem \<Rightarrow> (''Live Logs'', ''enter to inspect refresh progress''))"

definition draw_main :: "rect \<Rightarrow> tui_state \<Rightarrow> table \<times> tui_state" where
  "draw_main area s =
     (let visible = max (visible_row_count area) 1;
          offset = scroll_offset (ts_selected_main s) (length MAIN_ITEMS) visible;
          rows = map (\<lambda>(index, item). case main_row s item of (name, value) \<Rightarrow>
                   ([name, value], row_style (index = ts_selected_main s) value)) (shown offset visible MAIN_ITEMS)
      in (\<lparr>tb_title = ''Main Menu'', tb_header = [''Item'', ''Value''], tb_rows = rows\<rparr>,
          s\<lparr>ts_hits := (ts_hits s)\<lparr>hm_main_rows := row_hits_with_offset area (length MAIN_ITEMS) offset\<rparr>\<rparr>))"

subsection \<open>Subscriptions\<close>

definition check_mark :: string where "check_mark = [CHR 0xE2, CHR 0x9C, CHR 0x93]"
definition cross_mark :: string where "cross_mark = [CHR 0xE2, CHR 0x9C, CHR 0x97]"

definition subscription_row :: "tui_state \<Rightarrow> nat \<times> subscription_source \<Rightarrow> table_row" where
  "subscription_row s p =
     (case p of (index, source) \<Rightarrow>
        ([show_nat (index + 1), if ss_enabled source then check_mark else cross_mark,
          show_nat (ss_priority source), ss_name source, ss_url source],
         if index + 1 = ts_selected_subscription s then selected_colours
         else if ss_enabled source then (None, None) else (Some DarkGray, None)))"

definition draw_subscriptions :: "rect \<Rightarrow> tui_state \<Rightarrow> table \<times> tui_state" where
  "draw_subscriptions area s =
     (let items = length (subscriptions_of s) + 1;
          visible = max (visible_row_count area) 1;
          offset = scroll_offset (ts_selected_subscription s) items visible;
          add_row = ([''+'', ''+'', ''-'', ''New Subscription'', ''Enter to start guided setup''],
            if ts_selected_subscription s = 0 then selected_colours else (Some Green, None));
          rows = take visible (drop offset (add_row # map (subscription_row s) (enumerate 0 (subscriptions_of s))))
      in (\<lparr>tb_title = ''Subscriptions'', tb_header = [''#'', check_mark @ ''/'' @ cross_mark, ''Priority'', ''Name'', ''URL''],
           tb_rows = rows\<rparr>,
          s\<lparr>ts_hits := (ts_hits s)\<lparr>hm_subscription_rows := row_hits_with_offset area items offset\<rparr>\<rparr>))"

definition wizard_value :: "tui_state \<Rightarrow> new_subscription_step \<Rightarrow> string option \<Rightarrow> string" where
  "wizard_value s step committed =
     (if ts_input_mode s = NewSubscriptionInput step then ts_input s @ ''_''
      else unwrap_or (filter_opt (\<lambda>v. v \<noteq> []) committed) ''-'')"

definition wizard_row :: "tui_state \<Rightarrow> new_subscription_step \<Rightarrow> string \<Rightarrow> string \<Rightarrow> string option \<Rightarrow> string \<Rightarrow> table_row" where
  "wizard_row s step number field committed hint =
     ([number, field, wizard_value s step committed, hint],
      row_style (ts_input_mode s = NewSubscriptionInput step) [])"

definition draw_new_subscription :: "tui_state \<Rightarrow> table" where
  "draw_new_subscription s =
     (let draft = ts_new_subscription s in
      \<lparr>tb_title = ''New Subscription'', tb_header = [''Step'', ''Field'', ''Value'', ''Guide''],
       tb_rows =
         [wizard_row s UrlStep ''1'' ''Subscription URL'' (map_option dr_url draft) ''Paste the full subscription URL'',
          wizard_row s NameStep ''2'' ''Display name'' (map_option dr_name draft) ''Short human-readable name'',
          wizard_row s PriorityStep ''3'' ''Priority'' (map_option (\<lambda>d. show_nat (dr_priority d)) draft)
            ''Lower numbers are listed first'',
          wizard_row s EnabledStep ''4'' ''Enabled'' (map_option (\<lambda>d. if dr_enabled d then ''yes'' else ''no'') draft)
            ''yes/no, true/false, on/off'']\<rparr>)"

fun action_label :: "subscription_action \<Rightarrow> string" where
  "action_label EditNameRow = ''Edit name''"
| "action_label EditUrlRow = ''Edit URL''"
| "action_label EditPriorityRow = ''Edit priority''"
| "action_label ToggleRow = ''Enable/disable''"
| "action_label DeleteRow = ''Delete''"
| "action_label BackRow = ''Back''"

definition active_subscription_input :: "subscription_action \<Rightarrow> tui_state \<Rightarrow> string option" where
  "active_subscription_input action s =
     (if (ts_input_mode s, action) \<in> {(NameInput, EditNameRow), (UrlInput, EditUrlRow), (PriorityInput, EditPriorityRow)}
      then Some (ts_input s @ ''_'') else None)"

definition action_value :: "subscription_action \<Rightarrow> subscription_source option \<Rightarrow> tui_state \<Rightarrow> string" where
  "action_value action source s =
     (case active_subscription_input action s of Some value \<Rightarrow> value
      | None \<Rightarrow> (case source of None \<Rightarrow> ''-''
        | Some source \<Rightarrow> (case action of
            EditNameRow \<Rightarrow> ss_name source
          | EditUrlRow \<Rightarrow> ss_url source
          | EditPriorityRow \<Rightarrow> show_nat (ss_priority source)
          | ToggleRow \<Rightarrow> if ss_enabled source then ''enabled'' else ''disabled''
          | DeleteRow \<Rightarrow> ''delete '' @ ss_name source
          | BackRow \<Rightarrow> ''return to subscriptions'')))"

definition draw_subscription_actions :: "rect \<Rightarrow> tui_state \<Rightarrow> table" where
  "draw_subscription_actions area s =
     (let visible = max (visible_row_count area) 1;
          offset = scroll_offset (ts_selected_action s) (length SUBSCRIPTION_ACTIONS) visible in
      \<lparr>tb_title = ''Subscription Actions'', tb_header = [''Action'', ''Target''],
       tb_rows = map (\<lambda>(index, action). ([action_label action, action_value action (selected_subscription_ref s) s],
           row_style (index = ts_selected_action s) [])) (shown offset visible SUBSCRIPTION_ACTIONS)\<rparr>)"

subsection \<open>Settings\<close>

definition config_value :: "tui_state \<Rightarrow> config_key \<Rightarrow> string" where
  "config_value s key =
     (if ts_input_mode s = ConfigValueInput key \<or> ts_input_mode s = ResetConfirm \<and> key = ResetDefaultsKey
      then ts_input s @ ''_'' else setting_value (ts_editable s) key)"

definition draw_configurations :: "rect \<Rightarrow> tui_state \<Rightarrow> table \<times> tui_state" where
  "draw_configurations area s =
     (let visible = visible_row_count area;
          offset = scroll_offset (ts_selected_config s) (length CONFIG_KEYS) visible
      in (\<lparr>tb_title = ''Configurations'', tb_header = [''Key'', ''Value'', ''Guide''],
           tb_rows = map (\<lambda>(index, key). ([label key, config_value s key, guide key],
               row_style (index = ts_selected_config s) [])) (shown offset visible CONFIG_KEYS)\<rparr>,
          s\<lparr>ts_hits := (ts_hits s)\<lparr>hm_config_rows := row_hits_with_offset area (length CONFIG_KEYS) offset\<rparr>\<rparr>))"

subsection \<open>Logs and found configurations\<close>

text \<open>The lines shown when scrolled up by \<open>scroll\<close> from the newest.\<close>

definition tail_lines :: "nat \<Rightarrow> nat \<Rightarrow> string list \<Rightarrow> string list" where
  "tail_lines visible scroll lines =
     (if lines = [] then [''Waiting for refresh logs...'']
      else take visible (drop (length lines - visible - scroll) lines))"

definition draw_live_logs :: "rect \<Rightarrow> runtime_view \<Rightarrow> tui_state \<Rightarrow> string list \<times> tui_state" where
  "draw_live_logs area view s =
     (let visible = max (visible_row_count area) 1;
          s = s\<lparr>ts_hits := (ts_hits s)\<lparr>hm_live_logs_area := Some area\<rparr>,
                ts_selected_log := min (ts_selected_log s) (length (vw_live_logs view) - visible)\<rparr>
      in (tail_lines visible (ts_selected_log s) (vw_live_logs view), s))"

text \<open>\<open>logs_panel::draw\<close>: the lines, and the offset it leaves behind.\<close>

definition draw_recent_logs :: "rect \<Rightarrow> runtime_view \<Rightarrow> nat \<Rightarrow> string list \<times> nat" where
  "draw_recent_logs area view scroll =
     (if rt_height area < 3 \<or> rt_width area < 10 then ([], scroll)
      else let visible = rt_height area - 2;
               scroll = min scroll (length (vw_logs view) - visible)
           in (tail_lines visible scroll (vw_logs view), scroll))"

text \<open>The width is compared with the bytes, but characters are taken.\<close>

definition truncate :: "string \<Rightarrow> nat \<Rightarrow> string" where
  "truncate value width =
     (if length value \<le> width then value
      else if 1 < width then concat (take (width - 1) (str_chars value)) @ ''~''
      else concat (take 1 (str_chars value)))"

definition found_row :: "nat \<Rightarrow> ranked_view \<Rightarrow> string list" where
  "found_row width item =
     (let latency = (case rv_latency_ms item of None \<Rightarrow> ''-'' | Some v \<Rightarrow> show_nat v @ '' ms'') in
      if width < 55 then
        [show_nat (rv_rank item), truncate (rv_protocol item) 6, truncate (rv_display_name item) 16, latency]
      else if width < 80 then
        [show_nat (rv_rank item), truncate (rv_protocol item) 8, truncate (rv_display_name item) 16,
         truncate (rv_endpoint item) 16, latency]
      else
        [show_nat (rv_rank item), show_nat (rv_stability_count item), rv_source item, rv_protocol item,
         rv_display_name item, rv_endpoint item, latency])"

definition found_header :: "nat \<Rightarrow> string list" where
  "found_header width =
     (if width < 55 then [''#'', ''Proto'', ''Name'', ''Latency'']
      else if width < 80 then [''#'', ''Proto'', ''Name'', ''Endpoint'', ''Latency'']
      else [''Rank'', ''Seen'', ''Sub Name'', ''Protocol'', ''Name'', ''Endpoint'', ''Latency''])"

definition draw_found :: "rect \<Rightarrow> runtime_view \<Rightarrow> nat \<Rightarrow> nat \<Rightarrow> table option \<times> nat" where
  "draw_found area view top_n scroll =
     (if rt_width area < 30 \<or> rt_height area < 3 then (None, scroll)
      else let visible = rt_height area - 3;
               items = take top_n (vw_ranked view);
               scroll = min scroll (length items - visible)
           in (Some \<lparr>tb_title = ''Current Found Configs'', tb_header = found_header (rt_width area),
                 tb_rows = map (\<lambda>item. (found_row (rt_width area) item, (None, None))) (take visible (drop scroll items))\<rparr>,
               scroll))"

text \<open>Where the thumb of a scroll bar is; none when everything fits.\<close>

definition scrollbar_position :: "nat \<Rightarrow> nat \<Rightarrow> nat \<Rightarrow> nat \<Rightarrow> bool \<Rightarrow> nat option" where
  "scrollbar_position height items visible offset invert =
     (if height < 3 \<or> visible = 0 \<or> items \<le> visible \<or> height - 2 < 3 then None
      else let max_scroll = items - visible; last_position = items - 1;
               raw = min offset max_scroll * last_position div max_scroll
           in Some (if invert then last_position - raw else raw))"

subsection \<open>The current configuration\<close>

definition bool_text :: "bool \<Rightarrow> string" where
  "bool_text b = (if b then ''on'' else ''off'')"

record config_view =
  cv_live_config :: runtime_config
  cv_sharing :: sharing_status
  cv_show_endpoint :: bool
  cv_discoverable :: string
  cv_proxy :: string

text \<open>\<open>None\<close>: the sharing status panics.\<close>

definition config_view_of ::
  "net_env \<Rightarrow> interface_ip_cache \<Rightarrow> tui_state \<Rightarrow> config_view option \<times> interface_ip_cache" where
  "config_view_of net cache s =
     (let live = runtime_config_of (ts_editable s) in
      case sharing_status_of net live cache of
        (None, cache) \<Rightarrow> (None, cache)
      | (Some status, cache) \<Rightarrow>
        let needs_restart = rtc_sharing_enabled live \<and> rtc_bind live \<noteq> ts_active_bind s
              \<and> is_loopback (sa_ip (ts_active_bind s)) \<and> \<not> is_loopback (sa_ip (rtc_bind live));
            status = (if needs_restart then status\<lparr>sh_discoverable := sh_discoverable status @ '' (restart V2RayDAR)''\<rparr>
                      else status);
            show_endpoint = (sh_subscription_url status \<noteq> None \<and> should_include_token_in_url (rtc_token live));
            discoverable = (if show_endpoint then (if needs_restart then ''yes (restart V2RayDAR)'' else ''yes'')
                            else sh_discoverable status);
            lan = primary_lan_ip net cache;
            proxy_text = (if rtc_proxy_enabled live then
                (if rtc_proxy_discoverable live
                 then ''yes http://'' @ (case fst lan of None \<Rightarrow> ''?'' | Some ip \<Rightarrow> show_ip ip) @ '':'' @ show_nat (rtc_proxy_port live)
                 else ''yes http://127.0.0.1:'' @ show_nat (rtc_proxy_port live))
              else ''off'');
            cache = (if rtc_proxy_enabled live \<and> rtc_proxy_discoverable live then snd lan else cache)
        in (Some \<lparr>cv_live_config = live, cv_sharing = status, cv_show_endpoint = show_endpoint,
                  cv_discoverable = discoverable, cv_proxy = proxy_text\<rparr>, cache))"

definition format_mb :: "nat \<Rightarrow> string" where
  "format_mb bytes = show_nat (bytes div 1048576) @ ''MB''"

definition format_batch_size :: "nat option \<Rightarrow> string" where
  "format_batch_size v = (case v of None \<Rightarrow> ''auto'' | Some n \<Rightarrow> show_nat n)"

definition pad_right :: "nat \<Rightarrow> string \<Rightarrow> string" where
  "pad_right width s = s @ replicate (width - length (str_chars s)) (CHR '' '')"

text \<open>One group: its title, and the settings that fit below it.\<close>

definition group_lines :: "nat \<Rightarrow> string \<Rightarrow> (string \<times> string) list \<Rightarrow> string list" where
  "group_lines height title rows = title # map (\<lambda>(key, v). pad_right 14 key @ v) (take (height - 1) rows)"

definition service_rows :: "runtime_config \<Rightarrow> (string \<times> string) list" where
  "service_rows live =
     [(''bind'', show_socket_addr (rtc_bind live)), (''top_n'', show_nat (rtc_top_n live)),
      (''refresh'', show_nat (rtc_refresh_seconds live) @ ''s''), (''stability'', bool_text (rtc_prioritize_stability live)),
      (''asap'', bool_text (rtc_return_configs_asap live)), (''scan_all'', bool_text (rtc_scan_all_configs live)),
      (''subscriptions'', show_nat (rtc_enabled_subscription_count live) @ ''/'' @ show_nat (rtc_subscription_count live)),
      (''max_sub_mb'', format_mb (rtc_max_subscription_bytes live)), (''probe'', rtc_probe_mode live),
      (''batch'', format_batch_size (rtc_probe_batch_size live))]"

definition network_rows :: "config_view \<Rightarrow> (string \<times> string) list" where
  "network_rows view =
     [(''sharing'', sh_sharing (cv_sharing view)), (''token'', bool_text (rtc_require_token (cv_live_config view))),
      (''discoverable'', cv_discoverable view), (''proxy'', cv_proxy view), (''firewall'', sh_firewall (cv_sharing view))]"

definition compact_lines :: "config_view \<Rightarrow> string list" where
  "compact_lines view =
     (let live = cv_live_config view in
      [''bind: '' @ show_socket_addr (rtc_bind live),
       ''top_n: '' @ show_nat (rtc_top_n live) @ ''  refresh: '' @ show_nat (rtc_refresh_seconds live) @ ''s''
         @ ''  probe: '' @ rtc_probe_mode live,
       ''sharing: '' @ sh_sharing (cv_sharing view) @ ''  discoverable: '' @ cv_discoverable view]
      @ (if cv_show_endpoint view
         then [''subs: '' @ show_nat (rtc_enabled_subscription_count live) @ ''/'' @ show_nat (rtc_subscription_count live)]
         else []))"

subsection \<open>The subscription address\<close>

definition TUI_ANSI_UNDERLINE_ENABLE :: string where "TUI_ANSI_UNDERLINE_ENABLE = CHR 0x1B # ''[4m''"
definition TUI_ANSI_UNDERLINE_DISABLE :: string where "TUI_ANSI_UNDERLINE_DISABLE = CHR 0x1B # ''[24m''"
definition TUI_OSC8_LINK_PREFIX :: string where "TUI_OSC8_LINK_PREFIX = CHR 0x1B # '']8;;''"
definition TUI_OSC8_LINK_SEPARATOR :: string where "TUI_OSC8_LINK_SEPARATOR = [CHR 0x1B, CHR 0x5C]"
definition TUI_OSC8_LINK_SUFFIX :: string where "TUI_OSC8_LINK_SUFFIX = CHR 0x1B # '']8;;'' @ [CHR 0x1B, CHR 0x5C]"

text \<open>\<open>char::is_control\<close> on UTF-8: the ASCII controls, and U+0080 to U+009F.\<close>

definition is_control :: "string \<Rightarrow> bool" where
  "is_control c \<longleftrightarrow>
     (case map byte_of c of
        [b] \<Rightarrow> b < 32 \<or> b = 127
      | [a, b] \<Rightarrow> a = 0xC2 \<and> 0x80 \<le> b \<and> b \<le> 0x9F
      | _ \<Rightarrow> False)"

definition is_safe_terminal_link :: "string \<Rightarrow> bool" where
  "is_safe_terminal_link v \<longleftrightarrow> list_all (\<lambda>c. byte_of c < 128) v \<and> \<not> list_ex is_control (str_chars v)"

definition split_ascii_at_width :: "string \<Rightarrow> nat \<Rightarrow> string \<times> string" where
  "split_ascii_at_width v width = (let n = min (length v) width in (take n v, drop n v))"

definition endpoint_label_width :: "nat \<Rightarrow> nat" where
  "endpoint_label_width area_width = (if area_width \<le> 14 then 0 else 14)"

definition padded_label :: "string \<Rightarrow> nat \<Rightarrow> string" where
  "padded_label lab width = (if width = 0 then [] else pad_right width lab)"

definition hyperlink_symbol :: "nat \<Rightarrow> string \<Rightarrow> string \<Rightarrow> string" where
  "hyperlink_symbol width target chunk =
     TUI_OSC8_LINK_PREFIX @ target @ TUI_OSC8_LINK_SEPARATOR @ TUI_ANSI_UNDERLINE_ENABLE @ chunk
       @ TUI_ANSI_UNDERLINE_DISABLE @ TUI_OSC8_LINK_SUFFIX @ replicate (width - length chunk) (CHR '' '')"

text \<open>The rows of the address, each with its label and what is written beside it.\<close>

fun link_rows :: "nat \<Rightarrow> nat \<Rightarrow> string \<Rightarrow> string \<Rightarrow> string \<Rightarrow> nat \<Rightarrow> (string \<times> string) list" where
  "link_rows label_width url_width lab target remaining 0 = []"
| "link_rows label_width url_width lab target remaining (Suc n) =
     (if remaining = [] then (lab, replicate url_width (CHR '' '')) # link_rows label_width url_width (replicate label_width (CHR '' '')) target [] n
      else case split_ascii_at_width remaining url_width of (chunk, rest) \<Rightarrow>
        (lab, hyperlink_symbol url_width target chunk)
          # link_rows label_width url_width (replicate label_width (CHR '' '')) target rest n)"

definition endpoint_rows :: "rect \<Rightarrow> string option \<Rightarrow> (string \<times> string) list" where
  "endpoint_rows area url =
     (if rt_width area = 0 \<or> rt_height area = 0 then []
      else case url of
        None \<Rightarrow> replicate (rt_height area) ([], replicate (rt_width area) (CHR '' ''))
      | Some url \<Rightarrow>
          if \<not> is_safe_terminal_link url
          then [(pad_right (min 14 (rt_width area)) ''subscription'', concat (filter (\<lambda>c. \<not> is_control c) (str_chars url)))]
          else let label_width = endpoint_label_width (rt_width area); url_width = rt_width area - label_width in
            if url_width = 0 then []
            else link_rows label_width url_width (padded_label ''subscription'' label_width) url url (rt_height area))"

subsection \<open>The counters at the top\<close>

definition two_digits :: "nat \<Rightarrow> string" where
  "two_digits n = (if n < 10 then CHR ''0'' # show_nat n else show_nat n)"

definition format_duration_hms :: "nat \<Rightarrow> string" where
  "format_duration_hms seconds =
     two_digits (seconds div 3600) @ '':'' @ two_digits (seconds mod 3600 div 60) @ '':'' @ two_digits (seconds mod 60)"

definition format_duration_ms :: "nat \<Rightarrow> string" where
  "format_duration_ms seconds = two_digits (seconds div 60) @ '':'' @ two_digits (seconds mod 60)"

definition format_duration :: "nat \<Rightarrow> string" where
  "format_duration ms =
     (let seconds = millis_to_seconds ms in
      if seconds < 60 then show_nat seconds @ ''s'' else two_digits (seconds div 60) @ '':'' @ two_digits (seconds mod 60))"

text \<open>Instants are in milliseconds; differences saturate at zero.\<close>

definition refresh_status :: "runtime_view \<Rightarrow> nat \<Rightarrow> nat \<Rightarrow> string" where
  "refresh_status view refresh_seconds now =
     (if vw_refreshing view then
        ''running '' @ format_duration_ms (case vw_refresh_started_instant view of None \<Rightarrow> 0 | Some t \<Rightarrow> (now - t) div 1000)
      else if refresh_seconds = 0 then ''manual''
      else case vw_refresh_finished_instant view of
        None \<Rightarrow> ''pending''
      | Some t \<Rightarrow> ''next '' @ format_duration ((refresh_seconds - (now - t) div 1000) * 1000))"

text \<open>\<open>human_bytes\<close>, a formatted floating-point number, is the argument \<open>bytes_text\<close>.\<close>

definition top_cells :: "(nat \<Rightarrow> string) \<Rightarrow> runtime_view \<Rightarrow> runtime_config \<Rightarrow> nat \<Rightarrow> nat \<Rightarrow> (string \<times> string) list" where
  "top_cells bytes_text view config started_at now =
     [(''Running For'', pad_right 8 (format_duration_hms ((now - started_at) div 1000))),
      (''Refresh'', pad_right 14 (refresh_status view (rtc_refresh_seconds config) now)),
      (''Last Scan'', pad_right 6 (case vw_refresh_duration_ms view of None \<Rightarrow> ''-'' | Some ms \<Rightarrow> format_duration ms)),
      (''Fetched'', pad_right 6 (show_nat (vw_total_candidates view))),
      (''Failed'', pad_right 6 (show_nat (vw_tested_candidates view - vw_reachable_candidates view))),
      (''Working'', pad_right 6 (show_nat (vw_reachable_candidates view))),
      (''Sub Usage'', pad_right 10 (bytes_text (vw_fetch_bytes view))),
      (''Speedtest'', pad_right 10 (if rtc_speedtest_enabled config then bytes_text (vw_speedtest_bytes view) else ''off''))]"

definition SHORT_LABELS :: "string list" where
  "SHORT_LABELS = [''Up'', ''Refresh'', ''Scan'', ''Fetch'', ''Fail'', ''Work'', ''Sub'', ''Speed'']"

text \<open>The entries of one line that fit, one after the other.\<close>

fun minimal_entries :: "nat \<Rightarrow> nat \<Rightarrow> bool \<Rightarrow> (string \<times> string) list \<Rightarrow> string list" where
  "minimal_entries max_width used first [] = []"
| "minimal_entries max_width used first ((short_label, v) # entries) =
     (let entry_width = length short_label + 2 + length v;
          needed = (if first then entry_width else 3 + entry_width) in
      if max_width < used + needed then []
      else ((if first then [] else '' | '') @ short_label @ '': '' @ v)
             # minimal_entries max_width (used + needed) False entries)"

definition minimal_line :: "nat \<Rightarrow> (string \<times> string) list \<Rightarrow> string" where
  "minimal_line max_width cells = concat (minimal_entries max_width 0 True (zip SHORT_LABELS (map snd cells)))"

subsection \<open>The footer\<close>

definition guide_text :: "menu_view \<Rightarrow> string" where
  "guide_text view =
     (if view = LogsView then ''Up/k older | Down/j newer | Esc/Ctrl+H back | :q''
      else if view = SubscriptionsView then ''Up/Down or j/k nav | Enter toggle/add | e edit | Esc/Ctrl+H back | :save :q''
      else ''Up/Down or j/k nav | Enter select/edit | Esc/Ctrl+H back | :save :q'')"

definition truncate_guide :: "string \<Rightarrow> nat \<Rightarrow> string" where
  "truncate_guide s max_len =
     (if length (str_chars s) \<le> max_len then s
      else if 3 < max_len then concat (take (max_len - 3) (str_chars s)) @ ''...''
      else concat (take max_len (str_chars s)))"

definition draw_footer :: "rect \<Rightarrow> tui_state \<Rightarrow> string list" where
  "draw_footer area s =
     (let input = (case ts_input_mode s of CommandInput \<Rightarrow> CHR '':'' # ts_input s | NoInput \<Rightarrow> [] | _ \<Rightarrow> ts_input s);
          dirty = (if ts_dirty s then ''unsaved'' else ''saved'') in
      if 2 \<le> rt_height area then
        [guide_text (ts_view s),
         dirty @ (if input = [] then [] else '' | '' @ input) @ (if ts_status s = [] then [] else '' | '' @ ts_status s)]
      else
        [dirty @ '' | '' @ truncate_guide (guide_text (ts_view s)) (rt_width area - 10)
           @ (if input = [] then [] else '' | '' @ input)])"

subsection \<open>The layout\<close>

definition TUI_CONFIG_PANEL_HEIGHT :: nat where "TUI_CONFIG_PANEL_HEIGHT = 10"
definition TUI_CONFIG_PANEL_ENDPOINT_HEIGHT :: nat where "TUI_CONFIG_PANEL_ENDPOINT_HEIGHT = 12"

datatype constraint = Length nat | Fill nat

record main_layout =
  ml_top :: rect
  ml_logs :: rect
  ml_found :: rect
  ml_config :: rect
  ml_menu :: rect
  ml_footer :: rect

definition zero_rect :: rect where "zero_rect = \<lparr>rt_x = 0, rt_y = 0, rt_width = 0, rt_height = 0\<rparr>"

text \<open>\<open>split\<close> is ratatui's vertical layout; with another number of areas \<open>areas\<close> would panic.\<close>

definition layout_constraints :: "nat \<Rightarrow> bool \<Rightarrow> constraint list" where
  "layout_constraints height tokenized_endpoint =
     (let config_height = (if tokenized_endpoint then TUI_CONFIG_PANEL_ENDPOINT_HEIGHT else TUI_CONFIG_PANEL_HEIGHT) in
      if 38 \<le> height then [Length 5, Length 5, Length 7, Length config_height, Fill 1, Length 2]
      else if 28 \<le> height then
        (let config_h = min config_height (height - (3 + 3 + 5 + 2 + 4));
             remaining = height - (3 + 3 + 5 + config_h + 2)
         in [Length 3, Length 3, Length 5, Length config_h, Length (max remaining 4), Length 2])
      else
        (let found_h = max (height - (2 + 6)) 3;
             menu_h = max (height - (2 + found_h + 1)) 3
         in [Length 2, Length found_h, Length menu_h, Length 1]))"

definition layout_main :: "(constraint list \<Rightarrow> rect \<Rightarrow> rect list) \<Rightarrow> rect \<Rightarrow> bool \<Rightarrow> main_layout option" where
  "layout_main split area tokenized_endpoint =
     (case split (layout_constraints (rt_height area) tokenized_endpoint) area of
        [t, l, f, c, m, b] \<Rightarrow>
          if 28 \<le> rt_height area
          then Some \<lparr>ml_top = t, ml_logs = l, ml_found = f, ml_config = c, ml_menu = m, ml_footer = b\<rparr> else None
      | [t, f, m, b] \<Rightarrow>
          if 28 \<le> rt_height area then None
          else Some \<lparr>ml_top = t, ml_logs = zero_rect, ml_found = f, ml_config = zero_rect, ml_menu = m, ml_footer = b\<rparr>
      | _ \<Rightarrow> None)"

definition uses_tokenized_endpoint :: "app_config \<Rightarrow> bool" where
  "uses_tokenized_endpoint config \<longleftrightarrow>
     sc_enabled (ac_sharing config) \<and> should_include_token_in_url (sc_token (ac_sharing config))"

definition is_empty_rect :: "rect \<Rightarrow> bool" where
  "is_empty_rect area \<longleftrightarrow> rt_width area = 0 \<or> rt_height area = 0"

subsection \<open>The panel of the configuration\<close>

datatype config_content =
  NoConfig | CompactConfig "string list" | FullConfig "string list" "string list" "(string \<times> string) list"

text \<open>The address gets the lower of two areas.\<close>

definition draw_config :: "(constraint list \<Rightarrow> rect \<Rightarrow> rect list) \<Rightarrow> rect \<Rightarrow> config_view \<Rightarrow> config_content" where
  "draw_config split area view =
     (let inner = \<lparr>rt_x = rt_x area + 1, rt_y = rt_y area + 1, rt_width = rt_width area - 2, rt_height = rt_height area - 2\<rparr>;
          height = rt_height inner in
      if rt_height area < 3 \<or> rt_width area < 20 then NoConfig
      else if height < 2 then NoConfig
      else if height \<le> 5 \<or> rt_width inner < 40 then CompactConfig (compact_lines view)
      else
        (let group_height = min (height - 1) 10;
             endpoint_area = (case split [Length group_height, Length (max (height - group_height) 1)] inner of
                 [_, endpoint] \<Rightarrow> endpoint | _ \<Rightarrow> zero_rect)
         in FullConfig (group_lines group_height ''Service'' (service_rows (cv_live_config view)))
              (group_lines group_height ''Network'' (network_rows view))
              (endpoint_rows endpoint_area (if cv_show_endpoint view then sh_subscription_url (cv_sharing view) else None))))"

subsection \<open>A frame\<close>

datatype menu_content = MenuTable table | MenuLines "string list"

definition draw_menu :: "rect \<Rightarrow> runtime_view \<Rightarrow> tui_state \<Rightarrow> menu_content \<times> tui_state" where
  "draw_menu area view s =
     (case ts_view s of
        MainView \<Rightarrow> map_prod MenuTable id (draw_main area s)
      | SubscriptionsView \<Rightarrow> map_prod MenuTable id (draw_subscriptions area s)
      | NewSubscriptionView \<Rightarrow> (MenuTable (draw_new_subscription s), s)
      | SubscriptionActionsView \<Rightarrow> (MenuTable (draw_subscription_actions area s), s)
      | ConfigurationsView \<Rightarrow> map_prod MenuTable id (draw_configurations area s)
      | LogsView \<Rightarrow> map_prod MenuLines id (draw_live_logs area view s))"

text \<open>What the panels of the logs and of the found configurations change.\<close>

definition drawn_logs :: "rect \<Rightarrow> runtime_view \<Rightarrow> tui_state \<Rightarrow> tui_state" where
  "drawn_logs area view s =
     (if is_empty_rect area then s
      else s\<lparr>ts_hits := (ts_hits s)\<lparr>hm_logs_area := Some area\<rparr>,
             ts_logs_scroll := snd (draw_recent_logs area view (ts_logs_scroll s))\<rparr>)"

definition drawn_found :: "rect \<Rightarrow> runtime_view \<Rightarrow> nat \<Rightarrow> tui_state \<Rightarrow> tui_state" where
  "drawn_found area view top_n s =
     (if is_empty_rect area then s
      else s\<lparr>ts_hits := (ts_hits s)\<lparr>hm_found_area := Some area\<rparr>,
             ts_found_scroll := snd (draw_found area view top_n (ts_found_scroll s))\<rparr>)"

text \<open>
  What drawing a frame changes in the state.  The panels at the top, of the configuration and the
  footer only read it.
\<close>

definition draw_state :: "(constraint list \<Rightarrow> rect \<Rightarrow> rect list) \<Rightarrow> rect \<Rightarrow> runtime_view \<Rightarrow> nat \<Rightarrow> tui_state \<Rightarrow> tui_state option" where
  "draw_state split area view top_n s =
     map_option (\<lambda>areas. snd (draw_menu (ml_menu areas) view
         (drawn_found (ml_found areas) view top_n (drawn_logs (ml_logs areas) view (s\<lparr>ts_hits := no_hits\<rparr>)))))
       (layout_main split area (uses_tokenized_endpoint (ts_editable s)))"

subsection \<open>The address on the terminal\<close>

lemma safe_chars:
  assumes "is_safe_terminal_link v" and "c \<in> set v"
  shows "32 \<le> byte_of c \<and> byte_of c < 127"
proof -
  have ascii: "\<forall>c\<in>set v. byte_of c < 128" and clean: "\<forall>u\<in>set (str_chars v). \<not> is_control u"
    using assms(1) by (auto simp: is_safe_terminal_link_def list_all_iff list_ex_iff)
  have "str_chars v = map (\<lambda>c. [c]) v" using ascii
  proof (induction v)
    case (Cons a v)
    have "takeWhile (\<lambda>b. is_cont (byte_of b)) v = []" "dropWhile (\<lambda>b. is_cont (byte_of b)) v = v"
      using Cons.prems by (cases v; simp add: is_cont_def)+
    then show ?case using Cons by simp
  qed simp
  with clean assms(2) have "\<not> is_control [c]" by simp
  moreover have "byte_of c < 128" using ascii assms(2) by simp
  ultimately show ?thesis by (simp add: is_control_def)
qed

text \<open>A scalar value starts with a byte that continues none, and its other bytes continue it.\<close>

definition scalar_bytes :: "string \<Rightarrow> bool" where
  "scalar_bytes u \<longleftrightarrow> u \<noteq> [] \<and> \<not> is_cont (byte_of (hd u)) \<and> (\<forall>c\<in>set (tl u). is_cont (byte_of c))"

lemma str_chars_scalars: "us \<noteq> [] \<Longrightarrow> str_chars v = us \<Longrightarrow> \<forall>u\<in>set (tl us). scalar_bytes u"
proof (induction v arbitrary: us rule: str_chars.induct)
  case (2 c cs)
  let ?rest = "dropWhile (\<lambda>b. is_cont (byte_of b)) cs"
  have us: "tl us = str_chars ?rest" using 2(3) by auto
  show ?case
  proof (cases ?rest)
    case (Cons d ds)
    then have "\<not> is_cont (byte_of d)" by (metis hd_dropWhile list.distinct(1) list.sel(1))
    moreover have "str_chars ?rest \<noteq> []" using Cons by simp
    moreover have "scalar_bytes (hd (str_chars ?rest))"
      using \<open>\<not> is_cont (byte_of d)\<close> unfolding Cons scalar_bytes_def
      by (metis list.distinct(1) list.sel(1,3) set_takeWhileD str_chars.simps(2))
    ultimately show ?thesis using 2(1)[OF \<open>str_chars ?rest \<noteq> []\<close> refl] us by (metis list.exhaust_sel set_ConsD)
  next
    case Nil
    then have "tl us = str_chars []" using us by (simp only:)
    then show ?thesis by simp
  qed
qed simp

lemma str_chars_scalar:
  assumes "\<forall>c\<in>set (tl u). is_cont (byte_of c)" and "u \<noteq> []" and "w = [] \<or> \<not> is_cont (byte_of (hd w))"
  shows "str_chars (u @ w) = u # str_chars w"
proof -
  obtain c cs where u: "u = c # cs" using assms(2) by (cases u) auto
  then have "takeWhile (\<lambda>b. is_cont (byte_of b)) (cs @ w) = cs" "dropWhile (\<lambda>b. is_cont (byte_of b)) (cs @ w) = w"
    using assms(1,3) by (cases w; simp add: takeWhile_append dropWhile_append)+
  then show ?thesis using u by simp
qed

lemma str_chars_concat:
  assumes "\<forall>u\<in>set us. u \<noteq> [] \<and> (\<forall>c\<in>set (tl u). is_cont (byte_of c))" and "\<forall>u\<in>set (tl us). scalar_bytes u"
  shows "str_chars (concat us) = us"
  using assms
proof (induction us)
  case (Cons u us)
  have "concat us = [] \<or> \<not> is_cont (byte_of (hd (concat us)))"
    using Cons.prems by (cases us) (auto simp: scalar_bytes_def)
  moreover have "\<forall>v\<in>set (tl us). scalar_bytes v" using Cons.prems(2) by (cases us) auto
  ultimately show ?case using Cons str_chars_scalar[of u "concat us"] by simp
qed simp

lemma str_chars_parts: "u \<in> set (str_chars v) \<Longrightarrow> u \<noteq> [] \<and> (\<forall>c\<in>set (tl u). is_cont (byte_of c))"
proof (induction v rule: str_chars.induct)
  case (2 c cs)
  then consider "u = c # takeWhile (\<lambda>b. is_cont (byte_of b)) cs" | "u \<in> set (str_chars (dropWhile (\<lambda>b. is_cont (byte_of b)) cs))"
    by (metis set_ConsD str_chars.simps(2))
  then show ?case
  proof cases
    case 1
    then show ?thesis by (metis list.distinct(1) list.sel(3) set_takeWhileD)
  qed (rule "2.IH")
qed simp

lemma filter_str_chars: "str_chars (concat (filter P (str_chars v))) = filter P (str_chars v)"
proof (rule str_chars_concat)
  show "\<forall>u\<in>set (filter P (str_chars v)). u \<noteq> [] \<and> (\<forall>c\<in>set (tl u). is_cont (byte_of c))"
    using str_chars_parts by auto
  show "\<forall>u\<in>set (tl (filter P (str_chars v))). scalar_bytes u"
  proof (cases "str_chars v")
    case (Cons u us)
    have tl: "set (tl xs) \<subseteq> set xs" for xs :: "string list" by (cases xs) auto
    have "set (tl (filter P (u # us))) \<subseteq> set us" using tl[of "filter P us"] by (cases "P u") auto
    then show ?thesis using str_chars_scalars[OF _ Cons] Cons by auto
  qed simp
qed

lemma link_rows_written:
  assumes "(lab, written) \<in> set (link_rows label_width url_width first target remaining n)"
  shows "written = replicate url_width (CHR '' '') \<or> (\<exists>chunk. set chunk \<subseteq> set remaining \<and> written = hyperlink_symbol url_width target chunk)"
  using assms
proof (induction n arbitrary: first remaining)
  case (Suc n)
  show ?case
  proof (cases "remaining = []")
    case True
    then show ?thesis using Suc.prems Suc.IH[of "replicate label_width (CHR '' '')" "[]"] by auto
  next
    case False
    let ?chunk = "take (min (length remaining) url_width) remaining" and ?rest = "drop (min (length remaining) url_width) remaining"
    consider "(lab, written) = (first, hyperlink_symbol url_width target ?chunk)"
      | "(lab, written) \<in> set (link_rows label_width url_width (replicate label_width (CHR '' '')) target ?rest n)"
      using Suc.prems False by (auto simp: split_ascii_at_width_def Let_def)
    then show ?thesis
    proof cases
      case 1
      then have "written = hyperlink_symbol url_width target ?chunk" by simp
      then show ?thesis using set_take_subset by metis
    next
      case 2
      then show ?thesis using Suc.IH[OF 2] by (metis set_drop_subset subset_trans)
    qed
  qed
qed simp

definition printable_ascii :: "string \<Rightarrow> bool" where
  "printable_ascii = list_all (\<lambda>c. 32 \<le> byte_of c \<and> byte_of c < 127)"


definition sample_url :: string where "sample_url = ''http://192.168.1.20:27141/subscription''"

definition sample_area :: rect where
  "sample_area = \<lparr>rt_x = 1, rt_y = 20, rt_width = 40, rt_height = 3\<rparr>"


subsection \<open>Rows and the mouse\<close>

text \<open>The row drawn at height \<open>y\<close> of a table: below its border and its header.\<close>

definition row_at :: "rect \<Rightarrow> nat \<Rightarrow> table \<Rightarrow> table_row option" where
  "row_at area y t = (if rt_y area + 2 \<le> y \<and> y - (rt_y area + 2) < length (tb_rows t)
     then Some (tb_rows t ! (y - (rt_y area + 2))) else None)"

text \<open>What a selected row stands for.\<close>

definition selected_row :: "tui_state \<Rightarrow> table_row option" where
  "selected_row s =
     (case ts_view s of
        MainView \<Rightarrow> Some (let p = main_row s (MAIN_ITEMS ! ts_selected_main s) in ([fst p, snd p], selected_colours))
      | SubscriptionsView \<Rightarrow> Some (if ts_selected_subscription s = 0
          then ([''+'', ''+'', ''-'', ''New Subscription'', ''Enter to start guided setup''], selected_colours)
          else subscription_row s (ts_selected_subscription s - 1, subscriptions_of s ! (ts_selected_subscription s - 1)))
      | ConfigurationsView \<Rightarrow> Some (let key = CONFIG_KEYS ! ts_selected_config s in
          ([label key, config_value s key, guide key], selected_colours))
      | _ \<Rightarrow> None)"

lemma hit_rows_spec:
  assumes "(i, area') \<in> set (hit_rows area offset [k..<n])" and "offset \<le> k" and "rt_y area + rt_height area \<le> u16_max"
  shows "k \<le> i \<and> i < n \<and> rt_y area' = rt_y area + 2 + (i - offset) \<and> rt_height area' = 1
     \<and> rt_y area + 2 + (i - offset) + 1 < rt_y area + rt_height area"
  using assms
proof (induction "n - k" arbitrary: k)
  case (Suc d)
  then have k: "k < n" by simp
  let ?y = "sat_add u16_max (sat_add u16_max (rt_y area) 2) (usize_to_u16_saturating (k - offset))"
  from k have "[k..<n] = k # [Suc k..<n]" by (simp add: upt_conv_Cons)
  then have step: "hit_rows area offset [k..<n] = (if sat_add u16_max (rt_y area) (rt_height area - 1) \<le> ?y then []
      else (k, \<lparr>rt_x = rt_x area + 1, rt_y = ?y, rt_width = rt_width area - 2, rt_height = 1\<rparr>) # hit_rows area offset [Suc k..<n])"
    by (simp add: Let_def)
  then have y: "?y < sat_add u16_max (rt_y area) (rt_height area - 1)"
    and "(i, area') = (k, \<lparr>rt_x = rt_x area + 1, rt_y = ?y, rt_width = rt_width area - 2, rt_height = 1\<rparr>)
       \<or> (i, area') \<in> set (hit_rows area offset [Suc k..<n])"
    using Suc.prems(1) by (auto split: if_splits)
  then show ?case
  proof (elim disjE)
    assume "(i, area') = (k, \<lparr>rt_x = rt_x area + 1, rt_y = ?y, rt_width = rt_width area - 2, rt_height = 1\<rparr>)"
    then show ?thesis
      using y k Suc.prems(3) by (auto simp: sat_add_def usize_to_u16_saturating_def min_def split: if_splits)
  next
    assume "(i, area') \<in> set (hit_rows area offset [Suc k..<n])"
    moreover have "d = n - Suc k" using Suc.hyps(2) by simp
    ultimately show ?thesis using Suc.hyps(1)[of "Suc k"] Suc.prems(2,3) by auto
  qed
qed simp

lemma hit_row_spec:
  assumes "hit_row x y (row_hits_with_offset area n offset) = Some i" and "rt_y area + rt_height area \<le> u16_max"
  shows "offset \<le> i \<and> i < n \<and> y = rt_y area + 2 + (i - offset) \<and> i - offset < visible_row_count area"
proof -
  obtain area' where a: "(i, area') \<in> set (hit_rows area offset [offset..<n])" "contains_point x y area'"
    using assms(1) by (auto simp: hit_row_def row_hits_with_offset_def find_Some_iff) (metis nth_mem)
  from hit_rows_spec[OF a(1) order_refl assms(2)] a(2) show ?thesis
    by (auto simp: contains_point_def visible_row_count_def)
qed

lemma row_at_shown:
  assumes "offset \<le> i" and "i < length rows" and "i - offset < visible" and "y = rt_y area + 2 + (i - offset)"
    and "tb_rows t = take visible (drop offset rows)"
  shows "row_at area y t = Some (rows ! i)"
  using assms by (auto simp: row_at_def)

lemma shown_map: "map f (shown offset visible xs) = take visible (drop offset (map f (enumerate 0 xs)))"
  by (simp add: shown_def take_map drop_map)

lemma hit_row_Nil [simp]: "hit_row x y [] = None"
  by (simp add: hit_row_def)

lemma row_frames [simp]:
  "main_row (s\<lparr>ts_hits := h\<rparr>) = main_row s" "main_row (s\<lparr>ts_selected_main := i\<rparr>) = main_row s"
  "main_row (s\<lparr>ts_status := m\<rparr>) = main_row s"
  "config_value (s\<lparr>ts_hits := h\<rparr>) = config_value s" "config_value (s\<lparr>ts_selected_config := i\<rparr>) = config_value s"
  "config_value (s\<lparr>ts_status := m\<rparr>) = config_value s"
  "subscription_row (s\<lparr>ts_hits := h\<rparr>) = subscription_row s" "subscription_row (s\<lparr>ts_status := m\<rparr>) = subscription_row s"
  "subscriptions_of (s\<lparr>ts_hits := h\<rparr>) = subscriptions_of s" "subscriptions_of (s\<lparr>ts_status := m\<rparr>) = subscriptions_of s"
  "subscriptions_of (s\<lparr>ts_selected_subscription := i\<rparr>) = subscriptions_of s"
  by (simp_all add: fun_eq_iff main_row_def config_value_def subscription_row_def subscriptions_of_def)

lemma click_in_main:
  assumes drawn: "draw_menu area view (s\<lparr>ts_hits := no_hits\<rparr>) = (MenuTable t, s')"
    and area: "rt_y area + rt_height area \<le> u16_max"
    and hit: "hit_row x y (hm_main_rows (ts_hits s')) \<noteq> None \<or> hit_row x y (hm_subscription_rows (ts_hits s')) \<noteq> None
      \<or> hit_row x y (hm_config_rows (ts_hits s')) \<noteq> None" and shown_view: "ts_view s = MainView"
  shows "\<exists>cells. map_option fst (row_at area y t) = Some cells \<and> selected_row (click x y s') = Some (cells, selected_colours)"
proof -
  define v o' where "v = max (visible_row_count area) 1" and "o' = scroll_offset (ts_selected_main s) (length MAIN_ITEMS) v"
  let ?f = "\<lambda>(index, item). case main_row s item of (name, value) \<Rightarrow> ([name, value], row_style (index = ts_selected_main s) value)"
  have s': "s' = s\<lparr>ts_hits := no_hits\<lparr>hm_main_rows := row_hits_with_offset area (length MAIN_ITEMS) o'\<rparr>\<rparr>"
    and t: "tb_rows t = take v (drop o' (map ?f (enumerate 0 MAIN_ITEMS)))"
    using drawn shown_view by (auto simp: draw_menu_def draw_main_def Let_def v_def o'_def shown_map)
  obtain i where i: "hit_row x y (row_hits_with_offset area (length MAIN_ITEMS) o') = Some i"
    using hit s' by (auto simp: no_hits_def)
  note spec = hit_row_spec[OF i area]
  have "row_at area y t = Some (map ?f (enumerate 0 MAIN_ITEMS) ! i)"
    by (rule row_at_shown[OF _ _ _ _ t]) (use spec in \<open>auto simp: v_def\<close>)
  then have "map_option fst (row_at area y t) = Some [fst (main_row s (MAIN_ITEMS ! i)), snd (main_row s (MAIN_ITEMS ! i))]"
    using spec by (simp add: nth_enumerate_eq split: prod.split)
  moreover have "selected_row (click x y s') = Some ([fst (main_row s (MAIN_ITEMS ! i)), snd (main_row s (MAIN_ITEMS ! i))], selected_colours)"
    using i shown_view by (simp add: s' click_def selected_row_def Let_def)
  ultimately show ?thesis by blast
qed

lemma click_in_subscriptions:
  assumes drawn: "draw_menu area view (s\<lparr>ts_hits := no_hits\<rparr>) = (MenuTable t, s')"
    and area: "rt_y area + rt_height area \<le> u16_max"
    and hit: "hit_row x y (hm_main_rows (ts_hits s')) \<noteq> None \<or> hit_row x y (hm_subscription_rows (ts_hits s')) \<noteq> None
      \<or> hit_row x y (hm_config_rows (ts_hits s')) \<noteq> None" and shown_view: "ts_view s = SubscriptionsView"
  shows "\<exists>cells. map_option fst (row_at area y t) = Some cells \<and> selected_row (click x y s') = Some (cells, selected_colours)"
proof -
  define n v o' where "n = length (subscriptions_of s) + 1" and "v = max (visible_row_count area) 1"
    and "o' = scroll_offset (ts_selected_subscription s) n v"
  let ?add = "([''+'', ''+'', ''-'', ''New Subscription'', ''Enter to start guided setup''],
      if ts_selected_subscription s = 0 then selected_colours else (Some Green, None)) :: table_row"
  let ?rows = "?add # map (subscription_row s) (enumerate 0 (subscriptions_of s))"
  have s': "s' = s\<lparr>ts_hits := no_hits\<lparr>hm_subscription_rows := row_hits_with_offset area n o'\<rparr>\<rparr>"
    and t: "tb_rows t = take v (drop o' ?rows)"
    using drawn shown_view
    by (auto simp: draw_menu_def draw_subscriptions_def Let_def v_def n_def o'_def)
  obtain i where i: "hit_row x y (row_hits_with_offset area n o') = Some i"
    using hit s' by (auto simp: no_hits_def)
  note spec = hit_row_spec[OF i area]
  have "row_at area y t = Some (?rows ! i)"
    by (rule row_at_shown[OF _ _ _ _ t]) (use spec in \<open>auto simp: v_def n_def\<close>)
  moreover have "fst (?rows ! i) = (if i = 0 then fst ?add else fst (subscription_row s (i - 1, subscriptions_of s ! (i - 1))))"
    using spec by (cases i) (simp_all add: n_def nth_enumerate_eq)
  moreover have "selected_row (click x y s') = Some (fst (?rows ! i), selected_colours)"
    using i shown_view calculation(2)
    by (cases i) (simp_all add: s' click_def selected_row_def no_hits_def subscription_row_def)
  ultimately show ?thesis by simp
qed

lemma click_in_configurations:
  assumes drawn: "draw_menu area view (s\<lparr>ts_hits := no_hits\<rparr>) = (MenuTable t, s')"
    and area: "rt_y area + rt_height area \<le> u16_max"
    and hit: "hit_row x y (hm_main_rows (ts_hits s')) \<noteq> None \<or> hit_row x y (hm_subscription_rows (ts_hits s')) \<noteq> None
      \<or> hit_row x y (hm_config_rows (ts_hits s')) \<noteq> None" and shown_view: "ts_view s = ConfigurationsView"
  shows "\<exists>cells. map_option fst (row_at area y t) = Some cells \<and> selected_row (click x y s') = Some (cells, selected_colours)"
proof -
  define v o' where "v = visible_row_count area" and "o' = scroll_offset (ts_selected_config s) (length CONFIG_KEYS) v"
  let ?f = "\<lambda>(index, key). ([label key, config_value s key, guide key], row_style (index = ts_selected_config s) [])"
  have s': "s' = s\<lparr>ts_hits := no_hits\<lparr>hm_config_rows := row_hits_with_offset area (length CONFIG_KEYS) o'\<rparr>\<rparr>"
    and t: "tb_rows t = take v (drop o' (map ?f (enumerate 0 CONFIG_KEYS)))"
    using drawn shown_view by (auto simp: draw_menu_def draw_configurations_def Let_def v_def o'_def shown_map)
  obtain i where i: "hit_row x y (row_hits_with_offset area (length CONFIG_KEYS) o') = Some i"
    using hit s' by (auto simp: no_hits_def)
  note spec = hit_row_spec[OF i area]
  have "row_at area y t = Some (map ?f (enumerate 0 CONFIG_KEYS) ! i)"
    by (rule row_at_shown[OF _ _ _ _ t]) (use spec in \<open>auto simp: v_def\<close>)
  then have "map_option fst (row_at area y t) = Some (let key = CONFIG_KEYS ! i in [label key, config_value s key, guide key])"
    using spec by (simp add: nth_enumerate_eq Let_def)
  moreover have "selected_row (click x y s') = Some ((let key = CONFIG_KEYS ! i in [label key, config_value s key, guide key]), selected_colours)"
    using i shown_view by (simp add: s' click_def selected_row_def no_hits_def Let_def)
  ultimately show ?thesis by blast
qed

text \<open>
  C38: A click selects exactly the row that is drawn under the mouse: with its text, now highlighted.
\<close>

theorem click_selects_the_row_drawn:
  assumes drawn: "draw_menu area view (s\<lparr>ts_hits := no_hits\<rparr>) = (MenuTable t, s')"
    and area: "rt_y area + rt_height area \<le> u16_max"
    and hit: "hit_row x y (hm_main_rows (ts_hits s')) \<noteq> None \<or> hit_row x y (hm_subscription_rows (ts_hits s')) \<noteq> None
      \<or> hit_row x y (hm_config_rows (ts_hits s')) \<noteq> None"
  shows "\<exists>cells. map_option fst (row_at area y t) = Some cells \<and> selected_row (click x y s') = Some (cells, selected_colours)"
proof (cases "ts_view s")
  case MainView
  then show ?thesis by (rule click_in_main[OF assms])
next
  case SubscriptionsView
  then show ?thesis by (rule click_in_subscriptions[OF assms])
next
  case ConfigurationsView
  then show ?thesis by (rule click_in_configurations[OF assms])
qed (use drawn hit in \<open>auto simp: draw_menu_def no_hits_def draw_live_logs_def Let_def\<close>)

definition sample_menu :: "menu_content \<times> tui_state" where
  "sample_menu = draw_menu (sample_area\<lparr>rt_height := 12\<rparr>) (runtime_view_of runtime_state_default (runtime_config_of app_config_default))
     (tui_state_new app_config_default\<lparr>ts_hits := no_hits\<rparr>)"

theorem click_selects_the_row_drawn_witness:
  "\<exists>t s'. sample_menu = (MenuTable t, s') \<and> hit_row 5 24 (hm_main_rows (ts_hits s')) = Some 2
     \<and> (\<exists>cells. map_option fst (row_at (sample_area\<lparr>rt_height := 12\<rparr>) 24 t) = Some cells
          \<and> selected_row (click 5 24 s') = Some (cells, selected_colours))"
proof -
  obtain t s' where m: "sample_menu = (MenuTable t, s')"
    by (auto simp: sample_menu_def draw_menu_def tui_state_new_def draw_main_def Let_def)
  have "hit_row 5 24 (hm_main_rows (ts_hits (snd sample_menu))) = Some 2" by code_simp
  then have hit: "hit_row 5 24 (hm_main_rows (ts_hits s')) = Some 2" by (simp add: m)
  then have "\<exists>cells. map_option fst (row_at (sample_area\<lparr>rt_height := 12\<rparr>) 24 t) = Some cells
      \<and> selected_row (click 5 24 s') = Some (cells, selected_colours)"
    by (intro click_selects_the_row_drawn[OF m[unfolded sample_menu_def]]) (simp_all add: sample_area_def u16_max_def)
  with m hit show ?thesis by blast
qed

text \<open>The selected row of a menu is among the rows drawn.\<close>

lemma selected_row_drawn:
  assumes "selected < items" and "0 < visible" and "items \<le> usize_max"
  shows "scroll_offset selected items visible \<le> selected \<and> selected - scroll_offset selected items visible < visible"
  using assms by (auto simp: scroll_offset_def sat_add_def)

text \<open>A scroll bar's thumb stays on its track.\<close>

lemma scrollbar_position_bound:
  assumes "scrollbar_position height items visible offset invert = Some pos"
  shows "pos < items"
proof -
  from assms have v: "visible < items" by (auto simp: scrollbar_position_def split: if_splits)
  have "min offset (items - visible) * (items - 1) div (items - visible) \<le> items - 1"
    using v by (metis div_le_mono min.cobounded2 mult_le_mono1 nonzero_mult_div_cancel_left zero_less_diff less_numeral_extra(3))
  with assms v show ?thesis by (auto simp: scrollbar_position_def Let_def split: if_splits)
qed

end
