(* ===== verification/TuiLoop.thy ===== *)
theory TuiLoop
  imports Panels SingBox
begin

text \<open>
  The loops of the terminal interface: the frames of \<open>src/tui.rs\<close> (\<open>run\<close>) and the first-run setup of
  \<open>src/tui/setup.rs\<close>, and what holds in every state the menus reach.
\<close>

subsection \<open>Frames\<close>

text \<open>
  What one turn of \<open>run\<close> meets: a frame that is due, on a terminal of some size and with the runtime
  state of that moment, or one that cannot be drawn; events that wait; or nothing.
\<close>

datatype loop_input =
  Frame rect runtime_state | DrawFailure string | Events "(tui_env \<times> tui_event) list" | Idle

text \<open>
  Where the loop is: still running, or ended with a result.  \<open>restored\<close> tells whether
  \<open>restore_terminal\<close> was called: the \<open>?\<close> after \<open>drain_events\<close> leaves without it.
\<close>

datatype loop_state = Running | Ended "unit result" (restored: bool)

type_synonym layout_solver = "constraint list \<Rightarrow> rect \<Rightarrow> rect list"

definition tui_turn ::
  "layout_solver \<Rightarrow> unit result \<Rightarrow> loop_input \<Rightarrow> tui_state \<Rightarrow> outside \<Rightarrow> (loop_state \<times> tui_state \<times> outside) option" where
  "tui_turn split restoring input s w =
     (case input of
        Idle \<Rightarrow> Some (Running, s, w)
      | DrawFailure e \<Rightarrow> Some (Ended (Inl e) True, s, w)
      | Frame area runtime \<Rightarrow>
          map_option (\<lambda>s. (Running, s, w))
            (draw_state split area (runtime_view_of runtime (ow_runtime w)) (rtc_top_n (ow_runtime w)) s)
      | Events events \<Rightarrow>
          (case drain_events TUI_MAX_EVENTS_PER_FRAME events s w of
             None \<Rightarrow> None
           | Some (Inl e, s, w) \<Rightarrow> Some (Ended (Inl e) False, s, w)
           | Some (Inr Quit, s, w) \<Rightarrow> Some (Ended restoring True, s, w)
           | Some (Inr Continue, s, w) \<Rightarrow> Some (Running, s, w)))"

fun tui_loop ::
  "layout_solver \<Rightarrow> unit result \<Rightarrow> loop_input list \<Rightarrow> tui_state \<Rightarrow> outside \<Rightarrow> (loop_state \<times> tui_state \<times> outside) option" where
  "tui_loop split restoring [] s w = Some (Running, s, w)"
| "tui_loop split restoring (input # inputs) s w =
     (case tui_turn split restoring input s w of
        Some (Running, s, w) \<Rightarrow> tui_loop split restoring inputs s w
      | stopped \<Rightarrow> stopped)"

definition tui_run ::
  "layout_solver \<Rightarrow> unit result \<Rightarrow> app_config \<Rightarrow> loop_input list \<Rightarrow> outside \<Rightarrow> (loop_state \<times> tui_state \<times> outside) option" where
  "tui_run split restoring config inputs w = tui_loop split restoring inputs (tui_state_new config) w"

subsection \<open>First-run setup\<close>

record setup_state =
  su_input :: string
  su_status :: string
  su_verifying :: bool

definition setup_state_new :: "app_config \<Rightarrow> setup_state" where
  "setup_state_new config = \<lparr>su_input = pc_sing_box_path (ac_probe config),
     su_status = ''Enter the sing-box path or PATH command, then press Enter'', su_verifying = False\<rparr>"

text \<open>An event of the setup, with what running the candidate and writing the file give.\<close>

datatype setup_end = SetupDone | SetupFailed string (setup_restored: bool)

text \<open>One event that was read; \<open>Inl\<close> goes on, \<open>Inr\<close> ends.  \<open>None\<close>: saving panics.\<close>

definition setup_event ::
  "sing_box_env \<Rightarrow> save_env \<Rightarrow> key_event \<Rightarrow> setup_state \<Rightarrow> app_config
     \<Rightarrow> (setup_state + setup_end \<times> app_config \<times> string option) option" where
  "setup_event env files key su config =
     (if \<not> ke_press key then Some (Inl su)
      else if ke_control key \<and> ke_code key = CharKey ''c'' then Some (Inr (SetupFailed ''sing-box setup cancelled'' True, config, None))
      else case ke_code key of
        EscKey \<Rightarrow> Some (Inr (SetupFailed ''sing-box setup cancelled'' True, config, None))
      | EnterKey \<Rightarrow>
          let candidate = normalize_path (su_input su) in
          (case verify_path env candidate of
             Inl e \<Rightarrow> Some (Inl (su\<lparr>su_verifying := False, su_status := e\<rparr>))
           | Inr _ \<Rightarrow>
             let config' = on_probe config (\<lambda>p. p\<lparr>pc_sing_box_path := candidate, pc_sing_box_path_auto := False\<rparr>) in
             (case save_config files config' of
                None \<Rightarrow> None
              | Some (Inl e) \<Rightarrow> Some (Inr (SetupFailed e False, config', None))
              | Some (Inr content) \<Rightarrow> Some (Inr (SetupDone, config', Some content))))
      | BackspaceKey \<Rightarrow> Some (Inl (su\<lparr>su_input := pop_char (su_input su)\<rparr>))
      | CharKey c \<Rightarrow> Some (Inl (su\<lparr>su_input := su_input su @ c\<rparr>))
      | _ \<Rightarrow> Some (Inl su))"

text \<open>The keys the user presses, one after the other; \<open>None\<close> inside means that the setup still waits.\<close>

fun setup_loop ::
  "(sing_box_env \<times> save_env \<times> key_event) list \<Rightarrow> setup_state \<Rightarrow> app_config
     \<Rightarrow> (setup_end \<times> app_config \<times> string option) option option" where
  "setup_loop [] su config = Some None"
| "setup_loop ((env, files, key) # events) su config =
     (case setup_event env files key su config of
        None \<Rightarrow> None
      | Some (Inl su) \<Rightarrow> setup_loop events su config
      | Some (Inr finished) \<Rightarrow> Some (Some finished))"

definition setup_run ::
  "(sing_box_env \<times> save_env \<times> key_event) list \<Rightarrow> app_config \<Rightarrow> (setup_end \<times> app_config \<times> string option) option option" where
  "setup_run events config = setup_loop events (setup_state_new config) config"

text \<open>A setup that succeeds leaves a path whose executable ran, and the file that says so.\<close>

lemma setup_loop_verified:
  assumes "setup_loop events su config = Some (Some (SetupDone, config', content))"
  shows "\<exists>env files key. (env, files, key) \<in> set events \<and> verify_path env (pc_sing_box_path (ac_probe config')) = Inr ()
     \<and> \<not> pc_sing_box_path_auto (ac_probe config') \<and> save_config files config' = Some (Inr (the content))"
  using assms
proof (induction events arbitrary: su)
  case (Cons e events)
  obtain env files key where e: "e = (env, files, key)" by (cases e)
  show ?case
  proof (cases "setup_event env files key su config")
    case (Some r)
    show ?thesis
    proof (cases r)
      case (Inl su')
      then show ?thesis using Cons Some e by fastforce
    next
      case (Inr fin)
      then have "setup_event env files key su config = Some (Inr (SetupDone, config', content))"
        using Cons.prems Some e by simp
      then have "verify_path env (pc_sing_box_path (ac_probe config')) = Inr () \<and> \<not> pc_sing_box_path_auto (ac_probe config')
         \<and> save_config files config' = Some (Inr (the content))"
        by (auto simp: setup_event_def Let_def on_probe_def split: if_splits key_code.splits sum.splits option.splits)
      then show ?thesis using e by auto
    qed
  qed (use Cons.prems e in simp)
qed simp

subsection \<open>Well-formed states\<close>

text \<open>
  The wizard's view, its input mode and its draft come together; a reset has a code; the selected
  rows and the rows the mouse can hit exist; the edited settings are within their limits, and what the
  wizard has taken so far is too.
\<close>

definition hits_ok :: "hit_map \<Rightarrow> bool" where
  "hits_ok hits \<longleftrightarrow> (\<forall>p\<in>set (hm_main_rows hits). fst p < length MAIN_ITEMS) \<and> (\<forall>p\<in>set (hm_config_rows hits). fst p < length CONFIG_KEYS)"

definition editable_ok :: "app_config \<Rightarrow> bool" where
  "editable_ok config \<longleftrightarrow> limits_ok config \<and> (\<forall>x\<in>set (ac_subscriptions config). ss_priority x \<le> u32_max)"

definition draft_ok :: "input_mode \<Rightarrow> subscription_draft \<Rightarrow> bool" where
  "draft_ok mode d \<longleftrightarrow> dr_priority d \<le> u32_max
     \<and> (mode \<in> NewSubscriptionInput ` {NameStep, PriorityStep, EnabledStep} \<longrightarrow> trim (dr_url d) \<noteq> [])
     \<and> (mode \<in> NewSubscriptionInput ` {PriorityStep, EnabledStep} \<longrightarrow> trim (dr_name d) \<noteq> [])"

definition code_ok :: "string \<Rightarrow> bool" where
  "code_ok code \<longleftrightarrow> (\<exists>n. 1000 \<le> n \<and> n < 10000 \<and> code = show_nat n)"

fun wizard_mode :: "input_mode \<Rightarrow> bool" where
  "wizard_mode (NewSubscriptionInput step) \<longleftrightarrow> True"
| "wizard_mode _ \<longleftrightarrow> False"

definition wizard_ok :: "tui_state \<Rightarrow> bool" where
  "wizard_ok s \<longleftrightarrow> (ts_view s = NewSubscriptionView \<longleftrightarrow> wizard_mode (ts_input_mode s))
     \<and> (case ts_new_subscription s of None \<Rightarrow> ts_view s \<noteq> NewSubscriptionView
        | Some d \<Rightarrow> ts_view s = NewSubscriptionView \<and> draft_ok (ts_input_mode s) d)"

definition reset_ok :: "tui_state \<Rightarrow> bool" where
  "reset_ok s \<longleftrightarrow> (ts_input_mode s = ResetConfirm \<longrightarrow> ts_reset_code s \<noteq> None) \<and> pred_option code_ok (ts_reset_code s)"

definition rows_ok :: "tui_state \<Rightarrow> bool" where
  "rows_ok s \<longleftrightarrow> ts_selected_main s < length MAIN_ITEMS \<and> ts_selected_action s < length SUBSCRIPTION_ACTIONS
     \<and> ts_selected_config s < length CONFIG_KEYS \<and> hits_ok (ts_hits s)"

definition tui_ok :: "tui_state \<Rightarrow> bool" where
  "tui_ok s \<longleftrightarrow> wizard_ok s \<and> reset_ok s \<and> rows_ok s \<and> editable_ok (ts_editable s)"

text \<open>The states the menus reach from a configuration that was loaded.\<close>

inductive tui_reach :: "layout_solver \<Rightarrow> tui_state \<times> outside \<Rightarrow> bool" for split where
  start: "config_ok config \<Longrightarrow> \<forall>x\<in>set (ac_subscriptions config). ss_priority x \<le> u32_max
    \<Longrightarrow> tui_reach split (tui_state_new config, w)"
| frame: "tui_reach split (s, w) \<Longrightarrow> draw_state split area view top_n s = Some s' \<Longrightarrow> tui_reach split (s', w)"
| key: "tui_reach split (s, w) \<Longrightarrow> config_ok (te_first_run env) \<Longrightarrow> handle_key env key s w = Some (r, s', w')
    \<Longrightarrow> tui_reach split (s', w')"
| mouse: "tui_reach split (s, w) \<Longrightarrow> tui_reach split (handle_mouse m s, w)"
| outside: "tui_reach split (s, w) \<Longrightarrow> tui_reach split (s, w')"

text \<open>What each part does not depend on.\<close>

lemma wizard_ok_frame [simp]:
  "wizard_ok (s\<lparr>ts_editable := c\<rparr>) = wizard_ok s" "wizard_ok (s\<lparr>ts_status := m\<rparr>) = wizard_ok s"
  "wizard_ok (s\<lparr>ts_input := i\<rparr>) = wizard_ok s" "wizard_ok (s\<lparr>ts_dirty := d\<rparr>) = wizard_ok s"
  "wizard_ok (s\<lparr>ts_selected_subscription := j\<rparr>) = wizard_ok s" "wizard_ok (s\<lparr>ts_selected_log := j\<rparr>) = wizard_ok s"
  "wizard_ok (s\<lparr>ts_logs_scroll := j\<rparr>) = wizard_ok s" "wizard_ok (s\<lparr>ts_found_scroll := j\<rparr>) = wizard_ok s"
  "wizard_ok (s\<lparr>ts_reset_code := r\<rparr>) = wizard_ok s" "wizard_ok (s\<lparr>ts_selected_main := j\<rparr>) = wizard_ok s"
  "wizard_ok (s\<lparr>ts_selected_action := j\<rparr>) = wizard_ok s" "wizard_ok (s\<lparr>ts_selected_config := j\<rparr>) = wizard_ok s"
  "wizard_ok (s\<lparr>ts_hits := h\<rparr>) = wizard_ok s"
  by (simp_all add: wizard_ok_def cong: option.case_cong)

lemma reset_ok_frame [simp]:
  "reset_ok (s\<lparr>ts_editable := c\<rparr>) = reset_ok s" "reset_ok (s\<lparr>ts_status := m\<rparr>) = reset_ok s"
  "reset_ok (s\<lparr>ts_input := i\<rparr>) = reset_ok s" "reset_ok (s\<lparr>ts_dirty := d\<rparr>) = reset_ok s"
  "reset_ok (s\<lparr>ts_selected_subscription := j\<rparr>) = reset_ok s" "reset_ok (s\<lparr>ts_selected_log := j\<rparr>) = reset_ok s"
  "reset_ok (s\<lparr>ts_logs_scroll := j\<rparr>) = reset_ok s" "reset_ok (s\<lparr>ts_found_scroll := j\<rparr>) = reset_ok s"
  "reset_ok (s\<lparr>ts_view := v\<rparr>) = reset_ok s" "reset_ok (s\<lparr>ts_selected_main := j\<rparr>) = reset_ok s"
  "reset_ok (s\<lparr>ts_selected_action := j\<rparr>) = reset_ok s" "reset_ok (s\<lparr>ts_selected_config := j\<rparr>) = reset_ok s"
  "reset_ok (s\<lparr>ts_hits := h\<rparr>) = reset_ok s" "reset_ok (s\<lparr>ts_new_subscription := dr\<rparr>) = reset_ok s"
  by (simp_all add: reset_ok_def)

lemma rows_ok_frame [simp]:
  "rows_ok (s\<lparr>ts_editable := c\<rparr>) = rows_ok s" "rows_ok (s\<lparr>ts_status := m\<rparr>) = rows_ok s"
  "rows_ok (s\<lparr>ts_input := i\<rparr>) = rows_ok s" "rows_ok (s\<lparr>ts_dirty := d\<rparr>) = rows_ok s"
  "rows_ok (s\<lparr>ts_selected_subscription := j\<rparr>) = rows_ok s" "rows_ok (s\<lparr>ts_selected_log := j\<rparr>) = rows_ok s"
  "rows_ok (s\<lparr>ts_logs_scroll := j\<rparr>) = rows_ok s" "rows_ok (s\<lparr>ts_found_scroll := j\<rparr>) = rows_ok s"
  "rows_ok (s\<lparr>ts_view := v\<rparr>) = rows_ok s" "rows_ok (s\<lparr>ts_input_mode := mode\<rparr>) = rows_ok s"
  "rows_ok (s\<lparr>ts_reset_code := r\<rparr>) = rows_ok s" "rows_ok (s\<lparr>ts_new_subscription := dr\<rparr>) = rows_ok s"
  by (simp_all add: rows_ok_def)

text \<open>Outside the wizard, modes and views that are not the wizard's change freely.\<close>

lemma wizard_ok_mode: "wizard_ok s \<Longrightarrow> ts_view s \<noteq> NewSubscriptionView \<Longrightarrow> \<not> wizard_mode mode \<Longrightarrow> wizard_ok (s\<lparr>ts_input_mode := mode\<rparr>)"
  by (cases "ts_new_subscription s") (simp_all add: wizard_ok_def)

lemma wizard_ok_change_view: "wizard_ok s \<Longrightarrow> ts_view s \<noteq> NewSubscriptionView \<Longrightarrow> v \<noteq> NewSubscriptionView \<Longrightarrow> wizard_ok (s\<lparr>ts_view := v\<rparr>)"
  by (cases "ts_new_subscription s") (simp_all add: wizard_ok_def)

lemma reset_ok_mode: "reset_ok s \<Longrightarrow> (mode = ResetConfirm \<Longrightarrow> ts_reset_code s \<noteq> None) \<Longrightarrow> reset_ok (s\<lparr>ts_input_mode := mode\<rparr>)"
  by (simp add: reset_ok_def)

lemma wizard_ok_view: "wizard_ok s \<Longrightarrow> \<not> wizard_mode (ts_input_mode s) \<Longrightarrow> ts_view s \<noteq> NewSubscriptionView"
  by (simp add: wizard_ok_def)

lemma wizard_left: "ts_new_subscription s = None \<Longrightarrow> ts_view s \<noteq> NewSubscriptionView \<Longrightarrow> \<not> wizard_mode (ts_input_mode s) \<Longrightarrow> wizard_ok s"
  by (simp add: wizard_ok_def)

text \<open>Edits of the subscriptions.\<close>

lemma update_selected_fields:
  assumes "update_selected f s = Some s'"
  shows "\<exists>i<length (subscriptions_of s). s' = set_subscriptions ((subscriptions_of s)[i := f (subscriptions_of s ! i)]) s"
  using assms
  by (auto simp: update_selected_def selected_subscription_index_def Let_def split: if_splits
      intro!: exI[of _ "ts_selected_subscription s - 1"])

lemma editable_subscriptions:
  "editable_ok (config\<lparr>ac_subscriptions := subs\<rparr>) \<longleftrightarrow> editable_ok (config\<lparr>ac_subscriptions := []\<rparr>)
     \<and> (\<forall>x\<in>set subs. trim (ss_name x) \<noteq> [] \<and> trim (ss_url x) \<noteq> [] \<and> ss_priority x \<le> u32_max)"
  by (auto simp: editable_ok_def limits_ok_def)

lemma editable_parts:
  assumes "editable_ok config"
  shows "editable_ok (config\<lparr>ac_subscriptions := []\<rparr>)"
    and "x \<in> set (ac_subscriptions config) \<Longrightarrow> trim (ss_name x) \<noteq> [] \<and> trim (ss_url x) \<noteq> [] \<and> ss_priority x \<le> u32_max"
  using assms by (auto simp: editable_ok_def limits_ok_def)

lemma set_subscriptions_ok:
  assumes "tui_ok s" and "\<And>x. x \<in> set subs \<Longrightarrow> trim (ss_name x) \<noteq> [] \<and> trim (ss_url x) \<noteq> [] \<and> ss_priority x \<le> u32_max"
  shows "tui_ok (set_subscriptions subs s)"
proof -
  have "wizard_ok (set_subscriptions subs s)" "reset_ok (set_subscriptions subs s)" "rows_ok (set_subscriptions subs s)"
    using assms(1) by (simp_all add: tui_ok_def set_subscriptions_def)
  moreover have "editable_ok (ts_editable (set_subscriptions subs s))"
    using assms editable_parts(1)[of "ts_editable s"] iffD2[OF editable_subscriptions[of subs "ts_editable s"]]
    by (simp add: set_subscriptions_def tui_ok_def)
  ultimately show ?thesis by (simp add: tui_ok_def)
qed

lemma update_selected_ok:
  assumes "update_selected f s = Some s'" and "tui_ok s"
    and "\<And>x. trim (ss_name x) \<noteq> [] \<and> trim (ss_url x) \<noteq> [] \<and> ss_priority x \<le> u32_max
      \<Longrightarrow> trim (ss_name (f x)) \<noteq> [] \<and> trim (ss_url (f x)) \<noteq> [] \<and> ss_priority (f x) \<le> u32_max"
  shows "tui_ok s'"
proof -
  have parts: "\<And>x. x \<in> set (subscriptions_of s) \<Longrightarrow> trim (ss_name x) \<noteq> [] \<and> trim (ss_url x) \<noteq> [] \<and> ss_priority x \<le> u32_max"
    using assms(2) editable_parts(2) by (auto simp: tui_ok_def subscriptions_of_def)
  obtain i where i: "i < length (subscriptions_of s)" "s' = set_subscriptions ((subscriptions_of s)[i := f (subscriptions_of s ! i)]) s"
    using update_selected_fields[OF assms(1)] by blast
  show ?thesis unfolding i(2)
  proof (rule set_subscriptions_ok[OF assms(2)])
    fix x assume "x \<in> set ((subscriptions_of s)[i := f (subscriptions_of s ! i)])"
    then have "x \<in> set (subscriptions_of s) \<or> x = f (subscriptions_of s ! i)" using set_update_subset_insert by fastforce
    then show "trim (ss_name x) \<noteq> [] \<and> trim (ss_url x) \<noteq> [] \<and> ss_priority x \<le> u32_max"
      using parts assms(3)[OF parts[OF nth_mem[OF i(1)]]] by auto
  qed
qed

lemma update_selected_frame:
  assumes "update_selected f s = Some s'"
  shows "ts_view s' = ts_view s \<and> ts_input_mode s' = ts_input_mode s \<and> ts_new_subscription s' = ts_new_subscription s"
  using update_selected_fields[OF assms] by (auto simp: set_subscriptions_def)

text \<open>Changes of the status, the input and the mark of unsaved changes are free.\<close>

lemma tui_ok_free [simp]:
  "tui_ok (s\<lparr>ts_status := m\<rparr>) = tui_ok s" "tui_ok (s\<lparr>ts_input := i\<rparr>) = tui_ok s" "tui_ok (s\<lparr>ts_dirty := d\<rparr>) = tui_ok s"
  "tui_ok (s\<lparr>ts_selected_subscription := j\<rparr>) = tui_ok s" "tui_ok (s\<lparr>ts_selected_log := j\<rparr>) = tui_ok s"
  "tui_ok (s\<lparr>ts_logs_scroll := j\<rparr>) = tui_ok s" "tui_ok (s\<lparr>ts_found_scroll := j\<rparr>) = tui_ok s"
  by (simp_all add: tui_ok_def)

lemma tui_ok_say [simp]: "tui_ok (say m s) = tui_ok s"
  by (simp add: say_def)

text \<open>A mode other than the wizard's can be entered and left outside the wizard.\<close>

lemma tui_ok_mode:
  assumes "tui_ok s" and "ts_view s \<noteq> NewSubscriptionView" and "\<not> wizard_mode mode" and "mode = ResetConfirm \<Longrightarrow> ts_reset_code s \<noteq> None"
  shows "tui_ok (s\<lparr>ts_input_mode := mode\<rparr>)"
  using assms wizard_ok_mode reset_ok_mode by (simp add: tui_ok_def)

lemma tui_ok_view:
  assumes "tui_ok s" and "ts_view s \<noteq> NewSubscriptionView" and "view \<noteq> NewSubscriptionView"
  shows "tui_ok (s\<lparr>ts_view := view\<rparr>)"
  using assms wizard_ok_change_view by (simp add: tui_ok_def)

subsection \<open>Every handler keeps states well formed\<close>

lemma start_input_ok:
  assumes "tui_ok s" and "ts_view s \<noteq> NewSubscriptionView" and "\<not> wizard_mode mode" and "mode \<noteq> ResetConfirm \<or> ts_reset_code s \<noteq> None"
  shows "tui_ok (start_input mode v s)"
  using tui_ok_mode[OF assms(1-3)] assms(4) by (simp add: start_input_def)

lemma finish_edit_ok: "tui_ok s \<Longrightarrow> ts_view s \<noteq> NewSubscriptionView \<Longrightarrow> tui_ok (finish_edit m s)"
  using tui_ok_mode[of s NoInput] by (simp add: finish_edit_def)

lemma tui_ok_views: "tui_ok s \<Longrightarrow> \<not> wizard_mode (ts_input_mode s) \<Longrightarrow> ts_view s \<noteq> NewSubscriptionView"
  by (simp add: tui_ok_def wizard_ok_def)

lemma commit_selected_ok:
  assumes "tui_ok s" and "ts_view s \<noteq> NewSubscriptionView"
    and "\<And>x. trim (ss_name x) \<noteq> [] \<and> trim (ss_url x) \<noteq> [] \<and> ss_priority x \<le> u32_max
      \<Longrightarrow> trim (ss_name (f x)) \<noteq> [] \<and> trim (ss_url (f x)) \<noteq> [] \<and> ss_priority (f x) \<le> u32_max"
  shows "tui_ok (commit_selected f m s)"
proof (cases "update_selected f s")
  case (Some s')
  then show ?thesis
    using update_selected_ok[OF Some assms(1,3)] update_selected_frame[OF Some] assms(2)
    by (simp add: commit_selected_def finish_edit_ok)
qed (simp add: commit_selected_def assms(1))

lemma wizard_step_ok:
  assumes "tui_ok s" and "ts_new_subscription s = Some d" and "draft_ok (NewSubscriptionInput step) d'"
  shows "tui_ok (start_input (NewSubscriptionInput step) v (s\<lparr>ts_new_subscription := Some d'\<rparr>))"
  using assms by (simp add: start_input_def tui_ok_def wizard_ok_def reset_ok_def rows_ok_def)

lemma start_new_subscription_ok: "tui_ok s \<Longrightarrow> tui_ok (start_new_subscription s)"
  by (auto simp: start_new_subscription_def start_input_def tui_ok_def wizard_ok_def reset_ok_def rows_ok_def draft_ok_def
      next_subscription_priority_def)

lemma wizard_leaves:
  assumes "tui_ok s"
  shows "tui_ok (s\<lparr>ts_new_subscription := None, ts_view := SubscriptionsView, ts_input_mode := NoInput\<rparr>)"
  using assms by (simp add: tui_ok_def wizard_ok_def reset_ok_def rows_ok_def)

lemma current_draft:
  assumes "tui_ok s" and "ts_new_subscription s = Some d"
  shows "draft_ok (ts_input_mode s) d"
  using assms by (simp add: tui_ok_def wizard_ok_def)

lemma commit_step_ok:
  assumes "tui_ok s" and "ts_input_mode s = NewSubscriptionInput step"
  shows "tui_ok (commit_new_subscription_step step s)"
proof (cases "ts_new_subscription s")
  case None
  then show ?thesis
    using assms by (cases step) (auto simp: commit_new_url_def commit_new_name_def commit_new_priority_def commit_new_enabled_def Let_def
        split: sum.split option.split)
next
  case (Some d)
  note draft = current_draft[OF assms(1) Some, unfolded assms(2)]
  show ?thesis
  proof (cases step)
    case UrlStep
    then show ?thesis using assms(1) Some draft wizard_step_ok[OF assms(1) Some]
      by (auto simp: commit_new_url_def Let_def draft_ok_def)
  next
    case NameStep
    then show ?thesis using assms(1) Some draft wizard_step_ok[OF assms(1) Some]
      by (auto simp: commit_new_name_def Let_def draft_ok_def)
  next
    case PriorityStep
    have "tui_ok (start_input (NewSubscriptionInput EnabledStep) v (s\<lparr>ts_new_subscription := Some (d\<lparr>dr_priority := n\<rparr>)\<rparr>))"
      if "parse_int u32_max (trim (ts_input s)) = Inr n" for n v
      using wizard_step_ok[OF assms(1) Some] draft PriorityStep parse_int_le[OF that] by (auto simp: draft_ok_def)
    then show ?thesis using assms(1) Some PriorityStep by (auto simp: commit_new_priority_def split: sum.split)
  next
    case EnabledStep
    have sub: "trim (dr_name d) \<noteq> [] \<and> trim (dr_url d) \<noteq> [] \<and> dr_priority d \<le> u32_max"
      using draft EnabledStep by (simp add: draft_ok_def)
    have "tui_ok (finish_edit m (set_subscriptions (subscriptions_of s @ [\<lparr>ss_name = dr_name d, ss_url = dr_url d, ss_enabled = b, ss_priority = dr_priority d\<rparr>]) s
        \<lparr>ts_new_subscription := None, ts_selected_subscription := n, ts_view := SubscriptionsView, ts_dirty := True\<rparr>))" for b m n
    proof -
      let ?s = "set_subscriptions (subscriptions_of s @ [\<lparr>ss_name = dr_name d, ss_url = dr_url d, ss_enabled = b, ss_priority = dr_priority d\<rparr>]) s"
      have "tui_ok ?s"
        using sub editable_parts(2)[of "ts_editable s"] assms(1)
        by (intro set_subscriptions_ok[OF assms(1)]) (auto simp: subscriptions_of_def tui_ok_def)
      from wizard_leaves[OF this] show ?thesis by (simp add: finish_edit_def tui_ok_def wizard_ok_def reset_ok_def rows_ok_def)
    qed
    then show ?thesis using assms(1) Some EnabledStep by (auto simp: commit_new_enabled_def Let_def split: option.split)
  qed
qed

lemma commit_config_ok:
  assumes "tui_ok s" and "ts_view s \<noteq> NewSubscriptionView"
  shows "tui_ok (commit_config generated s key)"
proof (cases "apply_setting generated (ts_editable s) key (ts_input s)")
  case (Inr config)
  have "ac_subscriptions config = ac_subscriptions (ts_editable s)"
    using Inr by (cases key) (auto simp: apply_setting_def setting_read Let_def on_probe_def on_sharing_def on_proxy_def)
  then have "editable_ok config"
    using edits_keep_limits[OF Inr] assms(1) by (simp add: editable_ok_def tui_ok_def)
  then have "tui_ok (s\<lparr>ts_editable := config\<rparr>)" using assms(1) by (simp add: tui_ok_def)
  then have "tui_ok (s\<lparr>ts_editable := config, ts_dirty := True\<rparr>)" by simp
  then show ?thesis using finish_edit_ok[of "s\<lparr>ts_editable := config, ts_dirty := True\<rparr>"] assms(2) by (simp add: commit_config_def Inr)
qed (simp add: commit_config_def assms(1))

lemma commit_reset_ok:
  assumes "tui_ok s" and "ts_view s \<noteq> NewSubscriptionView" and "config_ok first_run"
  shows "tui_ok (commit_reset first_run s)"
proof -
  have first: "editable_ok (first_run\<lparr>ac_subscriptions := []\<rparr>)"
    using assms(3) config_ok_settings by (simp add: editable_ok_def limits_ok_def)
  have "\<forall>x\<in>set (subscriptions_of s). trim (ss_name x) \<noteq> [] \<and> trim (ss_url x) \<noteq> [] \<and> ss_priority x \<le> u32_max"
    using editable_parts(2)[of "ts_editable s"] assms(1) by (auto simp: subscriptions_of_def tui_ok_def)
  then have "editable_ok (first_run\<lparr>ac_subscriptions := subscriptions_of s\<rparr>)"
    using first by (simp only: editable_subscriptions[of "subscriptions_of s" first_run])
  moreover have "wizard_mode (ts_input_mode s) = False" using assms(1,2) by (simp add: tui_ok_def wizard_ok_def)
  ultimately have "tui_ok (finish_edit m (s\<lparr>ts_editable := first_run\<lparr>ac_subscriptions := subscriptions_of s\<rparr>, ts_reset_code := None, ts_dirty := True\<rparr>))" for m
    using assms(1,2)
      wizard_ok_mode[of "s\<lparr>ts_editable := first_run\<lparr>ac_subscriptions := subscriptions_of s\<rparr>, ts_reset_code := None, ts_dirty := True\<rparr>" NoInput]
    by (simp add: finish_edit_def tui_ok_def reset_ok_def)
  then show ?thesis using assms(1) by (simp add: commit_reset_def)
qed

lemma toggle_subscription_ok: "tui_ok s \<Longrightarrow> tui_ok (toggle_subscription s)"
proof (cases "update_selected (\<lambda>x. x\<lparr>ss_enabled := \<not> ss_enabled x\<rparr>) s")
  case (Some s')
  assume "tui_ok s"
  then show ?thesis using update_selected_ok[OF Some] Some by (auto simp: toggle_subscription_def split: option.split)
qed (auto simp: toggle_subscription_def split: option.split)

lemma delete_subscription_ok:
  assumes "tui_ok s"
  shows "tui_ok (delete_subscription s) \<and> ts_view (delete_subscription s) = ts_view s"
proof -
  have "tui_ok (set_subscriptions (without i (subscriptions_of s)) s)" for i
    using editable_parts(2)[of "ts_editable s"] assms
    by (intro set_subscriptions_ok[OF assms])
       (auto simp: subscriptions_of_def tui_ok_def without_def dest: in_set_takeD in_set_dropD)
  then show ?thesis
    using assms by (auto simp: delete_subscription_def clamp_selection_def say_def set_subscriptions_def split: option.split)
qed

lemma commit_input_ok:
  assumes "tui_ok s" and "config_ok (te_first_run env)"
  shows "tui_ok (commit_input env s)"
proof (cases "ts_input_mode s")
  case (NewSubscriptionInput step)
  then show ?thesis using commit_step_ok[OF assms(1)] by (simp add: commit_input_def)
next
  case NameInput
  then have "ts_view s \<noteq> NewSubscriptionView" using tui_ok_views[OF assms(1)] by simp
  then show ?thesis
    using NameInput assms(1) by (auto simp: commit_input_def commit_name_def Let_def intro!: commit_selected_ok)
next
  case UrlInput
  then have "ts_view s \<noteq> NewSubscriptionView" using tui_ok_views[OF assms(1)] by simp
  then show ?thesis
    using UrlInput assms(1) by (auto simp: commit_input_def commit_url_def Let_def intro!: commit_selected_ok)
next
  case PriorityInput
  then have "ts_view s \<noteq> NewSubscriptionView" using tui_ok_views[OF assms(1)] by simp
  then show ?thesis
    using PriorityInput assms(1) parse_int_le
    by (auto simp: commit_input_def commit_priority_def split: sum.split intro!: commit_selected_ok)
next
  case (ConfigValueInput key)
  then show ?thesis using tui_ok_views[OF assms(1)] commit_config_ok[OF assms(1)] by (simp add: commit_input_def)
next
  case ResetConfirm
  then show ?thesis using tui_ok_views[OF assms(1)] commit_reset_ok[OF assms(1) _ assms(2)] by (simp add: commit_input_def)
qed (simp_all add: commit_input_def assms(1))

lemma type_key_ok [simp]: "tui_ok (type_key code s) = tui_ok s"
  by (simp add: type_key_def split: key_code.split)

lemma reset_forgotten: "tui_ok s \<Longrightarrow> ts_input_mode s \<noteq> ResetConfirm \<Longrightarrow> tui_ok (s\<lparr>ts_reset_code := None\<rparr>)"
  by (simp add: tui_ok_def reset_ok_def rows_ok_def)

lemma handle_input_key_ok:
  assumes "tui_ok s" and "config_ok (te_first_run env)"
  shows "tui_ok (handle_input_key env code s)"
proof (cases "code = EscKey")
  case True
  have "tui_ok (s\<lparr>ts_input_mode := NoInput, ts_reset_code := None\<rparr>)" if "ts_view s \<noteq> NewSubscriptionView"
    using reset_forgotten[OF tui_ok_mode[OF assms(1) that, of NoInput]] by simp
  moreover have "tui_ok (s\<lparr>ts_input_mode := NoInput, ts_view := SubscriptionsView, ts_new_subscription := None, ts_reset_code := None\<rparr>)"
    using assms(1) by (simp add: tui_ok_def wizard_ok_def reset_ok_def rows_ok_def)
  ultimately show ?thesis using True by (simp add: handle_input_key_def Let_def)
next
  case False
  then show ?thesis using assms commit_input_ok by (auto simp: handle_input_key_def split: key_code.split)
qed

lemma go_back_ok: "tui_ok s \<Longrightarrow> tui_ok (go_back s)"
proof (cases "ts_view s = NewSubscriptionView")
  case True
  assume "tui_ok s"
  then show ?thesis using True by (simp add: go_back_def tui_ok_def wizard_ok_def reset_ok_def rows_ok_def)
next
  case False
  assume "tui_ok s"
  then show ?thesis using False tui_ok_view by (auto simp: go_back_def split: menu_view.split)
qed

lemma rows_changed:
  assumes "tui_ok s"
  shows "i < length MAIN_ITEMS \<Longrightarrow> tui_ok (s\<lparr>ts_selected_main := i\<rparr>)"
    and "i < length SUBSCRIPTION_ACTIONS \<Longrightarrow> tui_ok (s\<lparr>ts_selected_action := i\<rparr>)"
    and "i < length CONFIG_KEYS \<Longrightarrow> tui_ok (s\<lparr>ts_selected_config := i\<rparr>)"
    and "hits_ok h \<Longrightarrow> tui_ok (s\<lparr>ts_hits := h\<rparr>)"
  using assms by (simp_all add: tui_ok_def rows_ok_def)

lemma menu_lengths [simp]: "length MAIN_ITEMS = 7" "length SUBSCRIPTION_ACTIONS = 6" "length CONFIG_KEYS = 33"
  by (simp_all add: MAIN_ITEMS_def SUBSCRIPTION_ACTIONS_def CONFIG_KEYS_def)

lemma tui_ok_rows:
  assumes "tui_ok s"
  shows "ts_selected_main s < 7" "ts_selected_action s < 6" "ts_selected_config s < 33" "hits_ok (ts_hits s)"
  using assms by (simp_all add: tui_ok_def rows_ok_def)

lemma move_ok:
  assumes "tui_ok s"
  shows "tui_ok (move_up s)" "tui_ok (move_down s)"
  using assms tui_ok_rows[OF assms] rows_changed[OF assms]
  by (auto simp: move_up_def move_down_def split: menu_view.split)

lemma hit_row_member: "hit_row x y rows = Some i \<Longrightarrow> \<exists>p\<in>set rows. fst p = i"
  by (auto simp: hit_row_def find_Some_iff) (metis fst_conv nth_mem)

lemma click_ok:
  assumes "tui_ok s"
  shows "tui_ok (click x y s)"
proof -
  have "i < 7" if "hit_row x y (hm_main_rows (ts_hits s)) = Some i" for i
    using hit_row_member[OF that] tui_ok_rows(4)[OF assms] by (auto simp: hits_ok_def)
  moreover have "i < 33" if "hit_row x y (hm_config_rows (ts_hits s)) = Some i" for i
    using hit_row_member[OF that] tui_ok_rows(4)[OF assms] by (auto simp: hits_ok_def)
  ultimately show ?thesis
    using assms rows_changed(1,3)[OF assms] by (auto simp: click_def split: option.split)
qed

lemma handle_mouse_ok:
  assumes "tui_ok s"
  shows "tui_ok (handle_mouse m s)"
  using assms tui_ok_rows[OF assms] rows_changed[OF assms] click_ok[OF assms]
  by (auto simp: handle_mouse_def scroll_up_def scroll_down_def Let_def split: mouse_kind.split)

text \<open>
  A step lands well when it does not panic, unless saving does, and its state is well formed.
\<close>

definition saving_panics :: "tui_env \<Rightarrow> outside \<Rightarrow> bool" where
  "saving_panics env w \<longleftrightarrow> (\<exists>config. save_config (save_env_of env w) config = None)"

definition lands :: "bool \<Rightarrow> 'r tui_step \<Rightarrow> bool" where
  "lands may_panic st \<longleftrightarrow> (case st of None \<Rightarrow> may_panic | Some (r, s, w) \<Rightarrow> tui_ok s)"

lemma lands_simps [simp]:
  "lands p (Some (r, s, w)) = tui_ok s" "lands p (go_on s w) = tui_ok s" "lands p (continue_with s w) = tui_ok s"
  "lands p (then_result st) = lands p st"
  by (auto simp: lands_def go_on_def continue_with_def then_result_def split: option.split)

lemma lands_saved:
  assumes "tui_ok s" and "\<And>w. lands (saving_panics env w0) (rest s w)"
  shows "lands (saving_panics env w0) (saved env s w0 rest)"
proof (cases "save_config (save_env_of env w0) (ts_editable s)")
  case None
  then show ?thesis by (auto simp: saved_def lands_def saving_panics_def)
next
  case (Some r)
  then show ?thesis using assms(1) assms(2)[of "w0\<lparr>ow_config := r\<rparr>"] by (cases r) (simp_all add: saved_def)
qed

lemma run_action_lands:
  assumes "tui_ok s" and "\<not> wizard_mode (ts_input_mode s)"
  shows "lands (saving_panics env w) (run_action env action s w)"
  using assms tui_ok_views[OF assms]
  by (cases action) (simp_all add: start_input_ok start_new_subscription_ok toggle_subscription_ok delete_subscription_ok
      save_now_def lands_saved)

lemma switched_lands:
  assumes "tui_ok s"
  shows "lands (saving_panics env w) (switched env what rule_name enabled port s w)"
  unfolding switched_def
proof (rule lands_saved[OF assms])
  fix w'
  show "lands (saving_panics env w) (case update_live_runtime_config env s w' of (s, w) \<Rightarrow>
      let config = ts_editable s in
      case apply_firewall (fw_env_of env) (enabled config) (port config) rule_name (ow_firewall w) of (r, h) \<Rightarrow>
      go_on (s\<lparr>ts_dirty := False,
               ts_status := (case r of Inr message \<Rightarrow> message
                 | Inl e \<Rightarrow> what @ '' '' @ (if enabled config then ''enabled'' else ''disabled'')
                     @ ''; firewall not changed: '' @ e)\<rparr>)
            (w\<lparr>ow_firewall := h\<rparr>))"
    using assms by (simp add: update_live_runtime_config_def Let_def split: prod.split)
qed

lemma activate_main_lands:
  assumes "tui_ok s" and "\<not> wizard_mode (ts_input_mode s)"
  shows "lands (saving_panics env w) (activate_main env s w)"
proof -
  have main: "\<not> length MAIN_ITEMS \<le> ts_selected_main s" using tui_ok_rows(1)[OF assms(1)] by simp
  have view: "ts_view s \<noteq> NewSubscriptionView" by (rule tui_ok_views[OF assms])
  have edit: "tui_ok (s\<lparr>ts_editable := f (ts_editable s), ts_dirty := True\<rparr>)" if "f \<in> {toggle_sharing, cycle_proxy}" for f
    using that assms(1) by (auto simp: tui_ok_def toggle_sharing_def cycle_proxy_def editable_ok_def limits_ok_def on_sharing_def on_proxy_def)
  show ?thesis
  proof (cases "MAIN_ITEMS ! ts_selected_main s")
    case OpenConfigItem
    then show ?thesis using main assms(1) by (simp add: activate_main_def)
  next
    case SharingItem
    then show ?thesis using main switched_lands[OF edit[of toggle_sharing]] by (simp add: activate_main_def)
  next
    case ProxyItem
    then show ?thesis using main switched_lands[OF edit[of cycle_proxy]] by (simp add: activate_main_def)
  next
    case SubscriptionsItem
    then show ?thesis using main tui_ok_view[OF assms(1) view] by (simp add: activate_main_def)
  next
    case CleanCacheItem
    then show ?thesis using main start_input_ok[OF assms(1) view] by (simp add: activate_main_def)
  next
    case ConfigurationsItem
    then show ?thesis using main tui_ok_view[OF assms(1) view] by (simp add: activate_main_def)
  next
    case LogsItem
    then show ?thesis using main tui_ok_view[OF assms(1) view] by (simp add: activate_main_def)
  qed
qed

lemma reset_offered:
  assumes "tui_ok s"
  shows "tui_ok (s\<lparr>ts_reset_code := Some (reset_code env)\<rparr>)"
proof -
  have "code_ok (reset_code env)" unfolding code_ok_def reset_code_def
    by (intro exI[of _ "te_millis env mod 9000 + 1000"]) simp
  with assms show ?thesis by (simp add: tui_ok_def reset_ok_def rows_ok_def)
qed

lemma activate_lands:
  assumes "tui_ok s" and "\<not> wizard_mode (ts_input_mode s)"
  shows "lands (saving_panics env w) (activate env s w)"
proof -
  have view: "ts_view s \<noteq> NewSubscriptionView" by (rule tui_ok_views[OF assms])
  have del: "tui_ok (delete_subscription s\<lparr>ts_view := SubscriptionsView\<rparr>)"
    using delete_subscription_ok[OF assms(1)] view tui_ok_view by simp
  show ?thesis
  proof (cases "ts_view s")
    case MainView
    then show ?thesis using activate_main_lands[OF assms] by (simp add: activate_def)
  next
    case SubscriptionsView
    then show ?thesis using run_action_lands[OF assms] by (simp add: activate_def)
  next
    case SubscriptionActionsView
    then show ?thesis
      using run_action_lands[OF assms] del tui_ok_view[OF assms(1) view] tui_ok_rows(2)[OF assms(1)]
      by (simp add: activate_def activate_subscription_action_def del: run_action.simps split: subscription_action.split)
  next
    case ConfigurationsView
    then show ?thesis
      using tui_ok_rows(3)[OF assms(1)] start_input_ok[OF assms(1) view] start_input_ok[OF reset_offered[OF assms(1)]] view
      by (simp add: activate_def activate_configuration_def Let_def)
  qed (simp_all add: activate_def assms(1))
qed

lemma left_command:
  assumes "tui_ok s" and "\<not> wizard_mode (ts_input_mode s)"
  shows "tui_ok (s\<lparr>ts_input := [], ts_input_mode := NoInput\<rparr>)"
  using tui_ok_mode[of "s\<lparr>ts_input := []\<rparr>" NoInput] tui_ok_views[OF assms] assms(1) by simp

lemma handle_key_lands:
  assumes "tui_ok s" and "config_ok (te_first_run env)"
  shows "lands (saving_panics env w) (handle_key env key s w)"
proof (cases "ts_input_mode s")
  case CommandInput
  have m: "\<not> wizard_mode (ts_input_mode s)" using CommandInput by simp
  note left = left_command[OF assms(1) m]
  have run: "lands (saving_panics env w) (run_tui_command env s w)"
    using left run_action_lands[OF left] by (simp add: run_tui_command_def Let_def split: option.split)
  have "tui_ok (cancel_command s)" using left by (simp add: cancel_command_def)
  then have "lands (saving_panics env w) (handle_command_key env (ke_code key) s w)"
    using run assms(1) by (simp add: handle_command_key_def split: key_code.split)
  then show ?thesis using CommandInput assms(1) go_back_ok by (simp add: handle_key_def)
next
  case CleanCacheConfirm
  have m: "\<not> wizard_mode (ts_input_mode s)" using CleanCacheConfirm by simp
  note left = left_command[OF assms(1) m]
  have "lands (saving_panics env w) (handle_clean_cache_key env (ke_code key) s w)"
    using left assms(1) by (simp add: handle_clean_cache_key_def split: key_code.split option.split sum.split)
  then show ?thesis using CleanCacheConfirm assms(1) go_back_ok by (simp add: handle_key_def)
next
  case NoInput
  have m: "\<not> wizard_mode (ts_input_mode s)" using NoInput by simp
  note view = tui_ok_views[OF assms(1) m]
  have "tui_ok (edit_selected_subscription s)"
    using assms(1) view tui_ok_view by (simp add: edit_selected_subscription_def)
  then have "lands (saving_panics env w) (handle_normal_key env (ke_code key) s w)"
    using assms(1) view go_back_ok move_ok activate_lands[OF assms(1) m] run_action_lands[OF assms(1) m]
    by (simp add: handle_normal_key_def start_input_ok del: run_action.simps)
  then show ?thesis using NoInput assms(1) go_back_ok by (simp add: handle_key_def)
qed (use assms go_back_ok handle_input_key_ok in \<open>simp_all add: handle_key_def\<close>)

lemma hit_rows_members: "p \<in> set (hit_rows area offset xs) \<Longrightarrow> fst p \<in> set xs"
  by (induction xs) (auto simp: Let_def split: if_splits)

lemma drawn_hits:
  assumes "hits_ok h"
  shows "hits_ok (h\<lparr>hm_main_rows := row_hits_with_offset area (length MAIN_ITEMS) offset\<rparr>)"
    and "hits_ok (h\<lparr>hm_config_rows := row_hits_with_offset area (length CONFIG_KEYS) offset\<rparr>)"
  using assms hit_rows_members by (fastforce simp: hits_ok_def row_hits_with_offset_def simp del: menu_lengths)+

lemma draw_menu_ok:
  assumes "tui_ok s"
  shows "tui_ok (snd (draw_menu area view s))"
proof (cases "ts_view s")
  case MainView
  then show ?thesis
    using assms rows_changed(4)[OF assms] drawn_hits(1)[OF tui_ok_rows(4)[OF assms]] by (simp add: draw_menu_def draw_main_def Let_def)
next
  case SubscriptionsView
  have "hits_ok ((ts_hits s)\<lparr>hm_subscription_rows := h\<rparr>)" for h using tui_ok_rows(4)[OF assms] by (simp add: hits_ok_def)
  then show ?thesis using SubscriptionsView rows_changed(4)[OF assms] by (simp add: draw_menu_def draw_subscriptions_def Let_def)
next
  case ConfigurationsView
  then show ?thesis
    using assms rows_changed(4)[OF assms] drawn_hits(2)[OF tui_ok_rows(4)[OF assms]] by (simp add: draw_menu_def draw_configurations_def Let_def)
next
  case LogsView
  have "hits_ok ((ts_hits s)\<lparr>hm_live_logs_area := h\<rparr>)" for h using tui_ok_rows(4)[OF assms] by (simp add: hits_ok_def)
  then show ?thesis using LogsView rows_changed(4)[OF assms] by (simp add: draw_menu_def draw_live_logs_def Let_def)
qed (simp_all add: draw_menu_def assms)

lemma drawn_panels_ok:
  assumes "tui_ok s"
  shows "tui_ok (drawn_logs area view s)" "tui_ok (drawn_found area view top_n s)"
  using assms rows_changed(4)[OF assms] tui_ok_rows(4)[OF assms] by (simp_all add: drawn_logs_def drawn_found_def hits_ok_def)

lemma draw_state_ok:
  assumes "tui_ok s" and "draw_state split area view top_n s = Some s'"
  shows "tui_ok s'"
proof -
  have "tui_ok (s\<lparr>ts_hits := no_hits\<rparr>)" using rows_changed(4)[OF assms(1)] by (simp add: hits_ok_def no_hits_def)
  then show ?thesis using assms(2) draw_menu_ok drawn_panels_ok by (auto simp: draw_state_def)
qed

lemma tui_reach_ok: "tui_reach split p \<Longrightarrow> tui_ok (fst p)"
proof (induction rule: tui_reach.induct)
  case (start config w)
  then show ?case
    by (simp add: tui_state_new_def tui_ok_def wizard_ok_def reset_ok_def rows_ok_def hits_ok_def no_hits_def editable_ok_def config_ok_settings)
next
  case (frame s w area view top_n s')
  then show ?case using draw_state_ok by simp
next
  case (key s w env key r s' w')
  then show ?case using handle_key_lands[of s env w key] by (simp add: lands_def)
next
  case (mouse s w m)
  then show ?case using handle_mouse_ok by simp
qed simp

text \<open>
  C33: The menus are type safe.  In every state they reach from a loaded configuration, whatever is
  typed, clicked and drawn: the wizard for a new subscription is shown exactly when it takes the input
  and has a draft, a reset that waits for its code has one, the selected rows exist, and every setting
  being edited is within its limits; and no key makes a handler panic, unless writing the file does.
\<close>

theorem tui_type_safe:
  assumes "tui_reach split (s, w)" and "config_ok (te_first_run env)"
  shows "tui_ok s \<and> (handle_key env key s w = None \<longrightarrow> saving_panics env w)"
  using tui_reach_ok[OF assms(1)] handle_key_lands[OF _ assms(2), of s w key] by (auto simp: lands_def split: option.splits)

definition sample_tui_env :: tui_env where
  "sample_tui_env = \<lparr>
     te_paths = from_root_with_config (path_of ''/home/u/V2RayDAR'') (path_of ''/home/u/V2RayDAR/configs.yaml'') False True,
     te_load = (\<lambda>_. Inr app_config_default), te_json = (\<lambda>_. Inl ''unused''), te_write = Inr (),
     te_firewall = sample_fw_env, te_lock_free = True, te_open = ''Opening config with nano'', te_millis = 123,
     te_generated = ''tok'', te_first_run = app_config_default, te_delete = Some (Inr ())\<rparr>"

definition sample_outside :: outside where
  "sample_outside = \<lparr>ow_config = Inr ''top_n: 5'', ow_firewall = \<lparr>fh_file = NoFile, fh_log = []\<rparr>,
     ow_runtime = runtime_config_of app_config_default,
     ow_database = \<lparr>db_configs = [], db_sequence = 0, db_stable_top = None\<rparr>\<rparr>"

definition press :: "key_code \<Rightarrow> key_event" where
  "press code = \<lparr>ke_code = code, ke_control = False, ke_press = True\<rparr>"

lemma default_config_ok: "config_ok app_config_default"
  by code_simp

theorem tui_type_safe_witness:
  "let w = sample_outside\<lparr>ow_config := Inl ''permission denied''\<rparr> in
   tui_ok (tui_state_new app_config_default)
   \<and> handle_key sample_tui_env (press EnterKey) (tui_state_new app_config_default) w \<noteq> None"
proof -
  let ?w = "sample_outside\<lparr>ow_config := Inl ''permission denied''\<rparr>"
  have "to_ascii_lowercase (unwrap_or (path_extension (ap_config_path (te_paths sample_tui_env))) []) \<noteq> ''json''" by code_simp
  then have no_panic: "\<not> saving_panics sample_tui_env ?w"
    by (simp add: saving_panics_def save_config_def save_yaml_config_def save_env_of_def sample_tui_env_def)
  have "tui_reach (\<lambda>_ _. []) (tui_state_new app_config_default, ?w)"
    by (rule tui_reach.start[OF default_config_ok]) code_simp
  moreover have "config_ok (te_first_run sample_tui_env)" by (simp add: sample_tui_env_def default_config_ok)
  ultimately show ?thesis using tui_type_safe[of "\<lambda>_ _. []" _ ?w sample_tui_env] no_panic by (auto simp: Let_def)
qed

subsection \<open>What takes an explicit request\<close>

text \<open>The keys that save, and the keys that delete the selected subscription.\<close>

definition asks_to_save :: "key_event \<Rightarrow> tui_state \<Rightarrow> bool" where
  "asks_to_save key s \<longleftrightarrow>
     (case ts_input_mode s of
        NoInput \<Rightarrow> ke_code key = CharKey ''s'' \<or> ke_code key = EnterKey \<and> ts_view s = MainView
          \<and> MAIN_ITEMS ! ts_selected_main s \<in> {SharingItem, ProxyItem}
      | CommandInput \<Rightarrow> ke_code key = EnterKey \<and> command_action (to_ascii_lowercase (trim (ts_input s))) = Some Save
      | _ \<Rightarrow> False)"

definition asks_to_delete :: "key_event \<Rightarrow> tui_state \<Rightarrow> bool" where
  "asks_to_delete key s \<longleftrightarrow> ke_code key = EnterKey \<and>
     (case ts_input_mode s of
        NoInput \<Rightarrow> ts_view s = SubscriptionActionsView \<and> SUBSCRIPTION_ACTIONS ! ts_selected_action s = DeleteRow
      | CommandInput \<Rightarrow> command_action (to_ascii_lowercase (trim (ts_input s))) = Some DeleteAction
      | _ \<Rightarrow> False)"

text \<open>What a step may do: write outside only on a request to save, never to the database, and keep subscriptions.\<close>

definition harmless_step :: "bool \<Rightarrow> bool \<Rightarrow> tui_state \<Rightarrow> outside \<Rightarrow> 'r tui_step \<Rightarrow> bool" where
  "harmless_step saves deletes s w st \<longleftrightarrow>
     (\<forall>r s' w'. st = Some (r, s', w') \<longrightarrow> ow_database w' = ow_database w \<and> (w' \<noteq> w \<longrightarrow> saves)
        \<and> (length (subscriptions_of s') < length (subscriptions_of s) \<longrightarrow> deletes))"

lemma harmless_step_simps [simp]:
  "harmless_step sv dl s w (then_result st) = harmless_step sv dl s w st"
  "harmless_step sv dl s w (go_on s1 w) = (length (subscriptions_of s1) < length (subscriptions_of s) \<longrightarrow> dl)"
  "harmless_step sv dl s w (continue_with s1 w) = (length (subscriptions_of s1) < length (subscriptions_of s) \<longrightarrow> dl)"
  "harmless_step sv dl s w (Some (r, s1, w)) = (length (subscriptions_of s1) < length (subscriptions_of s) \<longrightarrow> dl)"
  "harmless_step sv dl s w None"
  by (auto simp: harmless_step_def then_result_def go_on_def continue_with_def)

lemma subscriptions_frame [simp]:
  "subscriptions_of (s\<lparr>ts_input_mode := m\<rparr>) = subscriptions_of s" "subscriptions_of (s\<lparr>ts_input := i\<rparr>) = subscriptions_of s"
  "subscriptions_of (s\<lparr>ts_view := v\<rparr>) = subscriptions_of s" "subscriptions_of (s\<lparr>ts_dirty := d\<rparr>) = subscriptions_of s"
  "subscriptions_of (s\<lparr>ts_reset_code := r\<rparr>) = subscriptions_of s"
  "subscriptions_of (s\<lparr>ts_new_subscription := n\<rparr>) = subscriptions_of s"
  "subscriptions_of (s\<lparr>ts_selected_main := j\<rparr>) = subscriptions_of s" "subscriptions_of (s\<lparr>ts_selected_action := j\<rparr>) = subscriptions_of s"
  "subscriptions_of (s\<lparr>ts_selected_config := j\<rparr>) = subscriptions_of s" "subscriptions_of (s\<lparr>ts_selected_log := j\<rparr>) = subscriptions_of s"
  "subscriptions_of (set_subscriptions subs s) = subs" "subscriptions_of (say msg s) = subscriptions_of s"
  "subscriptions_of (start_input mode txt0 s) = subscriptions_of s" "subscriptions_of (finish_edit msg s) = subscriptions_of s"
  "subscriptions_of (type_key code s) = subscriptions_of s" "subscriptions_of (start_new_subscription s) = subscriptions_of s"
  by (simp_all add: subscriptions_of_def set_subscriptions_def say_def start_input_def finish_edit_def type_key_def
      start_new_subscription_def split: key_code.split)

lemma update_selected_length: "update_selected f s = Some s' \<Longrightarrow> length (subscriptions_of s') = length (subscriptions_of s)"
  using update_selected_fields by fastforce

lemma commit_selected_length [simp]: "length (subscriptions_of (commit_selected f m s)) = length (subscriptions_of s)"
  using update_selected_length by (auto simp: commit_selected_def split: option.split)

lemma toggle_subscription_length [simp]: "length (subscriptions_of (toggle_subscription s)) = length (subscriptions_of s)"
  using update_selected_length by (auto simp: toggle_subscription_def split: option.split)

lemma commit_input_length: "length (subscriptions_of s) \<le> length (subscriptions_of (commit_input env s))"
proof (cases "ts_input_mode s")
  case (NewSubscriptionInput step)
  then show ?thesis
    by (cases step) (auto simp: commit_input_def commit_new_url_def commit_new_name_def commit_new_priority_def
        commit_new_enabled_def Let_def split: option.split sum.split)
next
  case (ConfigValueInput key)
  have "ac_subscriptions config = ac_subscriptions (ts_editable s)"
    if "apply_setting generated (ts_editable s) key (ts_input s) = Inr config" for generated config
    using that by (cases key) (auto simp: apply_setting_def setting_read Let_def on_probe_def on_sharing_def on_proxy_def)
  then show ?thesis using ConfigValueInput
    by (auto simp: commit_input_def commit_config_def subscriptions_of_def finish_edit_def say_def split: sum.split)
next
  case ResetConfirm
  then show ?thesis by (simp add: commit_input_def commit_reset_def) (simp add: subscriptions_of_def finish_edit_def)
qed (auto simp: commit_input_def commit_name_def commit_url_def commit_priority_def Let_def split: sum.split)

lemma harmless_saved:
  assumes "sv" and "\<And>w1. ow_database w1 = ow_database w \<Longrightarrow> harmless_step True dl s w1 (rest s w1)"
  shows "harmless_step sv dl s w (saved env s w rest)"
proof (cases "save_config (save_env_of env w) (ts_editable s)")
  case (Some r)
  show ?thesis
  proof (cases r)
    case (Inr content)
    then show ?thesis using Some assms(1) assms(2)[of "w\<lparr>ow_config := Inr content\<rparr>"]
      by (auto simp: saved_def harmless_step_def)
  qed (simp add: saved_def Some)
qed (simp add: saved_def)

lemma run_action_harmless: "harmless_step (action = Save) (action = DeleteAction) s w (run_action env action s w)"
  by (cases action) (auto simp: save_now_def intro: harmless_saved)

lemma harmless_weaken: "harmless_step sv dl s w st \<Longrightarrow> (sv \<Longrightarrow> sv') \<Longrightarrow> (dl \<Longrightarrow> dl') \<Longrightarrow> harmless_step sv' dl' s w st"
  by (auto simp: harmless_step_def)

lemma switched_harmless:
  assumes "sv" and "subscriptions_of s1 = subscriptions_of s"
  shows "harmless_step sv dl s w (switched env what rule_name enabled port s1 w)"
proof -
  have "harmless_step sv dl s1 w (switched env what rule_name enabled port s1 w)"
    unfolding switched_def
    by (rule harmless_saved) (auto simp: assms(1) update_live_runtime_config_def Let_def harmless_step_def go_on_def split: prod.split)
  then show ?thesis using assms(2) by (simp add: harmless_step_def)
qed

lemma go_back_subscriptions [simp]: "subscriptions_of (go_back s) = subscriptions_of s"
  by (simp add: go_back_def split: menu_view.split)

lemma handle_input_key_length: "length (subscriptions_of s) \<le> length (subscriptions_of (handle_input_key env code s))"
  using commit_input_length by (auto simp: handle_input_key_def Let_def split: key_code.split)

lemma switches_keep_subscriptions:
  "subscriptions_of (s\<lparr>ts_editable := toggle_sharing (ts_editable s), ts_dirty := d\<rparr>) = subscriptions_of s"
  "subscriptions_of (s\<lparr>ts_editable := cycle_proxy (ts_editable s), ts_dirty := d\<rparr>) = subscriptions_of s"
  by (simp_all add: subscriptions_of_def toggle_sharing_def cycle_proxy_def on_sharing_def on_proxy_def)

lemma activate_harmless:
  assumes "ts_input_mode s = NoInput" and "ke_code key = EnterKey"
  shows "harmless_step (asks_to_save key s) (asks_to_delete key s) s w (activate env s w)"
proof (cases "ts_view s")
  case MainView
  show ?thesis
  proof (cases "length MAIN_ITEMS \<le> ts_selected_main s")
    case False
    then show ?thesis using MainView assms
      by (cases "MAIN_ITEMS ! ts_selected_main s")
        (auto simp: activate_def activate_main_def asks_to_save_def simp del: menu_lengths
           intro!: switched_harmless switches_keep_subscriptions)
  qed (simp add: activate_def activate_main_def MainView)
next
  case SubscriptionsView
  then show ?thesis using harmless_weaken[OF run_action_harmless] by (simp add: activate_def)
next
  case SubscriptionActionsView
  then show ?thesis
    using assms by (auto simp: activate_def activate_subscription_action_def asks_to_delete_def intro: harmless_weaken[OF run_action_harmless]
        simp del: run_action.simps split: subscription_action.split)
qed (auto simp: activate_def activate_configuration_def Let_def)

lemma keys_harmless:
  assumes "ts_input_mode s \<noteq> CleanCacheConfirm"
  shows "harmless_step (asks_to_save key s) (asks_to_delete key s) s w (handle_key env key s w)"
proof (cases "ts_input_mode s")
  case NoInput
  have up: "subscriptions_of (move_up s) = subscriptions_of s" "subscriptions_of (move_down s) = subscriptions_of s"
    "subscriptions_of (edit_selected_subscription s) = subscriptions_of s"
    by (simp_all add: move_up_def move_down_def edit_selected_subscription_def split: menu_view.split)
  have "harmless_step (asks_to_save key s) (asks_to_delete key s) s w (handle_normal_key env (ke_code key) s w)"
    using activate_harmless[OF NoInput] harmless_weaken[OF run_action_harmless, of Save "asks_to_save key s" "asks_to_delete key s" s w env]
      harmless_weaken[OF run_action_harmless, of Toggle "asks_to_save key s" "asks_to_delete key s" s w env] NoInput
    by (auto simp: handle_normal_key_def up asks_to_save_def simp del: run_action.simps)
  then show ?thesis using NoInput by (simp add: handle_key_def)
next
  case CommandInput
  define s1 where "s1 = s\<lparr>ts_input := [], ts_input_mode := NoInput\<rparr>"
  define command where "command = to_ascii_lowercase (trim (ts_input s))"
  have act: "harmless_step (action = Save) (action = DeleteAction) s w (run_action env action s1 w)" for action
    using run_action_harmless[of action s1 w env] by (simp add: harmless_step_def s1_def)
  have "harmless_step (command_action command = Some Save) (command_action command = Some DeleteAction) s w (run_tui_command env s w)"
  proof (cases "command_action command")
    case None
    then show ?thesis by (simp add: run_tui_command_def Let_def flip: command_def)
  next
    case (Some action)
    have "harmless_step (command_action command = Some Save) (command_action command = Some DeleteAction) s w (run_action env action s1 w)"
      by (rule harmless_weaken[OF act]) (simp_all add: Some)
    moreover have "subscriptions_of s1 = subscriptions_of s" by (simp add: s1_def)
    ultimately show ?thesis using Some by (simp add: run_tui_command_def Let_def flip: command_def s1_def)
  qed
  then have "harmless_step (asks_to_save key s) (asks_to_delete key s) s w (handle_command_key env (ke_code key) s w)"
    using CommandInput by (auto simp: handle_command_key_def asks_to_save_def asks_to_delete_def cancel_command_def command_def split: key_code.split)
  then show ?thesis using CommandInput by (simp add: handle_key_def)
qed (use assms handle_input_key_length[of s env "ke_code key"] in \<open>auto simp: handle_key_def\<close>)

lemma clean_cache_step:
  assumes "handle_key env key s w = Some (r, s', w')" and "ts_input_mode s = CleanCacheConfirm"
  shows "subscriptions_of s' = subscriptions_of s
     \<and> (w' = w \<or> ke_code key = EnterKey \<and> trim (ts_input s) = ''DELETE'' \<and> w' = w\<lparr>ow_database := delete_all (ow_database w)\<rparr>)"
  using assms
  by (auto simp: handle_key_def handle_clean_cache_key_def continue_with_def split: if_splits key_code.splits option.splits sum.splits)

lemma reset_step:
  assumes "handle_key env key s w = Some (r, s', w')" and "ts_input_mode s = ResetConfirm" and "ts_editable s' \<noteq> ts_editable s"
  shows "ke_code key = EnterKey \<and> trim (ts_input s) = unwrap_or (ts_reset_code s) []"
  using assms
  by (auto simp: handle_key_def handle_input_key_def commit_input_def commit_reset_def continue_with_def go_back_def say_def type_key_def Let_def
      split: if_splits key_code.splits menu_view.splits)



subsection \<open>The wizard\<close>

definition typed :: "string \<Rightarrow> key_event list" where
  "typed txt = map (\<lambda>c. press (CharKey c)) (str_chars txt)"

text \<open>The keys that add a subscription: its address, its name, and the priority and state that are offered.\<close>

definition wizard_keys :: "string \<Rightarrow> string \<Rightarrow> key_event list" where
  "wizard_keys url name = press EnterKey # typed url @ press EnterKey # typed name @ [press EnterKey, press EnterKey, press EnterKey]"

definition key_events :: "tui_env \<Rightarrow> key_event list \<Rightarrow> (tui_env \<times> tui_event) list" where
  "key_events env keys = map (\<lambda>k. (env, KeyEvent k)) keys"

lemma key_events_simps [simp]:
  "key_events env [] = []" "key_events env (k # ks) = (env, KeyEvent k) # key_events env ks"
  "key_events env (ks @ ks') = key_events env ks @ key_events env ks'"
  by (simp_all add: key_events_def)

lemma drain_key:
  assumes "handle_key env k s w = Some (Inr Continue, s', w')"
  shows "drain_events (Suc n) (key_events env (k # ks)) s w = drain_events n (key_events env ks) s' w'"
  using assms by simp

lemma input_key:
  assumes "wizard_mode (ts_input_mode s)"
  shows "handle_key env (press code) s w = Some (Inr Continue, handle_input_key env code s, w)"
  using assms by (cases "ts_input_mode s") (auto simp: handle_key_def press_def is_back_shortcut_def continue_with_def)

lemma drain_chars:
  assumes "wizard_mode (ts_input_mode s)" and "length us \<le> n"
  shows "drain_events n (key_events env (map (\<lambda>c. press (CharKey c)) us @ ks)) s w
     = drain_events (n - length us) (key_events env ks) (s\<lparr>ts_input := ts_input s @ concat us\<rparr>) w"
  using assms
proof (induction us arbitrary: s n)
  case (Cons u us)
  obtain m where n: "n = Suc m" using Cons.prems(2) by (cases n) auto
  have "handle_key env (press (CharKey u)) s w = Some (Inr Continue, s\<lparr>ts_input := ts_input s @ u\<rparr>, w)"
    using input_key[OF Cons.prems(1)] by (simp add: handle_input_key_def type_key_def)
  from drain_key[OF this, of m] have "drain_events n (key_events env (map (\<lambda>c. press (CharKey c)) (u # us) @ ks)) s w
      = drain_events m (key_events env (map (\<lambda>c. press (CharKey c)) us @ ks)) (s\<lparr>ts_input := ts_input s @ u\<rparr>) w"
    by (simp only: n list.map append_Cons)
  also have "\<dots> = drain_events (m - length us) (key_events env ks)
      (s\<lparr>ts_input := ts_input s @ u\<rparr>\<lparr>ts_input := ts_input (s\<lparr>ts_input := ts_input s @ u\<rparr>) @ concat us\<rparr>) w"
    using Cons.prems n by (intro Cons.IH) auto
  finally show ?case using n by simp
qed simp

lemma drain_typed:
  assumes "wizard_mode (ts_input_mode s)" and "length (typed txt) \<le> n" and "ts_input s = []"
  shows "drain_events n (key_events env (typed txt @ ks)) s w
     = drain_events (n - length (typed txt)) (key_events env ks) (s\<lparr>ts_input := txt\<rparr>) w"
  using drain_chars[OF assms(1), of "str_chars txt" n env ks w] assms(2,3) by (simp add: typed_def)

lemma drain_enter:
  assumes "ts_input_mode s = NewSubscriptionInput step" and "0 < n"
  shows "drain_events n (key_events env (press EnterKey # ks)) s w
     = drain_events (n - 1) (key_events env ks) (commit_new_subscription_step step s) w"
proof -
  obtain m where n: "n = Suc m" using assms(2) by (cases n) auto
  have "handle_key env (press EnterKey) s w = Some (Inr Continue, commit_new_subscription_step step s, w)"
    using input_key[of s env EnterKey w] assms(1) by (simp add: handle_input_key_def commit_input_def)
  from drain_key[OF this, of m] show ?thesis by (simp add: n)
qed

lemma drain_answer:
  assumes "ts_input_mode s = NewSubscriptionInput step" and "ts_input s = []" and "length (typed txt) < n"
  shows "drain_events n (key_events env (typed txt @ press EnterKey # ks)) s w
     = drain_events (n - length (typed txt) - 1) (key_events env ks) (commit_new_subscription_step step (s\<lparr>ts_input := txt\<rparr>)) w"
proof -
  have "drain_events n (key_events env (typed txt @ press EnterKey # ks)) s w
      = drain_events (n - length (typed txt)) (key_events env (press EnterKey # ks)) (s\<lparr>ts_input := txt\<rparr>) w"
    using assms by (intro drain_typed) auto
  also have "\<dots> = drain_events (n - length (typed txt) - 1) (key_events env ks)
      (commit_new_subscription_step step (s\<lparr>ts_input := txt\<rparr>)) w"
    using assms by (intro drain_enter) auto
  finally show ?thesis .
qed

text \<open>The states after each answer, and what the last one holds.\<close>

definition answered_url :: "string \<Rightarrow> tui_state \<Rightarrow> tui_state" where
  "answered_url url s = commit_new_url ((start_new_subscription s)\<lparr>ts_input := url\<rparr>)"

definition answered_name :: "string \<Rightarrow> string \<Rightarrow> tui_state \<Rightarrow> tui_state" where
  "answered_name url name s = commit_new_name ((answered_url url s)\<lparr>ts_input := name\<rparr>)"

lemma wizard_modes:
  assumes "trim url \<noteq> []" and "trim name \<noteq> []"
  shows "ts_input_mode (start_new_subscription s) = NewSubscriptionInput UrlStep" "ts_input (start_new_subscription s) = []"
    and "ts_input_mode (answered_url url s) = NewSubscriptionInput NameStep" "ts_input (answered_url url s) = []"
    and "ts_input_mode (answered_name url name s) = NewSubscriptionInput PriorityStep"
    and "ts_input_mode (commit_new_priority (answered_name url name s)) = NewSubscriptionInput EnabledStep"
proof -
  have "parse_int u32_max (show_nat (next_subscription_priority s)) = Inr (next_subscription_priority s)"
    by (simp add: parse_int_show next_subscription_priority_def)
  then show "ts_input_mode (start_new_subscription s) = NewSubscriptionInput UrlStep" "ts_input (start_new_subscription s) = []"
    "ts_input_mode (answered_url url s) = NewSubscriptionInput NameStep" "ts_input (answered_url url s) = []"
    "ts_input_mode (answered_name url name s) = NewSubscriptionInput PriorityStep"
    "ts_input_mode (commit_new_priority (answered_name url name s)) = NewSubscriptionInput EnabledStep"
    using assms
    by (simp_all add: answered_name_def answered_url_def commit_new_priority_def commit_new_name_def commit_new_url_def
        start_new_subscription_def start_input_def trim_show_nat Let_def)
qed

lemma wizard_end:
  fixes s :: tui_state
  assumes "trim url \<noteq> []" and "trim name \<noteq> []"
  defines "s' \<equiv> commit_new_enabled (commit_new_priority (answered_name url name s))"
  shows "ts_editable s' = (ts_editable s)\<lparr>ac_subscriptions := subscriptions_of s
          @ [\<lparr>ss_name = trim name, ss_url = trim url, ss_enabled = True, ss_priority = next_subscription_priority s\<rparr>]\<rparr>
     \<and> selected_subscription_ref s' = Some (last (subscriptions_of s'))
     \<and> ts_view s' = SubscriptionsView \<and> ts_input_mode s' = NoInput \<and> ts_dirty s'"
proof -
  have yes: "parse_bool (trim ''yes'') = Some True" by code_simp
  have "parse_int u32_max (show_nat (next_subscription_priority s)) = Inr (next_subscription_priority s)"
    by (simp add: parse_int_show next_subscription_priority_def)
  then have "ts_editable s' = (ts_editable s)\<lparr>ac_subscriptions := subscriptions_of s
          @ [\<lparr>ss_name = trim name, ss_url = trim url, ss_enabled = True, ss_priority = next_subscription_priority s\<rparr>]\<rparr>
      \<and> ts_selected_subscription s' = length (subscriptions_of s) + 1
      \<and> ts_view s' = SubscriptionsView \<and> ts_input_mode s' = NoInput \<and> ts_dirty s'"
    using assms(1,2) yes
    by (simp add: s'_def answered_name_def answered_url_def commit_new_enabled_def commit_new_priority_def commit_new_name_def
        commit_new_url_def start_new_subscription_def start_input_def finish_edit_def set_subscriptions_def subscriptions_of_def
        trim_show_nat Let_def)
  then show ?thesis
    by (simp add: selected_subscription_ref_def selected_subscription_index_def subscriptions_of_def nth_append)
qed

text \<open>
  C35: On the row that adds a subscription, typing an address and a name and accepting what is offered
  adds exactly that subscription: enabled, its texts trimmed, with the priority after the largest one in
  use; it is selected, no other setting changes, and nothing is written yet.
\<close>

theorem wizard_adds_the_subscription:
  assumes "ts_view s = SubscriptionsView" and "ts_input_mode s = NoInput" and "ts_selected_subscription s = 0"
    and "trim url \<noteq> []" and "trim name \<noteq> []" and "length (wizard_keys url name) \<le> n"
  shows "\<exists>s'. drain_events n (key_events env (wizard_keys url name)) s w = Some (Inr Continue, s', w)
     \<and> ts_editable s' = (ts_editable s)\<lparr>ac_subscriptions := subscriptions_of s
          @ [\<lparr>ss_name = trim name, ss_url = trim url, ss_enabled = True, ss_priority = next_subscription_priority s\<rparr>]\<rparr>
     \<and> selected_subscription_ref s' = Some (last (subscriptions_of s'))
     \<and> ts_view s' = SubscriptionsView \<and> ts_input_mode s' = NoInput \<and> ts_dirty s'"
proof -
  note modes = wizard_modes[OF assms(4,5), of s]
  let ?three = "[press EnterKey, press EnterKey, press EnterKey]"
  let ?priority = "answered_name url name s"
  obtain n1 where n: "n = Suc n1" using assms(6) by (cases n) (simp_all add: wizard_keys_def)
  define n2 n3 where "n2 = n1 - length (typed url) - 1" and "n3 = n2 - length (typed name) - 1"
  have len: "length (typed url) < n1" "length (typed name) < n2" "1 < n3"
    using assms(6) n by (auto simp: wizard_keys_def n2_def n3_def)
  have "handle_key env (press EnterKey) s w = Some (Inr Continue, start_new_subscription s, w)"
    using assms(1-3) by (simp add: handle_key_def press_def is_back_shortcut_def handle_normal_key_def activate_def
        then_result_def go_on_def)
  then have "drain_events n (key_events env (wizard_keys url name)) s w
      = drain_events n1 (key_events env (typed url @ press EnterKey # typed name @ ?three)) (start_new_subscription s) w"
    unfolding n wizard_keys_def by (rule drain_key)
  also have "\<dots> = drain_events n2 (key_events env (typed name @ ?three)) (answered_url url s) w"
    using drain_answer[OF modes(1,2) len(1)] by (simp only: n2_def answered_url_def commit_new_subscription_step.simps)
  also have "\<dots> = drain_events n3 (key_events env [press EnterKey, press EnterKey]) ?priority w"
    using drain_answer[OF modes(3,4) len(2)] by (simp only: n3_def answered_name_def commit_new_subscription_step.simps)
  also have "\<dots> = drain_events (n3 - 1) (key_events env [press EnterKey]) (commit_new_priority ?priority) w"
    using drain_enter[OF modes(5), of n3 env "[press EnterKey]" w] len(3) by simp
  also have "\<dots> = drain_events (n3 - 1 - 1) (key_events env []) (commit_new_enabled (commit_new_priority ?priority)) w"
    using drain_enter[OF modes(6), of "n3 - 1" env "[]" w] len(3) by simp
  also have "\<dots> = Some (Inr Continue, commit_new_enabled (commit_new_priority ?priority), w)"
    by (cases "n3 - 1 - 1") (simp_all add: continue_with_def)
  finally show ?thesis using wizard_end[OF assms(4,5), of s] by blast
qed

theorem wizard_adds_the_subscription_witness:
  "\<exists>s'. drain_events TUI_MAX_EVENTS_PER_FRAME (key_events sample_tui_env (wizard_keys '' http://a.b/c '' ''A''))
       (tui_state_new app_config_default\<lparr>ts_view := SubscriptionsView\<rparr>) sample_outside = Some (Inr Continue, s', sample_outside)
     \<and> subscriptions_of s' = [\<lparr>ss_name = ''A'', ss_url = ''http://a.b/c'', ss_enabled = True, ss_priority = 1\<rparr>]"
proof -
  let ?s = "tui_state_new app_config_default\<lparr>ts_view := SubscriptionsView\<rparr>"
  have "length (wizard_keys '' http://a.b/c '' ''A'') \<le> TUI_MAX_EVENTS_PER_FRAME" "trim '' http://a.b/c '' = ''http://a.b/c''" "trim ''A'' = ''A''"
    "next_subscription_priority ?s = 1" "subscriptions_of ?s = []"
    by code_simp+
  then show ?thesis
    using wizard_adds_the_subscription[of ?s "'' http://a.b/c ''" "''A''" TUI_MAX_EVENTS_PER_FRAME sample_tui_env sample_outside]
    by (auto simp: tui_state_new_def subscriptions_of_def)
qed

subsection \<open>When saving fails\<close>



text \<open>
  The name typed for one subscription goes to another one when a row is clicked before Enter: the name
  is edited in command mode, where the rows of the list can still be hit.
\<close>

definition two_subscriptions :: tui_state where
  "two_subscriptions = (tui_state_new (app_config_default\<lparr>ac_subscriptions :=
      [\<lparr>ss_name = ''A'', ss_url = ''u'', ss_enabled = True, ss_priority = 1\<rparr>, \<lparr>ss_name = ''B'', ss_url = ''v'', ss_enabled = True, ss_priority = 2\<rparr>]\<rparr>))
     \<lparr>ts_view := SubscriptionsView, ts_selected_subscription := 1,
      ts_hits := no_hits\<lparr>hm_subscription_rows := row_hits_with_offset (sample_area\<lparr>rt_height := 12\<rparr>) 3 0\<rparr>\<rparr>"

definition name_then_click :: "(tui_env \<times> tui_event) list" where
  "name_then_click = key_events sample_tui_env (press (CharKey '':'') # typed ''name'' @ [press EnterKey] @ typed ''2'')
     @ [(sample_tui_env, MouseEvent \<lparr>me_kind = LeftDown, me_column = 5, me_row = 24\<rparr>), (sample_tui_env, KeyEvent (press EnterKey))]"

lemma drain_events_code [code]:
  "drain_events n events s w = (if n = 0 then continue_with s w else case events of
      [] \<Rightarrow> continue_with s w
    | (env, event) # events \<Rightarrow> (case event of
        KeyEvent key \<Rightarrow>
          (case handle_key env key s w of
             Some (Inr Continue, s, w) \<Rightarrow> drain_events (n - 1) events s w
           | stopped \<Rightarrow> stopped)
      | MouseEvent m \<Rightarrow> drain_events (n - 1) events (handle_mouse m s) w
      | OtherEvent \<Rightarrow> drain_events (n - 1) events s w
      | ReadFailure e \<Rightarrow> Some (Inl e, s, w)))"
  by (cases n; cases events) (auto split: tui_event.split option.split sum.split prod.split event_result.split)

lemma click_redirects_the_edit:
  "map_option (\<lambda>(_, s, _). map ss_name (subscriptions_of s)) (drain_events 64 name_then_click two_subscriptions sample_outside)
     = Some [''A'', ''A2'']"
  by code_simp

end
