(* ===== verification/Startup.thy ===== *)
theory Startup
  imports Uninstall TuiLoop RefreshLoop Worker
begin

text \<open>
  What a start of the program does (\<open>main\<close> of \<open>src/main.rs\<close>): the command line picks one of five jobs,
  the configuration is created, loaded and completed, and the loops are started.  Also the watcher
  that reloads a changed configuration.  Each job is the definition of its own theory.
\<close>

subsection \<open>The command line\<close>

record worker_args =
  wa_mode :: worker_mode
  wa_fetch_concurrency :: nat
  wa_probe_concurrency :: nat
  wa_probe_process_concurrency :: nat
  wa_probe_timeout_ms :: nat

record cli =
  cl_config :: "string option"
  cl_portable :: bool
  cl_no_tui :: bool
  cl_verbose :: bool
  cl_once :: bool
  cl_uninstall :: bool
  cl_yes :: bool
  cl_ping :: "string list"
  cl_ping_file :: "path option"
  cl_command :: "worker_args option"

text \<open>
  Where the log goes and what it lets through; \<open>rust_log\<close> is the filter of the environment, when there
  is one that parses.
\<close>

definition DEFAULT_LOG_FILTER_PLAIN :: string where "DEFAULT_LOG_FILTER_PLAIN = ''v2raydar=warn,tower_http=warn''"
definition DEFAULT_LOG_FILTER_VERBOSE :: string where "DEFAULT_LOG_FILTER_VERBOSE = ''v2raydar=info,tower_http=warn''"
definition DEFAULT_LOG_FILTER_TUI :: string where "DEFAULT_LOG_FILTER_TUI = ''v2raydar=off,tower_http=warn''"

datatype log_writer = ToStderr | ToStdout | ToSink

definition log_setup :: "string option \<Rightarrow> cli \<Rightarrow> log_writer \<times> string" where
  "log_setup rust_log cli =
     (if cl_command cli \<noteq> None then (ToStderr, unwrap_or rust_log ''warn,v2raydar::probe=info'')
      else if cl_no_tui cli \<or> cl_once cli then
        (ToStdout, if cl_verbose cli then unwrap_or rust_log DEFAULT_LOG_FILTER_VERBOSE
                   else DEFAULT_LOG_FILTER_PLAIN)
      else (ToSink, DEFAULT_LOG_FILTER_TUI))"

text \<open>The worker never reads the configuration file.\<close>

definition worker_config :: "sing_box_env \<Rightarrow> app_config \<Rightarrow> worker_args \<Rightarrow> app_config" where
  "worker_config env first_run args =
     (let config = apply_runtime_sing_box_path env first_run in
      config\<lparr>ac_fetch_concurrency := wa_fetch_concurrency args,
             ac_probe := (ac_probe config)\<lparr>pc_concurrency := wa_probe_concurrency args,
               pc_process_concurrency := Some (wa_probe_process_concurrency args),
               pc_active_timeout_ms := max (wa_probe_timeout_ms args) 1\<rparr>\<rparr>)"

subsection \<open>Loading the configuration\<close>

text \<open>The file, what serde makes of its text, the tokens generated one after the other, and the JSON printer.\<close>

record load_env =
  ld_read :: "string result"
  ld_json :: "string \<Rightarrow> app_config result"
  ld_yaml :: "string \<Rightarrow> app_config result"
  ld_document :: "string \<Rightarrow> yaml option"
  ld_generated :: "nat \<Rightarrow> string"
  ld_print :: "app_config \<Rightarrow> string result"
  ld_write :: "unit result"

definition load_with_generated_token_flag :: "load_env \<Rightarrow> nat \<Rightarrow> path \<Rightarrow> (app_config \<times> bool) result" where
  "load_with_generated_token_flag env n p =
     and_then (map_err (\<lambda>_. unable_to ''read'' p) (ld_read env)) (\<lambda>content.
       let extension = to_ascii_lowercase (unwrap_or (path_extension p) []) in
       and_then
         (if extension = ''json'' then map_err (\<lambda>_. ''invalid JSON config'') (ld_json env content)
          else if extension \<in> {''yaml'', ''yml'', []} then map_err (\<lambda>_. ''invalid YAML config'') (ld_yaml env content)
          else Inl (''unsupported config extension '' @ [CHR 39] @ ''.'' @ extension @ [CHR 39] @ ''; use .yaml, .yml, or .json''))
       (\<lambda>config.
       and_then (validate (ld_generated env n) config) (\<lambda>config.
       Inr (config, sharing_token_requests_generation (ld_document env content)))))"

text \<open>A save reads the file again, with the next generated token.\<close>

definition save_env_of_load :: "load_env \<Rightarrow> path \<Rightarrow> save_env" where
  "save_env_of_load env p =
     \<lparr> sv_path = p, sv_read = ld_read env,
       sv_load = (\<lambda>content. and_then (load_with_generated_token_flag (env\<lparr>ld_read := Inr content\<rparr>) 1 p) (\<lambda>l. Inr (fst l))),
       sv_json = ld_print env, sv_write = ld_write env \<rparr>"

text \<open>The configuration, and the file's new text when a generated token is saved; \<^term>\<open>None\<close>: the save panics.\<close>

definition load_config_and_persist_generated_token ::
  "sing_box_env \<Rightarrow> load_env \<Rightarrow> path \<Rightarrow> (app_config \<times> string option) result option" where
  "load_config_and_persist_generated_token sb env p =
     (case load_with_generated_token_flag env 0 p of
        Inl e \<Rightarrow> Some (Inl e)
      | Inr (config, requested) \<Rightarrow>
          if requested
          then map_option (\<lambda>saved. and_then saved (\<lambda>content. Inr (apply_runtime_sing_box_path sb config, Some content)))
                 (save_config (save_env_of_load env p) config)
          else Some (Inr (apply_runtime_sing_box_path sb config, None)))"

subsection \<open>The watcher\<close>

text \<open>One look at the file: its modification time, what loading it meets, and whether someone listens.\<close>

record watch_tick =
  wk_modified :: "nat result"
  wk_load :: load_env
  wk_listening :: bool

datatype watch_end = Watching | NobodyListens | WatcherPanicked

text \<open>The configurations sent.\<close>

fun watch_config :: "sing_box_env \<Rightarrow> path \<Rightarrow> nat option \<Rightarrow> watch_tick list \<Rightarrow> app_config list \<times> watch_end" where
  "watch_config sb p last_modified [] = ([], Watching)"
| "watch_config sb p last_modified (t # ts) =
     (case wk_modified t of
        Inl _ \<Rightarrow> watch_config sb p last_modified ts
      | Inr modified \<Rightarrow>
          if last_modified = Some modified then watch_config sb p last_modified ts
          else case load_config_and_persist_generated_token sb (wk_load t) p of
            None \<Rightarrow> ([], WatcherPanicked)
          | Some (Inl _) \<Rightarrow> watch_config sb p (Some modified) ts
          | Some (Inr (config, _)) \<Rightarrow>
              if \<not> wk_listening t then ([], NobodyListens)
              else (case watch_config sb p (Some modified) ts of (sent, ended) \<Rightarrow> (config # sent, ended)))"

definition spawn_config_watcher ::
  "sing_box_env \<Rightarrow> path \<Rightarrow> nat result \<Rightarrow> watch_tick list \<Rightarrow> app_config list \<times> watch_end" where
  "spawn_config_watcher sb p modified ts =
     watch_config sb p (case modified of Inl _ \<Rightarrow> None | Inr m \<Rightarrow> Some m) ts"

subsection \<open>The start\<close>

record main_env =
  mn_paths :: path_env
  mn_sing_box :: sing_box_env
  mn_first_run :: app_config
  mn_generated :: string
  mn_worker :: worker_env
  mn_uninstall :: uninstall_env
  mn_disk :: file_system
  mn_host :: fw_host
  mn_config_exists :: bool
  mn_ensure :: "unit result"
  mn_create_parent :: "unit result"
  mn_write_template :: "unit result"
  mn_load :: load_env
  mn_geoip_exists :: bool
  mn_setup :: "(sing_box_env \<times> save_env \<times> key_event) list"
  mn_database :: "database result"
  mn_refresh :: refresh_env
  mn_ping_file :: "string result"
  mn_firewall :: fw_env

definition ensure_paths :: "main_env \<Rightarrow> app_paths \<Rightarrow> unit result" where
  "ensure_paths env paths = map_err (\<lambda>_. unable_to ''create'' (ap_root_dir paths)) (mn_ensure env)"

definition write_default :: "main_env \<Rightarrow> path \<Rightarrow> unit result" where
  "write_default env p =
     and_then (case path_parent p of None \<Rightarrow> Inr ()
       | Some parent \<Rightarrow> map_err (\<lambda>_. unable_to ''create'' parent) (mn_create_parent env)) (\<lambda>_.
     and_then (map_err (\<lambda>_. ''default config template failed validation'') (validate (mn_generated env) (mn_first_run env))) (\<lambda>_.
     map_err (\<lambda>_. unable_to ''write default config to'' p) (mn_write_template env)))"

definition ensure_config :: "main_env \<Rightarrow> app_paths \<Rightarrow> unit result" where
  "ensure_config env paths =
     (if mn_config_exists env then ensure_paths env paths
      else if \<not> ap_generated_config paths
      then Inl (''config file does not exist: '' @ path_display (ap_config_path paths)
        @ ''; create it or omit --config to use '' @ path_display (path_join (ap_root_dir paths) [CONFIG_FILE_NAME]))
      else and_then (ensure_paths env paths) (\<lambda>_. write_default env (ap_config_path paths)))"

definition geoip_path :: "main_env \<Rightarrow> app_paths \<Rightarrow> app_config \<Rightarrow> path option" where
  "geoip_path env paths config =
     (case ac_geoip_db_path config of
        Some p \<Rightarrow> Some (path_of p)
      | None \<Rightarrow> if mn_geoip_exists env then Some (path_join (ap_root_dir paths) [''GeoLite2-Country.mmdb'']) else None)"

text \<open>The links to ping: those of the command line, or the lines of a file without comments.\<close>

definition ping_uris :: "main_env \<Rightarrow> cli \<Rightarrow> string list result" where
  "ping_uris env cli =
     (if cl_ping cli \<noteq> [] then Inr (cl_ping cli)
      else map_sum (\<lambda>_. ''failed to read ping file: '' @ path_display (unwrap_or (cl_ping_file cli) []))
        (\<lambda>content. filter (\<lambda>line. line \<noteq> [] \<and> \<not> starts_with line ''#'') (map trim (str_lines content)))
        (mn_ping_file env))"

definition ping_candidate :: "parsers \<Rightarrow> string \<Rightarrow> candidate option" where
  "ping_candidate K uri = (case parse_share_link K ''ping'' 1 uri of Inr c \<Rightarrow> Some c | Inl _ \<Rightarrow> None)"

definition ping_run :: "main_env \<Rightarrow> app_config \<Rightarrow> string list \<Rightarrow> ranked_config list option" where
  "ping_run env config uris =
     (let inputs = rf_scans (mn_refresh env) 0 in
      ping_configs (ping_candidate (rf_parsers (mn_refresh env))) ((si_probe inputs)\<lparr>pe_config := ac_probe config\<rparr>)
        (si_scan inputs) (si_available inputs) (si_order inputs) (si_outcome inputs) uris)"

text \<open>How a start ends: with one of the short jobs, or with the loops in their first state.\<close>

datatype main_end =
    WorkerEnds "worker_output list"
  | Exits "worker_output list" string
  | UninstallEnds uninstall_end
  | SetupRequired
  | OnceEnds refresh_run
  | PingEnds "ranked_config list"
  | Serves refresh_loop fw_host

definition run_worker :: "main_env \<Rightarrow> worker_args \<Rightarrow> main_end result option" where
  "run_worker env args =
     (let config = worker_config (mn_sing_box env) (mn_first_run env) args in
      if active_probe_needs_setup (mn_sing_box env) config
      then Some (Inr (Exits [] ''sing-box executable was not found. Please place sing-box/sing-box.exe beside the executable or in PATH.''))
      else map_option (\<lambda>(printed, r). case r of
          Inl e \<Rightarrow> Inr (Exits printed (''Worker exited with error: '' @ e)) | Inr _ \<Rightarrow> Inr (WorkerEnds printed))
        (worker_run (mn_worker env) (wa_mode args) config))"

text \<open>The firewall's answer is only logged.\<close>

definition start_serving :: "main_env \<Rightarrow> app_config \<Rightarrow> database \<Rightarrow> main_end" where
  "start_serving env config db =
     Serves (refresh_loop_new config (pc_sing_box_path (ac_probe config)) db)
       (if xc_enabled (ac_proxy config) \<and> xc_discoverable (ac_proxy config)
        then snd (apply_firewall (mn_firewall env) True (xc_port (ac_proxy config)) FIREWALL_PROXY_RULE_NAME (mn_host env))
        else mn_host env)"

definition run_modes :: "main_env \<Rightarrow> cli \<Rightarrow> app_paths \<Rightarrow> app_config \<Rightarrow> main_end result option" where
  "run_modes env cli paths config =
     (case mn_database env of
        Inl _ \<Rightarrow> Some (Inl (''failed to open database at '' @ path_display (path_join (ap_root_dir paths) [DB_FILE_NAME])))
      | Inr db \<Rightarrow>
          if cl_once cli then
            map_option (\<lambda>(r, run). map_sum id (\<lambda>_. OnceEnds run) r)
              (refresh_once (mn_refresh env) config (lp_run (refresh_loop_new config [] db)))
          else if cl_ping cli \<noteq> [] \<or> cl_ping_file cli \<noteq> None then
            (case ping_uris env cli of
               Inl e \<Rightarrow> Some (Inl e)
             | Inr uris \<Rightarrow> map_option (\<lambda>results. Inr (PingEnds results)) (ping_run env config uris))
          else Some (Inr (start_serving env config db)))"

text \<open>The setup screen, when sing-box is missing; a setup that still waits has not returned.\<close>

definition after_setup :: "main_env \<Rightarrow> cli \<Rightarrow> app_paths \<Rightarrow> app_config \<Rightarrow> main_end result option" where
  "after_setup env cli paths config =
     (if \<not> active_probe_needs_setup (mn_sing_box env) config then run_modes env cli paths config
      else if cl_no_tui cli \<or> cl_once cli then Some (Inr SetupRequired)
      else case setup_run (mn_setup env) config of
        Some (Some (SetupDone, config, _)) \<Rightarrow> run_modes env cli paths config
      | Some (Some (SetupFailed e _, _, _)) \<Rightarrow> Some (Inl e)
      | _ \<Rightarrow> None)"

definition load_startup :: "main_env \<Rightarrow> app_paths \<Rightarrow> app_config result option" where
  "load_startup env paths =
     map_option (map_sum (\<lambda>_. ''failed to load config from '' @ path_display (ap_config_path paths)) fst)
       (load_config_and_persist_generated_token (mn_sing_box env) (mn_load env) (ap_config_path paths))"

definition main_run :: "main_env \<Rightarrow> cli \<Rightarrow> main_end result option" where
  "main_run env cli =
     (case resolve_paths (mn_paths env) (cl_config cli) (cl_portable cli) of
        Inl e \<Rightarrow> Some (Inl e)
      | Inr paths \<Rightarrow>
          case cl_command cli of
            Some args \<Rightarrow> run_worker env args
          | None \<Rightarrow>
              if cl_uninstall cli
              then Some (map_sum id UninstallEnds (fst (uninstall (mn_uninstall env) paths (cl_yes cli) (mn_disk env) (mn_host env))))
              else case ensure_config env paths of
                Inl e \<Rightarrow> Some (Inl e)
              | Inr _ \<Rightarrow>
                  (case load_startup env paths of
                     None \<Rightarrow> None
                   | Some (Inl e) \<Rightarrow> Some (Inl e)
                   | Some (Inr config) \<Rightarrow> after_setup env cli paths config))"

subsection \<open>Only checked configurations\<close>

lemma apply_runtime_sing_box_path_keeps [simp]:
  "config_ok (apply_runtime_sing_box_path sb c) = config_ok c"
  by (auto simp: apply_runtime_sing_box_path_def Let_def config_ok_def probe_limits_ok_def split: option.splits)

lemma config_ok_sing_box_path [simp]:
  "config_ok (on_probe c (\<lambda>p. p\<lparr>pc_sing_box_path := path, pc_sing_box_path_auto := auto\<rparr>)) = config_ok c"
  by (simp add: on_probe_def config_ok_def probe_limits_ok_def)

lemma loaded_config_ok:
  assumes "load_config_and_persist_generated_token sb env p = Some (Inr (config, written))"
  shows "config_ok config"
proof -
  have load: "config_ok c" if "load_with_generated_token_flag env n p = Inr (c, flag)" for n c flag
    using that by (auto simp: load_with_generated_token_flag_def Let_def and_then_Inr_iff validate_iff)
  show ?thesis
    using assms
    by (auto simp: load_config_and_persist_generated_token_def and_then_Inr_iff dest!: load
        split: sum.splits prod.splits if_splits)
qed

lemma watched_config_ok:
  "list_all config_ok (fst (watch_config sb p last_modified ts))"
proof (induction ts arbitrary: last_modified)
  case (Cons t ts)
  show ?case
  proof (cases "wk_modified t")
    case (Inr m)
    show ?thesis
    proof (cases "load_config_and_persist_generated_token sb (wk_load t) p")
      case (Some r)
      show ?thesis
      proof (cases r)
        case (Inr loaded)
        obtain config written where "loaded = (config, written)" by fastforce
        with Inr Some have "config_ok config" using loaded_config_ok by blast
        then show ?thesis using Cons \<open>wk_modified t = Inr m\<close> Some Inr \<open>loaded = (config, written)\<close> by (simp add: split_beta)
      qed (use Cons Inr Some in simp)
    qed (use Cons Inr in simp)
  qed (use Cons in simp)
qed simp

lemma setup_keeps_config_ok:
  "setup_loop events su config = Some (Some (ends, config', content)) \<Longrightarrow> config_ok config' = config_ok config"
proof (induction events arbitrary: su)
  case (Cons e events)
  obtain env files key where e: "e = (env, files, key)" by (cases e)
  have "config_ok config'' = config_ok config" if "setup_event env files key su config = Some (Inr (r, config'', c))" for r config'' c
    using that by (auto simp: setup_event_def Let_def split: if_splits key_code.splits sum.splits option.splits)
  then show ?case using Cons e by (fastforce split: option.splits sum.splits)
qed simp

definition runs_sing_box :: "main_env \<Rightarrow> app_config \<Rightarrow> bool" where
  "runs_sing_box env config \<longleftrightarrow>
     pc_mode (ac_probe config) = Tcp
     \<or> (\<exists>sb\<in>insert (mn_sing_box env) (fst ` set (mn_setup env)). verify_path sb (pc_sing_box_path (ac_probe config)) = Inr ())"

lemma map_sum_Inr_iff: "map_sum f g r = Inr x \<longleftrightarrow> (\<exists>y. r = Inr y \<and> x = g y)"
  by (cases r) auto

lemma run_worker_never_serves: "run_worker env args \<noteq> Some (Inr (Serves s h))"
proof (cases "worker_run (mn_worker env) (wa_mode args) (worker_config (mn_sing_box env) (mn_first_run env) args)")
  case (Some a)
  obtain printed r where "a = (printed, r)" by fastforce
  with Some show ?thesis by (cases r) (simp_all add: run_worker_def Let_def)
qed (simp add: run_worker_def Let_def)

lemma run_modes_serves:
  "run_modes env cli paths config = Some (Inr (Serves s h)) \<Longrightarrow>
     lp_config s = config \<and> \<not> cl_once cli \<and> cl_ping cli = [] \<and> cl_ping_file cli = None"
  by (auto simp: run_modes_def start_serving_def refresh_loop_new_def map_sum_Inr_iff split: sum.splits if_splits prod.splits)

lemma after_setup_serves:
  assumes "after_setup env cli paths config = Some (Inr (Serves s h))" and "config_ok config"
  shows "config_ok (lp_config s) \<and> runs_sing_box env (lp_config s) \<and> \<not> cl_once cli \<and> cl_ping cli = [] \<and> cl_ping_file cli = None"
proof (cases "active_probe_needs_setup (mn_sing_box env) config")
  case False
  then have "runs_sing_box env config"
    by (cases "pc_mode (ac_probe config)"; cases "verify_path (mn_sing_box env) (pc_sing_box_path (ac_probe config))")
      (auto simp: runs_sing_box_def active_probe_needs_setup_def)
  then show ?thesis using assms False run_modes_serves[of env cli paths config s h] by (simp add: after_setup_def)
next
  case True
  then obtain config' content where su: "setup_run (mn_setup env) config = Some (Some (SetupDone, config', content))"
    "run_modes env cli paths config' = Some (Inr (Serves s h))"
    using assms(1) by (auto simp: after_setup_def split: if_splits option.splits prod.splits setup_end.splits)
  have "config_ok config'" using setup_keeps_config_ok su(1) assms(2) unfolding setup_run_def by blast
  moreover have "runs_sing_box env config'"
    using setup_loop_verified[of "mn_setup env" _ config config' content] su(1)
    unfolding setup_run_def runs_sing_box_def by (metis fst_conv image_eqI insertI2)
  ultimately show ?thesis using run_modes_serves[OF su(2)] by simp
qed


definition sample_sing_box :: sing_box_env where
  "sample_sing_box =
     \<lparr> sb_paths = \<lparr> pv_platform = Linux, pv_var = (\<lambda>v. if v = ''HOME'' then Some ''/home/u'' else None), pv_current_exe = Inl ''none'' \<rparr>,
       sb_is_file = \<lambda>_. False, sb_version = \<lambda>p. if p = ''sing-box'' then Inr (True, ''exit status: 0'', ''sing-box version 1.13.0'') else Inl ''not found'' \<rparr>"

text \<open>A file that asks for a generated token, as the reader of the example understands it.\<close>

definition sample_load :: load_env where
  "sample_load =
     \<lparr> ld_read = Inr (''sharing:'' @ [CHR 10] @ ''  token: true # mine'' @ [CHR 10]), ld_json = \<lambda>_. Inl ''unused'',
       ld_yaml = \<lambda>_. Inr (app_config_default\<lparr>ac_probe := probe_config_default\<lparr>pc_sing_box_path := ''sing-box''\<rparr>,
         ac_sharing := sharing_config_default\<lparr>sc_token := ''true''\<rparr>\<rparr>),
       ld_document = \<lambda>_. Some (YMapping [(YString ''sharing'', YMapping [(YString ''token'', YBool True)])]),
       ld_generated = \<lambda>n. ''tok'' @ show_nat n, ld_print = \<lambda>_. Inl ''unused'', ld_write = Inr () \<rparr>"

text \<open>The token is generated once and takes the place of the request in the file.\<close>

lemma generated_token_saved:
  "map_option (map_sum id snd) (load_config_and_persist_generated_token sample_sing_box sample_load (path_of ''/d/configs.yaml''))
   = Some (Inr (Some (''sharing:'' @ [CHR 10] @ ''  token: tok0 # mine'' @ [CHR 10])))"
  by code_simp

definition sample_main_env :: main_env where
  "sample_main_env =
     \<lparr> mn_paths = sb_paths sample_sing_box, mn_sing_box = sample_sing_box, mn_first_run = app_config_default, mn_generated = ''tok'',
       mn_worker = sample_worker, mn_uninstall = sample_uninstall_env, mn_disk = sample_disk, mn_host = no_firewall_file,
       mn_config_exists = True, mn_ensure = Inr (), mn_create_parent = Inr (), mn_write_template = Inr (), mn_load = sample_load,
       mn_geoip_exists = False, mn_setup = [], mn_database = Inr empty_database, mn_refresh = sample_refresh,
       mn_ping_file = Inl ''none'', mn_firewall = sample_fw_env \<rparr>"

definition sample_cli :: cli where
  "sample_cli = \<lparr> cl_config = None, cl_portable = False, cl_no_tui = True, cl_verbose = False, cl_once = False, cl_uninstall = False,
     cl_yes = False, cl_ping = [], cl_ping_file = None, cl_command = None \<rparr>"

definition served :: "main_end result option \<Rightarrow> refresh_loop option" where
  "served r = (case r of Some (Inr (Serves s h)) \<Rightarrow> Some s | _ \<Rightarrow> None)"


text \<open>The worker's own configuration is not checked: a zero on its command line stays.\<close>

lemma worker_config_unchecked:
  "config_ok (worker_config sb first_run args) \<longleftrightarrow>
     config_ok (first_run\<lparr>ac_fetch_concurrency := 1, ac_probe := (ac_probe first_run)
       \<lparr>pc_concurrency := 1, pc_process_concurrency := None, pc_active_timeout_ms := 1\<rparr>\<rparr>)
     \<and> 0 < wa_fetch_concurrency args \<and> 0 < wa_probe_concurrency args \<and> 0 < wa_probe_process_concurrency args"
  by (auto simp: worker_config_def apply_runtime_sing_box_path_def Let_def config_ok_def probe_limits_ok_def split: option.splits)

end
