(* ===== verification/OpenConfig.thy ===== *)
theory OpenConfig
  imports Paths
begin

text \<open>
  Opening the configuration in an editor (\<open>src/tui/open_config.rs\<close>): which programs are tried in
  which order on each platform, and what the interface says.  Whether a program can be started, and
  which paths exist, are arguments; the result has the programs tried and the message.
\<close>

type_synonym attempt = "string \<times> string list"

record open_env =
  oe_paths :: path_env
  oe_exists :: "path \<Rightarrow> bool"
  oe_spawn :: "attempt \<Rightarrow> bool"
  oe_runs :: "attempt \<Rightarrow> bool"

definition split_paths :: "platform \<Rightarrow> string \<Rightarrow> path list" where
  "split_paths platform value =
     map path_of (split_char value (\<lambda>c. c = (if platform = Windows then CHR '';'' else CHR '':'')))"

definition command_candidates :: "open_env \<Rightarrow> string \<Rightarrow> string list \<Rightarrow> path list" where
  "command_candidates env command extensions =
     (case pv_var (oe_paths env) ''PATH'' of
        None \<Rightarrow> []
      | Some paths \<Rightarrow> concat (map (\<lambda>p. path_join p [command]
          # map (\<lambda>extension. path_join p [command @ ''.'' @ extension]) extensions)
          (split_paths (pv_platform (oe_paths env)) paths)))"

definition VS_CODE_DIR :: string where "VS_CODE_DIR = ''Microsoft VS Code''"

definition windows_vscode_candidates :: "open_env \<Rightarrow> path list" where
  "windows_vscode_candidates env =
     (let var = pv_var (oe_paths env);
          installed = \<lambda>root. [root @ [VS_CODE_DIR, ''Code.exe''], root @ [VS_CODE_DIR, ''bin'', ''code.cmd'']]
      in command_candidates env ''code'' [''cmd'', ''exe'']
         @ (case var ''LOCALAPPDATA'' of None \<Rightarrow> [] | Some d \<Rightarrow>
              (let root = path_of d @ [''Programs''] in installed root
                 @ [root @ [VS_CODE_DIR @ '' Insiders'', ''Code - Insiders.exe''],
                    root @ [VS_CODE_DIR @ '' Insiders'', ''bin'', ''code-insiders.cmd'']]))
         @ (case var ''ProgramFiles'' of None \<Rightarrow> [] | Some d \<Rightarrow> installed (path_of d))
         @ (case var ''ProgramFiles(x86)'' of None \<Rightarrow> [] | Some d \<Rightarrow> installed (path_of d)))"

text \<open>
  One attempt, and what follows when it fails: the message of the end with all programs tried.
\<close>

type_synonym opened = "attempt list \<times> string"

definition attempt :: "open_env \<Rightarrow> attempt \<Rightarrow> string \<Rightarrow> opened \<Rightarrow> opened" where
  "attempt env a message rest = (if oe_spawn env a then ([a], message) else (a # fst rest, snd rest))"

definition command_available :: "open_env \<Rightarrow> string \<Rightarrow> bool" where
  "command_available env command =
     (if pv_platform (oe_paths env) = Windows
      then list_ex (oe_exists env) (command_candidates env command [''exe'', ''cmd'', ''bat''])
      else oe_runs env (command, [''--version'']))"

definition TERMINALS :: "string list" where
  "TERMINALS = [''x-terminal-emulator'', ''gnome-terminal'', ''konsole'', ''xterm'']"

definition terminal_attempt :: "string \<Rightarrow> path \<Rightarrow> string \<Rightarrow> attempt" where
  "terminal_attempt editor p terminal =
     (terminal, [if terminal = ''gnome-terminal'' then ''--'' else ''-e'', editor, path_display p])"

definition try_spawn_terminal :: "open_env \<Rightarrow> string \<Rightarrow> path \<Rightarrow> string \<Rightarrow> opened \<Rightarrow> opened" where
  "try_spawn_terminal env editor p message rest =
     foldr (\<lambda>terminal. attempt env (terminal_attempt editor p terminal) message) TERMINALS rest"

definition edit_manually :: "path \<Rightarrow> opened" where
  "edit_manually p = ([], ''Edit config manually: '' @ path_display p)"

definition open_linux_editor :: "open_env \<Rightarrow> path \<Rightarrow> opened" where
  "open_linux_editor env p =
     (let xdg = attempt env (''xdg-open'', [path_display p]) ''Opening config with the default editor''
            (case path_parent p of
               Some parent \<Rightarrow> attempt env (''xdg-open'', [path_display parent]) ''Opening config folder'' (edit_manually p)
             | None \<Rightarrow> edit_manually p)
      in if command_available env ''nano'' then try_spawn_terminal env ''nano'' p ''Opening config with nano'' xdg else xdg)"

definition open_macos_editor :: "open_env \<Rightarrow> path \<Rightarrow> opened" where
  "open_macos_editor env p =
     attempt env (''open'', [path_display p]) ''Opening config with the default macOS editor''
       (case path_parent p of
          Some parent \<Rightarrow> attempt env (''open'', [path_display parent]) ''Revealing config folder in Finder'' (edit_manually p)
        | None \<Rightarrow> edit_manually p)"

definition open_windows_editor :: "open_env \<Rightarrow> path \<Rightarrow> opened" where
  "open_windows_editor env p =
     attempt env (''notepad'', [path_display p]) ''Opening config with Notepad''
       (attempt env (''explorer'', [''/select,'' @ path_display p]) ''Revealing config in File Explorer'' (edit_manually p))"

definition VS_CODE_MESSAGE :: string where "VS_CODE_MESSAGE = ''Opening config with VS Code''"

text \<open>Scripts are passed over.\<close>

definition is_script :: "path \<Rightarrow> bool" where
  "is_script p \<longleftrightarrow> (case path_extension p of Some e \<Rightarrow> eq_ignore_ascii_case e ''cmd'' | None \<Rightarrow> False)"

definition open_windows_vscode :: "open_env \<Rightarrow> path \<Rightarrow> opened \<Rightarrow> opened" where
  "open_windows_vscode env p rest =
     foldr (\<lambda>candidate rest.
        if \<not> oe_exists env candidate \<or> is_script candidate then rest
        else attempt env (path_display candidate, [path_display p]) VS_CODE_MESSAGE rest) (windows_vscode_candidates env) rest"

definition open_vscode :: "open_env \<Rightarrow> path \<Rightarrow> opened \<Rightarrow> opened" where
  "open_vscode env p rest =
     (if pv_platform (oe_paths env) = Windows then open_windows_vscode env p rest
      else attempt env (''code'', [path_display p]) VS_CODE_MESSAGE
        (if pv_platform (oe_paths env) = MacOS
         then attempt env (''open'', [''-a'', ''Visual Studio Code'', path_display p]) VS_CODE_MESSAGE rest
         else rest))"

definition open_config :: "open_env \<Rightarrow> path \<Rightarrow> opened" where
  "open_config env p =
     open_vscode env p
       (case pv_platform (oe_paths env) of
          Windows \<Rightarrow> open_windows_editor env p
        | MacOS \<Rightarrow> open_macos_editor env p
        | _ \<Rightarrow> open_linux_editor env p)"

subsection \<open>At most one program\<close>

text \<open>Everything but the last program failed to start; with no program started, the path is shown.\<close>

definition one_started :: "open_env \<Rightarrow> path \<Rightarrow> opened \<Rightarrow> bool" where
  "one_started env p r \<longleftrightarrow>
     list_all (\<lambda>a. \<not> oe_spawn env a) (butlast (fst r))
     \<and> (fst r \<noteq> [] \<and> oe_spawn env (last (fst r)) \<or> snd r = snd (edit_manually p))"

lemma one_started_manually [simp]: "one_started env p (edit_manually p)"
  by (simp add: one_started_def edit_manually_def)

lemma one_started_attempt [simp]: "one_started env p rest \<Longrightarrow> one_started env p (attempt env a message rest)"
  by (cases "fst rest") (auto simp: one_started_def attempt_def)

lemma one_started_foldr:
  assumes "one_started env p rest" and "\<And>x r. one_started env p r \<Longrightarrow> one_started env p (f x r)"
  shows "one_started env p (foldr f xs rest)"
  using assms by (induction xs) auto

lemma open_config_starts_one: "one_started env p (open_config env p)"
proof -
  have terminal: "one_started env p r \<Longrightarrow> one_started env p (try_spawn_terminal env editor p message r)" for editor message r
    by (auto simp: try_spawn_terminal_def intro: one_started_foldr)
  have vscode: "one_started env p r \<Longrightarrow> one_started env p (open_vscode env p r)" for r
    by (auto simp: open_vscode_def open_windows_vscode_def intro!: one_started_foldr)
  show ?thesis
    unfolding open_config_def
    by (rule vscode)
      (auto simp: open_windows_editor_def open_macos_editor_def open_linux_editor_def Let_def terminal
        split: platform.splits option.splits)
qed

text \<open>Without an installed copy of VS Code, a script called \<open>code.cmd\<close> is listed and never tried.\<close>

lemma scripts_never_tried:
  assumes "pv_platform (oe_paths env) = Windows" and "\<not> oe_spawn env (''notepad'', [path_display p])"
    and "\<not> oe_spawn env (''explorer'', [''/select,'' @ path_display p])"
    and "list_all (\<lambda>c. oe_exists env c \<longrightarrow> is_script c) (windows_vscode_candidates env)"
  shows "open_config env p = ([(''notepad'', [path_display p]), (''explorer'', [''/select,'' @ path_display p])],
      snd (edit_manually p))"
proof -
  have "foldr (\<lambda>c rest. if \<not> oe_exists env c \<or> is_script c then rest else f c rest) cs r = r"
    if "list_all (\<lambda>c. oe_exists env c \<longrightarrow> is_script c) cs" for cs f and r :: opened
    using that by (induction cs) auto
  from this[OF assms(4)] show ?thesis
    using assms(1-3)
    by (simp add: open_config_def open_vscode_def open_windows_vscode_def open_windows_editor_def attempt_def edit_manually_def)
qed

end
