(* ===== verification/Terminal.thy ===== *)
theory Terminal
  imports Panels
begin

text \<open>
  The plain terminal output (\<open>src/terminal.rs\<close>): the lines each function prints.  Times of day and
  elapsed seconds are arguments.
\<close>

subsection \<open>Columns\<close>

text \<open>Widths of format strings count characters, not bytes.\<close>

definition right_column :: "nat \<Rightarrow> string \<Rightarrow> string" where
  "right_column width s = replicate (width - length (str_chars s)) (CHR '' '') @ s"

definition truncate_chars :: "string \<Rightarrow> nat \<Rightarrow> string" where
  "truncate_chars value width =
     (let truncated = take width (str_chars value) in
      if width < length (str_chars value) \<and> 1 < width then concat (take (width - 1) truncated) @ ''~''
      else concat truncated)"

definition print_log :: "string \<Rightarrow> string \<Rightarrow> string" where
  "print_log now message = now @ '' '' @ message"

definition latency_text :: "nat option \<Rightarrow> string" where
  "latency_text l = (case l of None \<Rightarrow> ''-'' | Some v \<Rightarrow> show_nat v @ '' ms'')"

definition endpoint_text :: "ranked_config \<Rightarrow> string" where
  "endpoint_text item = ep_host (r_endpoint item) @ '':'' @ show_nat (ep_port (r_endpoint item))"

subsection \<open>The summary of a refresh\<close>

definition summary_row :: "string \<Rightarrow> string \<Rightarrow> string \<Rightarrow> string \<Rightarrow> string \<Rightarrow> string \<Rightarrow> string \<Rightarrow> string" where
  "summary_row rank prio proto name endpoint validation latency =
     join_str '' '' [pad_right 5 rank, pad_right 8 prio, pad_right 10 proto, pad_right 28 name, pad_right 22 endpoint,
       pad_right 12 validation, right_column 10 latency]"

definition print_summary :: "runtime_state \<Rightarrow> nat \<Rightarrow> string list" where
  "print_summary state top_n =
     (''Checked '' @ show_nat (rs_total_candidates state) @ '' configs; '' @ show_nat (rs_reachable_candidates state)
        @ '' reachable; '' @ show_nat (length (rs_fetch_errors state)) @ '' fetch errors.'')
     # map (\<lambda>e. ''fetch error: '' @ e) (rs_fetch_errors state)
     @ summary_row ''rank'' ''prio'' ''proto'' ''name'' ''endpoint'' ''validation'' ''latency''
     # map (\<lambda>item. summary_row (show_nat (r_rank item)) (show_nat (r_priority item)) (truncate_chars (r_protocol item) 10)
           (truncate_chars (r_name item) 28) (truncate_chars (endpoint_text item) 22) (truncate_chars (r_validation item) 12)
           (latency_text (r_latency_ms item)))
         (take top_n (filter r_reachable (rs_ranked state)))"

subsection \<open>The start\<close>

record setting_guide =
  gd_key :: string
  gd_label :: string
  gd_help :: string

definition SETTING_GUIDES :: "setting_guide list" where
  "SETTING_GUIDES =
    [\<lparr>gd_key = ''bind'', gd_label = ''Listen address'',
      gd_help = ''127.0.0.1 stays private. Use the device LAN IP for sharing; 0.0.0.0 listens on all interfaces.''\<rparr>,
     \<lparr>gd_key = ''sharing.enabled'', gd_label = ''LAN sharing'',
      gd_help = ''Shows the subscription on your local network. Keep off on untrusted Wi-Fi.''\<rparr>,
     \<lparr>gd_key = ''sharing.require_token'', gd_label = ''URL token'',
      gd_help = ''Adds ?token=... so casual LAN visitors cannot read the subscription.''\<rparr>,
     \<lparr>gd_key = ''sharing.token'', gd_label = ''Token value'',
      gd_help = ''null disables URL tokens. Set true to generate one, or provide a string.''\<rparr>,
     \<lparr>gd_key = ''encoded_subscription'', gd_label = ''Encoded feed'',
      gd_help = ''Use base64 for v2rayN/v2rayNG. Use .txt for a raw link list.''\<rparr>,
     \<lparr>gd_key = ''prioritize_stability'', gd_label = ''Stable ranking'',
      gd_help = ''true keeps the previous run'' @ [CHR 39] @ ''s top-N at the front (re-pinged first; held even if a new low-ping config appears). false simply prefers any working low-ping config.''\<rparr>,
     \<lparr>gd_key = ''return_configs_asap'', gd_label = ''ASAP results'',
      gd_help = ''true publishes working configs as they are found; early configs may not have the lowest ping or best stability.''\<rparr>,
     \<lparr>gd_key = ''scan_all_configs'', gd_label = ''Full scan'',
      gd_help = ''true checks every loaded config. false stops once enough sing-box-validated configs are found.''\<rparr>,
     \<lparr>gd_key = ''probe.mode'', gd_label = ''Validation mode'',
      gd_help = ''Active uses sing-box for real checks. TCP is diagnostic only.''\<rparr>,
     \<lparr>gd_key = ''probe.sing_box_path'', gd_label = ''sing-box path'',
      gd_help = ''Use sing-box on Linux, Termux, or macOS; use sing-box.exe on Windows.''\<rparr>,
     \<lparr>gd_key = ''clean_offlines_after_days'', gd_label = ''Offline cleanup'',
      gd_help = ''Configs not seen online for this many days are removed from the database.''\<rparr>]"

text \<open>\<open>shared\<close> is what \<open>discoverable_subscription_url\<close> gives for the configuration.\<close>

definition print_startup :: "app_config \<Rightarrow> app_paths \<Rightarrow> bool \<Rightarrow> string option \<Rightarrow> string list" where
  "print_startup config paths verbose shared =
     [''V2RayDAR'', ''Mode: '' @ (if ap_portable paths then ''portable'' else ''installed''),
      ''Data folder: '' @ path_display (ap_root_dir paths), ''Config: '' @ path_display (ap_config_path paths),
      ''Local subscription: '' @ app_subscription_url config LOCALHOST_IP True]
     @ (if sc_enabled (ac_sharing config)
        then [''LAN sharing: enabled ('' @ (if sc_require_token (ac_sharing config) then ''token required'' else ''open on LAN'') @ '')'',
          (case shared of Some url \<Rightarrow> ''LAN subscription: '' @ url
           | None \<Rightarrow> ''LAN URL: use this machine'' @ [CHR 39] @ ''s LAN IP with port '' @ show_nat (sa_port (ac_bind config)))]
        else [''LAN sharing: disabled''])
     @ ''Settings guide:'' # map (\<lambda>guide. ''  '' @ pad_right 22 (gd_label guide) @ '' '' @ gd_help guide) SETTING_GUIDES
     @ (if verbose then [] else [''Use --verbose for detailed fetch/probe trace logs.'']) @ [[]]"

text \<open>\<open>print_sing_box_setup_required\<close> of \<open>main.rs\<close>.\<close>

definition print_sing_box_setup_required :: "platform \<Rightarrow> app_paths \<Rightarrow> string list" where
  "print_sing_box_setup_required platform paths =
     (let guide = setup_guide_of platform in
      [''V2RayDAR active probing requires sing-box before it can refresh.'', ''Config: '' @ path_display (ap_config_path paths),
       ''Detected OS: '' @ sg_platform guide, ''Recommended sing-box version: v'' @ SING_BOX_VERSION,
       ''Download: '' @ sing_box_download_url, ''Choose the release asset: '' @ sg_release_asset guide,
       ''Use the executable named: '' @ sg_executable_name guide,
       ''Embedded desktop builds also work when the executable is beside V2RayDAR.'',
       ''Set probe.sing_box_path to the executable path or a working PATH command.'', ''Examples:'']
      @ map (\<lambda>p. ''  '' @ p) (sg_example_paths guide) @ [''Notes:''] @ map (\<lambda>note. ''  '' @ note) (sg_notes guide)
      @ [''Then run V2RayDAR again.''])"

subsection \<open>Progress\<close>

record plain_progress_reporter =
  pp_tested :: nat
  pp_working :: nat
  pp_next_probe_report :: nat

definition plain_progress_reporter_new :: plain_progress_reporter where
  "plain_progress_reporter_new = \<lparr>pp_tested = 0, pp_working = 0, pp_next_probe_report = 500\<rparr>"

definition PLAIN_PROGRESS :: "string list" where
  "PLAIN_PROGRESS = [''Refresh started'', ''Subscription load:'', ''Loaded subscription'', ''Subscription loading finished'',
     ''Probe skipped'', ''Probe started'', ''Prepared active test'', ''Early publish'', ''Early stop'', ''Active test finished'',
     ''Probe queue finished'', ''sing-box unavailable'', ''sing-box rejected'', ''Active probe batch failed'']"

definition should_print_plain_progress :: "string \<Rightarrow> bool" where
  "should_print_plain_progress message = list_ex (starts_with message) PLAIN_PROGRESS"

definition on_log :: "string \<Rightarrow> string list" where
  "on_log message = (if should_print_plain_progress message then [message] else [])"

text \<open>
  The loop that moves the next report past what was tested.  It cannot pass the largest number:
  \<^term>\<open>None\<close> is a loop that does not end.
\<close>

function next_report :: "nat \<Rightarrow> nat \<Rightarrow> nat option" where
  "next_report tested n =
     (if tested < n then Some n else if usize_max \<le> n then None else next_report tested (sat_add usize_max n 500))"
  by pat_completeness auto
termination
  by (relation "Wellfounded.measure (\<lambda>(tested, n). usize_max - n)") (auto simp: sat_add_def usize_max_def)

declare next_report.simps [simp del]

text \<open>\<open>elapsed\<close> is the time since the last report in seconds.\<close>

definition on_probe_delta ::
  "nat \<Rightarrow> nat \<Rightarrow> nat \<Rightarrow> plain_progress_reporter \<Rightarrow> (string list \<times> plain_progress_reporter) option" where
  "on_probe_delta elapsed tested working s0 =
     (let s = s0\<lparr>pp_tested := sat_add usize_max (pp_tested s0) tested, pp_working := sat_add usize_max (pp_working s0) working\<rparr> in
      if pp_tested s < pp_next_probe_report s \<and> elapsed < 5 then Some ([], s)
      else map_option (\<lambda>n. ([''Probe progress: '' @ show_nat (pp_tested s) @ '' checked, '' @ show_nat (pp_working s) @ '' working.''],
          s\<lparr>pp_next_probe_report := n\<rparr>)) (next_report (pp_tested s) (pp_next_probe_report s)))"

definition on_event ::
  "nat \<Rightarrow> progress_event \<Rightarrow> plain_progress_reporter \<Rightarrow> (string list \<times> plain_progress_reporter) option" where
  "on_event elapsed event s =
     (case event of
        LiveLog message \<Rightarrow> Some (on_log message, s)
      | ProbeDelta tested working \<Rightarrow> on_probe_delta elapsed tested working s
      | RankedSnapshot ranked \<Rightarrow> Some ([''Early results ready: '' @ show_nat (length ranked) @ '' configs published.''], s)
      | WorkingConfigsFound _ _ \<Rightarrow> Some ([], s)
      | FetchedDelta _ \<Rightarrow> Some ([], s))"

subsection \<open>Ping results\<close>

definition ping_row :: "string \<Rightarrow> string \<Rightarrow> string \<Rightarrow> string \<Rightarrow> string \<Rightarrow> string \<Rightarrow> string" where
  "ping_row rank proto name endpoint tcp http =
     join_str '' '' [pad_right 5 rank, pad_right 10 proto, pad_right 28 name, pad_right 22 endpoint,
       right_column 10 tcp, right_column 10 http]"

definition print_ping_results :: "ranked_config list \<Rightarrow> string list" where
  "print_ping_results ranked =
     (if ranked = [] then [''No results. Provide valid config URIs with --ping or --ping-file.'']
      else [''Pinged '' @ show_nat (length ranked) @ '' configs; '' @ show_nat (length (filter r_reachable ranked)) @ '' reachable.'',
          [], ping_row ''rank'' ''proto'' ''name'' ''endpoint'' ''tcp'' ''http'']
        @ map (\<lambda>item. ping_row (show_nat (r_rank item)) (truncate_chars (r_protocol item) 10) (truncate_chars (r_name item) 28)
            (truncate_chars (endpoint_text item) 22) (latency_text (r_latency_ms item))
            (case r_http_status item of None \<Rightarrow> ''-'' | Some s \<Rightarrow> ''HTTP '' @ show_nat s)) ranked)"

subsection \<open>The reporter ends and catches up\<close>

lemma next_report_ends:
  "tested < usize_max \<Longrightarrow> \<exists>m. next_report tested n = Some m \<and> tested < m \<and> n \<le> m"
proof (induction tested n rule: next_report.induct)
  case (1 tested n)
  show ?case
  proof (cases "tested < n \<or> usize_max \<le> n")
    case False
    then obtain m where "next_report tested (sat_add usize_max n 500) = Some m" "tested < m" "sat_add usize_max n 500 \<le> m"
      using 1 by auto
    then show ?thesis using False by (subst next_report.simps) (auto simp: sat_add_def)
  qed (use "1.prems" in \<open>auto simp: next_report.simps[of tested n]\<close>)
qed

text \<open>
  The counters add up, a report is due exactly when the next mark is reached or five seconds are
  over, and afterwards the mark is ahead again.
\<close>

lemma probe_delta_reported:
  assumes "pp_tested s + tested < usize_max" and "pp_working s + working < usize_max"
  shows "\<exists>printed s'. on_probe_delta elapsed tested working s = Some (printed, s')
     \<and> pp_tested s' = pp_tested s + tested \<and> pp_working s' = pp_working s + working \<and> pp_tested s' < pp_next_probe_report s'
     \<and> (printed \<noteq> [] \<longleftrightarrow> pp_next_probe_report s \<le> pp_tested s + tested \<or> 5 \<le> elapsed)"
proof -
  have sums: "sat_add usize_max (pp_tested s) tested = pp_tested s + tested"
    "sat_add usize_max (pp_working s) working = pp_working s + working"
    using assms by (simp_all add: sat_add_def)
  obtain m where "next_report (pp_tested s + tested) (pp_next_probe_report s) = Some m" "pp_tested s + tested < m"
    using next_report_ends[OF assms(1)] by blast
  then show ?thesis using sums by (auto simp: on_probe_delta_def Let_def)
qed

text \<open>A truncated text is never wider than its column.\<close>

lemma truncate_chars_fits: "length (str_chars (truncate_chars value width)) \<le> width"
proof -
  let ?us = "str_chars value"
  have part: "\<forall>u\<in>set (take n ?us). u \<noteq> [] \<and> (\<forall>c\<in>set (tl u). is_cont (byte_of c))" for n
    using str_chars_parts set_take_subset by (metis subsetD)
  have scalar: "\<forall>u\<in>set (tl (take n ?us)). scalar_bytes u" for n
    using str_chars_scalars[of ?us "value"] by (cases ?us; cases n) (auto dest: in_set_takeD)
  have "str_chars (concat (take n ?us @ [''~''])) = take n ?us @ [''~'']" for n
    by (rule str_chars_concat)
      (use part[of n] scalar[of n] in \<open>auto simp: tl_append scalar_bytes_def is_cont_def byte_of_def split: list.splits\<close>)
  moreover have "str_chars (concat (take n ?us)) = take n ?us" for n
    by (rule str_chars_concat[OF part scalar])
  ultimately show ?thesis by (auto simp: truncate_chars_def Let_def)
qed

text \<open>
  Names come from subscriptions and are printed as they are: an escape sequence in a name reaches the
  terminal.
\<close>

lemma escape_sequences_printed:
  "CHR 0x1B \<in> set (last (print_ping_results [(sample_ranked ''k'' True 5)\<lparr>r_name := [CHR 0x1B] @ ''[2J''\<rparr>]))"
  by code_simp

end
