(* ===== verification/Screens.thy ===== *)
theory Screens
  imports TuiLoop
begin

text \<open>
  The rest of what the interface shows: the header's grids (\<open>src/tui/top.rs\<close>) and the screen of the
  first-run setup (\<open>src/tui/setup.rs\<close>), as the texts in their places.
\<close>

subsection \<open>The header\<close>

text \<open>Four boxes, each with two cells.\<close>

definition draw_full_grid :: "(string \<times> string) list \<Rightarrow> (string \<times> string) list list" where
  "draw_full_grid cells = map (\<lambda>row. map (\<lambda>column. cells ! (row * 2 + column)) [0..<2]) [0..<4]"

text \<open>
  Two rows of four cells; the layout solver gives the rows' heights and the columns' widths, and what
  has no room is left out.
\<close>

definition draw_dense_grid :: "nat list \<Rightarrow> nat list \<Rightarrow> (string \<times> string) list \<Rightarrow> string list list" where
  "draw_dense_grid heights widths cells =
     map (\<lambda>(row_index, _). map (\<lambda>(column, _). case (take 4 (drop (row_index * 4) cells)) ! column of (name, v) \<Rightarrow> name @ '': '' @ v)
         (filter (\<lambda>(_, width). width \<noteq> 0) (enumerate 0 widths)))
       (filter (\<lambda>(_, height). height \<noteq> 0) (enumerate 0 heights))"

datatype top_panel =
    NoPanel
  | FullGrid "(string \<times> string) list list"
  | DenseGrid "string list list"
  | MinimalLine string

definition draw_top :: "(nat \<Rightarrow> string) \<Rightarrow> nat list \<Rightarrow> nat list \<Rightarrow> rect \<Rightarrow> runtime_view \<Rightarrow> runtime_config \<Rightarrow> nat \<Rightarrow> nat \<Rightarrow> top_panel" where
  "draw_top bytes_text heights widths area view config started_at now =
     (if rt_height area = 0 \<or> rt_width area = 0 then NoPanel
      else let cells = top_cells bytes_text view config started_at now in
        if 5 \<le> rt_height area then FullGrid (draw_full_grid cells)
        else if 3 \<le> rt_height area then DenseGrid (draw_dense_grid heights widths cells)
        else MinimalLine (minimal_line (rt_width area) cells))"

text \<open>Both grids show all eight cells, in their order.\<close>

lemma top_cells_eight [simp]: "length (top_cells bytes_text view config started_at now) = 8"
  by (simp add: top_cells_def)

lemma full_grid_complete: "length cells = 8 \<Longrightarrow> concat (draw_full_grid cells) = cells"
  by (auto simp: draw_full_grid_def numeral_eq_Suc length_Suc_conv upt_rec)

lemma dense_grid_complete:
  assumes "length cells = 8" and "0 < h1" "0 < h2" and "0 < w1" "0 < w2" "0 < w3" "0 < w4"
  shows "concat (draw_dense_grid [h1, h2] [w1, w2, w3, w4] cells) = map (\<lambda>(name, v). name @ '': '' @ v) cells"
  using assms by (auto simp: draw_dense_grid_def numeral_eq_Suc length_Suc_conv)

lemma header_shows_every_cell:
  "draw_top bytes_text heights widths area view config started_at now = FullGrid grid
   \<Longrightarrow> concat grid = top_cells bytes_text view config started_at now"
  by (auto simp: draw_top_def Let_def full_grid_complete split: if_splits)

subsection \<open>First-run setup\<close>

definition setup_title :: "string list" where
  "setup_title = [''V2RayDAR First Run'', ''Active probing needs a local sing-box executable path.'']"

definition setup_lines :: "platform \<Rightarrow> setup_state \<Rightarrow> app_paths \<Rightarrow> string list" where
  "setup_lines platform su paths =
     (let display_input = (if su_verifying su then su_input su else su_input su @ ''_''); guide = setup_guide_of platform in
      [''Detected OS: '' @ sg_platform guide, ''Recommended sing-box version: v'' @ SING_BOX_VERSION,
       ''Use executable: '' @ sg_executable_name guide, ''Download asset: '' @ sg_release_asset guide,
       ''Download recommended release:'', sing_box_download_url, [], ''Examples:'']
      @ map (\<lambda>p. ''  '' @ p) (sg_example_paths guide) @ [[], ''Notes:''] @ map (\<lambda>note. ''  '' @ note) (sg_notes guide)
      @ [[], ''Config will be saved to:'', path_display (ap_config_path paths), [], ''sing-box path:'', display_input, [], su_status su])"

definition setup_footer :: string where
  "setup_footer = ''Enter verify/save | Esc cancel | Ctrl+C quit''"

end
