(* ===== verification/Availability.thy ===== *)
theory Availability
  imports Outbound
begin

text \<open>
  Whether sing-box can be run (\<open>sing_box_available\<close> of \<open>src/probe.rs\<close>), with the two cells of the process
  that remember the first answer and the first version found.  Running the executable is an argument:
  its success and what it prints.
\<close>

record sing_box_cells =
  bc_available :: "string option option"
  bc_version :: "(nat \<times> nat \<times> nat) option option"

definition no_cells :: sing_box_cells where
  "no_cells = \<lparr>bc_available = None, bc_version = None\<rparr>"

text \<open>\<open>OnceLock::set\<close>: a cell is written once.\<close>

definition set_cell :: "'a option \<Rightarrow> 'a \<Rightarrow> 'a option" where
  "set_cell cell v = (case cell of None \<Rightarrow> Some v | Some w \<Rightarrow> Some w)"

definition sing_box_available ::
  "(string \<Rightarrow> (bool \<times> string) option) \<Rightarrow> string \<Rightarrow> sing_box_cells \<Rightarrow> bool \<times> sing_box_cells" where
  "sing_box_available run path cells =
     (case bc_available cells of
        Some cached \<Rightarrow> (cached = Some path, cells)
      | None \<Rightarrow>
          let output = run path;
              available = (case output of Some (success, _) \<Rightarrow> success | None \<Rightarrow> False);
              cells = (case Option.bind output (\<lambda>(_, stdout). parse_sing_box_version stdout) of
                 Some version \<Rightarrow> cells\<lparr>bc_version := set_cell (bc_version cells) (Some version)\<rparr>
               | None \<Rightarrow> cells)
          in (available, cells\<lparr>bc_available := set_cell (bc_available cells) (if available then Some path else None)\<rparr>))"

text \<open>A sequence of checks, as the refreshes make them, each with the executables of its time.\<close>

fun checks ::
  "((string \<Rightarrow> (bool \<times> string) option) \<times> string) list \<Rightarrow> sing_box_cells \<Rightarrow> bool list" where
  "checks [] cells = []"
| "checks ((run, path) # rest) cells =
     (case sing_box_available run path cells of (available, cells) \<Rightarrow> available # checks rest cells)"

text \<open>
  Only the first check looks.  Every later answer compares the path with the first one: an executable
  that was missing at first is never found, one that was removed is still there, and another path is
  refused although it works.
\<close>

lemma later_checks:
  "bc_available cells = Some cached \<Longrightarrow> checks asked cells = map (\<lambda>(_, path). cached = Some path) asked"
  by (induction asked) (auto simp: sing_box_available_def)

lemma only_the_first_check_looks:
  "checks ((run, path) # asked) no_cells =
     (case run path of Some (True, _) \<Rightarrow> True # map (\<lambda>(_, p). p = path) asked
      | _ \<Rightarrow> False # map (\<lambda>_. False) asked)"
proof -
  define ok where "ok = (case run path of Some (success, _) \<Rightarrow> success | None \<Rightarrow> False)"
  obtain cells where one: "sing_box_available run path no_cells = (ok, cells)" "bc_available cells = Some (if ok then Some path else None)"
    by (simp add: sing_box_available_def no_cells_def ok_def Let_def set_cell_def split: option.splits)
  have "checks ((run, path) # asked) no_cells = ok # map (\<lambda>(_, p). (if ok then Some path else None) = Some p) asked"
    using one later_checks by simp
  also have "\<dots> = ok # map (\<lambda>(_, p). ok \<and> p = path) asked" by auto
  finally show ?thesis by (auto simp: ok_def split: option.splits bool.splits)
qed

end
