(* ===== verification/Spec2Isabelle.thy ===== *)
theory Spec2Isabelle
  imports Runtime RefreshLoop Worker YamlEdit SingBox ConfigEditor Startup OpenConfig Terminal Screens Availability
begin

text \<open>
  V2RayDAR (\<open>src/V2RayDAR-main\<close>) collects V2Ray share links from subscriptions, tests them through
  sing-box processes, and serves the best ones over HTTP and through a local proxy.  This library
  models the crate in functions and step relations on explicit states, and proves what its parts
  promise.  Paths below are relative to \<open>src/V2RayDAR-main/src\<close>.

  \<^bold>\<open>How the parts interact.\<close>  \<open>main.rs\<close> loads the configuration (Config, Paths, SingBox, Startup) and
  starts a refresh loop (RefreshLoop).  One refresh (Refresh) fetches the sources (Subscription), reads
  each document (Documents, on Parser, Html, Clash and Xray), tests the candidates (Whole, Scan, Batch,
  EarlyStop, Scheduler, Outbound), falls back to a retry through a working link and to the database
  (Db), and publishes the ranked results (Ranking, Runtime).  What is published is served (Server) and
  shown (Panels), and the persistent proxy (Proxy, ProxyLoop) runs the best of it.  The terminal
  interface (Tui, TuiLoop) edits the configuration (ConfigEditor), saves it (YamlEdit), and opens and
  closes firewall ports (Firewall); the watcher (Startup) sends a changed file to the refresh loop.  A
  worker (Worker) does one job for a panel in another process.  Uninstall removes what is left.

  \<^bold>\<open>Foundations.\<close>
  \<^item> Prelude: Rust's comparisons, the stable \<open>sort_by\<close> with the contract of its comparison (locale
    \<open>comparator\<close>, interpreted on every comparison the program sorts by), saturating arithmetic,
    keep-first deduplication, the contract of a step relation and its reachable states (locale
    \<open>transition_system\<close>, interpreted on the health loop and the refresh loop).  Strings: \<open>str\<close> methods on UTF-8 bytes.  Btree: the
    sorted maps (locale \<open>ordered_map\<close>, interpreted on \<open>BTreeMap\<close> and on YAML mappings).  Json and Yaml:
    the values of \<open>serde_json\<close> and \<open>serde_yaml\<close> and their readers.
  \<^item> Model (\<open>model.rs\<close>, \<open>constants.rs\<close>): \<open>Endpoint\<close>, \<open>Candidate\<close>, \<open>RankedConfig\<close>, \<open>RuntimeState\<close>,
    \<open>RuntimeConfig\<close>, \<open>ProgressEvent\<close>, \<open>ProbeStopPolicy\<close> as records and datatypes.

  \<^bold>\<open>Links and subscriptions.\<close>
  \<^item> Links, Outbound (\<open>convert.rs\<close>, \<open>probe.rs\<close>): decoding helpers, \<open>sing_box_outbound_from_share_link\<close> and
    the batch configuration.  Every outbound built is one sing-box accepts; the batch configuration
    routes each local port to its own outbound.
  \<^item> Parser, Html, Clash, Xray, Documents, Subscription (\<open>parser/\<close>, \<open>convert.rs\<close>, \<open>clash.rs\<close>,
    \<open>subscription.rs\<close>): reading links agrees with a declarative specification, the candidates of a
    document have different links that parse back to themselves, Shadowsocks survives the way to Clash
    and back, and the order in which fetches finish does not matter.

  \<^bold>\<open>Probing and ranking\<close> (\<open>probe.rs\<close>, \<open>main.rs\<close>).
  \<^item> Scheduler: the fair round robin is a permutation, its first round takes one candidate per source.
    EarlyStop: when a scan stops, and the bounds of the adaptive sizes.  Batch: preparation and the
    split-and-retry loop account for every candidate.  Scan, Whole: waves of batches, the TCP
    pre-filter, speed tests; a scan ends and gives a result per candidate unless it is disturbed.
  \<^item> Ranking, Runtime, Db: the orders, \<open>RuntimeState\<close>'s handlers, and both tables, with storing proved to
    refine an abstract map from keys to results (locale \<open>refined_store\<close>, interpreted on the table).
    Availability: the cells that remember the first check of sing-box.

  \<^bold>\<open>Running.\<close>
  \<^item> Refresh, RefreshLoop (\<open>refresh_once\<close>, \<open>spawn_refresh_loop\<close>): what is published is consistent; the
    loop's invariant over every interleaving with the configuration channel and the health loop.
  \<^item> Proxy, ProxyLoop (\<open>proxy.rs\<close>): a proxy that reports itself running has its process; failover after
    the fourth failed check.  Worker (\<open>worker.rs\<close>): one well-formed answer per job.
  \<^item> Server, Network (\<open>server.rs\<close>, \<open>network.rs\<close>): strangers need the token, subscriptions are answered
    after a bounded wait, and at most one reachable address is shown.
  \<^item> Config, Paths, SingBox, Startup, Uninstall (\<open>config.rs\<close>, \<open>paths.rs\<close>, \<open>sing_box.rs\<close>, \<open>main.rs\<close>):
    validation, where files live, what a start does, which configurations the watcher forwards, and
    that uninstalling removes the program's own files only.

  \<^bold>\<open>The interface\<close> (\<open>tui.rs\<close>, \<open>tui/\<close>).
  \<^item> ConfigEditor, YamlEdit, Firewall: every setting's text and its way back; a save changes the lines of
    changed settings only; only rules the program opened are closed.
  \<^item> Tui, TuiLoop: the whole state of the menus with every key, click and paste; type safety in every
    reachable state, no destruction without an explicit request, and how a failing save ends it.
  \<^item> Panels, Screens, Geoip (\<open>geoip.rs\<close>): what is drawn, as tables of texts with the rows the mouse can
    hit, and the country flags.  OpenConfig (\<open>tui/open_config.rs\<close>): which editors are tried.  Terminal
    (\<open>terminal.rs\<close>): the lines of the plain output.

  \<^bold>\<open>How the code is rendered.\<close>  A struct is a record, an enumeration a datatype, \<open>Result\<close> a sum with the
  error's text on the left, \<open>Option\<close> an option.  Strings are lists of bytes.  Unsigned integers are
  naturals with their bounds written where the code can reach them (\<open>usize_max\<close>, saturation, \<open>as\<close> casts);
  32-bit addresses and masks are words.  A panic, or a call that does not return, is \<open>None\<close>.  What comes
  from outside (sockets, processes, clocks, files, the crates for base64, URLs, JSON, YAML, SQLite,
  MaxMind, ratatui) is a field of an environment record that the definitions take as an argument, so
  every theorem holds whatever it answers; the hypotheses that restrict it are named predicates, and each
  is shown to be satisfiable by a witness.  Concurrent tasks are step relations or explicit schedules.

  \<^bold>\<open>Bounds and fuel.\<close>  Loops recurse on their data, or on a measure proved to decrease.  Fuel appears
  where the code has a bound of its own: 64 events per frame, 40 symbolic links on Linux, the
  milliseconds a subscription waits.  The batches' retry loop and a scan are shown to end.

  \<^bold>\<open>Not modelled.\<close>  The crates the program calls (HTTP client and server, TLS, SQLite, the layout
  solver and widgets of ratatui, the command-line parser) and the processes it starts, log messages of
  \<open>tracing\<close>, tests, and the Python panel in \<open>src/v2raysub\<close>, a separate program.  Speeds are compared,
  never computed: the arithmetic on floating-point numbers behind them is an argument.
\<close>

end
